(* ===== verification/Prelude.thy ===== *)
theory Prelude
  imports Main "HOL-Library.Word"
begin

text \<open>
  Shared vocabulary of the development: the Go machine types, the outcome of a Go call
  (a result, an error value, or a run-time panic), checked slice and index expressions,
  big- and little-endian integers, decimal and hexadecimal printing, and the generic lemmas
  the component theories rewrite with.
\<close>

section \<open>Machine types\<close>

type_synonym byte = "8 word"
type_synonym bytes = "8 word list"
type_synonym uint8 = "8 word"
type_synonym uint16 = "16 word"
type_synonym uint32 = "32 word"
type_synonym uint64 = "64 word"

text \<open>
  A \<^verbatim>\<open>time.Time\<close> is the number of nanoseconds since Go's zero time, so \<^verbatim>\<open>IsZero\<close> is a
  comparison with 0; a \<^verbatim>\<open>time.Duration\<close> is a signed 64-bit number of nanoseconds, an
  integer here, with the wrap-around written out where the code computes with it.
\<close>

type_synonym gotime = int
type_synonym duration = int

definition MaxUint16 :: int where
  "MaxUint16 = 65535"

definition wrap_int64 :: "int \<Rightarrow> int" where
  "wrap_int64 x = (x + 2 ^ 63) mod 2 ^ 64 - 2 ^ 63"

named_theorems go_consts

lemma MaxUint16_val [go_consts]: "MaxUint16 = 65535"
  by (simp add: MaxUint16_def)

lemma wrap_int64_id: "- (2 ^ 63) \<le> x \<Longrightarrow> x < 2 ^ 63 \<Longrightarrow> wrap_int64 x = x"
  by (simp add: wrap_int64_def)

section \<open>Outcomes of a Go call\<close>

text \<open>
  \<open>Ret x\<close> is a call that returns \<open>x\<close> with a nil error, \<open>Err e\<close> one that returns the
  non-nil error \<open>e\<close>, and \<open>Panic\<close> one that stops with a run-time panic (an index or a
  slice expression out of range).
\<close>

datatype ('e, 'a) outcome = Ret 'a | Err 'e | Panic

primrec obind :: "('e, 'a) outcome \<Rightarrow> ('a \<Rightarrow> ('e, 'b) outcome) \<Rightarrow> ('e, 'b) outcome" where
  "obind (Ret x) f = f x"
| "obind (Err e) f = Err e"
| "obind Panic f = Panic"

primrec omap_err :: "('e \<Rightarrow> 'f) \<Rightarrow> ('e, 'a) outcome \<Rightarrow> ('f, 'a) outcome" where
  "omap_err g (Ret x) = Ret x"
| "omap_err g (Err e) = Err (g e)"
| "omap_err g Panic = Panic"

definition oguard :: "bool \<Rightarrow> 'e \<Rightarrow> ('e, unit) outcome" where
  "oguard bad e = (if bad then Err e else Ret ())"

lemma obind_Ret_iff: "obind m f = Ret y \<longleftrightarrow> (\<exists>x. m = Ret x \<and> f x = Ret y)"
  by (cases m) auto

lemma obind_RetE [elim!]:
  assumes "obind m f = Ret y"
  obtains x where "m = Ret x" and "f x = Ret y"
  using assms by (auto simp: obind_Ret_iff)

lemma obind_Err_iff: "obind m f = Err e \<longleftrightarrow> m = Err e \<or> (\<exists>x. m = Ret x \<and> f x = Err e)"
  by (cases m) auto

lemma obind_Panic_iff: "obind m f = Panic \<longleftrightarrow> m = Panic \<or> (\<exists>x. m = Ret x \<and> f x = Panic)"
  by (cases m) auto

lemma obind_no_panic:
  "m \<noteq> Panic \<Longrightarrow> (\<And>x. m = Ret x \<Longrightarrow> f x \<noteq> Panic) \<Longrightarrow> obind m f \<noteq> Panic"
  by (cases m) auto

lemma obind_cong [fundef_cong]:
  "m = n \<Longrightarrow> (\<And>x. n = Ret x \<Longrightarrow> f x = g x) \<Longrightarrow> obind m f = obind n g"
  by (cases n) auto

lemma obind_assoc: "obind (obind m f) g = obind m (\<lambda>x. obind (f x) g)"
  by (cases m) auto

lemma omap_err_Ret_iff [simp]: "omap_err g m = Ret x \<longleftrightarrow> m = Ret x"
  by (cases m) auto

lemma omap_err_Panic_iff [simp]: "omap_err g m = Panic \<longleftrightarrow> m = Panic"
  by (cases m) auto

lemma oguard_Ret_iff [simp]: "oguard b e = Ret x \<longleftrightarrow> \<not> b"
  by (auto simp: oguard_def)

lemma oguard_not_Panic [simp]: "oguard b e \<noteq> Panic"
  by (auto simp: oguard_def)

lemma oguard_True [simp]: "oguard True e = Err e"
  and oguard_False [simp]: "oguard False e = Ret ()"
  by (auto simp: oguard_def)

text \<open>
  A method on a state \<open>s\<close> returns the new state with its outcome. \<open>or_return r s k\<close> is the Go
  idiom \<^verbatim>\<open>if err := check(); err != nil { return err }\<close>: the error leaves with the state \<open>s\<close>.
\<close>

definition or_return :: "('e, 'b) outcome \<Rightarrow> 's \<Rightarrow> ('b \<Rightarrow> 's \<times> ('e, 'a) outcome) \<Rightarrow> 's \<times> ('e, 'a) outcome" where
  "or_return r s k = (case r of Ret x \<Rightarrow> k x | Err e \<Rightarrow> (s, Err e) | Panic \<Rightarrow> (s, Panic))"

lemma or_return_simps [simp]:
  "or_return (Ret x) s k = k x" "or_return (Err e) s k = (s, Err e)" "or_return Panic s k = (s, Panic)"
  by (simp_all add: or_return_def)

lemma or_return_Ret_iff: "or_return r s k = (s', Ret y) \<longleftrightarrow> (\<exists>x. r = Ret x \<and> k x = (s', Ret y))"
  by (cases r) auto

lemma or_return_split:
  "P (or_return r s k) \<longleftrightarrow>
     (\<forall>x. r = Ret x \<longrightarrow> P (k x)) \<and> (\<forall>e. r = Err e \<longrightarrow> P (s, Err e)) \<and> (r = Panic \<longrightarrow> P (s, Panic))"
  by (cases r) auto

section \<open>Slices and indices\<close>

text \<open>The Go expressions \<^verbatim>\<open>s[i:j]\<close>, \<^verbatim>\<open>s[i:]\<close> and \<^verbatim>\<open>s[i]\<close> on a slice whose capacity is not used.\<close>

definition slice :: "'a list \<Rightarrow> nat \<Rightarrow> nat \<Rightarrow> ('e, 'a list) outcome" where
  "slice xs i j = (if i \<le> j \<and> j \<le> length xs then Ret (take (j - i) (drop i xs)) else Panic)"

definition slice_from :: "'a list \<Rightarrow> nat \<Rightarrow> ('e, 'a list) outcome" where
  "slice_from xs i = slice xs i (length xs)"

definition index :: "'a list \<Rightarrow> nat \<Rightarrow> ('e, 'a) outcome" where
  "index xs i = (if i < length xs then Ret (xs ! i) else Panic)"

lemma slice_ok [simp]: "i \<le> j \<Longrightarrow> j \<le> length xs \<Longrightarrow> slice xs i j = Ret (take (j - i) (drop i xs))"
  by (simp add: slice_def)

lemma slice_from_ok [simp]: "i \<le> length xs \<Longrightarrow> slice_from xs i = Ret (drop i xs)"
  by (simp add: slice_from_def)

lemma index_ok [simp]: "i < length xs \<Longrightarrow> index xs i = Ret (xs ! i)"
  by (simp add: index_def)

lemma slice_no_panic [simp]: "slice xs i j = Panic \<longleftrightarrow> \<not> (i \<le> j \<and> j \<le> length xs)"
  by (simp add: slice_def)

lemma index_no_panic [simp]: "index xs i = Panic \<longleftrightarrow> \<not> i < length xs"
  by (simp add: index_def)

lemma slice_Ret_iff: "slice xs i j = Ret ys \<longleftrightarrow> i \<le> j \<and> j \<le> length xs \<and> ys = take (j - i) (drop i xs)"
  by (auto simp: slice_def)

lemma index_Ret_iff: "index xs i = Ret y \<longleftrightarrow> i < length xs \<and> y = xs ! i"
  by (auto simp: index_def)

section \<open>Big-endian integers\<close>

text \<open>
  \<open>be_enc n v\<close> is the \<open>n\<close>-byte big-endian form of \<open>v\<close>, \<open>be_val\<close> reads one back.
  The encoding/binary functions of the code are these two at a width: \<^verbatim>\<open>PutUint16\<close> writes
  \<open>be16\<close>, and \<^verbatim>\<open>Uint16\<close>, which panics on a slice that is too short, is \<open>Uint16\<close> below.
\<close>

fun be_enc :: "nat \<Rightarrow> nat \<Rightarrow> bytes" where
  "be_enc 0 v = []"
| "be_enc (Suc n) v = be_enc n (v div 256) @ [word_of_nat v]"

fun be_val :: "bytes \<Rightarrow> nat" where
  "be_val [] = 0"
| "be_val (b # bs) = unat b * 256 ^ length bs + be_val bs"

definition be16 :: "uint16 \<Rightarrow> bytes" where
  "be16 w = be_enc 2 (unat w)"

definition be32 :: "uint32 \<Rightarrow> bytes" where
  "be32 w = be_enc 4 (unat w)"

definition be64 :: "uint64 \<Rightarrow> bytes" where
  "be64 w = be_enc 8 (unat w)"

definition Uint16 :: "bytes \<Rightarrow> ('e, uint16) outcome" where
  "Uint16 b = (if length b < 2 then Panic else Ret (word_of_nat (be_val (take 2 b))))"

definition Uint32 :: "bytes \<Rightarrow> ('e, uint32) outcome" where
  "Uint32 b = (if length b < 4 then Panic else Ret (word_of_nat (be_val (take 4 b))))"

definition Uint64 :: "bytes \<Rightarrow> ('e, uint64) outcome" where
  "Uint64 b = (if length b < 8 then Panic else Ret (word_of_nat (be_val (take 8 b))))"

lemma unat_less_pow: "unat (w :: 'a :: len word) < 2 ^ LENGTH('a)"
  by (rule unsigned_less)

lemma length_be_enc [simp]: "length (be_enc n v) = n"
  by (induction n arbitrary: v) auto

lemma be_val_snoc: "be_val (bs @ [b]) = be_val bs * 256 + unat b"
  by (induction bs) (auto simp: algebra_simps)

lemma be_val_bound: "be_val bs < 256 ^ length bs"
proof (induction bs rule: rev_induct)
  case Nil
  then show ?case by simp
next
  case (snoc b bs)
  have "unat b < 256" using unat_less_pow [of b] by simp
  with snoc show ?case by (simp add: be_val_snoc)
qed

lemma be_val_enc: "be_val (be_enc n v) = v mod 256 ^ n"
proof (induction n arbitrary: v)
  case 0
  then show ?case by simp
next
  case (Suc n)
  have "unat (word_of_nat v :: byte) = v mod 256" by (simp add: unat_of_nat)
  with Suc show ?case
    by (simp add: be_val_snoc mod_mult2_eq mult.commute)
qed

lemma be_enc_val: "n = length bs \<Longrightarrow> be_enc n (be_val bs) = bs"
proof (induction bs arbitrary: n rule: rev_induct)
  case Nil
  then show ?case by simp
next
  case (snoc b bs)
  have "unat b < 256" using unat_less_pow [of b] by simp
  then have "(be_val bs * 256 + unat b) div 256 = be_val bs" by simp
  moreover have "(word_of_nat (be_val bs * 256 + unat b) :: byte) = b"
  proof (rule word_unat_eq_iff [THEN iffD2])
    show "unat (word_of_nat (be_val bs * 256 + unat b) :: byte) = unat b"
      using \<open>unat b < 256\<close> by (simp only: unat_of_nat) simp
  qed
  ultimately show ?case using snoc by (simp add: be_val_snoc)
qed

lemma length_be16 [simp]: "length (be16 w) = 2"
  by (simp add: be16_def)

lemma length_be32 [simp]: "length (be32 w) = 4"
  by (simp add: be32_def)

lemma length_be64 [simp]: "length (be64 w) = 8"
  by (simp add: be64_def)

lemma unat_word_mod: "unat (w :: 'a :: len word) mod 2 ^ LENGTH('a) = unat w"
  using unat_less_pow [of w] by simp

lemma be_val_be16 [simp]: "be_val (be16 w) = unat w"
  using unat_less_pow [of w] by (simp add: be16_def be_val_enc)

lemma be_val_be32 [simp]: "be_val (be32 w) = unat w"
  using unat_less_pow [of w] by (simp add: be32_def be_val_enc)

lemma be_val_be64 [simp]: "be_val (be64 w) = unat w"
  using unat_less_pow [of w] by (simp add: be64_def be_val_enc)

lemma Uint16_be16 [simp]: "Uint16 (be16 w @ r) = Ret w"
  by (simp add: Uint16_def)

lemma Uint16_be16' [simp]: "Uint16 (be16 w) = Ret w"
  using Uint16_be16 [of w "[]"] by simp

lemma Uint32_be32 [simp]: "Uint32 (be32 w) = Ret w"
  by (simp add: Uint32_def)

lemma Uint64_be64 [simp]: "Uint64 (be64 w @ r) = Ret w"
  by (simp add: Uint64_def)

lemma Uint64_be64' [simp]: "Uint64 (be64 w) = Ret w"
  using Uint64_be64 [of w "[]"] by simp

lemma be16_val: "length bs = 2 \<Longrightarrow> be16 (word_of_nat (be_val bs)) = bs"
  using be_val_bound [of bs] by (simp add: be16_def unat_of_nat be_enc_val)

lemma be32_val: "length bs = 4 \<Longrightarrow> be32 (word_of_nat (be_val bs)) = bs"
  using be_val_bound [of bs] by (simp add: be32_def unat_of_nat be_enc_val)

lemma be64_val: "length bs = 8 \<Longrightarrow> be64 (word_of_nat (be_val bs)) = bs"
  using be_val_bound [of bs] by (simp add: be64_def unat_of_nat be_enc_val)

lemma Uint16_Ret_iff: "Uint16 b = Ret w \<longleftrightarrow> 2 \<le> length b \<and> w = word_of_nat (be_val (take 2 b))"
  by (auto simp: Uint16_def)

lemma Uint32_Ret_iff: "Uint32 b = Ret w \<longleftrightarrow> 4 \<le> length b \<and> w = word_of_nat (be_val (take 4 b))"
  by (auto simp: Uint32_def)

lemma Uint64_Ret_iff: "Uint64 b = Ret w \<longleftrightarrow> 8 \<le> length b \<and> w = word_of_nat (be_val (take 8 b))"
  by (auto simp: Uint64_def)

lemma Uint16_ok: "2 \<le> length b \<Longrightarrow> Uint16 b = Ret (word_of_nat (be_val (take 2 b)))"
  and Uint32_ok: "4 \<le> length b \<Longrightarrow> Uint32 b = Ret (word_of_nat (be_val (take 4 b)))"
  and Uint64_ok: "8 \<le> length b \<Longrightarrow> Uint64 b = Ret (word_of_nat (be_val (take 8 b)))"
  by (simp_all add: Uint16_def Uint32_def Uint64_def)

lemma be16_Uint16: "length b = 2 \<Longrightarrow> Uint16 b = Ret w \<Longrightarrow> be16 w = b"
  by (simp add: Uint16_Ret_iff be16_val)

lemma be32_Uint32: "length b = 4 \<Longrightarrow> Uint32 b = Ret w \<Longrightarrow> be32 w = b"
  by (simp add: Uint32_Ret_iff be32_val)

lemma be64_Uint64: "length b = 8 \<Longrightarrow> Uint64 b = Ret w \<Longrightarrow> be64 w = b"
  by (simp add: Uint64_Ret_iff be64_val)

lemma Uint16_no_panic [simp]: "Uint16 b = Panic \<longleftrightarrow> length b < 2"
  and Uint32_no_panic [simp]: "Uint32 b = Panic \<longleftrightarrow> length b < 4"
  and Uint64_no_panic [simp]: "Uint64 b = Panic \<longleftrightarrow> length b < 8"
  by (simp_all add: Uint16_def Uint32_def Uint64_def)

lemma unat_uint16_bound: "unat (w :: uint16) < 65536"
  using unat_less_pow [of w] by simp

lemma unat_word_of_nat16: "n < 65536 \<Longrightarrow> unat (word_of_nat n :: uint16) = n"
  by (simp add: unat_of_nat)

lemma unat_succ_less:
  assumes "(w :: 'a :: len word) < v"
  shows "unat (w + 1) = unat w + 1"
proof -
  have "unat w + 1 < 2 ^ LENGTH('a)"
    using assms unat_less_pow [of v] unfolding word_less_nat_alt by linarith
  then show ?thesis by (simp add: unat_word_ariths)
qed

section \<open>Printing numbers\<close>

text \<open>
  \<^verbatim>\<open>strconv.Itoa\<close>, \<^verbatim>\<open>%d\<close> and \<^verbatim>\<open>%02x\<close>, as the error texts and the rule identifiers use them.
\<close>

definition digit_char :: "nat \<Rightarrow> char" where
  "digit_char d = char_of (if d < 10 then 48 + d else 87 + d)"

fun show_nat :: "nat \<Rightarrow> string" where
  "show_nat n = (if n < 10 then [digit_char n] else show_nat (n div 10) @ [digit_char (n mod 10)])"

declare show_nat.simps [simp del]

definition show_int :: "int \<Rightarrow> string" where
  "show_int i = (if i < 0 then ''-'' @ show_nat (nat (- i)) else show_nat (nat i))"

definition hex2 :: "byte \<Rightarrow> string" where
  "hex2 b = ''0x'' @ [digit_char (unat b div 16), digit_char (unat b mod 16)]"

section \<open>Lists\<close>

lemma take_drop_split: "i \<le> j \<Longrightarrow> take (j - i) (drop i xs) @ drop j xs = drop i xs"
  by (metis append_take_drop_id drop_drop le_add_diff_inverse2)

lemma drop_ConsD: "drop n xs = y # ys \<Longrightarrow> n < length xs \<and> xs ! n = y \<and> drop (Suc n) xs = ys"
  by (metis Cons_nth_drop_Suc drop_all list.inject list.simps(3) not_less)

lemma drop_appendD:
  assumes "drop n xs = ys @ zs" and "n \<le> length xs"
  shows "n + length ys \<le> length xs \<and> take (length ys) (drop n xs) = ys
    \<and> drop (n + length ys) xs = zs"
proof -
  have "length xs = n + length ys + length zs"
    using arg_cong [OF assms(1), of length] assms(2) by simp
  moreover have "drop (n + length ys) xs = drop (length ys) (drop n xs)" by (simp add: add.commute)
  ultimately show ?thesis using assms(1) by simp
qed

lemma append_eq_take_drop: "length xs = n \<Longrightarrow> take n (xs @ ys) = xs \<and> drop n (xs @ ys) = ys"
  by simp

end
