(* ===== verification/Codec_Base.thy ===== *)
theory Codec_Base
  imports Prelude
begin

text \<open>
  \<^verbatim>\<open>internal/codec/errors.go\<close> and the constants of the wire format: the sentinel errors, the
  \<^verbatim>\<open>DecodeError\<close> that carries one with a byte offset, a field name and a detail text, and
  its rendering. \<open>codec_kind\<close> has one constructor per sentinel; \<^verbatim>\<open>errors.Is(err, ErrX)\<close> is a
  comparison of the \<open>Kind\<close> field.
\<close>

datatype codec_kind =
    ErrTruncated | ErrLength | ErrLimit | ErrTrailingData | ErrVersion | ErrKind | ErrFlags
  | ErrReserved | ErrCID | ErrPacketNumber | ErrTLVOrder | ErrDuplicateTLV
  | ErrUnknownCriticalTLV | ErrTLVLength | ErrTLVContext | ErrMissingTLV
  | ErrUnknownFrameType | ErrFrameFlags | ErrFrameConstraint | ErrIPPacket | ErrUTF8

fun codec_kind_text :: "codec_kind \<Rightarrow> string" where
  "codec_kind_text ErrTruncated = ''codec: truncated input''"
| "codec_kind_text ErrLength = ''codec: invalid length''"
| "codec_kind_text ErrLimit = ''codec: configured limit exceeded''"
| "codec_kind_text ErrTrailingData = ''codec: trailing data''"
| "codec_kind_text ErrVersion = ''codec: unsupported version''"
| "codec_kind_text ErrKind = ''codec: unknown packet kind''"
| "codec_kind_text ErrFlags = ''codec: non-zero flags''"
| "codec_kind_text ErrReserved = ''codec: non-zero reserved field''"
| "codec_kind_text ErrCID = ''codec: invalid connection identifier''"
| "codec_kind_text ErrPacketNumber = ''codec: invalid packet number''"
| "codec_kind_text ErrTLVOrder = ''codec: TLV fields are not canonical''"
| "codec_kind_text ErrDuplicateTLV = ''codec: duplicate TLV field''"
| "codec_kind_text ErrUnknownCriticalTLV = ''codec: unknown critical TLV field''"
| "codec_kind_text ErrTLVLength = ''codec: invalid TLV field length''"
| "codec_kind_text ErrTLVContext = ''codec: TLV field is invalid in this context''"
| "codec_kind_text ErrMissingTLV = ''codec: required TLV field is missing''"
| "codec_kind_text ErrUnknownFrameType = ''codec: unknown frame type''"
| "codec_kind_text ErrFrameFlags = ''codec: non-zero frame flags''"
| "codec_kind_text ErrFrameConstraint = ''codec: invalid frame combination''"
| "codec_kind_text ErrIPPacket = ''codec: invalid inner IP packet''"
| "codec_kind_text ErrUTF8 = ''codec: invalid UTF-8''"

record DecodeError =
  Kind :: codec_kind
  Offset :: int
  Field :: string
  Detail :: string

definition DecodeError_Error :: "DecodeError \<Rightarrow> string" where
  "DecodeError_Error e =
     codec_kind_text (Kind e)
     @ (if Field e \<noteq> '''' then '' in '' @ Field e else '''')
     @ (if Offset e \<ge> 0 then '' at byte '' @ show_int (Offset e) else '''')
     @ (if Detail e \<noteq> '''' then '': '' @ Detail e else '''')"

definition decodeError :: "codec_kind \<Rightarrow> int \<Rightarrow> string \<Rightarrow> string \<Rightarrow> (DecodeError, 'a) outcome" where
  "decodeError kind offset field detail =
     Err \<lparr>Kind = kind, Offset = offset, Field = field, Detail = detail\<rparr>"

type_synonym 'a codec_result = "(DecodeError, 'a) outcome"

definition HeaderSize :: nat where
  "HeaderSize = 32"

definition AEADTagSize :: nat where
  "AEADTagSize = 16"

definition DefaultMaxDatagramSize :: int where
  "DefaultMaxDatagramSize = 1400"

definition Version1 :: uint8 where
  "Version1 = 1"

lemmas codec_consts [go_consts] =
  HeaderSize_def AEADTagSize_def DefaultMaxDatagramSize_def Version1_def

lemma decodeError_not_Ret [simp]: "decodeError k off f d \<noteq> Ret x"
  and decodeError_not_Panic [simp]: "decodeError k off f d \<noteq> Panic"
  by (simp_all add: decodeError_def)

lemma decodeError_bind [simp]: "obind (decodeError k off f d) g = decodeError k off f d"
  by (simp add: decodeError_def)

lemma decode_guard:
  "(if c then decodeError k off f d else m) = Ret x \<longleftrightarrow> \<not> c \<and> m = Ret x"
  "(if c then decodeError k off f d else m) = Panic \<longleftrightarrow> \<not> c \<and> m = Panic"
  by auto

text \<open>The error kind of an outcome, which is what a caller classifies a failure by.\<close>

definition fails_with :: "'a codec_result \<Rightarrow> codec_kind \<Rightarrow> bool" where
  "fails_with r k \<longleftrightarrow> (case r of Err e \<Rightarrow> Kind e = k | _ \<Rightarrow> False)"

lemma fails_with_decodeError [simp]: "fails_with (decodeError k off f d) k' \<longleftrightarrow> k = k'"
  by (simp add: fails_with_def decodeError_def)

lemma fails_with_Ret [simp]: "\<not> fails_with (Ret x) k"
  by (simp add: fails_with_def)

section \<open>The contract of a wire codec\<close>

text \<open>
  Every structure of the codec package comes as a parser and a \<^verbatim>\<open>MarshalBinary\<close>. The contract
  its clients rely on: neither stops with a panic, what is marshalled parses back to the same
  value, and what is accepted is the one canonical encoding of the value read.
\<close>

locale wire_codec =
  fixes wf :: "'a \<Rightarrow> bool"
    and parse :: "bytes \<Rightarrow> 'a codec_result"
    and marshal :: "'a \<Rightarrow> bytes codec_result"
  assumes parse_marshal: "wf x \<Longrightarrow> marshal x = Ret d \<Longrightarrow> parse d = Ret x"
    and marshal_parse: "parse d = Ret x \<Longrightarrow> wf x \<and> marshal x = Ret d"
    and parse_safe: "parse d \<noteq> Panic"
    and marshal_safe: "wf x \<Longrightarrow> marshal x \<noteq> Panic"
begin

lemma parse_inj: "parse d = Ret x \<Longrightarrow> parse d' = Ret x \<Longrightarrow> d = d'"
  using marshal_parse [of d x] marshal_parse [of d' x] by simp

lemma marshal_inj: "wf x \<Longrightarrow> wf y \<Longrightarrow> marshal x = Ret d \<Longrightarrow> marshal y = Ret d \<Longrightarrow> x = y"
  using parse_marshal [of x d] parse_marshal [of y d] by simp

lemma parse_iff_marshal: "parse d = Ret x \<longleftrightarrow> wf x \<and> marshal x = Ret d"
  using parse_marshal marshal_parse by blast

lemma rejects_iff: "(\<exists>e. parse d = Err e) \<longleftrightarrow> (\<nexists>x. wf x \<and> marshal x = Ret d)"
proof -
  have "(\<exists>e. parse d = Err e) \<longleftrightarrow> (\<nexists>x. parse d = Ret x)"
    using parse_safe [of d] by (cases "parse d") auto
  then show ?thesis by (simp add: parse_iff_marshal)
qed

end

end
