(* ===== verification/Codec_Payload.thy ===== *)
theory Codec_Payload
  imports Codec_Base
begin

text \<open>
  \<^verbatim>\<open>internal/codec/payload.go\<close>: the clear structures of the four outer payloads (INITIAL,
  RETRY, HANDSHAKE, TRANSPORT). Each parser reads the code's slices with their bounds
  checked, so a slice out of range would show as \<open>Panic\<close>; each \<^verbatim>\<open>MarshalBinary\<close> writes its
  parts at consecutive offsets of a buffer of exactly the total size, which is their
  concatenation. A \<^verbatim>\<open>[32]byte\<close> is a byte list of length 32 (\<open>wf_initial\<close>, \<open>wf_handshake\<close>).
\<close>

section \<open>Definitions\<close>

definition EphemeralPublicKeySize :: nat where
  "EphemeralPublicKeySize = 32"

definition MinRetryTokenSize :: nat where
  "MinRetryTokenSize = 16"

lemmas payload_consts [go_consts] = EphemeralPublicKeySize_def MinRetryTokenSize_def

record Initial =
  InitialToken :: bytes
  ClientEphemeralPublic :: bytes
  InitialEncryptedPayload :: bytes

definition ParseInitial :: "bytes \<Rightarrow> Initial codec_result" where
  "ParseInitial data =
    (let fixedAfterToken = EphemeralPublicKeySize + 2 + AEADTagSize in
     if int (length data) > MaxUint16 then
       decodeError ErrLimit 0 ''initial'' ''outer payload exceeds uint16''
     else if length data < 2 then
       decodeError ErrTruncated (int (length data)) ''initial.token_length'' ''need uint16''
     else obind (slice data 0 2) (\<lambda>b. obind (Uint16 b) (\<lambda>w.
       let tokenLength = unat w in
       if tokenLength > length data - 2 then
         decodeError ErrTruncated 2 ''initial.token'' ''declared token exceeds payload''
       else if length data - 2 - tokenLength < fixedAfterToken then
         decodeError ErrTruncated (2 + int tokenLength) ''initial''
           ''missing public key or encrypted payload''
       else obind (slice data 2 (2 + tokenLength)) (\<lambda>token.
         let offset = 2 + tokenLength in
         obind (slice data offset (offset + EphemeralPublicKeySize)) (\<lambda>public.
         let offset = offset + EphemeralPublicKeySize in
         obind (slice data offset (offset + 2)) (\<lambda>lb. obind (Uint16 lb) (\<lambda>lw.
         let encryptedLength = unat lw; offset = offset + 2 in
         if encryptedLength < AEADTagSize then
           decodeError ErrLength (int offset - 2) ''initial.encrypted_length''
             ''must include a 16-byte authentication tag''
         else
           let remaining = length data - offset in
           if remaining < encryptedLength then
             decodeError ErrTruncated (int (offset + remaining)) ''initial.encrypted_payload''
               ''shorter than declared''
           else if remaining > encryptedLength then
             decodeError ErrTrailingData (int (offset + encryptedLength))
               ''initial.encrypted_payload'' ''bytes follow declared ciphertext''
           else obind (slice_from data offset) (\<lambda>enc.
             Ret \<lparr>InitialToken = token, ClientEphemeralPublic = public,
                  InitialEncryptedPayload = enc\<rparr>))))))))"

definition Initial_MarshalBinary :: "Initial \<Rightarrow> bytes codec_result" where
  "Initial_MarshalBinary p =
    (if int (length (InitialToken p)) > MaxUint16 then
       decodeError ErrLength 0 ''initial.token'' ''does not fit uint16''
     else if length (InitialEncryptedPayload p) < AEADTagSize
             \<or> int (length (InitialEncryptedPayload p)) > MaxUint16 then
       decodeError ErrLength 0 ''initial.encrypted_payload'' ''must be 16..65535 bytes''
     else if int (2 + length (InitialToken p) + EphemeralPublicKeySize + 2
                  + length (InitialEncryptedPayload p)) > MaxUint16 then
       decodeError ErrLength 0 ''initial'' ''outer payload does not fit uint16''
     else Ret (be16 (word_of_nat (length (InitialToken p))) @ InitialToken p
               @ ClientEphemeralPublic p
               @ be16 (word_of_nat (length (InitialEncryptedPayload p)))
               @ InitialEncryptedPayload p))"

record Retry =
  RetryToken :: bytes

definition ParseRetry :: "bytes \<Rightarrow> Retry codec_result" where
  "ParseRetry data =
    (if int (length data) > MaxUint16 then
       decodeError ErrLimit 0 ''retry.token'' ''outer payload exceeds uint16''
     else if length data < MinRetryTokenSize then
       decodeError ErrLength 0 ''retry.token''
         (''need at least '' @ show_nat MinRetryTokenSize @ '' bytes'')
     else Ret \<lparr>RetryToken = data\<rparr>)"

definition Retry_MarshalBinary :: "Retry \<Rightarrow> bytes codec_result" where
  "Retry_MarshalBinary p =
    (if length (RetryToken p) < MinRetryTokenSize \<or> int (length (RetryToken p)) > MaxUint16 then
       decodeError ErrLength 0 ''retry.token'' ''must be 16..65535 bytes''
     else Ret (RetryToken p))"

record Handshake =
  ServerEphemeralPublic :: bytes
  HandshakeEncryptedPayload :: bytes

definition ParseHandshake :: "bytes \<Rightarrow> Handshake codec_result" where
  "ParseHandshake data =
    (let prefixSize = EphemeralPublicKeySize + 2 in
     if int (length data) > MaxUint16 then
       decodeError ErrLimit 0 ''handshake'' ''outer payload exceeds uint16''
     else if length data < prefixSize then
       decodeError ErrTruncated (int (length data)) ''handshake''
         ''missing public key or encrypted length''
     else obind (slice data 0 EphemeralPublicKeySize) (\<lambda>public.
       obind (slice data EphemeralPublicKeySize prefixSize) (\<lambda>lb. obind (Uint16 lb) (\<lambda>lw.
       let encryptedLength = unat lw in
       if encryptedLength < AEADTagSize then
         decodeError ErrLength (int EphemeralPublicKeySize) ''handshake.encrypted_length''
           ''must include a 16-byte authentication tag''
       else
         let remaining = length data - prefixSize in
         if remaining < encryptedLength then
           decodeError ErrTruncated (int (length data)) ''handshake.encrypted_payload''
             ''shorter than declared''
         else if remaining > encryptedLength then
           decodeError ErrTrailingData (int (prefixSize + encryptedLength))
             ''handshake.encrypted_payload'' ''bytes follow declared ciphertext''
         else obind (slice_from data prefixSize) (\<lambda>enc.
           Ret \<lparr>ServerEphemeralPublic = public, HandshakeEncryptedPayload = enc\<rparr>)))))"

definition Handshake_MarshalBinary :: "Handshake \<Rightarrow> bytes codec_result" where
  "Handshake_MarshalBinary p =
    (if length (HandshakeEncryptedPayload p) < AEADTagSize
        \<or> int (length (HandshakeEncryptedPayload p)) > MaxUint16 then
       decodeError ErrLength 0 ''handshake.encrypted_payload'' ''must be 16..65535 bytes''
     else if int (EphemeralPublicKeySize + 2 + length (HandshakeEncryptedPayload p)) > MaxUint16
     then decodeError ErrLength 0 ''handshake'' ''outer payload does not fit uint16''
     else Ret (ServerEphemeralPublic p
               @ be16 (word_of_nat (length (HandshakeEncryptedPayload p)))
               @ HandshakeEncryptedPayload p))"

record Transport =
  Ciphertext :: bytes

definition ParseTransport :: "bytes \<Rightarrow> Transport codec_result" where
  "ParseTransport data =
    (if int (length data) > MaxUint16 then
       decodeError ErrLimit 0 ''transport.ciphertext'' ''outer payload exceeds uint16''
     else if length data < AEADTagSize then
       decodeError ErrLength 0 ''transport.ciphertext''
         ''must include a 16-byte authentication tag''
     else Ret \<lparr>Ciphertext = data\<rparr>)"

definition Transport_MarshalBinary :: "Transport \<Rightarrow> bytes codec_result" where
  "Transport_MarshalBinary p =
    (if length (Ciphertext p) < AEADTagSize \<or> int (length (Ciphertext p)) > MaxUint16 then
       decodeError ErrLength 0 ''transport.ciphertext'' ''must be 16..65535 bytes''
     else Ret (Ciphertext p))"

definition wf_initial :: "Initial \<Rightarrow> bool" where
  "wf_initial p \<longleftrightarrow> length (ClientEphemeralPublic p) = EphemeralPublicKeySize"

definition wf_handshake :: "Handshake \<Rightarrow> bool" where
  "wf_handshake p \<longleftrightarrow> length (ServerEphemeralPublic p) = EphemeralPublicKeySize"

section \<open>Round trips\<close>

lemmas initial_defs = ParseInitial_def Initial_MarshalBinary_def wf_initial_def
lemmas handshake_defs = ParseHandshake_def Handshake_MarshalBinary_def wf_handshake_def

lemma parse_marshal_initial:
  assumes "wf_initial p" and "Initial_MarshalBinary p = Ret data"
  shows "ParseInitial data = Ret p"
  using assms
  by (cases p) (auto simp: initial_defs go_consts Let_def unat_word_of_nat16 split: if_splits)

lemma parse_initial_shape:
  assumes "ParseInitial data = Ret p"
  shows "wf_initial p \<and> length (InitialEncryptedPayload p) \<ge> 16 \<and> length data \<le> 65535
    \<and> data = be16 (word_of_nat (length (InitialToken p))) @ InitialToken p
        @ ClientEphemeralPublic p
        @ be16 (word_of_nat (length (InitialEncryptedPayload p))) @ InitialEncryptedPayload p"
proof -
  let ?n = "unat (word_of_nat (be_val (take 2 data)) :: uint16)"
  let ?m = "unat (word_of_nat (be_val (take 2 (drop (34 + ?n) data))) :: uint16)"
  from assms have len: "length data \<le> 65535" "2 \<le> length data" "?n \<le> length data - 2"
      "50 \<le> length data - 2 - ?n" "16 \<le> ?m" "length data - (36 + ?n) = ?m"
    and p: "p = \<lparr>InitialToken = take ?n (drop 2 data),
      ClientEphemeralPublic = take 32 (drop (2 + ?n) data),
      InitialEncryptedPayload = drop (36 + ?n) data\<rparr>"
    by (auto simp: ParseInitial_def go_consts Let_def Uint16_ok add.commute add.left_commute
        split: if_splits)
  have e1: "be16 (word_of_nat ?n) = take 2 data"
    using len be16_val [of "take 2 data"] by simp
  have e2: "be16 (word_of_nat ?m) = take 2 (drop (34 + ?n) data)"
    using len be16_val [of "take 2 (drop (34 + ?n) data)"] by simp
  have "data = take 2 data @ take ?n (drop 2 data) @ take 32 (drop (2 + ?n) data)
      @ take 2 (drop (34 + ?n) data) @ drop (36 + ?n) data"
    using append_take_drop_id [of 2 data] append_take_drop_id [of ?n "drop 2 data"]
      append_take_drop_id [of 32 "drop (2 + ?n) data"]
      append_take_drop_id [of 2 "drop (34 + ?n) data"]
    by (simp add: add.commute add.left_commute)
  with e1 e2 len show ?thesis
    by (simp add: p wf_initial_def go_consts)
qed

lemma marshal_parse_initial:
  assumes "ParseInitial data = Ret p"
  shows "wf_initial p \<and> Initial_MarshalBinary p = Ret data"
proof -
  from parse_initial_shape [OF assms] have *: "wf_initial p" "16 \<le> length (InitialEncryptedPayload p)"
      "length data \<le> 65535"
    and d: "data = be16 (word_of_nat (length (InitialToken p))) @ InitialToken p
        @ ClientEphemeralPublic p
        @ be16 (word_of_nat (length (InitialEncryptedPayload p))) @ InitialEncryptedPayload p"
    by auto
  from arg_cong [OF d, of length] * have
    "36 + length (InitialToken p) + length (InitialEncryptedPayload p) \<le> 65535"
    by (simp add: wf_initial_def go_consts)
  with * d [symmetric] show ?thesis by (simp add: Initial_MarshalBinary_def go_consts)
qed

lemma ParseInitial_safe: "ParseInitial data \<noteq> Panic"
  by (auto simp: ParseInitial_def go_consts Let_def Uint16_ok obind_Panic_iff split: if_splits)

lemma Initial_MarshalBinary_safe: "Initial_MarshalBinary p \<noteq> Panic"
  by (auto simp: Initial_MarshalBinary_def)

lemma parse_marshal_handshake:
  assumes "wf_handshake p" and "Handshake_MarshalBinary p = Ret data"
  shows "ParseHandshake data = Ret p"
  using assms
  by (cases p) (auto simp: handshake_defs go_consts Let_def unat_word_of_nat16 split: if_splits)

lemma parse_handshake_shape:
  assumes "ParseHandshake data = Ret p"
  shows "wf_handshake p \<and> length (HandshakeEncryptedPayload p) \<ge> 16 \<and> length data \<le> 65535
    \<and> data = ServerEphemeralPublic p
        @ be16 (word_of_nat (length (HandshakeEncryptedPayload p))) @ HandshakeEncryptedPayload p"
proof -
  let ?m = "unat (word_of_nat (be_val (take 2 (drop 32 data))) :: uint16)"
  from assms have len: "length data \<le> 65535" "34 \<le> length data" "16 \<le> ?m" "length data - 34 = ?m"
    and p: "p = \<lparr>ServerEphemeralPublic = take 32 data, HandshakeEncryptedPayload = drop 34 data\<rparr>"
    by (auto simp: ParseHandshake_def go_consts Let_def Uint16_ok split: if_splits)
  have e: "be16 (word_of_nat ?m) = take 2 (drop 32 data)"
    using len be16_val [of "take 2 (drop 32 data)"] by simp
  have "data = take 32 data @ take 2 (drop 32 data) @ drop 34 data"
    using append_take_drop_id [of 32 data] append_take_drop_id [of 2 "drop 32 data"] by simp
  with e len show ?thesis by (simp add: p wf_handshake_def go_consts)
qed

lemma marshal_parse_handshake:
  assumes "ParseHandshake data = Ret p"
  shows "wf_handshake p \<and> Handshake_MarshalBinary p = Ret data"
proof -
  from parse_handshake_shape [OF assms] have *: "wf_handshake p"
      "16 \<le> length (HandshakeEncryptedPayload p)" "length data \<le> 65535"
    and d: "data = ServerEphemeralPublic p
        @ be16 (word_of_nat (length (HandshakeEncryptedPayload p))) @ HandshakeEncryptedPayload p"
    by auto
  from arg_cong [OF d, of length] * have "34 + length (HandshakeEncryptedPayload p) \<le> 65535"
    by (simp add: wf_handshake_def go_consts)
  with * d [symmetric] show ?thesis by (simp add: Handshake_MarshalBinary_def go_consts)
qed

lemma ParseHandshake_safe: "ParseHandshake data \<noteq> Panic"
  by (auto simp: ParseHandshake_def go_consts Let_def Uint16_ok obind_Panic_iff split: if_splits)

lemma Handshake_MarshalBinary_safe: "Handshake_MarshalBinary p \<noteq> Panic"
  by (auto simp: Handshake_MarshalBinary_def)

section \<open>The four payloads meet the contract\<close>

interpretation initial_codec: wire_codec wf_initial ParseInitial Initial_MarshalBinary
  by (unfold_locales; rule parse_marshal_initial marshal_parse_initial ParseInitial_safe
      Initial_MarshalBinary_safe; assumption)

interpretation handshake_codec: wire_codec wf_handshake ParseHandshake Handshake_MarshalBinary
  by (unfold_locales; rule parse_marshal_handshake marshal_parse_handshake ParseHandshake_safe
      Handshake_MarshalBinary_safe; assumption)

interpretation retry_codec: wire_codec "\<lambda>_. True" ParseRetry Retry_MarshalBinary
  by unfold_locales (auto simp: ParseRetry_def Retry_MarshalBinary_def go_consts split: if_splits)

interpretation transport_codec: wire_codec "\<lambda>_. True" ParseTransport Transport_MarshalBinary
  by unfold_locales (auto simp: ParseTransport_def Transport_MarshalBinary_def go_consts split: if_splits)

section \<open>Properties\<close>

text \<open>Each clear payload has exactly one encoding: INITIAL, RETRY, HANDSHAKE and TRANSPORT
  parsers accept a byte string and return a value exactly when that value is well formed and
  marshals to the same bytes.\<close>

theorem payload_canonical:
  "(ParseInitial d = Ret i \<longleftrightarrow> wf_initial i \<and> Initial_MarshalBinary i = Ret d)
   \<and> (ParseRetry d = Ret r \<longleftrightarrow> Retry_MarshalBinary r = Ret d)
   \<and> (ParseHandshake d = Ret h \<longleftrightarrow> wf_handshake h \<and> Handshake_MarshalBinary h = Ret d)
   \<and> (ParseTransport d = Ret t \<longleftrightarrow> Transport_MarshalBinary t = Ret d)"
  by (simp only: initial_codec.parse_iff_marshal retry_codec.parse_iff_marshal
      handshake_codec.parse_iff_marshal transport_codec.parse_iff_marshal simp_thms)

end
