(* ===== verification/Codec_Packet.thy ===== *)
theory Codec_Packet
  imports Codec_Payload
begin

text \<open>
  \<^verbatim>\<open>internal/codec/packet.go\<close>: the fixed 32-byte outer header and the complete datagram. The
  packet kind is the byte of the wire, a \<open>uint8\<close> as in the source, so that unknown kinds are
  values too. A Go \<^verbatim>\<open>int\<close> limit is an \<open>int\<close>, since callers may pass a negative one.
\<close>

section \<open>Definitions\<close>

definition PacketInitial :: uint8 where "PacketInitial = 0x01"
definition PacketRetry :: uint8 where "PacketRetry = 0x02"
definition PacketHandshake :: uint8 where "PacketHandshake = 0x03"
definition PacketTransport :: uint8 where "PacketTransport = 0x10"

lemmas packet_kinds [go_consts] =
  PacketInitial_def PacketRetry_def PacketHandshake_def PacketTransport_def

definition PacketType_valid :: "uint8 \<Rightarrow> bool" where
  "PacketType_valid kind \<longleftrightarrow>
     kind = PacketInitial \<or> kind = PacketRetry \<or> kind = PacketHandshake \<or> kind = PacketTransport"

record Header =
  Version :: uint8
  HKind :: uint8
  Flags :: uint16
  DCID :: uint64
  SCID :: uint64
  PacketNumber :: uint64
  PayloadLength :: uint16
  Reserved :: uint16

definition Header_validate :: "Header \<Rightarrow> unit codec_result" where
  "Header_validate h =
    (if Version h \<noteq> Version1 then
       decodeError ErrVersion 0 ''version'' (''got '' @ hex2 (Version h))
     else if \<not> PacketType_valid (HKind h) then
       decodeError ErrKind 1 ''kind'' (''got '' @ hex2 (HKind h))
     else if Flags h \<noteq> 0 then
       decodeError ErrFlags 2 ''flags'' ''version 1 requires zero''
     else if Reserved h \<noteq> 0 then
       decodeError ErrReserved 30 ''reserved'' ''version 1 requires zero''
     else if HKind h = PacketInitial then
       (if DCID h \<noteq> 0 \<or> SCID h = 0 then
          decodeError ErrCID 4 ''cid'' ''INITIAL requires dcid=0 and non-zero scid''
        else if PacketNumber h \<noteq> 0 then
          decodeError ErrPacketNumber 20 ''packet_number'' ''INITIAL requires zero''
        else Ret ())
     else if HKind h = PacketRetry then
       (if DCID h = 0 \<or> SCID h \<noteq> 0 then
          decodeError ErrCID 4 ''cid'' ''RETRY requires non-zero dcid and scid=0''
        else if PacketNumber h \<noteq> 0 then
          decodeError ErrPacketNumber 20 ''packet_number'' ''RETRY requires zero''
        else Ret ())
     else if HKind h = PacketHandshake then
       (if DCID h = 0 \<or> SCID h = 0 then
          decodeError ErrCID 4 ''cid'' ''HANDSHAKE requires non-zero dcid and scid''
        else if PacketNumber h \<noteq> 0 then
          decodeError ErrPacketNumber 20 ''packet_number'' ''HANDSHAKE requires zero''
        else Ret ())
     else if HKind h = PacketTransport then
       (if DCID h = 0 \<or> SCID h = 0 then
          decodeError ErrCID 4 ''cid'' ''TRANSPORT requires non-zero dcid and scid''
        else Ret ())
     else Ret ())"

definition parseHeaderPrefix :: "bytes \<Rightarrow> Header codec_result" where
  "parseHeaderPrefix data =
    (if length data < HeaderSize then
       decodeError ErrTruncated (int (length data)) ''header'' ''need 32 bytes''
     else
       obind (index data 0) (\<lambda>version. obind (index data 1) (\<lambda>kind.
       obind (slice data 2 4) (\<lambda>fb. obind (Uint16 fb) (\<lambda>flags.
       obind (slice data 4 12) (\<lambda>db. obind (Uint64 db) (\<lambda>dcid.
       obind (slice data 12 20) (\<lambda>sb. obind (Uint64 sb) (\<lambda>scid.
       obind (slice data 20 28) (\<lambda>nb. obind (Uint64 nb) (\<lambda>pn.
       obind (slice data 28 30) (\<lambda>pb. obind (Uint16 pb) (\<lambda>plen.
       obind (slice data 30 32) (\<lambda>rb. obind (Uint16 rb) (\<lambda>reserved.
       let header = \<lparr>Version = version, HKind = kind, Flags = flags, DCID = dcid,
             SCID = scid, PacketNumber = pn, PayloadLength = plen, Reserved = reserved\<rparr> in
       obind (Header_validate header) (\<lambda>_. Ret header))))))))))))))))"

definition ParseHeader :: "bytes \<Rightarrow> Header codec_result" where
  "ParseHeader data =
    (if length data < HeaderSize then
       decodeError ErrTruncated (int (length data)) ''header'' ''need 32 bytes''
     else if length data > HeaderSize then
       decodeError ErrTrailingData (int HeaderSize) ''header''
         ''header parser accepts exactly 32 bytes''
     else parseHeaderPrefix data)"

definition Header_MarshalBinary :: "Header \<Rightarrow> bytes codec_result" where
  "Header_MarshalBinary h =
     obind (Header_validate h) (\<lambda>_.
       Ret ([Version h] @ [HKind h] @ be16 (Flags h) @ be64 (DCID h) @ be64 (SCID h)
            @ be64 (PacketNumber h) @ be16 (PayloadLength h) @ be16 (Reserved h)))"

record Packet =
  PHeader :: Header
  Payload :: bytes

definition NewPacket :: "uint8 \<Rightarrow> uint64 \<Rightarrow> uint64 \<Rightarrow> uint64 \<Rightarrow> bytes \<Rightarrow> Packet" where
  "NewPacket kind dcid scid packetNumber payload =
     \<lparr>PHeader = \<lparr>Version = Version1, HKind = kind, Flags = 0, DCID = dcid, SCID = scid,
        PacketNumber = packetNumber, PayloadLength = 0, Reserved = 0\<rparr>, Payload = payload\<rparr>"

definition normalizeDatagramLimit :: "int \<Rightarrow> int codec_result" where
  "normalizeDatagramLimit limit =
    (if limit = 0 then Ret DefaultMaxDatagramSize
     else if limit < int HeaderSize \<or> limit > int HeaderSize + MaxUint16 then
       decodeError ErrLimit 0 ''max_datagram_size'' ''must fit header plus uint16 payload''
     else Ret limit)"

definition validateOuterPayload :: "uint8 \<Rightarrow> bytes \<Rightarrow> unit codec_result" where
  "validateOuterPayload kind payload =
    (if kind = PacketInitial then obind (ParseInitial payload) (\<lambda>_. Ret ())
     else if kind = PacketRetry then obind (ParseRetry payload) (\<lambda>_. Ret ())
     else if kind = PacketHandshake then obind (ParseHandshake payload) (\<lambda>_. Ret ())
     else if kind = PacketTransport then obind (ParseTransport payload) (\<lambda>_. Ret ())
     else decodeError ErrKind 1 ''kind'' (''got '' @ hex2 kind))"

definition ParsePacket :: "bytes \<Rightarrow> int \<Rightarrow> Packet codec_result" where
  "ParsePacket data maxDatagramSize =
     obind (normalizeDatagramLimit maxDatagramSize) (\<lambda>limit.
     if length data < HeaderSize then
       decodeError ErrTruncated (int (length data)) ''datagram'' ''missing fixed header''
     else if int (length data) > limit then
       decodeError ErrLimit 0 ''datagram''
         (''length '' @ show_nat (length data) @ '' exceeds '' @ show_int limit)
     else obind (slice data 0 HeaderSize) (\<lambda>hb. obind (parseHeaderPrefix hb) (\<lambda>header.
       let expected = HeaderSize + unat (PayloadLength header) in
       if int expected > limit then
         decodeError ErrLimit 28 ''payload_length''
           (''declared datagram length '' @ show_nat expected @ '' exceeds '' @ show_int limit)
       else if length data < expected then
         decodeError ErrTruncated (int (length data)) ''payload''
           (''declared datagram length '' @ show_nat expected)
       else if length data > expected then
         decodeError ErrTrailingData (int expected) ''payload'' ''bytes follow declared payload''
       else obind (slice data HeaderSize expected) (\<lambda>payload.
         obind (validateOuterPayload (HKind header) payload) (\<lambda>_.
         Ret \<lparr>PHeader = header, Payload = payload\<rparr>)))))"

definition Packet_MarshalBinary :: "Packet \<Rightarrow> int \<Rightarrow> bytes codec_result" where
  "Packet_MarshalBinary p maxDatagramSize =
     obind (normalizeDatagramLimit maxDatagramSize) (\<lambda>limit.
     if int (length (Payload p)) > MaxUint16 then
       decodeError ErrLength 0 ''payload'' ''does not fit uint16''
     else if int (HeaderSize + length (Payload p)) > limit then
       decodeError ErrLimit 0 ''datagram''
         (''length '' @ show_nat (HeaderSize + length (Payload p)) @ '' exceeds '' @ show_int limit)
     else obind (validateOuterPayload (HKind (PHeader p)) (Payload p)) (\<lambda>_.
       let header = (PHeader p)\<lparr>PayloadLength := word_of_nat (length (Payload p))\<rparr> in
       obind (Header_MarshalBinary header) (\<lambda>encodedHeader.
       Ret (encodedHeader @ Payload p))))"

text \<open>
  A packet is well formed when the length in its header is that of its payload, which
  \<^verbatim>\<open>MarshalBinary\<close> derives and \<^verbatim>\<open>ParsePacket\<close> checks.
\<close>

definition wf_packet :: "Packet \<Rightarrow> bool" where
  "wf_packet p \<longleftrightarrow> PayloadLength (PHeader p) = word_of_nat (length (Payload p))
     \<and> length (Payload p) < 65536"

section \<open>The header\<close>

lemma Header_validate_safe [simp]: "Header_validate h \<noteq> Panic"
  by (simp add: Header_validate_def)

lemma Header_validate_PayloadLength [simp]:
  "Header_validate (h\<lparr>PayloadLength := n\<rparr>) = Header_validate h"
  by (simp add: Header_validate_def)

lemma parseHeaderPrefix_append:
  "length data = 32 \<Longrightarrow> parseHeaderPrefix (data @ r) = parseHeaderPrefix data"
  by (simp add: parseHeaderPrefix_def go_consts nth_append Uint16_ok Uint64_ok)

lemma header_parse_marshal:
  assumes "Header_MarshalBinary h = Ret data"
  shows "ParseHeader data = Ret h"
proof -
  from assms have v: "Header_validate h = Ret ()"
    and d: "data = [Version h] @ [HKind h] @ be16 (Flags h) @ be64 (DCID h) @ be64 (SCID h)
            @ be64 (PacketNumber h) @ be16 (PayloadLength h) @ be16 (Reserved h)"
    by (auto simp: Header_MarshalBinary_def)
  have "length data = 32" by (simp add: d)
  with v show ?thesis
    by (cases h) (simp add: ParseHeader_def parseHeaderPrefix_def go_consts Let_def d)
qed

lemma parseHeaderPrefix_shape:
  assumes "parseHeaderPrefix data = Ret h" and "length data = 32"
  shows "Header_validate h = Ret () \<and>
    data = [Version h] @ [HKind h] @ be16 (Flags h) @ be64 (DCID h) @ be64 (SCID h)
            @ be64 (PacketNumber h) @ be16 (PayloadLength h) @ be16 (Reserved h)"
proof -
  from assms have v: "Header_validate h = Ret ()"
    and h: "Version h = data ! 0" "HKind h = data ! 1"
      "be16 (Flags h) = take 2 (drop 2 data)" "be64 (DCID h) = take 8 (drop 4 data)"
      "be64 (SCID h) = take 8 (drop 12 data)" "be64 (PacketNumber h) = take 8 (drop 20 data)"
      "be16 (PayloadLength h) = take 2 (drop 28 data)" "be16 (Reserved h) = take 2 (drop 30 data)"
    by (auto simp: parseHeaderPrefix_def go_consts Let_def Uint16_ok Uint64_ok be16_val be64_val)
  obtain a b r where d: "data = a # b # r" and r: "length r = 30"
    using assms(2) by (metis (no_types, opaque_lifting) length_0_conv length_Cons list.exhaust
        numeral_2_eq_2 Suc_inject eval_nat_numeral(2,3) semiring_norm(26,27,28) zero_neq_numeral)
  have "r = take 2 r @ take 8 (drop 2 r) @ take 8 (drop 10 r) @ take 8 (drop 18 r)
      @ take 2 (drop 26 r) @ take 2 (drop 28 r)"
    using append_take_drop_id [of 2 r] append_take_drop_id [of 8 "drop 2 r"]
      append_take_drop_id [of 8 "drop 10 r"] append_take_drop_id [of 8 "drop 18 r"]
      append_take_drop_id [of 2 "drop 26 r"] r
    by simp
  with v h show ?thesis by (simp add: d)
qed

lemma header_marshal_parse:
  assumes "ParseHeader data = Ret h"
  shows "Header_MarshalBinary h = Ret data"
proof -
  from assms have "length data = 32" "parseHeaderPrefix data = Ret h"
    by (auto simp: ParseHeader_def go_consts split: if_splits)
  from parseHeaderPrefix_shape [OF this(2,1)] show ?thesis
    by (simp add: Header_MarshalBinary_def)
qed

lemma parseHeaderPrefix_safe: "parseHeaderPrefix data \<noteq> Panic"
  by (auto simp: parseHeaderPrefix_def go_consts Let_def obind_Panic_iff slice_Ret_iff)

lemma ParseHeader_safe: "ParseHeader data \<noteq> Panic"
  by (simp add: ParseHeader_def parseHeaderPrefix_safe)

lemma Header_MarshalBinary_safe: "Header_MarshalBinary h \<noteq> Panic"
  by (auto simp: Header_MarshalBinary_def obind_Panic_iff)

lemma Header_MarshalBinary_length: "Header_MarshalBinary h = Ret data \<Longrightarrow> length data = 32"
  by (auto simp: Header_MarshalBinary_def)

interpretation header_codec: wire_codec "\<lambda>_. True" ParseHeader Header_MarshalBinary
proof
  fix h d
  show "Header_MarshalBinary h = Ret d \<Longrightarrow> ParseHeader d = Ret h" by (rule header_parse_marshal)
  show "ParseHeader d = Ret h \<Longrightarrow> True \<and> Header_MarshalBinary h = Ret d"
    by (simp add: header_marshal_parse)
  show "ParseHeader d \<noteq> Panic" by (rule ParseHeader_safe)
  show "Header_MarshalBinary h \<noteq> Panic" by (rule Header_MarshalBinary_safe)
qed

section \<open>The datagram\<close>

lemma validateOuterPayload_safe: "validateOuterPayload kind payload \<noteq> Panic"
  by (auto simp: validateOuterPayload_def initial_codec.parse_safe handshake_codec.parse_safe
      retry_codec.parse_safe transport_codec.parse_safe obind_Panic_iff)

lemma normalizeDatagramLimit_bounds:
  "normalizeDatagramLimit m = Ret limit \<Longrightarrow> 32 \<le> limit \<and> limit \<le> 65567"
  by (auto simp: normalizeDatagramLimit_def go_consts split: if_splits)

lemma normalizeDatagramLimit_safe [simp]: "normalizeDatagramLimit m \<noteq> Panic"
  by (simp add: normalizeDatagramLimit_def)

lemma packet_parse_marshal:
  assumes wf: "wf_packet p" and m: "Packet_MarshalBinary p m = Ret data"
  shows "ParsePacket data m = Ret p"
proof -
  from m wf obtain limit eh where l: "normalizeDatagramLimit m = Ret limit"
    and vo: "validateOuterPayload (HKind (PHeader p)) (Payload p) = Ret ()"
    and eh: "Header_MarshalBinary (PHeader p) = Ret eh" and d: "data = eh @ Payload p"
    and b: "int (32 + length (Payload p)) \<le> limit"
    by (auto simp: Packet_MarshalBinary_def wf_packet_def go_consts Let_def split: if_splits)
      (metis (mono_tags, lifting) Header.surjective Header.update_convs(7))
  have len: "length eh = 32" using eh by (rule Header_MarshalBinary_length)
  have hp: "parseHeaderPrefix eh = Ret (PHeader p)"
    using header_parse_marshal [OF eh] len by (simp add: ParseHeader_def go_consts)
  have pl: "unat (PayloadLength (PHeader p)) = length (Payload p)"
    using wf by (simp add: wf_packet_def unat_word_of_nat16)
  show ?thesis using l b len hp pl vo
    by (cases p) (simp add: ParsePacket_def go_consts d Let_def del: of_nat_unat)
qed

lemma packet_marshal_parse:
  assumes "ParsePacket data m = Ret p"
  shows "wf_packet p \<and> Packet_MarshalBinary p m = Ret data"
proof -
  from assms obtain limit h where l: "normalizeDatagramLimit m = Ret limit"
    and h: "parseHeaderPrefix (take 32 data) = Ret h" and len: "32 \<le> length data"
    and b: "int (length data) \<le> limit" and n: "length data = 32 + unat (PayloadLength h)"
    and vo: "validateOuterPayload (HKind h) (drop 32 data) = Ret ()"
    and p: "p = \<lparr>PHeader = h, Payload = drop 32 data\<rparr>"
    by (auto simp: ParsePacket_def go_consts Let_def split: if_splits)
  obtain eh payload where data: "data = eh @ payload" and eh: "length eh = 32"
    using len append_take_drop_id [of 32 data] by (metis length_take min.absorb2)
  have w: "PayloadLength h = word_of_nat (length payload)" using n by (simp add: data eh)
  then have h': "h\<lparr>PayloadLength := word_of_nat (length payload)\<rparr> = h" by (cases h) simp
  have "length payload < 65536"
    using n unat_uint16_bound [of "PayloadLength h"] by (simp add: data eh)
  moreover have "Header_MarshalBinary h = Ret eh"
    using parseHeaderPrefix_shape [OF h] by (simp add: Header_MarshalBinary_def data eh)
  then have "Header_MarshalBinary (h\<lparr>PayloadLength := word_of_nat (length payload)\<rparr>) = Ret eh"
    by (simp only: h')
  ultimately show ?thesis using l b vo w
    by (simp add: p Packet_MarshalBinary_def wf_packet_def go_consts Let_def data eh)
qed

lemma ParsePacket_safe: "ParsePacket data m \<noteq> Panic"
  by (auto simp: ParsePacket_def go_consts Let_def parseHeaderPrefix_safe validateOuterPayload_safe obind_Panic_iff)

lemma Packet_MarshalBinary_safe: "Packet_MarshalBinary p m \<noteq> Panic"
  by (auto simp: Packet_MarshalBinary_def Let_def Header_MarshalBinary_safe validateOuterPayload_safe obind_Panic_iff)

interpretation packet_codec: wire_codec wf_packet "\<lambda>data. ParsePacket data m"
    "\<lambda>p. Packet_MarshalBinary p m" for m
  by (unfold_locales; rule packet_parse_marshal packet_marshal_parse ParsePacket_safe
      Packet_MarshalBinary_safe; assumption)

lemma ParsePacket_length:
  assumes "ParsePacket data m = Ret p"
  shows "length data = 32 + unat (PayloadLength (PHeader p)) \<and> parseHeaderPrefix (take 32 data) = Ret (PHeader p)"
  using assms by (auto simp: ParsePacket_def go_consts Let_def split: if_splits)

section \<open>Properties\<close>


text \<open>Datagrams are self-delimiting: no byte string that extends an accepted datagram is
  accepted, so truncation and trailing bytes are always detected.\<close>

lemma packet_self_delimiting:
  assumes "ParsePacket data m = Ret p"
  shows "\<exists>e. ParsePacket (data @ b # rest) m' = Err e"
proof (cases "ParsePacket (data @ b # rest) m'")
  case (Ret q)
  have "length data \<ge> 32" using ParsePacket_length [OF assms] by simp
  then have "PHeader q = PHeader p"
    using ParsePacket_length [OF assms] ParsePacket_length [OF Ret] by simp
  then show ?thesis using ParsePacket_length [OF assms] ParsePacket_length [OF Ret] by simp
qed (use ParsePacket_safe in auto)

definition sample_packet :: Packet where
  "sample_packet =
     \<lparr>PHeader = \<lparr>Version = 1, HKind = 2, Flags = 0, DCID = 7, SCID = 0, PacketNumber = 0,
        PayloadLength = 16, Reserved = 0\<rparr>, Payload = replicate 16 9\<rparr>"

definition sample_datagram :: bytes where
  "sample_datagram = [1, 2, 0, 0, 0, 0, 0, 0, 0, 0, 0, 7, 0, 0, 0, 0, 0, 0, 0, 0, 0, 0, 0, 0, 0, 0, 0, 0,
     0, 16, 0, 0] @ replicate 16 9"

lemma sample_encodings:
  "be64 7 = [0, 0, 0, 0, 0, 0, 0, 7]" "be64 0 = [0, 0, 0, 0, 0, 0, 0, 0]"
  "be16 0 = [0, 0]" "be16 16 = [0, 16]"
  by code_simp+

lemma sample_marshals: "Packet_MarshalBinary sample_packet 0 = Ret sample_datagram"
  by (simp add: Packet_MarshalBinary_def sample_packet_def sample_datagram_def
      normalizeDatagramLimit_def validateOuterPayload_def ParseRetry_def Header_MarshalBinary_def
      Header_validate_def PacketType_valid_def go_consts sample_encodings Let_def)

lemma sample_parses: "ParsePacket sample_datagram 0 = Ret sample_packet"
  by (rule packet_parse_marshal [OF _ sample_marshals]) (simp add: wf_packet_def sample_packet_def)

end
