(* ===== verification/Codec_TLV.thy ===== *)
theory Codec_TLV
  imports Codec_Base "HOL-Library.Multiset"
begin

text \<open>
  \<^verbatim>\<open>internal/codec/tlv.go\<close>: the canonical type-length-value stream inside an encrypted
  handshake payload. \<open>parseTLVs_loop\<close> is the body of \<^verbatim>\<open>ParseTLVs\<close> with its offset and its
  previous type; \<open>marshalCanonical\<close> is the body of \<^verbatim>\<open>MarshalTLVs\<close> after the sort. The sort
  itself (\<^verbatim>\<open>sort.Slice\<close>, which does not promise stability) is \<open>sort_key\<close>; the lemma
  \<open>MarshalTLVs_any_sort\<close> shows that the choice among equal types never matters for success.
  The map \<^verbatim>\<open>seen\<close> of \<^verbatim>\<open>ValidateTLVs\<close> is a partial function.
\<close>

unbundle bit_operations_syntax

section \<open>Definitions\<close>

definition TLVHeaderSize :: nat where "TLVHeaderSize = 3"

definition TLVEgressPolicyVersion :: uint8 where "TLVEgressPolicyVersion = 0x0C"
definition TLVDNSParameters :: uint8 where "TLVDNSParameters = 0x0D"
definition TLVVersion :: uint8 where "TLVVersion = 0x81"
definition TLVDeploymentID :: uint8 where "TLVDeploymentID = 0x82"
definition TLVClientCID :: uint8 where "TLVClientCID = 0x83"
definition TLVServerCID :: uint8 where "TLVServerCID = 0x84"
definition TLVCapabilities :: uint8 where "TLVCapabilities = 0x85"
definition TLVAddressFamilies :: uint8 where "TLVAddressFamilies = 0x86"
definition TLVMaxDatagramSize :: uint8 where "TLVMaxDatagramSize = 0x87"
definition TLVIPv4Lease :: uint8 where "TLVIPv4Lease = 0x88"
definition TLVIPv6Lease :: uint8 where "TLVIPv6Lease = 0x89"
definition TLVTunnelMTU :: uint8 where "TLVTunnelMTU = 0x8A"
definition TLVLeaseSeconds :: uint8 where "TLVLeaseSeconds = 0x8B"
definition TLVClientStaticKey :: uint8 where "TLVClientStaticKey = 0x8C"
definition TLVEnrollmentTokenID :: uint8 where "TLVEnrollmentTokenID = 0x8D"
definition TLVEnrollmentProof :: uint8 where "TLVEnrollmentProof = 0x8E"

lemmas tlv_types =
  TLVEgressPolicyVersion_def TLVDNSParameters_def TLVVersion_def TLVDeploymentID_def
  TLVClientCID_def TLVServerCID_def TLVCapabilities_def TLVAddressFamilies_def
  TLVMaxDatagramSize_def TLVIPv4Lease_def TLVIPv6Lease_def TLVTunnelMTU_def
  TLVLeaseSeconds_def TLVClientStaticKey_def TLVEnrollmentTokenID_def TLVEnrollmentProof_def

definition TLVContextAny :: uint8 where "TLVContextAny = 0"
definition TLVContextInitial :: uint8 where "TLVContextInitial = 1"
definition TLVContextHandshake :: uint8 where "TLVContextHandshake = 2"

lemmas tlv_contexts = TLVContextAny_def TLVContextInitial_def TLVContextHandshake_def

record TLV =
  TType :: uint8
  TValue :: bytes

definition TLV_Critical :: "TLV \<Rightarrow> bool" where
  "TLV_Critical field \<longleftrightarrow> TType field AND 0x80 \<noteq> 0"

definition knownTLV :: "uint8 \<Rightarrow> bool" where
  "knownTLV fieldType \<longleftrightarrow> fieldType = TLVEgressPolicyVersion \<or> fieldType = TLVDNSParameters
     \<or> (fieldType \<ge> TLVVersion \<and> fieldType \<le> TLVEnrollmentProof)"

definition fixedTLVLength :: "uint8 \<Rightarrow> nat option" where
  "fixedTLVLength fieldType =
    (if fieldType \<in> {TLVEgressPolicyVersion, TLVClientCID, TLVServerCID, TLVCapabilities} then Some 8
     else if fieldType \<in> {TLVVersion, TLVAddressFamilies} then Some 1
     else if fieldType \<in> {TLVDeploymentID, TLVEnrollmentTokenID} then Some 16
     else if fieldType \<in> {TLVMaxDatagramSize, TLVTunnelMTU} then Some 2
     else if fieldType = TLVIPv4Lease then Some 5
     else if fieldType = TLVIPv6Lease then Some 17
     else if fieldType = TLVLeaseSeconds then Some 4
     else if fieldType \<in> {TLVClientStaticKey, TLVEnrollmentProof} then Some 32
     else None)"

definition allowedInContext :: "uint8 \<Rightarrow> uint8 \<Rightarrow> bool" where
  "allowedInContext fieldType context =
    (if context = TLVContextInitial then
       fieldType \<in> {TLVVersion, TLVDeploymentID, TLVClientCID, TLVCapabilities,
         TLVAddressFamilies, TLVMaxDatagramSize, TLVClientStaticKey,
         TLVEnrollmentTokenID, TLVEnrollmentProof}
     else if context = TLVContextHandshake then
       fieldType \<in> {TLVEgressPolicyVersion, TLVDNSParameters, TLVVersion,
         TLVDeploymentID, TLVClientCID, TLVServerCID, TLVCapabilities,
         TLVAddressFamilies, TLVMaxDatagramSize, TLVIPv4Lease,
         TLVIPv6Lease, TLVTunnelMTU, TLVLeaseSeconds}
     else False)"

definition validateTLVField :: "TLV \<Rightarrow> int \<Rightarrow> unit codec_result" where
  "validateTLVField field offset =
    (if TLV_Critical field \<and> \<not> knownTLV (TType field) then
       decodeError ErrUnknownCriticalTLV offset ''tlv.type'' (hex2 (TType field))
     else case fixedTLVLength (TType field) of
       Some n \<Rightarrow>
         if length (TValue field) \<noteq> n then
           decodeError ErrTLVLength offset ''tlv.value''
             (''type '' @ hex2 (TType field) @ '' requires '' @ show_nat n @ '' bytes'')
         else Ret ()
     | None \<Rightarrow> Ret ())"

function parseTLVs_loop :: "bytes \<Rightarrow> nat \<Rightarrow> uint8 \<Rightarrow> bool \<Rightarrow> TLV list \<Rightarrow> TLV list codec_result" where
  "parseTLVs_loop data offset previous havePrevious tlvs =
    (if offset < length data then
       if length data - offset < TLVHeaderSize then
         decodeError ErrTruncated (int offset) ''tlv.header'' ''need 3 bytes''
       else obind (index data offset) (\<lambda>fieldType.
         obind (slice data (offset + 1) (offset + 3)) (\<lambda>lb. obind (Uint16 lb) (\<lambda>lw.
         let len = unat lw in
         if havePrevious \<and> fieldType \<le> previous then
           (if fieldType = previous then
              decodeError ErrDuplicateTLV (int offset) ''tlv.type'' (hex2 fieldType)
            else decodeError ErrTLVOrder (int offset) ''tlv.type'' ''types must be strictly increasing'')
         else
           let valueOffset = offset + TLVHeaderSize in
           if len > length data - valueOffset then
             decodeError ErrTruncated (int valueOffset) ''tlv.value''
               (''type '' @ hex2 fieldType @ '' declares '' @ show_nat len @ '' bytes'')
           else obind (slice data valueOffset (valueOffset + len)) (\<lambda>value.
             let field = \<lparr>TType = fieldType, TValue = value\<rparr> in
             obind (validateTLVField field (int offset)) (\<lambda>_.
               parseTLVs_loop data (valueOffset + len) fieldType True (tlvs @ [field]))))))
     else Ret tlvs)"
  by pat_completeness auto
termination
  by (relation "measure (\<lambda>(data, offset, _). length data - offset)") (auto simp: TLVHeaderSize_def)

declare parseTLVs_loop.simps [simp del]

definition ParseTLVs :: "bytes \<Rightarrow> TLV list codec_result" where
  "ParseTLVs data =
    (if int (length data) > MaxUint16 then
       decodeError ErrLimit 0 ''tlv.stream'' ''exceeds uint16''
     else parseTLVs_loop data 0 0 False [])"

fun checkCanonical :: "TLV list \<Rightarrow> uint8 option \<Rightarrow> int \<Rightarrow> int codec_result" where
  "checkCanonical [] prev tot = Ret tot"
| "checkCanonical (field # rest) prev tot =
    (if prev = Some (TType field) then
       decodeError ErrDuplicateTLV (-1) ''tlv.type'' (hex2 (TType field))
     else obind (validateTLVField field (-1)) (\<lambda>_.
       if int (length (TValue field)) > MaxUint16 then
         decodeError ErrTLVLength (-1) ''tlv.value'' ''does not fit uint16''
       else if tot > MaxUint16 - int TLVHeaderSize - int (length (TValue field)) then
         decodeError ErrLength (-1) ''tlv.stream'' ''does not fit uint16''
       else checkCanonical rest (Some (TType field))
              (tot + int TLVHeaderSize + int (length (TValue field)))))"

definition encodeTLV :: "TLV \<Rightarrow> bytes" where
  "encodeTLV field = [TType field] @ be16 (word_of_nat (length (TValue field))) @ TValue field"

definition marshalCanonical :: "TLV list \<Rightarrow> bytes codec_result" where
  "marshalCanonical canonical =
     obind (checkCanonical canonical None 0) (\<lambda>tot. Ret (concat (map encodeTLV canonical)))"

definition cloneTLVs :: "TLV list \<Rightarrow> TLV list" where
  "cloneTLVs tlvs = map (\<lambda>field. \<lparr>TType = TType field, TValue = TValue field\<rparr>) tlvs"

definition MarshalTLVs :: "TLV list \<Rightarrow> bytes codec_result" where
  "MarshalTLVs tlvs = marshalCanonical (sort_key TType (cloneTLVs tlvs))"

fun validateTLVs_loop :: "TLV list \<Rightarrow> uint8 \<Rightarrow> (uint8 \<rightharpoonup> TLV) \<Rightarrow> (uint8 \<rightharpoonup> TLV) codec_result" where
  "validateTLVs_loop [] context seen = Ret seen"
| "validateTLVs_loop (field # rest) context seen =
    (if seen (TType field) \<noteq> None then
       decodeError ErrDuplicateTLV (-1) ''tlv.type'' (hex2 (TType field))
     else obind (validateTLVField field (-1)) (\<lambda>_.
       if context \<noteq> TLVContextAny \<and> knownTLV (TType field)
          \<and> \<not> allowedInContext (TType field) context then
         decodeError ErrTLVContext (-1) ''tlv.type'' (hex2 (TType field) @ '' is not allowed'')
       else validateTLVs_loop rest context (seen(TType field \<mapsto> field))))"

definition requiredTLVs :: "uint8 \<Rightarrow> uint8 list" where
  "requiredTLVs context =
    (if context = TLVContextInitial then
       [TLVVersion, TLVDeploymentID, TLVClientCID, TLVCapabilities,
        TLVAddressFamilies, TLVMaxDatagramSize, TLVClientStaticKey]
     else if context = TLVContextHandshake then
       [TLVVersion, TLVDeploymentID, TLVClientCID, TLVServerCID,
        TLVCapabilities, TLVAddressFamilies, TLVMaxDatagramSize,
        TLVTunnelMTU, TLVLeaseSeconds]
     else [])"

fun requireAll :: "uint8 list \<Rightarrow> (uint8 \<rightharpoonup> TLV) \<Rightarrow> unit codec_result" where
  "requireAll [] seen = Ret ()"
| "requireAll (fieldType # rest) seen =
    (if seen fieldType = None then
       decodeError ErrMissingTLV (-1) ''tlv'' (''missing '' @ hex2 fieldType)
     else requireAll rest seen)"

definition leasePrefixWithin :: "TLV option \<Rightarrow> nat \<Rightarrow> uint8 \<Rightarrow> string \<Rightarrow> string \<Rightarrow> unit codec_result" where
  "leasePrefixWithin lease i bound name detail =
    (case lease of
       None \<Rightarrow> Ret ()
     | Some l \<Rightarrow> obind (index (TValue l) i) (\<lambda>prefix.
         if prefix > bound then decodeError ErrTLVLength (-1) name detail else Ret ()))"

definition ValidateTLVs :: "TLV list \<Rightarrow> uint8 \<Rightarrow> unit codec_result" where
  "ValidateTLVs tlvs context =
    (if context \<noteq> TLVContextAny \<and> context \<noteq> TLVContextInitial \<and> context \<noteq> TLVContextHandshake then
       decodeError ErrTLVContext (-1) ''tlv.context'' ''unknown context''
     else obind (validateTLVs_loop tlvs context Map.empty) (\<lambda>seen.
       if (seen TLVEnrollmentTokenID \<noteq> None) \<noteq> (seen TLVEnrollmentProof \<noteq> None) then
         decodeError ErrTLVContext (-1) ''enrollment'' ''token id and proof must appear together''
       else
       obind (leasePrefixWithin (seen TLVIPv4Lease) 4 32 ''ipv4_lease.prefix'' ''prefix exceeds 32'') (\<lambda>_.
       obind (leasePrefixWithin (seen TLVIPv6Lease) 16 128 ''ipv6_lease.prefix'' ''prefix exceeds 128'') (\<lambda>_.
       obind (requireAll (requiredTLVs context) seen) (\<lambda>_.
       if context = TLVContextHandshake \<and> seen TLVIPv4Lease = None \<and> seen TLVIPv6Lease = None then
         decodeError ErrMissingTLV (-1) ''tlv'' ''HANDSHAKE requires an IPv4 or IPv6 lease''
       else Ret ())))))"

definition ParseTLVsFor :: "bytes \<Rightarrow> uint8 \<Rightarrow> TLV list codec_result" where
  "ParseTLVsFor data context =
     obind (ParseTLVs data) (\<lambda>tlvs. obind (ValidateTLVs tlvs context) (\<lambda>_. Ret tlvs))"

definition MarshalTLVsFor :: "TLV list \<Rightarrow> uint8 \<Rightarrow> bytes codec_result" where
  "MarshalTLVsFor tlvs context =
     obind (ValidateTLVs tlvs context) (\<lambda>_. MarshalTLVs tlvs)"

fun FindTLV :: "TLV list \<Rightarrow> uint8 \<Rightarrow> bytes \<times> bool" where
  "FindTLV [] fieldType = ([], False)"
| "FindTLV (field # rest) fieldType =
     (if TType field = fieldType then (TValue field, True) else FindTLV rest fieldType)"

section \<open>Canonical streams\<close>

definition tlv_ok :: "TLV \<Rightarrow> bool" where
  "tlv_ok field \<longleftrightarrow> (TLV_Critical field \<longrightarrow> knownTLV (TType field))
     \<and> (case fixedTLVLength (TType field) of Some n \<Rightarrow> length (TValue field) = n | None \<Rightarrow> True)"

fun canonical_after :: "uint8 option \<Rightarrow> TLV list \<Rightarrow> bool" where
  "canonical_after prev [] = True"
| "canonical_after prev (field # rest) =
     ((case prev of Some q \<Rightarrow> q < TType field | None \<Rightarrow> True) \<and> tlv_ok field
      \<and> length (TValue field) < 65536 \<and> canonical_after (Some (TType field)) rest)"

definition wf_tlvs :: "TLV list \<Rightarrow> bool" where
  "wf_tlvs tlvs \<longleftrightarrow> sorted_wrt (<) (map TType tlvs)"

lemma validateTLVField_Ret_iff [simp]: "validateTLVField field off = Ret u \<longleftrightarrow> tlv_ok field"
  by (auto simp: validateTLVField_def tlv_ok_def split: option.splits)

lemma validateTLVField_ok [simp]: "tlv_ok field \<Longrightarrow> validateTLVField field off = Ret ()"
  by simp

lemma TLV_eta [simp]: "\<lparr>TType = TType g, TValue = TValue g\<rparr> = g"
  by (cases g) simp

lemma validateTLVField_safe [simp]: "validateTLVField field off \<noteq> Panic"
  by (auto simp: validateTLVField_def split: option.splits)

lemma length_encodeTLV [simp]: "length (encodeTLV field) = 3 + length (TValue field)"
  by (simp add: encodeTLV_def)

lemma canonical_after_mono:
  "canonical_after (Some q) tlvs \<Longrightarrow> \<forall>x \<in> set tlvs. q < TType x"
  by (induction tlvs arbitrary: q) (fastforce intro: less_trans)+

lemma canonical_after_iff:
  "canonical_after None tlvs \<longleftrightarrow> wf_tlvs tlvs \<and> (\<forall>x \<in> set tlvs. tlv_ok x \<and> length (TValue x) < 65536)"
  "canonical_after (Some q) tlvs \<longleftrightarrow> (\<forall>x \<in> set tlvs. q < TType x) \<and> wf_tlvs tlvs
     \<and> (\<forall>x \<in> set tlvs. tlv_ok x \<and> length (TValue x) < 65536)"
proof (induction tlvs arbitrary: q)
  case Nil
  show "canonical_after None [] \<longleftrightarrow> wf_tlvs [] \<and> (\<forall>x \<in> set []. tlv_ok x \<and> length (TValue x) < 65536)"
    and "canonical_after (Some q) [] \<longleftrightarrow> (\<forall>x \<in> set []. q < TType x) \<and> wf_tlvs []
     \<and> (\<forall>x \<in> set []. tlv_ok x \<and> length (TValue x) < 65536)" for q
    by (simp_all add: wf_tlvs_def)
next
  case (Cons f tlvs)
  show "canonical_after None (f # tlvs) \<longleftrightarrow> wf_tlvs (f # tlvs)
      \<and> (\<forall>x \<in> set (f # tlvs). tlv_ok x \<and> length (TValue x) < 65536)"
    using Cons.IH(2) by (auto simp: wf_tlvs_def)
  show "canonical_after (Some q) (f # tlvs) \<longleftrightarrow> (\<forall>x \<in> set (f # tlvs). q < TType x)
      \<and> wf_tlvs (f # tlvs) \<and> (\<forall>x \<in> set (f # tlvs). tlv_ok x \<and> length (TValue x) < 65536)" for q
    using Cons.IH(2) by (auto simp: wf_tlvs_def)
qed

lemma parseTLVs_loop_complete:
  assumes "canonical_after (if hp then Some prev else None) gs"
    and "drop offset data = concat (map encodeTLV gs)" and "offset \<le> length data"
  shows "parseTLVs_loop data offset prev hp acc = Ret (acc @ gs)"
  using assms
proof (induction gs arbitrary: offset prev hp acc)
  case Nil
  then show ?case by (simp add: parseTLVs_loop.simps)
next
  case (Cons g gs)
  from Cons.prems have order: "hp \<Longrightarrow> prev < TType g" and ok: "tlv_ok g" "length (TValue g) < 65536"
    and rest: "canonical_after (Some (TType g)) gs"
    by (auto split: if_splits)
  let ?o = "offset + 3 + length (TValue g)"
  from Cons.prems(2) have d: "drop offset data = [TType g] @ be16 (word_of_nat (length (TValue g)))
      @ TValue g @ concat (map encodeTLV gs)"
    by (simp add: encodeTLV_def [of g])
  note d1 = drop_appendD [OF d Cons.prems(3)]
  from d1 have "drop (offset + 1) data = be16 (word_of_nat (length (TValue g)))
      @ TValue g @ concat (map encodeTLV gs)" "offset + 1 \<le> length data" by simp_all
  note d2 = drop_appendD [OF this]
  then have "drop (offset + 3) data = TValue g @ concat (map encodeTLV gs)" "offset + 3 \<le> length data"
    by (simp_all add: numeral_3_eq_3)
  note d3 = drop_appendD [OF this]
  have nth: "data ! offset = TType g" using d drop_ConsD [of offset data] by simp
  have "parseTLVs_loop data ?o (TType g) True (acc @ [g]) = Ret ((acc @ [g]) @ gs)"
    using rest d3 by (intro Cons.IH) (simp_all add: add.assoc)
  with order ok d1 d2 d3 nth show ?case
    by (subst parseTLVs_loop.simps)
      (auto simp: TLVHeaderSize_def Let_def unat_word_of_nat16 not_le add.commute add.left_commute)
qed

lemma parseTLVs_loop_sound:
  assumes "parseTLVs_loop data offset prev hp acc = Ret tlvs" and "offset \<le> length data"
  shows "\<exists>gs. tlvs = acc @ gs \<and> drop offset data = concat (map encodeTLV gs)
     \<and> canonical_after (if hp then Some prev else None) gs"
  using assms
proof (induction "length data - offset" arbitrary: offset prev hp acc rule: less_induct)
  case less
  show ?case
  proof (cases "offset < length data")
    case False
    with less.prems show ?thesis
      by (auto simp: parseTLVs_loop.simps [of data offset] intro!: exI [of _ "[]"])
  next
    case True
    let ?lw = "word_of_nat (be_val (take 2 (drop (offset + 1) data))) :: uint16"
    let ?f = "\<lparr>TType = data ! offset, TValue = take (unat ?lw) (drop (offset + 3) data)\<rparr>"
    let ?o = "offset + 3 + unat ?lw"
    from less.prems(1) True have len: "offset + 3 \<le> length data" "?o \<le> length data"
      and ord: "hp \<Longrightarrow> prev < data ! offset" and ok: "tlv_ok ?f"
      and rec: "parseTLVs_loop data ?o (data ! offset) True (acc @ [?f]) = Ret tlvs"
      by (auto simp: parseTLVs_loop.simps [of data offset] TLVHeaderSize_def Let_def Uint16_ok
          add.commute add.left_commute split: if_splits)
    have fl: "length (TValue ?f) = unat ?lw" using len by simp
    have "length data - ?o < length data - offset" using len True by linarith
    from less.hyps [OF this rec] len obtain gs where gs: "tlvs = (acc @ [?f]) @ gs"
      "drop ?o data = concat (map encodeTLV gs)" "canonical_after (Some (TType ?f)) gs"
      by auto
    have "be16 (word_of_nat (unat ?lw)) = take 2 (drop (offset + 1) data)"
      using len be16_val [of "take 2 (drop (offset + 1) data)"] by simp
    then have enc: "encodeTLV ?f = [data ! offset] @ take 2 (drop (offset + 1) data)
        @ take (unat ?lw) (drop (offset + 3) data)"
      by (simp only: encodeTLV_def fl) simp
    have "drop offset data = encodeTLV ?f @ drop ?o data"
      using append_take_drop_id [of "unat ?lw" "drop (offset + 3) data"]
        append_take_drop_id [of 2 "drop (offset + 1) data"] Cons_nth_drop_Suc [OF True]
      by (simp only: enc) (simp add: numeral_3_eq_3 add.commute)
    with gs ord ok fl unat_uint16_bound [of ?lw] show ?thesis
      by (intro exI [of _ "?f # gs"]) (auto simp del: unat_of_nat)
  qed
qed

theorem ParseTLVs_iff:
  "ParseTLVs data = Ret tlvs \<longleftrightarrow> length data \<le> 65535 \<and> data = concat (map encodeTLV tlvs)
     \<and> canonical_after None tlvs"
  using parseTLVs_loop_sound [of data 0 0 False "[]" tlvs]
    parseTLVs_loop_complete [of False 0 tlvs 0 data "[]"]
  by (auto simp: ParseTLVs_def go_consts)

section \<open>Marshalling\<close>

lemma cloneTLVs_id [simp]: "cloneTLVs tlvs = tlvs"
  by (simp add: cloneTLVs_def)

lemma checkCanonical_Ret_iff:
  assumes "sorted (map TType cs)" and "\<And>q x. prev = Some q \<Longrightarrow> x \<in> set cs \<Longrightarrow> q \<le> TType x"
    and "0 \<le> tot" and "tot \<le> 65535"
  shows "checkCanonical cs prev tot = Ret t \<longleftrightarrow> canonical_after prev cs
     \<and> t = tot + int (length (concat (map encodeTLV cs))) \<and> t \<le> 65535"
  using assms
proof (induction cs arbitrary: prev tot)
  case Nil
  then show ?case by auto
next
  case (Cons c cs)
  have le: "\<And>q x. Some (TType c) = Some q \<Longrightarrow> x \<in> set cs \<Longrightarrow> q \<le> TType x"
    using Cons.prems(1) by simp
  have prev: "prev \<noteq> Some (TType c) \<longleftrightarrow> (case prev of Some q \<Rightarrow> q < TType c | None \<Rightarrow> True)"
    using Cons.prems(2) [of _ c] by (cases prev) (auto simp: less_le)
  let ?tot = "tot + 3 + int (length (TValue c))"
  show ?case
  proof (cases "?tot \<le> 65535")
    case True
    have "checkCanonical cs (Some (TType c)) ?tot = Ret t \<longleftrightarrow> canonical_after (Some (TType c)) cs
       \<and> t = ?tot + int (length (concat (map encodeTLV cs))) \<and> t \<le> 65535"
      using Cons.prems True le by (intro Cons.IH) auto
    moreover have "length (TValue c) < 65536" using True Cons.prems(3) by linarith
    ultimately show ?thesis using True prev
      by (auto simp: obind_Ret_iff go_consts TLVHeaderSize_def algebra_simps)
  next
    case False
    then show ?thesis by (auto simp: obind_Ret_iff go_consts TLVHeaderSize_def)
  qed
qed

lemma marshalCanonical_Ret_iff:
  assumes "sorted (map TType cs)"
  shows "marshalCanonical cs = Ret data \<longleftrightarrow> canonical_after None cs
     \<and> data = concat (map encodeTLV cs) \<and> length data \<le> 65535"
  using checkCanonical_Ret_iff [OF assms, of None 0]
  by (auto simp: marshalCanonical_def obind_Ret_iff)

lemma wf_tlvs_sorted: "wf_tlvs tlvs \<Longrightarrow> sorted (map TType tlvs) \<and> distinct (map TType tlvs)"
  by (simp add: wf_tlvs_def strict_sorted_iff)

lemma wf_tlvs_iff: "wf_tlvs tlvs \<longleftrightarrow> sorted (map TType tlvs) \<and> distinct (map TType tlvs)"
  by (auto simp: wf_tlvs_def strict_sorted_iff)

lemma sort_key_wf_tlvs: "wf_tlvs tlvs \<Longrightarrow> sort_key TType tlvs = tlvs"
  by (simp add: wf_tlvs_sorted sort_key_id_if_sorted)

theorem MarshalTLVs_Ret_iff:
  "MarshalTLVs tlvs = Ret data \<longleftrightarrow> canonical_after None (sort_key TType tlvs)
     \<and> data = concat (map encodeTLV (sort_key TType tlvs)) \<and> length data \<le> 65535"
  by (simp add: MarshalTLVs_def marshalCanonical_Ret_iff)

lemma sorted_permutation_unique:
  assumes "mset cs = mset tlvs" and "sorted (map TType cs)" and "distinct (map TType tlvs)"
  shows "cs = sort_key TType tlvs"
proof -
  have "inj_on TType (set tlvs)" using assms(3) by (simp add: distinct_map)
  from sort_key_inj_key_eq [OF assms(1) [symmetric] this assms(2)] show ?thesis ..
qed

text \<open>
  Whatever permutation sorted by type \<^verbatim>\<open>sort.Slice\<close> returns, marshalling succeeds for the same
  field lists and with the same bytes.
\<close>

lemma MarshalTLVs_any_sort:
  assumes "mset cs = mset tlvs" and "sorted (map TType cs)"
  shows "marshalCanonical cs = Ret data \<longleftrightarrow> MarshalTLVs tlvs = Ret data"
proof (cases "distinct (map TType tlvs)")
  case True
  with assms show ?thesis by (simp add: MarshalTLVs_def sorted_permutation_unique [symmetric])
next
  case False
  have "mset (map TType cs) = mset (map TType tlvs)"
    and "mset (map TType (sort_key TType tlvs)) = mset (map TType tlvs)"
    using assms(1) by simp_all
  then have "\<not> distinct (map TType cs)" and "\<not> distinct (map TType (sort_key TType tlvs))"
    using False mset_eq_imp_distinct_iff by blast+
  then show ?thesis
    by (simp add: MarshalTLVs_Ret_iff marshalCanonical_Ret_iff [OF assms(2)] canonical_after_iff wf_tlvs_iff)
qed

section \<open>Safety and the codec contract\<close>

lemma parseTLVs_loop_safe: "parseTLVs_loop data offset prev hp acc \<noteq> Panic"
proof (induction "length data - offset" arbitrary: offset prev hp acc rule: less_induct)
  case less
  have "parseTLVs_loop data (offset + 3 + n) q True a \<noteq> Panic" if "offset < length data" for n q a
    using that by (intro less.hyps) auto
  then show ?case
    by (auto simp: parseTLVs_loop.simps [of data offset] obind_Panic_iff TLVHeaderSize_def Let_def
        slice_Ret_iff)
qed

lemma ParseTLVs_safe: "ParseTLVs data \<noteq> Panic"
  by (simp add: ParseTLVs_def parseTLVs_loop_safe)

lemma checkCanonical_safe: "checkCanonical cs prev tot \<noteq> Panic"
  by (induction cs prev tot rule: checkCanonical.induct) (auto simp: obind_Panic_iff)

lemma MarshalTLVs_safe: "MarshalTLVs tlvs \<noteq> Panic"
  by (simp add: MarshalTLVs_def marshalCanonical_def obind_Panic_iff checkCanonical_safe)

interpretation tlv_codec: wire_codec wf_tlvs ParseTLVs MarshalTLVs
proof
  fix tlvs data
  show "MarshalTLVs tlvs = Ret data \<Longrightarrow> ParseTLVs data = Ret tlvs" if "wf_tlvs tlvs"
    using that by (auto simp: MarshalTLVs_Ret_iff ParseTLVs_iff sort_key_wf_tlvs)
  show "wf_tlvs tlvs \<and> MarshalTLVs tlvs = Ret data" if "ParseTLVs data = Ret tlvs"
    using that by (auto simp: MarshalTLVs_Ret_iff ParseTLVs_iff canonical_after_iff sort_key_wf_tlvs)
qed (simp_all add: ParseTLVs_safe MarshalTLVs_safe)

section \<open>Validation by context\<close>

definition tlv_map :: "TLV list \<Rightarrow> (uint8 \<rightharpoonup> TLV)" where
  "tlv_map tlvs = map_of (map (\<lambda>x. (TType x, x)) tlvs)"

lemma dom_tlv_map: "dom (tlv_map tlvs) = TType ` set tlvs"
  by (simp add: tlv_map_def dom_map_of_conv_image_fst image_image)

lemma tlv_map_simps: "tlv_map [] = Map.empty" "tlv_map (f # tlvs) = (tlv_map tlvs)(TType f \<mapsto> f)"
  by (simp_all add: tlv_map_def)

lemma tlv_map_None: "tlv_map tlvs t = None \<longleftrightarrow> t \<notin> TType ` set tlvs"
  by (simp add: dom_tlv_map [symmetric] domIff)

lemma tlv_map_SomeD: "tlv_map tlvs t = Some f \<Longrightarrow> f \<in> set tlvs \<and> TType f = t"
  unfolding tlv_map_def by (drule map_of_SomeD) auto

definition allowed_tlv :: "uint8 \<Rightarrow> TLV \<Rightarrow> bool" where
  "allowed_tlv context f \<longleftrightarrow> tlv_ok f \<and>
     (context \<noteq> TLVContextAny \<and> knownTLV (TType f) \<longrightarrow> allowedInContext (TType f) context)"

lemma validateTLVs_loop_Ret_iff:
  "validateTLVs_loop tlvs context seen = Ret seen' \<longleftrightarrow>
     (\<forall>x \<in> set tlvs. allowed_tlv context x) \<and> distinct (map TType tlvs)
     \<and> (\<forall>x \<in> set tlvs. seen (TType x) = None) \<and> seen' = seen ++ tlv_map tlvs"
proof (induction tlvs arbitrary: seen)
  case Nil
  then show ?case by (auto simp: tlv_map_simps)
next
  case (Cons f tlvs)
  have step: "validateTLVs_loop (f # tlvs) context seen = Ret seen' \<longleftrightarrow> seen (TType f) = None
      \<and> allowed_tlv context f \<and> validateTLVs_loop tlvs context (seen(TType f \<mapsto> f)) = Ret seen'"
    by (auto simp: obind_Ret_iff allowed_tlv_def)
  show ?case
  proof (cases "TType f \<in> TType ` set tlvs")
    case True
    then show ?thesis by (simp only: step Cons.IH) auto
  next
    case False
    then have "(seen(TType f \<mapsto> f)) ++ tlv_map tlvs = seen ++ (tlv_map (f # tlvs))"
      by (simp add: map_add_upd_left dom_tlv_map tlv_map_simps)
    with False show ?thesis by (simp only: step Cons.IH) (auto simp: image_iff)
  qed
qed

lemma requireAll_Ret_iff: "requireAll ts seen = Ret u \<longleftrightarrow> (\<forall>t \<in> set ts. seen t \<noteq> None)"
  by (induction ts) auto

lemma leasePrefixWithin_Ret_iff:
  "leasePrefixWithin lease i bound name detail = Ret u \<longleftrightarrow>
     (\<forall>l. lease = Some l \<longrightarrow> i < length (TValue l) \<and> TValue l ! i \<le> bound)"
  by (auto simp: leasePrefixWithin_def obind_Ret_iff index_Ret_iff not_less split: option.splits)

definition context_ok :: "TLV list \<Rightarrow> uint8 \<Rightarrow> bool" where
  "context_ok tlvs context \<longleftrightarrow>
     context \<in> {TLVContextAny, TLVContextInitial, TLVContextHandshake}
     \<and> (\<forall>x \<in> set tlvs. allowed_tlv context x) \<and> distinct (map TType tlvs)
     \<and> (TLVEnrollmentTokenID \<in> TType ` set tlvs \<longleftrightarrow> TLVEnrollmentProof \<in> TType ` set tlvs)
     \<and> (\<forall>x \<in> set tlvs. TType x = TLVIPv4Lease \<longrightarrow> TValue x ! 4 \<le> 32)
     \<and> (\<forall>x \<in> set tlvs. TType x = TLVIPv6Lease \<longrightarrow> TValue x ! 16 \<le> 128)
     \<and> set (requiredTLVs context) \<subseteq> TType ` set tlvs
     \<and> (context = TLVContextHandshake \<longrightarrow>
          TLVIPv4Lease \<in> TType ` set tlvs \<or> TLVIPv6Lease \<in> TType ` set tlvs)"

lemma tlv_ok_length: "tlv_ok f \<Longrightarrow> fixedTLVLength (TType f) = Some n \<Longrightarrow> length (TValue f) = n"
  by (simp add: tlv_ok_def)

lemma fixedTLVLength_simps [simp]:
  "fixedTLVLength TLVEgressPolicyVersion = Some 8" "fixedTLVLength TLVClientCID = Some 8"
  "fixedTLVLength TLVServerCID = Some 8" "fixedTLVLength TLVCapabilities = Some 8"
  "fixedTLVLength TLVVersion = Some 1" "fixedTLVLength TLVAddressFamilies = Some 1"
  "fixedTLVLength TLVDeploymentID = Some 16" "fixedTLVLength TLVEnrollmentTokenID = Some 16"
  "fixedTLVLength TLVMaxDatagramSize = Some 2" "fixedTLVLength TLVTunnelMTU = Some 2"
  "fixedTLVLength TLVIPv4Lease = Some 5" "fixedTLVLength TLVIPv6Lease = Some 17"
  "fixedTLVLength TLVLeaseSeconds = Some 4" "fixedTLVLength TLVClientStaticKey = Some 32"
  "fixedTLVLength TLVEnrollmentProof = Some 32" "fixedTLVLength TLVDNSParameters = None"
  by (simp_all add: fixedTLVLength_def tlv_types)

lemma tlv_map_eq_Some:
  "distinct (map TType tlvs) \<Longrightarrow> tlv_map tlvs t = Some f \<longleftrightarrow> f \<in> set tlvs \<and> TType f = t"
  unfolding tlv_map_def by (subst map_of_eq_Some_iff) (auto simp: comp_def)

lemma lease_prefix_iff:
  assumes "\<forall>x \<in> set tlvs. allowed_tlv context x" and "distinct (map TType tlvs)"
    and "fixedTLVLength t = Some n" and "i < n"
  shows "leasePrefixWithin (tlv_map tlvs t) i bound name detail = Ret u \<longleftrightarrow>
     (\<forall>x \<in> set tlvs. TType x = t \<longrightarrow> TValue x ! i \<le> bound)"
proof -
  have "length (TValue x) = n" if "x \<in> set tlvs" "TType x = t" for x
    using that assms(1,3) tlv_ok_length by (auto simp: allowed_tlv_def)
  with assms(2,4) show ?thesis
    by (simp add: leasePrefixWithin_Ret_iff tlv_map_eq_Some) blast
qed

theorem ValidateTLVs_Ret_iff: "ValidateTLVs tlvs context = Ret () \<longleftrightarrow> context_ok tlvs context"
proof (cases "context \<in> {TLVContextAny, TLVContextInitial, TLVContextHandshake}
    \<and> (\<forall>x \<in> set tlvs. allowed_tlv context x) \<and> distinct (map TType tlvs)")
  case True
  then have loop: "validateTLVs_loop tlvs context Map.empty = Ret (tlv_map tlvs)"
    by (simp add: validateTLVs_loop_Ret_iff)
  from True have "\<forall>x \<in> set tlvs. allowed_tlv context x" "distinct (map TType tlvs)" by auto
  note lease = lease_prefix_iff [OF this]
  have "ValidateTLVs tlvs context = Ret () \<longleftrightarrow>
      (TLVEnrollmentTokenID \<in> TType ` set tlvs \<longleftrightarrow> TLVEnrollmentProof \<in> TType ` set tlvs)
      \<and> (\<forall>x \<in> set tlvs. TType x = TLVIPv4Lease \<longrightarrow> TValue x ! 4 \<le> 32)
      \<and> (\<forall>x \<in> set tlvs. TType x = TLVIPv6Lease \<longrightarrow> TValue x ! 16 \<le> 128)
      \<and> (\<forall>t \<in> set (requiredTLVs context). tlv_map tlvs t \<noteq> None)
      \<and> \<not> (context = TLVContextHandshake \<and> TLVIPv4Lease \<notin> TType ` set tlvs
           \<and> TLVIPv6Lease \<notin> TType ` set tlvs)"
    using True
    by (simp only: ValidateTLVs_def loop obind_Ret_iff obind.simps lease requireAll_Ret_iff
        decode_guard tlv_map_None fixedTLVLength_simps) auto
  moreover have "(\<forall>t \<in> set (requiredTLVs context). tlv_map tlvs t \<noteq> None) \<longleftrightarrow>
      set (requiredTLVs context) \<subseteq> TType ` set tlvs"
    by (simp only: tlv_map_None subset_iff) blast
  ultimately show ?thesis using True unfolding context_ok_def by blast
next
  case False
  then have "\<not> context_ok tlvs context" unfolding context_ok_def by blast
  moreover have "context \<notin> {TLVContextAny, TLVContextInitial, TLVContextHandshake}
      \<or> validateTLVs_loop tlvs context Map.empty \<noteq> Ret seen" for seen
    using False validateTLVs_loop_Ret_iff [of tlvs "context" Map.empty seen] by blast
  then have "ValidateTLVs tlvs context \<noteq> Ret ()"
    unfolding ValidateTLVs_def decode_guard obind_Ret_iff by blast
  ultimately show ?thesis by blast
qed

lemma validateTLVs_loop_safe: "validateTLVs_loop tlvs context seen \<noteq> Panic"
  by (induction tlvs arbitrary: seen) (auto simp: obind_Panic_iff)

lemma requireAll_safe: "requireAll ts seen \<noteq> Panic"
  by (induction ts) auto

lemma lease_prefix_safe:
  assumes "\<forall>x \<in> set tlvs. allowed_tlv context x" and "fixedTLVLength t = Some n" and "i < n"
  shows "leasePrefixWithin (tlv_map tlvs t) i bound name detail \<noteq> Panic"
proof (cases "tlv_map tlvs t")
  case None
  then show ?thesis by (simp add: leasePrefixWithin_def)
next
  case (Some f)
  with assms have "length (TValue f) = n"
    using tlv_map_SomeD [OF Some] tlv_ok_length [of f n] by (auto simp: allowed_tlv_def)
  with Some assms(3) show ?thesis by (simp add: leasePrefixWithin_def)
qed

theorem ValidateTLVs_safe: "ValidateTLVs tlvs context \<noteq> Panic"
proof (cases "\<forall>x \<in> set tlvs. allowed_tlv context x")
  case True
  note lease = lease_prefix_safe [OF True]
  show ?thesis
    by (simp add: ValidateTLVs_def obind_Panic_iff validateTLVs_loop_safe requireAll_safe
        validateTLVs_loop_Ret_iff lease)
next
  case False
  then have "validateTLVs_loop tlvs context Map.empty \<noteq> Ret seen" for seen
    using validateTLVs_loop_Ret_iff [of tlvs "context" Map.empty seen] by blast
  then show ?thesis
    unfolding ValidateTLVs_def decode_guard obind_Panic_iff using validateTLVs_loop_safe by blast
qed

lemma FindTLV_map: "FindTLV tlvs t = (case tlv_map tlvs t of Some f \<Rightarrow> (TValue f, True) | None \<Rightarrow> ([], False))"
  by (induction tlvs) (auto simp: tlv_map_simps)

lemma FindTLV_present:
  assumes "t \<in> TType ` set tlvs" and "\<forall>x \<in> set tlvs. tlv_ok x" and "fixedTLVLength t = Some n"
  obtains v where "FindTLV tlvs t = (v, True)" and "length v = n"
proof -
  from assms(1) obtain f where "tlv_map tlvs t = Some f" by (metis not_None_eq tlv_map_None)
  moreover have "length (TValue f) = n"
    using tlv_map_SomeD [OF calculation] assms(2,3) tlv_ok_length [of f n] by simp
  ultimately show ?thesis using that by (simp add: FindTLV_map)
qed

section \<open>Properties\<close>

text \<open>C16. TLV streams are canonical: \<^verbatim>\<open>ParseTLVs\<close> accepts a byte string exactly when it is what
  \<^verbatim>\<open>MarshalTLVs\<close> produces from the fields it returns, and those are in strictly increasing
  order of type.\<close>

theorem tlv_canonical: "ParseTLVs data = Ret tlvs \<longleftrightarrow> wf_tlvs tlvs \<and> MarshalTLVs tlvs = Ret data"
  by (rule tlv_codec.parse_iff_marshal)

text \<open>Marshalling does not depend on the order in which the caller lists the fields, nor on
  which sorted permutation the unstable \<^verbatim>\<open>sort.Slice\<close> picks: two lists with the same fields
  marshal to the same bytes or are both rejected.\<close>

theorem tlv_order_irrelevant:
  assumes "mset tlvs = mset tlvs'"
  shows "MarshalTLVs tlvs = Ret data \<longleftrightarrow> MarshalTLVs tlvs' = Ret data"
proof -
  have "mset (sort_key TType tlvs') = mset tlvs" "sorted (map TType (sort_key TType tlvs'))"
    using assms by simp_all
  from MarshalTLVs_any_sort [OF this] show ?thesis by (simp add: MarshalTLVs_def [of tlvs'])
qed

definition sample_fields :: "TLV list" where
  "sample_fields = [\<lparr>TType = TLVServerCID, TValue = replicate 8 1\<rparr>, \<lparr>TType = TLVVersion, TValue = [1]\<rparr>]"

theorem tlv_order_irrelevant_witness:
  "MarshalTLVs sample_fields = Ret ([0x81, 0, 1, 1, 0x84, 0, 8] @ replicate 8 1)
   \<and> MarshalTLVs (rev sample_fields) = Ret ([0x81, 0, 1, 1, 0x84, 0, 8] @ replicate 8 1)"
proof -
  have "be16 1 = [0, 1]" "be16 8 = [0, 8]" by code_simp+
  moreover have "knownTLV 0x81" "knownTLV 0x84" by (simp_all add: knownTLV_def tlv_types)
  ultimately have "MarshalTLVs sample_fields = Ret ([0x81, 0, 1, 1, 0x84, 0, 8] @ replicate 8 1)"
    by (simp add: MarshalTLVs_def marshalCanonical_def cloneTLVs_def sample_fields_def validateTLVField_def
        go_consts TLVHeaderSize_def encodeTLV_def) (simp add: tlv_types)
  then show ?thesis using tlv_order_irrelevant [of sample_fields "rev sample_fields"] by simp
qed


end
