(* ===== verification/Codec_Frame.thy ===== *)
theory Codec_Frame
  imports Codec_Base
begin

text \<open>
  \<^verbatim>\<open>internal/codec/frame.go\<close>: the frames inside an authenticated TRANSPORT plaintext, their
  parser and canonical encoder, the rules on a single frame (\<^verbatim>\<open>validateFrame\<close>, with the length
  fields of an inner IP packet and the UTF-8 text of a CLOSE) and on the frames of one
  plaintext (\<^verbatim>\<open>validateFrameCombination\<close>). A Go string is its bytes; \<open>utf8_Valid\<close> is the
  acceptance automaton of \<^verbatim>\<open>unicode/utf8\<close> (shortest forms only, no surrogates, at most U+10FFFF).
\<close>

unbundle bit_operations_syntax

section \<open>UTF-8\<close>

definition utf8_cont :: "byte \<Rightarrow> bool" where
  "utf8_cont b \<longleftrightarrow> 0x80 \<le> b \<and> b \<le> 0xBF"

fun utf8_Valid :: "bytes \<Rightarrow> bool" where
  "utf8_Valid [] = True"
| "utf8_Valid (b0 # r) =
    (if b0 < 0x80 then utf8_Valid r
     else if b0 < 0xC2 then False
     else if b0 \<le> 0xDF then
       (case r of b1 # r1 \<Rightarrow> utf8_cont b1 \<and> utf8_Valid r1 | _ \<Rightarrow> False)
     else if b0 \<le> 0xEF then
       (case r of b1 # b2 # r2 \<Rightarrow>
          utf8_cont b1 \<and> (b0 = 0xE0 \<longrightarrow> 0xA0 \<le> b1) \<and> (b0 = 0xED \<longrightarrow> b1 \<le> 0x9F)
          \<and> utf8_cont b2 \<and> utf8_Valid r2 | _ \<Rightarrow> False)
     else if b0 \<le> 0xF4 then
       (case r of b1 # b2 # b3 # r3 \<Rightarrow>
          utf8_cont b1 \<and> (b0 = 0xF0 \<longrightarrow> 0x90 \<le> b1) \<and> (b0 = 0xF4 \<longrightarrow> b1 \<le> 0x8F)
          \<and> utf8_cont b2 \<and> utf8_cont b3 \<and> utf8_Valid r3 | _ \<Rightarrow> False)
     else False)"

section \<open>Definitions\<close>

definition FrameHeaderSize :: nat where "FrameHeaderSize = 4"
definition DefaultMaxFramePlaintext :: int where
  "DefaultMaxFramePlaintext = DefaultMaxDatagramSize - int HeaderSize - int AEADTagSize"
definition DefaultMaxCloseTextLength :: nat where "DefaultMaxCloseTextLength = 256"
definition ConfirmBodySize :: nat where "ConfirmBodySize = 32"
definition ChallengeBodySize :: nat where "ChallengeBodySize = 8"

definition FrameIPPacket :: uint8 where "FrameIPPacket = 0x01"
definition FrameConfirm :: uint8 where "FrameConfirm = 0x02"
definition FramePing :: uint8 where "FramePing = 0x03"
definition FramePong :: uint8 where "FramePong = 0x04"
definition FramePathChallenge :: uint8 where "FramePathChallenge = 0x05"
definition FramePathResponse :: uint8 where "FramePathResponse = 0x06"
definition FrameLeaseUpdate :: uint8 where "FrameLeaseUpdate = 0x07"
definition FrameClose :: uint8 where "FrameClose = 0x08"

lemmas frame_types =
  FrameIPPacket_def FrameConfirm_def FramePing_def FramePong_def FramePathChallenge_def
  FramePathResponse_def FrameLeaseUpdate_def FrameClose_def

lemmas frame_consts [go_consts] =
  FrameHeaderSize_def DefaultMaxFramePlaintext_def DefaultMaxCloseTextLength_def
  ConfirmBodySize_def ChallengeBodySize_def

definition FrameType_valid :: "uint8 \<Rightarrow> bool" where
  "FrameType_valid frameType \<longleftrightarrow> frameType \<ge> FrameIPPacket \<and> frameType \<le> FrameClose"

record Frame =
  FType :: uint8
  FFlags :: uint8
  FBody :: bytes

definition normalizeFrameLimit :: "int \<Rightarrow> int codec_result" where
  "normalizeFrameLimit limit =
    (if limit = 0 then Ret DefaultMaxFramePlaintext
     else if limit < int FrameHeaderSize \<or> limit > MaxUint16 then
       decodeError ErrLimit (-1) ''max_frame_plaintext'' ''must be 4..65535''
     else Ret limit)"

definition EncodeClose :: "uint16 \<Rightarrow> bytes \<Rightarrow> bytes codec_result" where
  "EncodeClose reason diagnostic =
    (if \<not> utf8_Valid diagnostic then decodeError ErrUTF8 (-1) ''close.diagnostic'' ''invalid UTF-8''
     else if length diagnostic > DefaultMaxCloseTextLength then
       decodeError ErrLimit (-1) ''close.diagnostic'' ''exceeds implementation limit''
     else Ret (be16 reason @ diagnostic))"

definition DecodeClose :: "bytes \<Rightarrow> (uint16 \<times> bytes) codec_result" where
  "DecodeClose body =
    (if length body < 2 then
       decodeError ErrTruncated (int (length body)) ''close.reason'' ''need uint16''
     else if length body - 2 > DefaultMaxCloseTextLength then
       decodeError ErrLimit 2 ''close.diagnostic'' ''exceeds implementation limit''
     else obind (slice_from body 2) (\<lambda>txt.
       if \<not> utf8_Valid txt then decodeError ErrUTF8 2 ''close.diagnostic'' ''invalid UTF-8''
       else obind (slice body 0 2) (\<lambda>rb. obind (Uint16 rb) (\<lambda>reason. Ret (reason, txt)))))"

definition validateIPPacket :: "bytes \<Rightarrow> int \<Rightarrow> unit codec_result" where
  "validateIPPacket packet offset =
    (if length packet = 0 then decodeError ErrIPPacket offset ''ip_packet'' ''empty packet''
     else obind (index packet 0) (\<lambda>b0.
       if drop_bit 4 b0 = 4 then
         if length packet < 20 then
           decodeError ErrIPPacket offset ''ipv4'' ''shorter than minimum header''
         else
           let headerLength = unat (b0 AND 0x0F) * 4 in
           if headerLength < 20 \<or> headerLength > length packet then
             decodeError ErrIPPacket offset ''ipv4.ihl'' ''invalid header length''
           else obind (slice packet 2 4) (\<lambda>lb. obind (Uint16 lb) (\<lambda>lw.
             let totalLength = unat lw in
             if totalLength \<noteq> length packet then
               decodeError ErrIPPacket (offset + 2) ''ipv4.total_length''
                 (''declares '' @ show_nat totalLength @ '', frame has '' @ show_nat (length packet))
             else Ret ()))
       else if drop_bit 4 b0 = 6 then
         if length packet < 40 then
           decodeError ErrIPPacket offset ''ipv6'' ''shorter than fixed header''
         else obind (slice packet 4 6) (\<lambda>lb. obind (Uint16 lb) (\<lambda>lw.
           let totalLength = 40 + unat lw in
           if totalLength \<noteq> length packet then
             decodeError ErrIPPacket (offset + 4) ''ipv6.payload_length''
               (''declares total '' @ show_nat totalLength @ '', frame has '' @ show_nat (length packet))
           else Ret ()))
       else decodeError ErrIPPacket offset ''ip.version'' ''only IPv4 and IPv6 are accepted''))"

definition validateFrame :: "Frame \<Rightarrow> int \<Rightarrow> unit codec_result" where
  "validateFrame frame offset =
    (if \<not> FrameType_valid (FType frame) then
       decodeError ErrUnknownFrameType offset ''frame_type'' (hex2 (FType frame))
     else if FFlags frame \<noteq> 0 then
       decodeError ErrFrameFlags (offset + 1) ''frame_flags'' ''version 1 requires zero''
     else if FType frame = FrameIPPacket then
       validateIPPacket (FBody frame) (offset + int FrameHeaderSize)
     else if FType frame = FrameConfirm then
       if length (FBody frame) \<noteq> ConfirmBodySize then
         decodeError ErrLength (offset + int FrameHeaderSize) ''confirm'' ''requires 32-byte th2''
       else Ret ()
     else if FType frame = FramePing \<or> FType frame = FramePong then
       if length (FBody frame) \<noteq> ChallengeBodySize then
         decodeError ErrLength (offset + int FrameHeaderSize) ''challenge'' ''requires 8 bytes''
       else Ret ()
     else if FType frame = FrameClose then
       obind (DecodeClose (FBody frame)) (\<lambda>_. Ret ())
     else Ret ())"

fun findConfirm :: "Frame list \<Rightarrow> int \<Rightarrow> int \<Rightarrow> int codec_result" where
  "findConfirm [] i confirmIndex = Ret confirmIndex"
| "findConfirm (frame # rest) i confirmIndex =
    (if FType frame = FrameConfirm then
       if confirmIndex \<ge> 0 then
         decodeError ErrFrameConstraint (-1) ''frames'' ''CONFIRM cannot be duplicated''
       else findConfirm rest (i + 1) i
     else findConfirm rest (i + 1) confirmIndex)"

definition validateFrameCombination :: "Frame list \<Rightarrow> unit codec_result" where
  "validateFrameCombination frames =
    (let ipPackets = length (filter (\<lambda>frame. FType frame = FrameIPPacket) frames) in
     obind (findConfirm frames 0 (-1)) (\<lambda>confirmIndex.
       if ipPackets > 1 then
         decodeError ErrFrameConstraint (-1) ''frames'' ''at most one IP_PACKET is allowed''
       else if ipPackets = 1 \<and> length frames \<noteq> 1 then
         decodeError ErrFrameConstraint (-1) ''frames'' ''IP_PACKET cannot be combined with control frames''
       else if confirmIndex \<ge> 0
            \<and> (length frames \<noteq> 2 \<or> confirmIndex \<noteq> 0 \<or> FType (frames ! 1) \<noteq> FramePing) then
         decodeError ErrFrameConstraint (-1) ''frames''
           ''CONFIRM must be followed by PING in the same two-frame plaintext''
       else Ret ()))"

function parseFrames_loop :: "bytes \<Rightarrow> nat \<Rightarrow> Frame list \<Rightarrow> Frame list codec_result" where
  "parseFrames_loop data offset frames =
    (if offset < length data then
       if length data - offset < FrameHeaderSize then
         decodeError ErrTruncated (int offset) ''frame.header'' ''need 4 bytes''
       else obind (index data offset) (\<lambda>frameType. obind (index data (offset + 1)) (\<lambda>flags.
         obind (slice data (offset + 2) (offset + 4)) (\<lambda>lb. obind (Uint16 lb) (\<lambda>lw.
         let len = unat lw in
         if \<not> FrameType_valid frameType then
           decodeError ErrUnknownFrameType (int offset) ''frame_type'' (hex2 frameType)
         else if flags \<noteq> 0 then
           decodeError ErrFrameFlags (int offset + 1) ''frame_flags'' ''version 1 requires zero''
         else
           let bodyOffset = offset + FrameHeaderSize in
           if len > length data - bodyOffset then
             decodeError ErrTruncated (int bodyOffset) ''frame.body''
               (''declares '' @ show_nat len @ '' bytes'')
           else obind (slice data bodyOffset (bodyOffset + len)) (\<lambda>body.
             let frame = \<lparr>FType = frameType, FFlags = 0, FBody = body\<rparr> in
             obind (validateFrame frame (int offset)) (\<lambda>_.
               parseFrames_loop data (bodyOffset + len) (frames @ [frame])))))))
     else Ret frames)"
  by pat_completeness auto
termination
  by (relation "measure (\<lambda>(data, offset, _). length data - offset)") (auto simp: FrameHeaderSize_def)

declare parseFrames_loop.simps [simp del]

definition ParseFrames :: "bytes \<Rightarrow> int \<Rightarrow> Frame list codec_result" where
  "ParseFrames data maxPlaintext =
     obind (normalizeFrameLimit maxPlaintext) (\<lambda>limit.
       if length data = 0 then
         decodeError ErrLength 0 ''frames'' ''TRANSPORT plaintext requires at least one frame''
       else if int (length data) > limit then
         decodeError ErrLimit 0 ''frames''
           (''length '' @ show_nat (length data) @ '' exceeds '' @ show_int limit)
       else obind (parseFrames_loop data 0 []) (\<lambda>frames.
         obind (validateFrameCombination frames) (\<lambda>_. Ret frames)))"

fun checkFrames :: "Frame list \<Rightarrow> int \<Rightarrow> int \<Rightarrow> int codec_result" where
  "checkFrames [] limit tot = Ret tot"
| "checkFrames (frame # rest) limit tot =
     obind (validateFrame frame (-1)) (\<lambda>_.
       if int (length (FBody frame)) > MaxUint16 then
         decodeError ErrLength (-1) ''frame.body'' ''does not fit uint16''
       else if tot > limit - int FrameHeaderSize - int (length (FBody frame)) then
         decodeError ErrLimit (-1) ''frames'' ''encoded frames exceed configured plaintext limit''
       else checkFrames rest limit (tot + int FrameHeaderSize + int (length (FBody frame))))"

definition encodeFrame :: "Frame \<Rightarrow> bytes" where
  "encodeFrame frame = [FType frame, 0] @ be16 (word_of_nat (length (FBody frame))) @ FBody frame"

definition MarshalFrames :: "Frame list \<Rightarrow> int \<Rightarrow> bytes codec_result" where
  "MarshalFrames frames maxPlaintext =
     obind (normalizeFrameLimit maxPlaintext) (\<lambda>limit.
       if length frames = 0 then decodeError ErrLength 0 ''frames'' ''need at least one frame''
       else obind (validateFrameCombination frames) (\<lambda>_.
         obind (checkFrames frames limit 0) (\<lambda>tot. Ret (concat (map encodeFrame frames)))))"

section \<open>Single frames\<close>

lemma DecodeClose_Ret_iff:
  "DecodeClose body = Ret (reason, txt) \<longleftrightarrow>
     body = be16 reason @ txt \<and> length txt \<le> 256 \<and> utf8_Valid txt"
proof
  assume "DecodeClose body = Ret (reason, txt)"
  then have len: "2 \<le> length body" "length body - 2 \<le> 256" and tx: "txt = drop 2 body" "utf8_Valid txt"
    and r: "reason = word_of_nat (be_val (take 2 body))"
    by (auto simp: DecodeClose_def go_consts obind_Ret_iff slice_Ret_iff Uint16_Ret_iff decode_guard)
  have "be16 reason = take 2 body" using len r be16_val [of "take 2 body"] by simp
  with len tx show "body = be16 reason @ txt \<and> length txt \<le> 256 \<and> utf8_Valid txt" by simp
next
  assume "body = be16 reason @ txt \<and> length txt \<le> 256 \<and> utf8_Valid txt"
  then show "DecodeClose body = Ret (reason, txt)" by (auto simp: DecodeClose_def go_consts)
qed

lemma DecodeClose_safe: "DecodeClose body \<noteq> Panic"
  by (auto simp: DecodeClose_def obind_Panic_iff)

lemma EncodeClose_Ret_iff:
  "EncodeClose reason txt = Ret body \<longleftrightarrow>
     body = be16 reason @ txt \<and> length txt \<le> 256 \<and> utf8_Valid txt"
  by (auto simp: EncodeClose_def go_consts)

lemma EncodeClose_safe: "EncodeClose reason txt \<noteq> Panic"
  by (simp add: EncodeClose_def)

interpretation close_codec: wire_codec "\<lambda>_. True" DecodeClose "\<lambda>(reason, txt). EncodeClose reason txt"
  by unfold_locales (auto simp: DecodeClose_Ret_iff EncodeClose_Ret_iff DecodeClose_safe EncodeClose_safe)

text \<open>What the length fields of an accepted inner packet say.\<close>

definition ip_packet_ok :: "bytes \<Rightarrow> bool" where
  "ip_packet_ok packet \<longleftrightarrow> packet \<noteq> [] \<and>
    (drop_bit 4 (packet ! 0) = 4 \<and> 20 \<le> length packet
       \<and> 5 \<le> unat (packet ! 0 AND 0x0F) \<and> unat (packet ! 0 AND 0x0F) * 4 \<le> length packet
       \<and> be_val (take 2 (drop 2 packet)) = length packet
     \<or> drop_bit 4 (packet ! 0) = 6 \<and> 40 \<le> length packet
       \<and> 40 + be_val (take 2 (drop 4 packet)) = length packet)"

lemma be_val2_bound: "length bs = 2 \<Longrightarrow> be_val bs < 65536"
  using be_val_bound [of bs] by simp

lemma unat_be_val2: "length bs = 2 \<Longrightarrow> unat (word_of_nat (be_val bs) :: uint16) = be_val bs"
  by (simp add: unat_word_of_nat16 be_val2_bound)

lemma validateIPPacket_Ret_iff: "validateIPPacket packet offset = Ret () \<longleftrightarrow> ip_packet_ok packet"
proof (cases "packet = []")
  case True
  then show ?thesis by (simp add: validateIPPacket_def ip_packet_ok_def)
next
  case False
  have "be_val (take 2 (drop k packet)) = unat (word_of_nat (be_val (take 2 (drop k packet))) :: uint16)"
    if "k + 2 \<le> length packet" for k
    using that unat_be_val2 [of "take 2 (drop k packet)"] by simp
  note val = this [of 2] this [of 4]
  have "drop_bit 4 (packet ! 0) = 4 \<Longrightarrow> drop_bit 4 (packet ! 0) \<noteq> 6" by simp
  with False val show ?thesis
    by (auto simp: validateIPPacket_def ip_packet_ok_def Let_def Uint16_ok decode_guard)
qed

lemma validateIPPacket_safe: "validateIPPacket packet offset \<noteq> Panic"
  by (auto simp: validateIPPacket_def Let_def obind_Panic_iff slice_Ret_iff)

definition frame_ok :: "Frame \<Rightarrow> bool" where
  "frame_ok frame \<longleftrightarrow> FrameType_valid (FType frame) \<and> FFlags frame = 0
     \<and> (FType frame = FrameIPPacket \<longrightarrow> ip_packet_ok (FBody frame))
     \<and> (FType frame = FrameConfirm \<longrightarrow> length (FBody frame) = 32)
     \<and> (FType frame \<in> {FramePing, FramePong} \<longrightarrow> length (FBody frame) = 8)
     \<and> (FType frame = FrameClose \<longrightarrow>
          2 \<le> length (FBody frame) \<and> length (FBody frame) \<le> 258 \<and> utf8_Valid (drop 2 (FBody frame)))"

lemma frame_type_distinct:
  "distinct [FrameIPPacket, FrameConfirm, FramePing, FramePong, FramePathChallenge,
     FramePathResponse, FrameLeaseUpdate, FrameClose]"
  by (simp add: frame_types)

lemma DecodeClose_accepts:
  "(\<exists>p. DecodeClose body = Ret p) \<longleftrightarrow>
     2 \<le> length body \<and> length body \<le> 258 \<and> utf8_Valid (drop 2 body)"
proof -
  have "body = be16 (word_of_nat (be_val (take 2 body))) @ drop 2 body" if "2 \<le> length body"
    using that be16_val [of "take 2 body"] by simp
  then show ?thesis by (force simp: DecodeClose_Ret_iff)
qed

lemma validateFrame_Ret_iff [simp]: "validateFrame frame offset = Ret u \<longleftrightarrow> frame_ok frame"
  using frame_type_distinct DecodeClose_accepts [of "FBody frame"]
  by (auto simp: validateFrame_def frame_ok_def go_consts validateIPPacket_Ret_iff obind_Ret_iff)

lemma validateFrame_ok [simp]: "frame_ok frame \<Longrightarrow> validateFrame frame offset = Ret ()"
  by simp

lemma validateFrame_safe [simp]: "validateFrame frame offset \<noteq> Panic"
  by (auto simp: validateFrame_def obind_Panic_iff validateIPPacket_safe DecodeClose_safe)

section \<open>Frame combinations\<close>

text \<open>The plaintexts of the protocol: one data frame, CONFIRM with PING, or control frames.\<close>

definition combination_ok :: "Frame list \<Rightarrow> bool" where
  "combination_ok frames \<longleftrightarrow>
     (\<exists>f. frames = [f] \<and> FType f = FrameIPPacket)
     \<or> (\<exists>f g. frames = [f, g] \<and> FType f = FrameConfirm \<and> FType g = FramePing)
     \<or> (\<forall>f \<in> set frames. FType f \<noteq> FrameIPPacket \<and> FType f \<noteq> FrameConfirm)"

lemma findConfirm_found:
  "0 \<le> c \<Longrightarrow> findConfirm frames i c = Ret c' \<longleftrightarrow> c' = c \<and> (\<forall>f \<in> set frames. FType f \<noteq> FrameConfirm)"
  by (induction frames arbitrary: i) auto

lemma findConfirm_none: "\<forall>f \<in> set frames. FType f \<noteq> FrameConfirm \<Longrightarrow> findConfirm frames i c = Ret c"
  by (induction frames arbitrary: i) auto

lemma findConfirm_range:
  "findConfirm frames i c = Ret c' \<Longrightarrow> \<exists>f \<in> set frames. FType f = FrameConfirm \<Longrightarrow> 0 \<le> i \<Longrightarrow> i \<le> c'"
proof (induction frames arbitrary: i c)
  case Nil
  then show ?case by simp
next
  case (Cons f frames)
  show ?case
  proof (cases "FType f = FrameConfirm")
    case True
    with Cons.prems show ?thesis by (auto simp: findConfirm_found split: if_splits)
  next
    case False
    with Cons.prems Cons.IH [of "i + 1" c] show ?thesis by auto
  qed
qed

lemma findConfirm_safe: "findConfirm frames i c \<noteq> Panic"
  by (induction frames arbitrary: i c) auto

lemma single_filter_all: "length frames = 1 \<Longrightarrow> length (filter P frames) = 1 \<longleftrightarrow> (\<exists>f. frames = [f] \<and> P f)"
  by (cases frames) auto

lemma validateFrameCombination_Ret_iff:
  "validateFrameCombination frames = Ret () \<longleftrightarrow> combination_ok frames"
proof (cases "\<exists>f \<in> set frames. FType f = FrameConfirm")
  case False
  let ?ip = "filter (\<lambda>frame. FType frame = FrameIPPacket) frames"
  have "validateFrameCombination frames = Ret () \<longleftrightarrow> ?ip = [] \<or> length ?ip = 1 \<and> length frames = 1"
    using False by (cases ?ip) (auto simp: validateFrameCombination_def findConfirm_none Let_def)
  also have "\<dots> \<longleftrightarrow> (\<forall>f \<in> set frames. FType f \<noteq> FrameIPPacket) \<or> (\<exists>f. frames = [f] \<and> FType f = FrameIPPacket)"
    by (auto simp: filter_empty_conv length_Suc_conv)
  also have "\<dots> \<longleftrightarrow> combination_ok frames"
    using False by (auto simp: combination_ok_def)
  finally show ?thesis .
next
  case True
  then have "frames \<noteq> []" by auto
  have "validateFrameCombination frames = Ret () \<longleftrightarrow>
      (\<exists>f g. frames = [f, g] \<and> FType f = FrameConfirm \<and> FType g = FramePing)" (is "?L = ?R")
  proof
    assume ?L
    then obtain c where c: "findConfirm frames 0 (-1) = Ret c"
      and "0 \<le> c \<Longrightarrow> length frames = 2 \<and> c = 0 \<and> FType (frames ! 1) = FramePing"
      by (auto simp: validateFrameCombination_def Let_def obind_Ret_iff decode_guard)
    with findConfirm_range [OF c True] obtain f g where fg: "frames = [f, g]" "c = 0" "FType g = FramePing"
      by (auto simp: length_Suc_conv numeral_2_eq_2)
    with c show ?R by (auto simp: frame_types split: if_splits)
  next
    assume ?R
    then show ?L by (auto simp: validateFrameCombination_def Let_def frame_types)
  qed
  also have "\<dots> \<longleftrightarrow> combination_ok frames"
    using True by (auto simp: combination_ok_def frame_types)
  finally show ?thesis .
qed

lemma validateFrameCombination_safe: "validateFrameCombination frames \<noteq> Panic"
  by (simp add: validateFrameCombination_def Let_def obind_Panic_iff findConfirm_safe)

section \<open>Streams of frames\<close>

lemma Frame_eta: "FFlags g = 0 \<Longrightarrow> \<lparr>FType = FType g, FFlags = 0, FBody = FBody g\<rparr> = g"
  by (cases g) simp

lemma length_encodeFrame [simp]: "length (encodeFrame frame) = 4 + length (FBody frame)"
  by (simp add: encodeFrame_def)

definition stream_ok :: "Frame list \<Rightarrow> bool" where
  "stream_ok frames \<longleftrightarrow> (\<forall>f \<in> set frames. frame_ok f \<and> length (FBody f) < 65536)"

lemma stream_ok_simps [simp]:
  "stream_ok []" "stream_ok (f # frames) \<longleftrightarrow> frame_ok f \<and> length (FBody f) < 65536 \<and> stream_ok frames"
  by (auto simp: stream_ok_def)

lemma parseFrames_loop_complete:
  assumes "drop offset data = concat (map encodeFrame gs)" and "offset \<le> length data" and "stream_ok gs"
  shows "parseFrames_loop data offset acc = Ret (acc @ gs)"
  using assms
proof (induction gs arbitrary: offset acc)
  case Nil
  then show ?case by (simp add: parseFrames_loop.simps [of data])
next
  case (Cons g gs)
  let ?lb = "be16 (word_of_nat (length (FBody g)))"
  let ?o = "offset + 4 + length (FBody g)"
  have ok: "frame_ok g" "length (FBody g) < 65536" and rest: "stream_ok gs" using Cons.prems by auto
  have "drop offset data = FType g # 0 # ?lb @ FBody g @ concat (map encodeFrame gs)"
    using Cons.prems by (simp add: encodeFrame_def [of g])
  note d0 = drop_ConsD [OF this]
  note d1 = drop_ConsD [OF d0 [THEN conjunct2, THEN conjunct2]]
  then have "drop (offset + 2) data = ?lb @ FBody g @ concat (map encodeFrame gs)" "offset + 2 \<le> length data"
    by simp_all
  note d2 = drop_appendD [OF this]
  then have "drop (offset + 4) data = FBody g @ concat (map encodeFrame gs)" "offset + 4 \<le> length data"
    by (simp_all add: eval_nat_numeral)
  note d3 = drop_appendD [OF this]
  have "parseFrames_loop data ?o (acc @ [g]) = Ret ((acc @ [g]) @ gs)"
    using rest d3 by (intro Cons.IH) simp_all
  moreover have "FrameType_valid (FType g)" "FFlags g = 0" using ok by (simp_all add: frame_ok_def)
  ultimately show ?case using ok d0 d1 d2 d3
    by (subst parseFrames_loop.simps)
      (auto simp: FrameHeaderSize_def Let_def unat_word_of_nat16 Frame_eta)
qed

lemma parseFrames_loop_sound:
  assumes "parseFrames_loop data offset acc = Ret frames" and "offset \<le> length data"
  shows "\<exists>gs. frames = acc @ gs \<and> drop offset data = concat (map encodeFrame gs) \<and> stream_ok gs"
  using assms
proof (induction "length data - offset" arbitrary: offset acc rule: less_induct)
  case less
  show ?case
  proof (cases "offset < length data")
    case False
    with less.prems show ?thesis
      by (auto simp: parseFrames_loop.simps [of data offset] intro!: exI [of _ "[]"])
  next
    case True
    let ?lw = "word_of_nat (be_val (take 2 (drop (offset + 2) data))) :: uint16"
    let ?f = "\<lparr>FType = data ! offset, FFlags = 0, FBody = take (unat ?lw) (drop (offset + 4) data)\<rparr>"
    let ?o = "offset + 4 + unat ?lw"
    from less.prems(1) True have len: "offset + 4 \<le> length data" "?o \<le> length data"
      and z: "data ! (offset + 1) = 0" and ok: "frame_ok ?f"
      and rec: "parseFrames_loop data ?o (acc @ [?f]) = Ret frames"
      by (auto simp: parseFrames_loop.simps [of data offset] FrameHeaderSize_def Let_def Uint16_ok
          split: if_splits)
    have fl: "length (FBody ?f) = unat ?lw" using len by simp
    have "length data - ?o < length data - offset" using len True by linarith
    from less.hyps [OF this rec] len obtain gs where gs: "frames = (acc @ [?f]) @ gs"
      "drop ?o data = concat (map encodeFrame gs)" "stream_ok gs"
      by auto
    have lb: "be16 (word_of_nat (unat ?lw)) = take 2 (drop (offset + 2) data)"
      using len be16_val [of "take 2 (drop (offset + 2) data)"] by simp
    have "drop offset data = data ! offset # data ! (offset + 1) # take 2 (drop (offset + 2) data)
        @ take (unat ?lw) (drop (offset + 4) data) @ drop ?o data"
      using len take_drop_split [of "offset + 2" "offset + 4" data] take_drop_split [of "offset + 4" ?o data]
      by (simp add: Cons_nth_drop_Suc [symmetric])
    then have "drop offset data = encodeFrame ?f @ concat (map encodeFrame gs)"
      using fl lb gs(2) z by (simp add: encodeFrame_def)
    moreover have "stream_ok (?f # gs)" using ok gs(3) fl unat_uint16_bound [of ?lw] by simp
    ultimately show ?thesis using gs(1) by (intro exI [of _ "?f # gs"]) simp
  qed
qed

lemma parseFrames_loop_iff:
  "parseFrames_loop data 0 [] = Ret frames \<longleftrightarrow> stream_ok frames \<and> data = concat (map encodeFrame frames)"
  using parseFrames_loop_sound [of data 0 "[]" frames] parseFrames_loop_complete [of 0 data frames "[]"]
  by auto

lemma parseFrames_loop_safe: "parseFrames_loop data offset acc \<noteq> Panic"
proof (induction "length data - offset" arbitrary: offset acc rule: less_induct)
  case less
  have "parseFrames_loop data (offset + 4 + n) a \<noteq> Panic" if "offset < length data" for n a
    using that by (intro less.hyps) auto
  then show ?case
    by (auto simp: parseFrames_loop.simps [of data offset] obind_Panic_iff FrameHeaderSize_def Let_def
        slice_Ret_iff)
qed

lemma checkFrames_Ret_iff:
  "tot \<le> limit \<Longrightarrow> checkFrames frames limit tot = Ret r \<longleftrightarrow>
     stream_ok frames \<and> r = tot + int (length (concat (map encodeFrame frames))) \<and> r \<le> limit"
proof (induction frames arbitrary: tot)
  case Nil
  then show ?case by auto
next
  case (Cons f frames)
  show ?case
  proof (cases "frame_ok f \<and> length (FBody f) < 65536 \<and> tot + 4 + int (length (FBody f)) \<le> limit")
    case True
    with Cons.IH [of "tot + 4 + int (length (FBody f))"] show ?thesis
      by (auto simp: obind_Ret_iff go_consts)
  next
    case False
    then show ?thesis
      by (auto simp: obind_Ret_iff go_consts)
  qed
qed

lemma checkFrames_safe: "checkFrames frames limit tot \<noteq> Panic"
  by (induction frames arbitrary: tot) (auto simp: obind_Panic_iff)

definition frame_limit :: "int \<Rightarrow> int" where
  "frame_limit m = (if m = 0 then 1352 else m)"

definition frame_limit_ok :: "int \<Rightarrow> bool" where
  "frame_limit_ok m \<longleftrightarrow> m = 0 \<or> 4 \<le> m \<and> m \<le> 65535"

lemma normalizeFrameLimit_Ret_iff:
  "normalizeFrameLimit m = Ret l \<longleftrightarrow> frame_limit_ok m \<and> l = frame_limit m"
  by (auto simp: normalizeFrameLimit_def frame_limit_ok_def frame_limit_def go_consts)

lemma normalizeFrameLimit_safe: "normalizeFrameLimit m \<noteq> Panic"
  by (simp add: normalizeFrameLimit_def)

definition plaintext_ok :: "int \<Rightarrow> Frame list \<Rightarrow> bytes \<Rightarrow> bool" where
  "plaintext_ok m frames data \<longleftrightarrow> frame_limit_ok m \<and> frames \<noteq> [] \<and> combination_ok frames
     \<and> stream_ok frames \<and> data = concat (map encodeFrame frames) \<and> int (length data) \<le> frame_limit m"

lemma ParseFrames_iff: "ParseFrames data m = Ret frames \<longleftrightarrow> plaintext_ok m frames data"
proof -
  have "data \<noteq> [] \<longleftrightarrow> frames \<noteq> []" if "data = concat (map encodeFrame frames)"
    using that by (cases frames) (auto simp: encodeFrame_def)
  then show ?thesis
    by (auto simp: ParseFrames_def plaintext_ok_def obind_Ret_iff normalizeFrameLimit_Ret_iff
        decode_guard parseFrames_loop_iff validateFrameCombination_Ret_iff)
qed

lemma frame_limit_nonneg: "frame_limit_ok m \<Longrightarrow> 0 \<le> frame_limit m"
  by (auto simp: frame_limit_ok_def frame_limit_def)

lemma MarshalFrames_iff: "MarshalFrames frames m = Ret data \<longleftrightarrow> plaintext_ok m frames data"
  by (auto simp: MarshalFrames_def plaintext_ok_def obind_Ret_iff normalizeFrameLimit_Ret_iff
      decode_guard validateFrameCombination_Ret_iff checkFrames_Ret_iff frame_limit_nonneg)

lemma ParseFrames_safe: "ParseFrames data m \<noteq> Panic"
  by (auto simp: ParseFrames_def obind_Panic_iff normalizeFrameLimit_safe parseFrames_loop_safe
      validateFrameCombination_safe decode_guard)

lemma MarshalFrames_safe: "MarshalFrames frames m \<noteq> Panic"
  by (auto simp: MarshalFrames_def obind_Panic_iff normalizeFrameLimit_safe checkFrames_safe
      validateFrameCombination_safe decode_guard)

interpretation frame_codec: wire_codec "\<lambda>_. True" "\<lambda>data. ParseFrames data m" "\<lambda>frames. MarshalFrames frames m"
  for m
  by unfold_locales
    (simp_all only: ParseFrames_iff MarshalFrames_iff ParseFrames_safe MarshalFrames_safe
      simp_thms not_False_eq_True)

section \<open>Properties\<close>

text \<open>C15. Plaintexts are canonical: for every limit, \<^verbatim>\<open>ParseFrames\<close> accepts a plaintext as a list
  of frames exactly when \<^verbatim>\<open>MarshalFrames\<close> turns those frames into that plaintext.\<close>

theorem frames_canonical: "ParseFrames data m = Ret frames \<longleftrightarrow> MarshalFrames frames m = Ret data"
  by (simp only: frame_codec.parse_iff_marshal simp_thms)

text \<open>The frames of an accepted plaintext are a single data packet, or CONFIRM followed by
  PING, or control frames only, each well formed, with known types and zero flags, and an
  inner IP packet whose header and length fields describe exactly the bytes carried.\<close>

theorem frames_grammar:
  assumes "ParseFrames data m = Ret frames"
  shows "combination_ok frames \<and> (\<forall>f \<in> set frames. frame_ok f) \<and> frames \<noteq> []"
  using assms by (auto simp: ParseFrames_iff plaintext_ok_def stream_ok_def)

definition sample_frames :: "Frame list" where
  "sample_frames = [\<lparr>FType = FrameConfirm, FFlags = 0, FBody = replicate 32 5\<rparr>,
     \<lparr>FType = FramePing, FFlags = 0, FBody = replicate 8 6\<rparr>]"

lemma sample_frames_marshal:
  "MarshalFrames sample_frames 0 = Ret ([2, 0, 0, 32] @ replicate 32 5 @ [3, 0, 0, 8] @ replicate 8 6)"
proof -
  have "be16 32 = [0, 32]" "be16 8 = [0, 8]" by code_simp+
  then show ?thesis
    by (simp add: MarshalFrames_iff plaintext_ok_def frame_limit_ok_def frame_limit_def combination_ok_def
        frame_ok_def FrameType_valid_def sample_frames_def encodeFrame_def frame_types)
qed

theorem frames_grammar_witness:
  "ParseFrames ([2, 0, 0, 32] @ replicate 32 5 @ [3, 0, 0, 8] @ replicate 8 6) 0 = Ret sample_frames
   \<and> combination_ok sample_frames"
proof -
  have "ParseFrames ([2, 0, 0, 32] @ replicate 32 5 @ [3, 0, 0, 8] @ replicate 8 6) 0 = Ret sample_frames"
    using sample_frames_marshal frame_codec.parse_marshal by blast
  with frames_grammar [OF this] show ?thesis by simp
qed

end
