(* ===== verification/Session_Replay.thy ===== *)
theory Session_Replay
  imports Prelude
begin

text \<open>
  \<^verbatim>\<open>internal/session/replay.go\<close>: the allocator of transport packet numbers and the anti-replay
  window of a receive direction, a bitmap of 32 words of 64 bits below the highest
  authenticated number. The locale \<open>replay_filter\<close> is what a receiver relies on; the window
  is an instance of it, by a simulation relation between the bitmap and the set of all the
  numbers accepted so far.
\<close>

unbundle bit_operations_syntax

section \<open>Packet numbers\<close>

datatype replay_error = ErrPacketNumberExhausted | ErrReplayDuplicate | ErrReplayTooOld

record PacketNumbers =
  next_pn :: uint64
  exhausted :: bool

definition NewPacketNumbers :: "uint64 \<Rightarrow> PacketNumbers" where
  "NewPacketNumbers first = \<lparr>next_pn = first, exhausted = False\<rparr>"

definition PacketNumbers_Next :: "PacketNumbers \<Rightarrow> PacketNumbers \<times> (replay_error, uint64) outcome" where
  "PacketNumbers_Next p =
    (if exhausted p then (p, Err ErrPacketNumberExhausted)
     else
       let packetNumber = next_pn p in
       if next_pn p = NOT 0 then (p\<lparr>exhausted := True\<rparr>, Ret packetNumber)
       else (p\<lparr>next_pn := next_pn p + 1\<rparr>, Ret packetNumber))"

definition PacketNumbers_Snapshot :: "PacketNumbers \<Rightarrow> uint64 \<times> bool" where
  "PacketNumbers_Snapshot p = (next_pn p, exhausted p)"

section \<open>The replay window\<close>

definition ReplayWindowSize :: nat where "ReplayWindowSize = 2048"
definition replayWordBits :: nat where "replayWordBits = 64"
definition replayWordCount :: nat where "replayWordCount = ReplayWindowSize div replayWordBits"

lemma replay_consts [go_consts]:
  "ReplayWindowSize = 2048" "replayWordBits = 64" "replayWordCount = 32"
  by (simp_all add: ReplayWindowSize_def replayWordBits_def replayWordCount_def)

record ReplayError =
  RKind :: replay_error
  RPacketNumber :: uint64
  RHighest :: uint64

record ReplayWindow =
  initialized :: bool
  highest :: uint64
  bitmap :: "uint64 list"

definition emptyBitmap :: "uint64 list" where
  "emptyBitmap = replicate replayWordCount 0"

definition new_ReplayWindow :: ReplayWindow where
  "new_ReplayWindow = \<lparr>initialized = False, highest = 0, bitmap = emptyBitmap\<rparr>"

definition Precheck :: "ReplayWindow \<Rightarrow> uint64 \<Rightarrow> bool" where
  "Precheck w packetNumber =
    (if \<not> initialized w \<or> packetNumber > highest w then True
     else unat (highest w - packetNumber) < ReplayWindowSize)"

fun shift_loop :: "uint64 list \<Rightarrow> nat \<Rightarrow> nat \<Rightarrow> nat \<Rightarrow> uint64 list \<Rightarrow> uint64 list" where
  "shift_loop previous wholeWords partialBits 0 bm = bm"
| "shift_loop previous wholeWords partialBits (Suc destination) bm =
    shift_loop previous wholeWords partialBits destination
      (if int destination - int wholeWords < 0 then bm
       else
         let source = destination - wholeWords;
             value = push_bit partialBits (previous ! source);
             value' = (if partialBits \<noteq> 0 \<and> source > 0
                       then value OR drop_bit (replayWordBits - partialBits) (previous ! (source - 1))
                       else value)
         in bm[destination := value'])"

definition shiftLocked :: "uint64 list \<Rightarrow> uint64 \<Rightarrow> uint64 list" where
  "shiftLocked bm advance =
    (if unat advance \<ge> ReplayWindowSize then emptyBitmap
     else shift_loop bm (unat advance div replayWordBits) (unat advance mod replayWordBits)
            replayWordCount emptyBitmap)"

definition AcceptAuthenticated :: "ReplayWindow \<Rightarrow> uint64 \<Rightarrow> ReplayWindow \<times> (ReplayError, unit) outcome" where
  "AcceptAuthenticated w packetNumber =
    (if \<not> initialized w then
       (w\<lparr>initialized := True, highest := packetNumber, bitmap := (bitmap w)[0 := 1]\<rparr>, Ret ())
     else if packetNumber > highest w then
       let advance = packetNumber - highest w;
           bm = shiftLocked (bitmap w) advance
       in (w\<lparr>highest := packetNumber, bitmap := bm[0 := bm ! 0 OR 1]\<rparr>, Ret ())
     else
       let delta = unat (highest w - packetNumber) in
       if delta \<ge> ReplayWindowSize then
         (w, Err \<lparr>RKind = ErrReplayTooOld, RPacketNumber = packetNumber, RHighest = highest w\<rparr>)
       else
         let word = delta div replayWordBits; mask = push_bit (delta mod replayWordBits) 1 in
         if bitmap w ! word AND mask \<noteq> 0 then
           (w, Err \<lparr>RKind = ErrReplayDuplicate, RPacketNumber = packetNumber, RHighest = highest w\<rparr>)
         else (w\<lparr>bitmap := (bitmap w)[word := bitmap w ! word OR mask]\<rparr>, Ret ()))"

definition ReplayWindow_Snapshot :: "ReplayWindow \<Rightarrow> bool \<times> uint64" where
  "ReplayWindow_Snapshot w = (initialized w, highest w)"

section \<open>The allocator\<close>

fun draw :: "nat \<Rightarrow> PacketNumbers \<Rightarrow> PacketNumbers \<times> (replay_error, uint64) outcome list" where
  "draw 0 p = (p, [])"
| "draw (Suc n) p =
    (let (p', r) = PacketNumbers_Next p; (p'', rs) = draw n p' in (p'', r # rs))"

text \<open>The outcome of the \<open>i\<close>-th call after a first number: the number, or exhaustion forever.\<close>

definition nth_number :: "uint64 \<Rightarrow> nat \<Rightarrow> (replay_error, uint64) outcome" where
  "nth_number first i =
    (if unat first + i < 2 ^ 64 then Ret (word_of_nat (unat first + i)) else Err ErrPacketNumberExhausted)"

lemma draw_exhausted: "exhausted p \<Longrightarrow> draw n p = (p, replicate n (Err ErrPacketNumberExhausted))"
  by (induction n) (auto simp: PacketNumbers_Next_def)

lemma unat_max64: "unat (NOT 0 :: uint64) = 2 ^ 64 - 1"
  by (simp add: unsigned_minus_1_eq_mask mask_eq_exp_minus_1)

lemma unat_succ64:
  assumes "w \<noteq> NOT 0"
  shows "unat (w + 1 :: uint64) = unat w + 1"
proof -
  have "unat w \<noteq> 2 ^ 64 - 1" using assms unat_max64 by (metis word_unat_eq_iff)
  with unat_less_pow [of w] have "unat w + 1 < 2 ^ 64" by simp
  then show ?thesis by (simp add: unat_word_ariths)
qed

lemma draw_fresh: "\<not> exhausted p \<Longrightarrow> snd (draw n p) = map (nth_number (next_pn p)) [0..<n]"
proof (induction n arbitrary: p)
  case 0
  then show ?case by simp
next
  case (Suc n)
  have shift: "map f [0..<Suc n] = f 0 # map (\<lambda>i. f (Suc i)) [0..<n]" for f :: "nat \<Rightarrow> 'b"
    by (simp add: map_Suc_upt [symmetric] upt_conv_Cons del: upt_Suc)
  have first: "nth_number (next_pn p) 0 = Ret (next_pn p)"
    using unat_less_pow [of "next_pn p"] by (simp add: nth_number_def)
  show ?case
  proof (cases "next_pn p = NOT 0")
    case True
    then have "nth_number (next_pn p) (Suc i) = Err ErrPacketNumberExhausted" for i
      using unat_max64 by (simp add: nth_number_def)
    with Suc.prems True first show ?thesis
      by (simp only: shift) (simp add: PacketNumbers_Next_def draw_exhausted Let_def map_replicate_const)
  next
    case False
    then have "nth_number (next_pn p + 1) i = nth_number (next_pn p) (Suc i)" for i
      by (simp add: nth_number_def unat_succ64)
    with Suc.IH [of "p\<lparr>next_pn := next_pn p + 1\<rparr>"] Suc.prems False first show ?thesis
      by (simp only: shift) (simp add: PacketNumbers_Next_def Let_def case_prod_beta)
  qed
qed


section \<open>Bits of the bitmap\<close>

definition window_bit :: "uint64 list \<Rightarrow> nat \<Rightarrow> bool" where
  "window_bit bm i \<longleftrightarrow> bit (bm ! (i div 64)) (i mod 64)"

lemma length_shift_loop [simp]: "length (shift_loop prev w p n bm) = length bm"
  by (induction prev w p n bm rule: shift_loop.induct) (auto simp: Let_def)

lemma length_emptyBitmap [simp]: "length emptyBitmap = 32"
  by (simp add: emptyBitmap_def go_consts)

lemma length_shiftLocked [simp]: "length (shiftLocked bm a) = 32"
  by (simp add: shiftLocked_def)

lemma window_bit_empty [simp]: "i < 2048 \<Longrightarrow> \<not> window_bit emptyBitmap i"
  by (simp add: window_bit_def emptyBitmap_def go_consts)

definition shifted_word :: "uint64 list \<Rightarrow> nat \<Rightarrow> nat \<Rightarrow> nat \<Rightarrow> uint64" where
  "shifted_word prev w p d =
    (let s = d - w; v = push_bit p (prev ! s) in
     if p \<noteq> 0 \<and> s > 0 then v OR drop_bit (64 - p) (prev ! (s - 1)) else v)"

lemma shift_loop_nth:
  "n \<le> length bm \<Longrightarrow> d < length bm \<Longrightarrow> shift_loop prev w p n bm ! d =
     (if d < n \<and> w \<le> d then shifted_word prev w p d else bm ! d)"
proof (induction n arbitrary: bm)
  case 0
  then show ?case by simp
next
  case (Suc n)
  then show ?case
    by (auto simp: Let_def shifted_word_def go_consts nth_list_update less_Suc_eq not_less)
qed

lemma bit_shifted_word:
  assumes "p < 64" and "j < 64" and "w \<le> d"
  shows "bit (shifted_word prev w p d) j \<longleftrightarrow>
     64 * w + p \<le> 64 * d + j \<and> window_bit prev (64 * d + j - (64 * w + p))"
proof (cases "p \<le> j")
  case True
  have "64 * d + j - (64 * w + p) = 64 * (d - w) + (j - p)" using assms True by (simp add: diff_mult_distrib2)
  moreover have "j - p < 64" using assms by simp
  ultimately have "window_bit prev (64 * d + j - (64 * w + p)) \<longleftrightarrow> bit (prev ! (d - w)) (j - p)"
    by (simp add: window_bit_def)
  moreover have "\<not> bit (prev ! k) (64 - p + j)" for k
    using assms(1) True by (auto dest: bit_imp_le_length)
  ultimately show ?thesis using assms True
    by (auto simp: shifted_word_def Let_def bit_push_bit_iff bit_or_iff bit_drop_bit_eq)
next
  case False
  show ?thesis
  proof (cases "w = d")
    case True
    with False assms show ?thesis by (simp add: shifted_word_def bit_push_bit_iff)
  next
    case neq: False
    then have "64 * d + j - (64 * w + p) = 64 * (d - w - 1) + (64 - p + j)" and "64 - p + j < 64"
      using assms False by (simp_all add: diff_mult_distrib2)
    then have "window_bit prev (64 * d + j - (64 * w + p)) \<longleftrightarrow> bit (prev ! (d - w - 1)) (64 - p + j)"
      by (simp add: window_bit_def)
    with neq False assms show ?thesis
      by (auto simp: shifted_word_def Let_def bit_push_bit_iff bit_or_iff bit_drop_bit_eq)
  qed
qed

lemma window_bit_shift:
  assumes "i < 2048"
  shows "window_bit (shiftLocked bm a) i \<longleftrightarrow> unat a \<le> i \<and> window_bit bm (i - unat a)"
proof (cases "unat a < 2048")
  case False
  with assms show ?thesis by (simp add: shiftLocked_def go_consts)
next
  case True
  let ?w = "unat a div 64" and ?p = "unat a mod 64" and ?d = "i div 64" and ?j = "i mod 64"
  have split: "64 * ?w + ?p = unat a" "64 * ?d + ?j = i" by simp_all
  have d: "?d < 32" using assms by simp
  have eq: "window_bit (shiftLocked bm a) i \<longleftrightarrow>
      bit (if ?w \<le> ?d then shifted_word bm ?w ?p ?d else emptyBitmap ! ?d) ?j"
    using True d by (simp add: window_bit_def shiftLocked_def go_consts shift_loop_nth)
  show ?thesis
  proof (cases "?w \<le> ?d")
    case le: True
    with eq bit_shifted_word [of ?p ?j ?w ?d bm] split show ?thesis by simp
  next
    case False
    then have "\<not> unat a \<le> i" by (metis div_le_mono)
    with False eq window_bit_empty [OF assms] show ?thesis by (simp add: window_bit_def)
  qed
qed

lemma nonzero_bit: "(y :: uint64) \<noteq> 0 \<longleftrightarrow> (\<exists>i. bit y i)"
  by (metis bit_eqI bit_0_eq bot_apply bot_bool_def)

lemma and_mask_bit: "(x :: uint64) AND push_bit n 1 \<noteq> 0 \<longleftrightarrow> n < 64 \<and> bit x n"
  unfolding nonzero_bit by (auto simp: bit_and_iff bit_exp_iff dest: bit_imp_le_length)

lemma unat_mem_image [simp]: "unat (n :: 'a :: len word) \<in> unat ` S \<longleftrightarrow> n \<in> S"
  by (rule inj_image_mem_iff) (simp add: inj_def word_unat_eq_iff)

lemma window_bit_set:
  assumes "length bm = 32" and "k < 2048" and "i < 2048"
  shows "window_bit (bm[k div 64 := bm ! (k div 64) OR push_bit (k mod 64) 1]) i \<longleftrightarrow> i = k \<or> window_bit bm i"
proof -
  have "i = k \<longleftrightarrow> i div 64 = k div 64 \<and> i mod 64 = k mod 64" by (metis div_mod_decomp)
  moreover have "k div 64 < 32" using assms(2) by simp
  ultimately show ?thesis using assms
    by (cases "i div 64 = k div 64") (auto simp: window_bit_def bit_or_iff bit_push_bit_iff bit_exp_iff)
qed

lemma window_bit_set0:
  assumes "length bm = 32" and "i < 2048"
  shows "window_bit (bm[0 := bm ! 0 OR 1]) i \<longleftrightarrow> i = 0 \<or> window_bit bm i"
  using window_bit_set [OF assms(1), of 0 i] assms(2) by simp

section \<open>What a receiver relies on\<close>

text \<open>
  \<open>represents s A\<close> says that \<open>A\<close> is the set of all numbers the filter in state \<open>s\<close> has
  accepted. \<open>feed\<close> offers a sequence of numbers and returns those accepted, in order.
\<close>

fun feed :: "('s \<Rightarrow> uint64 \<Rightarrow> 's \<times> ('e, unit) outcome) \<Rightarrow> 's \<Rightarrow> uint64 list \<Rightarrow> 's \<times> uint64 list" where
  "feed accept s [] = (s, [])"
| "feed accept s (n # ns) =
    (let (s', r) = accept s n; (s'', acc) = feed accept s' ns in
     (s'', if r = Ret () then n # acc else acc))"

locale replay_filter =
  fixes fresh :: 's
    and accept :: "'s \<Rightarrow> uint64 \<Rightarrow> 's \<times> ('e, unit) outcome"
    and represents :: "'s \<Rightarrow> nat set \<Rightarrow> bool"
    and size :: nat
  assumes fresh_empty: "represents fresh {}"
    and accepted: "represents s A \<Longrightarrow> accept s n = (s', Ret ()) \<Longrightarrow>
      unat n \<notin> A \<and> represents s' (insert (unat n) A)"
    and rejected: "represents s A \<Longrightarrow> accept s n = (s', r) \<Longrightarrow> r \<noteq> Ret () \<Longrightarrow> s' = s"
    and safe: "snd (accept s n) \<noteq> Panic"
    and admits: "represents s A \<Longrightarrow> unat n \<notin> A \<Longrightarrow> \<forall>m \<in> A. m < unat n + size \<Longrightarrow>
      snd (accept s n) = Ret ()"
begin

lemma feed_invariant:
  "represents s A \<Longrightarrow> feed accept s ns = (s', acc) \<Longrightarrow>
     represents s' (A \<union> unat ` set acc) \<and> distinct acc \<and> unat ` set acc \<inter> A = {} \<and> set acc \<subseteq> set ns"
proof (induction ns arbitrary: s A s' acc)
  case Nil
  then show ?case by simp
next
  case (Cons n ns)
  obtain t r where step: "accept s n = (t, r)" by fastforce
  obtain u acc' where rest: "feed accept t ns = (u, acc')" by fastforce
  show ?case
  proof (cases "r = Ret ()")
    case True
    with accepted [OF Cons.prems(1)] step have new: "unat n \<notin> A" "represents t (insert (unat n) A)" by auto
    from Cons.IH [OF this(2) rest] Cons.prems(2) step rest True new(1) show ?thesis by clarsimp blast
  next
    case False
    with rejected [OF Cons.prems(1) step] have "t = s" by simp
    with Cons.IH [OF Cons.prems(1)] rest Cons.prems(2) step False show ?thesis by auto
  qed
qed

lemma feed_distinct: "distinct (snd (feed accept fresh ns))"
  using feed_invariant [OF fresh_empty, of ns] by (cases "feed accept fresh ns") auto

lemma no_second_accept:
  assumes "represents s A" and "unat n \<in> A"
  shows "accept s n = (s, snd (accept s n)) \<and> snd (accept s n) \<noteq> Ret ()"
proof -
  obtain t r where step: "accept s n = (t, r)" by fastforce
  with accepted [OF assms(1), of n t] assms(2) have "r \<noteq> Ret ()" by auto
  with rejected [OF assms(1) step] step show ?thesis by simp
qed

text \<open>A batch in which no number is more than the window below another loses nothing.\<close>

lemma feed_lossless:
  assumes "represents s A" and "distinct ns" and "unat ` set ns \<inter> A = {}"
    and "\<forall>m \<in> A \<union> unat ` set ns. \<forall>n \<in> set ns. m < unat n + size"
  shows "snd (feed accept s ns) = ns"
  using assms
proof (induction ns arbitrary: s A)
  case Nil
  then show ?case by simp
next
  case (Cons n ns)
  obtain t r where step: "accept s n = (t, r)" by fastforce
  with admits [OF Cons.prems(1), of n] Cons.prems(3,4) have ok: "r = Ret ()" by auto
  with accepted [OF Cons.prems(1)] step have "represents t (insert (unat n) A)" by auto
  moreover have "unat ` set ns \<inter> insert (unat n) A = {}"
    using Cons.prems(2,3) by simp
  moreover have "\<forall>m \<in> insert (unat n) A \<union> unat ` set ns. \<forall>k \<in> set ns. m < unat k + size"
    using Cons.prems(4) by simp
  ultimately have "snd (feed accept t ns) = ns"
    using Cons.prems(2) by (intro Cons.IH [where A = "insert (unat n) A"]) simp_all
  with step ok show ?case by (simp add: case_prod_beta)
qed

end

section \<open>The window represents the accepted numbers\<close>

definition window_represents :: "ReplayWindow \<Rightarrow> nat set \<Rightarrow> bool" where
  "window_represents w A \<longleftrightarrow> finite A \<and> length (bitmap w) = 32 \<and> (initialized w \<longleftrightarrow> A \<noteq> {})
     \<and> (initialized w \<longrightarrow> unat (highest w) = Max A)
     \<and> (\<forall>i < 2048. window_bit (bitmap w) i \<longleftrightarrow> initialized w \<and> i \<le> unat (highest w) \<and> unat (highest w) - i \<in> A)"

lemma unat_diff_le: "(m :: uint64) \<le> n \<Longrightarrow> unat (n - m) = unat n - unat m"
  by (rule unat_sub)

lemma accept_first:
  assumes "window_represents w A" and "\<not> initialized w"
  shows "A = {} \<and> window_represents (fst (AcceptAuthenticated w n)) {unat n}
    \<and> snd (AcceptAuthenticated w n) = Ret ()"
proof -
  from assms have w: "A = {}" "length (bitmap w) = 32" "\<forall>i < 2048. \<not> window_bit (bitmap w) i"
    by (auto simp: window_represents_def)
  have "\<not> bit (bitmap w ! 0) j" for j
  proof (cases "j < 64")
    case True
    with w(3) [rule_format, of j] show ?thesis by (simp add: window_bit_def)
  qed (auto dest: bit_imp_le_length)
  then have "bitmap w ! 0 OR 1 = 1" by (auto simp: bit_eq_iff bit_or_iff)
  then have "(bitmap w)[0 := 1] = (bitmap w)[0 := bitmap w ! 0 OR 1]" by simp
  with w assms(2) window_bit_set0 [OF w(2)] show ?thesis
    by (auto simp: AcceptAuthenticated_def window_represents_def)
qed

lemma accept_advance:
  assumes "window_represents w A" and "initialized w" and "highest w < n"
  shows "unat n \<notin> A \<and> window_represents (fst (AcceptAuthenticated w n)) (insert (unat n) A)
    \<and> snd (AcceptAuthenticated w n) = Ret ()"
proof -
  let ?h = "unat (highest w)"
  from assms have A: "finite A" "A \<noteq> {}" "?h = Max A" by (auto simp: window_represents_def)
  have lt: "?h < unat n" using assms(3) by (simp add: word_less_nat_alt)
  have below: "m \<le> ?h" if "m \<in> A" for m using that A by simp
  have adv: "unat (n - highest w) = unat n - ?h" using assms(3) by (simp add: unat_diff_le)
  let ?bm = "shiftLocked (bitmap w) (n - highest w)"
  have bits: "window_bit (?bm[0 := ?bm ! 0 OR 1]) i \<longleftrightarrow> i \<le> unat n \<and> unat n - i \<in> insert (unat n) A"
    if "i < 2048" for i
  proof (cases "unat n - ?h \<le> i")
    case True
    then have "i - (unat n - ?h) < 2048" using that by simp
    with assms(1,2) have "window_bit (bitmap w) (i - (unat n - ?h)) \<longleftrightarrow>
        i - (unat n - ?h) \<le> ?h \<and> ?h - (i - (unat n - ?h)) \<in> A"
      by (simp add: window_represents_def)
    moreover have "?h - (i - (unat n - ?h)) = unat n - i" "i - (unat n - ?h) \<le> ?h \<longleftrightarrow> i \<le> unat n"
      "i \<noteq> 0"
      using True lt by auto
    ultimately show ?thesis
      using True that lt by (auto simp: window_bit_set0 window_bit_shift adv)
  next
    case False
    then have "unat n - i \<notin> A" using below [of "unat n - i"] by auto
    with False that lt show ?thesis by (auto simp: window_bit_set0 window_bit_shift adv)
  qed
  have "unat n \<notin> A" using below [of "unat n"] lt by auto
  moreover have "Max (insert (unat n) A) = max (unat n) ?h" using A by simp
  then have "Max (insert (unat n) A) = unat n" using lt by simp
  ultimately show ?thesis
    using assms A(1) bits by (simp add: AcceptAuthenticated_def window_represents_def Let_def)
qed

lemma accept_within:
  assumes "window_represents w A" and "initialized w" and "n \<le> highest w"
  shows "snd (AcceptAuthenticated w n) =
    (if unat n + 2048 \<le> unat (highest w) then
       Err \<lparr>RKind = ErrReplayTooOld, RPacketNumber = n, RHighest = highest w\<rparr>
     else if unat n \<in> A then
       Err \<lparr>RKind = ErrReplayDuplicate, RPacketNumber = n, RHighest = highest w\<rparr>
     else Ret ())
   \<and> window_represents (fst (AcceptAuthenticated w n))
       (if unat n + 2048 \<le> unat (highest w) \<or> unat n \<in> A then A else insert (unat n) A)"
proof -
  let ?h = "unat (highest w)" and ?d = "unat (highest w) - unat n"
  from assms have A: "finite A" "A \<noteq> {}" "?h = Max A" and len: "length (bitmap w) = 32"
    by (auto simp: window_represents_def)
  have le: "unat n \<le> ?h" using assms(3) by (simp add: word_le_nat_alt)
  have d: "unat (highest w - n) = ?d" using assms(3) by (rule unat_diff_le)
  have bits: "window_bit (bitmap w) i \<longleftrightarrow> i \<le> ?h \<and> ?h - i \<in> A" if "i < 2048" for i
    using assms(1,2) that by (simp add: window_represents_def)
  have hit: "bitmap w ! (?d div 64) AND push_bit (?d mod 64) 1 \<noteq> 0 \<longleftrightarrow> unat n \<in> A" if "?d < 2048"
    using bits [OF that] le by (simp only: and_mask_bit) (simp add: window_bit_def)
  have rep: "window_represents (w\<lparr>bitmap := (bitmap w)[?d div 64 := bitmap w ! (?d div 64) OR push_bit (?d mod 64) 1]\<rparr>)
      (insert (unat n) A)" if "?d < 2048"
  proof -
    have "Max (insert (unat n) A) = max (unat n) ?h" using A by simp
    then have "Max (insert (unat n) A) = ?h" using le by simp
    moreover have "?h - i = unat n \<longleftrightarrow> i = ?d" if "i \<le> ?h" for i using that le by auto
    ultimately show ?thesis
      using assms(2) A len bits le window_bit_set [OF len \<open>?d < 2048\<close>]
      by (auto simp: window_represents_def)
  qed
  have nlt: "\<not> highest w < n" using assms(3) by simp
  show ?thesis
  proof (cases "?d < 2048")
    case True
    then have "\<not> unat n + 2048 \<le> ?h" by simp
    with True hit rep nlt assms(1,2) show ?thesis
      by (simp add: AcceptAuthenticated_def go_consts d Let_def insert_absorb)
  next
    case False
    then have "unat n + 2048 \<le> ?h" by simp
    with False nlt assms(1,2) show ?thesis by (simp add: AcceptAuthenticated_def go_consts d Let_def)
  qed
qed

lemma AcceptAuthenticated_safe: "snd (AcceptAuthenticated w n) \<noteq> Panic"
  by (simp add: AcceptAuthenticated_def Let_def)

text \<open>The window accepts exactly what the set of accepted numbers allows.\<close>

definition spec_verdict :: "nat set \<Rightarrow> nat \<Rightarrow> replay_error option" where
  "spec_verdict A n =
    (if A \<noteq> {} \<and> n + 2048 \<le> Max A then Some ErrReplayTooOld
     else if n \<in> A then Some ErrReplayDuplicate else None)"

definition verdict :: "('a, unit) outcome \<Rightarrow> ('a \<Rightarrow> replay_error) \<Rightarrow> replay_error option" where
  "verdict r kind = (case r of Err e \<Rightarrow> Some (kind e) | _ \<Rightarrow> None)"

lemma AcceptAuthenticated_refines:
  assumes "window_represents w A"
  shows "verdict (snd (AcceptAuthenticated w n)) RKind = spec_verdict A (unat n)
    \<and> window_represents (fst (AcceptAuthenticated w n))
        (if spec_verdict A (unat n) = None then insert (unat n) A else A)"
proof (cases "initialized w")
  case False
  with accept_first [OF assms] show ?thesis by (auto simp: spec_verdict_def verdict_def)
next
  case init: True
  with assms have A: "finite A" "A \<noteq> {}" "unat (highest w) = Max A" by (auto simp: window_represents_def)
  show ?thesis
  proof (cases "highest w < n")
    case True
    then have "unat (highest w) < unat n" by (simp add: word_less_nat_alt)
    with A(3) have "\<not> unat n + 2048 \<le> Max A" by linarith
    with accept_advance [OF assms init True] show ?thesis
      by (auto simp: spec_verdict_def verdict_def)
  next
    case False
    then have "n \<le> highest w" by simp
    from accept_within [OF assms init this] A show ?thesis
      by (cases "unat n + 2048 \<le> Max A"; cases "unat n \<in> A")
        (simp_all add: spec_verdict_def verdict_def del: Max_less_iff)
  qed
qed

lemma verdict_None_iff: "verdict r kind = None \<longleftrightarrow> r = Ret () \<or> r = Panic"
  by (cases r) (auto simp: verdict_def)

lemma verdict_Some: "r \<noteq> Panic \<Longrightarrow> verdict r kind \<noteq> None \<longleftrightarrow> r \<noteq> Ret ()"
  by (simp add: verdict_None_iff)

lemma AcceptAuthenticated_rejected:
  "snd (AcceptAuthenticated w n) \<noteq> Ret () \<Longrightarrow> fst (AcceptAuthenticated w n) = w"
  by (auto simp: AcceptAuthenticated_def Let_def split: if_splits)

lemma new_ReplayWindow_represents: "window_represents new_ReplayWindow {}"
  by (simp add: window_represents_def new_ReplayWindow_def)

lemma AcceptAuthenticated_Ret_iff:
  assumes "window_represents w A"
  shows "snd (AcceptAuthenticated w n) = Ret () \<longleftrightarrow> spec_verdict A (unat n) = None"
  using AcceptAuthenticated_refines [OF assms, of n] AcceptAuthenticated_safe [of w n]
  by (metis verdict_None_iff)

interpretation window: replay_filter new_ReplayWindow AcceptAuthenticated window_represents 2048
proof
  show "window_represents new_ReplayWindow {}" by (rule new_ReplayWindow_represents)
next
  fix w A n w'
  assume rep: "window_represents w A" and ret: "AcceptAuthenticated w n = (w', Ret ())"
  then have "spec_verdict A (unat n) = None" using AcceptAuthenticated_Ret_iff [OF rep, of n] by simp
  with AcceptAuthenticated_refines [OF rep, of n] ret
  show "unat n \<notin> A \<and> window_represents w' (insert (unat n) A)"
    by (auto simp: spec_verdict_def split: if_splits)
next
  fix w A n w' r
  assume "AcceptAuthenticated w n = (w', r)" and "r \<noteq> Ret ()"
  then show "w' = w" using AcceptAuthenticated_rejected [of w n] by simp
next
  fix w n
  show "snd (AcceptAuthenticated w n) \<noteq> Panic" by (rule AcceptAuthenticated_safe)
next
  fix w A and n :: uint64
  assume rep: "window_represents w A" and new: "unat n \<notin> A" and below: "\<forall>m \<in> A. m < unat n + 2048"
  have "finite A" using rep by (simp add: window_represents_def)
  have "\<not> (A \<noteq> {} \<and> unat n + 2048 \<le> Max A)"
  proof
    assume c: "A \<noteq> {} \<and> unat n + 2048 \<le> Max A"
    with \<open>finite A\<close> below have "Max A < unat n + 2048" using Max_in by blast
    with c show False by linarith
  qed
  with new have "spec_verdict A (unat n) = None" by (simp only: spec_verdict_def if_False)
  then show "snd (AcceptAuthenticated w n) = Ret ()" using AcceptAuthenticated_Ret_iff [OF rep] by simp
qed

lemma Precheck_iff:
  assumes "window_represents w A"
  shows "Precheck w n \<longleftrightarrow> spec_verdict A (unat n) \<noteq> Some ErrReplayTooOld"
proof (cases "initialized w \<and> n \<le> highest w")
  case True
  then have "unat (highest w - n) = unat (highest w) - unat n" "unat n \<le> unat (highest w)"
    by (simp_all add: unat_diff_le word_le_nat_alt)
  with assms True show ?thesis
    by (auto simp: Precheck_def spec_verdict_def window_represents_def go_consts not_less)
next
  case False
  with assms show ?thesis
    by (auto simp: Precheck_def spec_verdict_def window_represents_def not_le word_less_nat_alt)
qed

section \<open>Properties\<close>

text \<open>The allocator hands out consecutive packet numbers from its first one, the largest
  64-bit number included, and then refuses every further request: for any number of calls
  the outcomes are exactly that sequence, so no number is ever handed out twice.\<close>

theorem packet_numbers_sequence:
  "snd (draw n (NewPacketNumbers first)) = map (nth_number first) [0..<n]"
  by (simp add: draw_fresh NewPacketNumbers_def)

text \<open>C2. The bitmap window implements its specification: when it represents the set \<open>A\<close> of
  all the numbers accepted so far, the verdict on a number (accept, duplicate, too old) is
  that of the set, and afterwards the window represents the set with the number added, or the
  same set when it was rejected.\<close>

theorem window_refines_set:
  assumes "window_represents w A"
  shows "verdict (snd (AcceptAuthenticated w n)) RKind = spec_verdict A (unat n)
    \<and> window_represents (fst (AcceptAuthenticated w n))
        (if spec_verdict A (unat n) = None then insert (unat n) A else A)"
  by (rule AcceptAuthenticated_refines [OF assms])

theorem window_refines_set_witness:
  "window_represents new_ReplayWindow {}
   \<and> verdict (snd (AcceptAuthenticated new_ReplayWindow 5)) RKind = None
   \<and> window_represents (fst (AcceptAuthenticated new_ReplayWindow 5)) {5}"
  using window_refines_set [OF new_ReplayWindow_represents, of 5] new_ReplayWindow_represents
  by (simp add: spec_verdict_def)

text \<open>C1. No replay: whatever packet numbers are offered to a new window, in whatever order and
  however often, the ones it accepts are pairwise different.\<close>

theorem window_no_replay: "distinct (snd (feed AcceptAuthenticated new_ReplayWindow ns))"
  by (rule window.feed_distinct)

text \<open>No false alarm: different numbers that have not been accepted before, none of which is
  2048 or more below another or below an accepted one, are all accepted in any order.\<close>

theorem window_lossless:
  assumes "window_represents w A" and "distinct ns" and "unat ` set ns \<inter> A = {}"
    and "\<forall>m \<in> A \<union> unat ` set ns. \<forall>n \<in> set ns. m < unat n + 2048"
  shows "snd (feed AcceptAuthenticated w ns) = ns"
  by (rule window.feed_lossless [OF assms])

theorem window_lossless_witness:
  "snd (feed AcceptAuthenticated new_ReplayWindow [7, 2000, 3, 1]) = [7, 2000, 3, 1]"
  by (rule window_lossless [OF new_ReplayWindow_represents]) simp_all

text \<open>The check before authentication rejects exactly the numbers that the window would call
  too old, so it never discards a packet the window would accept.\<close>

lemma precheck_exact:
  assumes "window_represents w A"
  shows "Precheck w n \<longleftrightarrow> spec_verdict A (unat n) \<noteq> Some ErrReplayTooOld"
  by (rule Precheck_iff [OF assms])

end
