(* ===== verification/Session_State.thy ===== *)
theory Session_State
  imports Prelude
begin

text \<open>
  \<^verbatim>\<open>internal/session/state.go\<close>: the roles, states and events of a session, its errors, the
  timeout policy with its validation and bounded exponential back-off, and the table
  \<^verbatim>\<open>nextState\<close> of legal transitions. A \<^verbatim>\<open>Role\<close> is an 8-bit number in the code, so a value that
  is neither role is kept as \<open>RoleOther\<close>; \<^verbatim>\<open>(0, false)\<close> of \<^verbatim>\<open>nextState\<close> is \<open>None\<close>.
\<close>

section \<open>Definitions\<close>

datatype Role = RoleClient | RoleServer | RoleOther uint8

fun Role_String :: "Role \<Rightarrow> string" where
  "Role_String RoleClient = ''client''"
| "Role_String RoleServer = ''server''"
| "Role_String (RoleOther r) = ''role('' @ show_nat (unat r) @ '')''"

definition Role_valid :: "Role \<Rightarrow> bool" where
  "Role_valid r \<longleftrightarrow> r = RoleClient \<or> r = RoleServer"

datatype State =
  StateIdle | StateInitialSent | StatePendingConfirm | StateEstablished | StateRekeying
| StateDraining | StateClosed

fun State_String :: "State \<Rightarrow> string" where
  "State_String StateIdle = ''Idle''"
| "State_String StateInitialSent = ''InitialSent''"
| "State_String StatePendingConfirm = ''PendingConfirm''"
| "State_String StateEstablished = ''Established''"
| "State_String StateRekeying = ''Rekeying''"
| "State_String StateDraining = ''Draining''"
| "State_String StateClosed = ''Closed''"

datatype Event =
  EventBeginHandshake | EventRetryReceived | EventRetransmitInitial | EventHandshakeComplete
| EventIssuePing | EventRetransmitPing | EventPong | EventConfirmPing | EventActivity
| EventBeginRekey | EventBeginDrain | EventTimeout | EventClose

fun Event_String :: "Event \<Rightarrow> string" where
  "Event_String EventBeginHandshake = ''BeginHandshake''"
| "Event_String EventRetryReceived = ''RetryReceived''"
| "Event_String EventRetransmitInitial = ''RetransmitInitial''"
| "Event_String EventHandshakeComplete = ''HandshakeComplete''"
| "Event_String EventIssuePing = ''IssuePing''"
| "Event_String EventRetransmitPing = ''RetransmitPing''"
| "Event_String EventPong = ''Pong''"
| "Event_String EventConfirmPing = ''ConfirmPing''"
| "Event_String EventActivity = ''Activity''"
| "Event_String EventBeginRekey = ''BeginRekey''"
| "Event_String EventBeginDrain = ''BeginDrain''"
| "Event_String EventTimeout = ''Timeout''"
| "Event_String EventClose = ''Close''"

text \<open>
  The errors of the package: one constructor per sentinel or error type, with the values the
  error carries (\<open>ErrTimeRegression\<close> the last and the received time, \<open>ErrRetriesExhausted\<close> the
  operation and its limit).
\<close>

datatype session_error =
  InvalidRole Role
| ErrInvalidPolicy string
| ErrTimeRegression gotime gotime
| ErrStateTimedOut State gotime
| ErrRetriesExhausted string uint8
| ErrPingOutstanding
| ErrNoOutstandingPing
| PongMismatchError uint64 uint64
| ConfirmMismatchError uint64 uint64
| ErrConfirmGraceExpired
| TransitionError Role State Event

definition TransitionError_Error :: "Role \<Rightarrow> State \<Rightarrow> Event \<Rightarrow> string" where
  "TransitionError_Error r s e = ''illegal session transition: role='' @ Role_String r
     @ '' from='' @ State_String s @ '' event='' @ Event_String e"

definition PongMismatchError_Error :: "uint64 \<Rightarrow> uint64 \<Rightarrow> string" where
  "PongMismatchError_Error want received = ''pong does not match outstanding ping: expected=''
     @ show_nat (unat want) @ '' received='' @ show_nat (unat received)"

definition ConfirmMismatchError_Error :: "uint64 \<Rightarrow> uint64 \<Rightarrow> string" where
  "ConfirmMismatchError_Error want received = ''confirm operation does not match: expected=''
     @ show_nat (unat want) @ '' received='' @ show_nat (unat received)"

record TimeoutPolicy =
  InitialSent :: duration
  PendingConfirm :: duration
  EstablishedIdle :: duration
  PathValidation :: duration
  Draining :: duration
  RetryToken :: duration
  ConfirmGrace :: duration
  InitialRetryBase :: duration
  ControlRetryBase :: duration
  MaxRetryBackoff :: duration
  MaxInitialRetries :: uint8
  MaxControlRetries :: uint8

definition Millisecond :: duration where "Millisecond = 1000000"
definition Second :: duration where "Second = 1000 * Millisecond"
definition Minute :: duration where "Minute = 60 * Second"

lemmas time_units = Minute_def Second_def Millisecond_def

definition DefaultTimeoutPolicy :: TimeoutPolicy where
  "DefaultTimeoutPolicy =
    \<lparr>InitialSent = 10 * Second,
     PendingConfirm = 5 * Second,
     EstablishedIdle = 5 * Minute,
     PathValidation = 3 * Second,
     Draining = 30 * Second,
     RetryToken = 30 * Second,
     ConfirmGrace = 10 * Second,
     InitialRetryBase = 500 * Millisecond,
     ControlRetryBase = 500 * Millisecond,
     MaxRetryBackoff = 4 * Second,
     MaxInitialRetries = 3,
     MaxControlRetries = 3\<rparr>"

fun requirePositive :: "(string \<times> duration) list \<Rightarrow> (session_error, unit) outcome" where
  "requirePositive [] = Ret ()"
| "requirePositive ((name, value) # rest) =
    (if value \<le> 0 then Err (ErrInvalidPolicy (name @ '' must be positive''))
     else requirePositive rest)"

definition TimeoutPolicy_Validate :: "TimeoutPolicy \<Rightarrow> (session_error, unit) outcome" where
  "TimeoutPolicy_Validate p =
    obind (requirePositive
       [(''InitialSent'', InitialSent p), (''PendingConfirm'', PendingConfirm p),
        (''EstablishedIdle'', EstablishedIdle p), (''PathValidation'', PathValidation p),
        (''Draining'', Draining p), (''RetryToken'', RetryToken p),
        (''ConfirmGrace'', ConfirmGrace p), (''InitialRetryBase'', InitialRetryBase p),
        (''ControlRetryBase'', ControlRetryBase p), (''MaxRetryBackoff'', MaxRetryBackoff p)]) (\<lambda>_.
     if MaxInitialRetries p = 0 \<or> MaxControlRetries p = 0 then
       Err (ErrInvalidPolicy ''retry limits must be positive'')
     else if InitialRetryBase p > MaxRetryBackoff p \<or> ControlRetryBase p > MaxRetryBackoff p then
       Err (ErrInvalidPolicy ''retry base exceeds maximum backoff'')
     else Ret ())"

text \<open>
  The loop of \<^verbatim>\<open>boundedBackoff\<close> by its remaining steps; the division truncates toward zero and
  the doubling is on 64-bit integers.
\<close>

definition half_duration :: "duration \<Rightarrow> duration" where
  "half_duration d = (if d < 0 then - ((- d) div 2) else d div 2)"

fun backoff_loop :: "nat \<Rightarrow> duration \<Rightarrow> duration \<Rightarrow> duration" where
  "backoff_loop 0 delay maximum = (if delay > maximum then maximum else delay)"
| "backoff_loop (Suc n) delay maximum =
    (if delay \<ge> maximum \<or> delay > half_duration maximum then maximum
     else backoff_loop n (wrap_int64 (delay * 2)) maximum)"

definition boundedBackoff :: "duration \<Rightarrow> uint8 \<Rightarrow> duration \<Rightarrow> duration" where
  "boundedBackoff base retry maximum = backoff_loop (unat retry) base maximum"

definition initialBackoff :: "TimeoutPolicy \<Rightarrow> uint8 \<Rightarrow> duration" where
  "initialBackoff p retry = boundedBackoff (InitialRetryBase p) retry (MaxRetryBackoff p)"

definition controlBackoff :: "TimeoutPolicy \<Rightarrow> uint8 \<Rightarrow> duration" where
  "controlBackoff p retry = boundedBackoff (ControlRetryBase p) retry (MaxRetryBackoff p)"

definition clientNext :: "State \<Rightarrow> Event \<Rightarrow> State option" where
  "clientNext s event =
    (case s of
       StateIdle \<Rightarrow> if event = EventBeginHandshake then Some StateInitialSent else None
     | StateInitialSent \<Rightarrow>
         if event \<in> {EventRetryReceived, EventRetransmitInitial} then Some StateInitialSent
         else if event = EventHandshakeComplete then Some StatePendingConfirm
         else if event = EventTimeout then Some StateClosed else None
     | StatePendingConfirm \<Rightarrow>
         if event \<in> {EventIssuePing, EventRetransmitPing} then Some StatePendingConfirm
         else if event = EventPong then Some StateEstablished
         else if event = EventTimeout then Some StateClosed else None
     | StateEstablished \<Rightarrow>
         if event = EventActivity then Some StateEstablished
         else if event = EventBeginRekey then Some StateRekeying
         else if event \<in> {EventBeginDrain, EventTimeout} then Some StateDraining else None
     | StateRekeying \<Rightarrow>
         if event \<in> {EventHandshakeComplete, EventIssuePing, EventRetransmitPing} then Some StateRekeying
         else if event = EventPong then Some StateEstablished
         else if event \<in> {EventBeginDrain, EventTimeout} then Some StateDraining else None
     | StateDraining \<Rightarrow> if event = EventTimeout then Some StateClosed else None
     | StateClosed \<Rightarrow> None)"

definition serverNext :: "State \<Rightarrow> Event \<Rightarrow> State option" where
  "serverNext s event =
    (case s of
       StateIdle \<Rightarrow> if event = EventHandshakeComplete then Some StatePendingConfirm else None
     | StatePendingConfirm \<Rightarrow>
         if event = EventConfirmPing then Some StateEstablished
         else if event = EventTimeout then Some StateClosed else None
     | StateEstablished \<Rightarrow>
         if event \<in> {EventActivity, EventConfirmPing} then Some StateEstablished
         else if event = EventBeginRekey then Some StateRekeying
         else if event \<in> {EventBeginDrain, EventTimeout} then Some StateDraining else None
     | StateRekeying \<Rightarrow>
         if event = EventHandshakeComplete then Some StateRekeying
         else if event = EventConfirmPing then Some StateEstablished
         else if event \<in> {EventBeginDrain, EventTimeout} then Some StateDraining else None
     | StateDraining \<Rightarrow> if event = EventTimeout then Some StateClosed else None
     | StateInitialSent \<Rightarrow> None
     | StateClosed \<Rightarrow> None)"

definition nextState :: "Role \<Rightarrow> State \<Rightarrow> Event \<Rightarrow> State option" where
  "nextState role s event =
    (if event = EventClose then Some StateClosed
     else case role of
       RoleClient \<Rightarrow> clientNext s event
     | RoleServer \<Rightarrow> serverNext s event
     | RoleOther _ \<Rightarrow> None)"

section \<open>Policies and back-off\<close>

definition policy_ok :: "TimeoutPolicy \<Rightarrow> bool" where
  "policy_ok p \<longleftrightarrow> 0 < InitialSent p \<and> 0 < PendingConfirm p \<and> 0 < EstablishedIdle p
     \<and> 0 < PathValidation p \<and> 0 < Draining p \<and> 0 < RetryToken p \<and> 0 < ConfirmGrace p
     \<and> 0 < InitialRetryBase p \<and> 0 < ControlRetryBase p
     \<and> InitialRetryBase p \<le> MaxRetryBackoff p \<and> ControlRetryBase p \<le> MaxRetryBackoff p
     \<and> MaxInitialRetries p \<noteq> 0 \<and> MaxControlRetries p \<noteq> 0"

lemma TimeoutPolicy_Validate_Ret_iff: "TimeoutPolicy_Validate p = Ret () \<longleftrightarrow> policy_ok p"
  by (auto simp: TimeoutPolicy_Validate_def policy_ok_def obind_Ret_iff split: if_splits)

lemma TimeoutPolicy_Validate_safe: "TimeoutPolicy_Validate p \<noteq> Panic"
  by (auto simp: TimeoutPolicy_Validate_def obind_Panic_iff split: if_splits)

lemma DefaultTimeoutPolicy_ok: "policy_ok DefaultTimeoutPolicy"
  by (simp add: policy_ok_def DefaultTimeoutPolicy_def time_units)

lemma backoff_loop_min:
  assumes "0 < delay" and "delay \<le> maximum" and "maximum < 2 ^ 63"
  shows "backoff_loop n delay maximum = min maximum (delay * 2 ^ n)"
  using assms
proof (induction n arbitrary: delay)
  case 0
  then show ?case by simp
next
  case (Suc n)
  show ?case
  proof (cases "delay > maximum div 2")
    case True
    then have "maximum \<le> delay * 2" by simp
    also have "delay * 2 \<le> delay * 2 ^ Suc n" using Suc.prems(1) by simp
    finally have "min maximum (delay * 2 ^ Suc n) = maximum" by simp
    with True Suc.prems show ?thesis by (simp add: half_duration_def)
  next
    case False
    then have le: "delay * 2 \<le> maximum" by simp
    then have "wrap_int64 (delay * 2) = delay * 2" using Suc.prems by (intro wrap_int64_id) simp_all
    moreover have "\<not> maximum \<le> delay" using le Suc.prems(1) by simp
    ultimately have "backoff_loop (Suc n) delay maximum = backoff_loop n (delay * 2) maximum"
      using False Suc.prems by (simp add: half_duration_def)
    also have "\<dots> = min maximum (delay * 2 * 2 ^ n)" using Suc.prems le by (intro Suc.IH) simp_all
    finally show ?thesis by (simp add: mult.assoc)
  qed
qed

lemma boundedBackoff_min:
  "0 < base \<Longrightarrow> base \<le> maximum \<Longrightarrow> maximum < 2 ^ 63 \<Longrightarrow>
     boundedBackoff base retry maximum = min maximum (base * 2 ^ unat retry)"
  by (simp add: boundedBackoff_def backoff_loop_min)

section \<open>The transition table\<close>

lemmas next_defs = nextState_def clientNext_def serverNext_def

lemma nextState_Closed: "nextState role StateClosed event = Some s \<Longrightarrow> event = EventClose \<and> s = StateClosed"
  by (auto simp: next_defs split: if_splits Role.splits)

lemma nextState_Established:
  "nextState role s event = Some StateEstablished \<Longrightarrow> s \<noteq> StateEstablished \<Longrightarrow>
     role = RoleClient \<and> event = EventPong \<and> s \<in> {StatePendingConfirm, StateRekeying}
     \<or> role = RoleServer \<and> event = EventConfirmPing \<and> s \<in> {StatePendingConfirm, StateRekeying}"
  by (auto simp: next_defs split: if_splits Role.splits State.splits)

text \<open>How far a session is from its end, which no event increases.\<close>

fun rank :: "State \<Rightarrow> nat" where
  "rank StateIdle = 5"
| "rank StateInitialSent = 4"
| "rank StatePendingConfirm = 3"
| "rank StateEstablished = 2"
| "rank StateRekeying = 2"
| "rank StateDraining = 1"
| "rank StateClosed = 0"

lemma nextState_rank: "nextState role s event = Some s' \<Longrightarrow> rank s' \<le> rank s"
  by (auto simp: next_defs split: if_splits Role.splits State.splits)

lemma nextState_timeout:
  assumes "Role_valid role" and "s \<notin> {StateIdle, StateClosed}" and "s = StateInitialSent \<longrightarrow> role = RoleClient"
  obtains s' where "nextState role s EventTimeout = Some s'" and "s' \<in> {StateDraining, StateClosed}"
    and "s = StateDraining \<longrightarrow> s' = StateClosed"
  using assms by (cases role; cases s) (auto simp: next_defs Role_valid_def)

section \<open>Properties\<close>

text \<open>C24. The retransmission delay is the base doubled once per retry and capped at the maximum,
  for every retry count of the 8-bit counter: the 64-bit doubling never overflows.\<close>

theorem backoff_is_capped_exponential:
  assumes "0 < base" and "base \<le> maximum" and "maximum < 2 ^ 63"
  shows "boundedBackoff base retry maximum = min maximum (base * 2 ^ unat retry)"
  by (rule boundedBackoff_min [OF assms])

theorem backoff_is_capped_exponential_witness:
  "boundedBackoff 500 200 4000 = 4000 \<and> boundedBackoff 500 2 4000 = 2000"
  using backoff_is_capped_exponential [of 500 4000 200] backoff_is_capped_exponential [of 500 4000 2]
  by simp

end
