(* ===== verification/Session_Machine.thy ===== *)
theory Session_Machine
  imports Session_State
begin

text \<open>
  \<^verbatim>\<open>internal/session/machine.go\<close>: the session state machine. Every method is a function from
  the machine to the new machine and its outcome; each holds the machine's mutex for its whole
  body, so an execution with concurrent callers is a sequence of such calls, the relation
  \<open>machine_step\<close>. \<^verbatim>\<open>now.Add(d)\<close> is \<open>now + d\<close>.
\<close>

section \<open>Definitions\<close>

record Machine =
  m_role :: Role
  m_state :: State
  m_policy :: TimeoutPolicy
  enteredAt :: gotime
  lastEventAt :: gotime
  deadline :: gotime
  initialRetries :: uint8
  controlRetries :: uint8
  hasOutstandingPing :: bool
  outstandingPingID :: uint64
  rekeyHandshakeReady :: bool
  hasLastConfirmID :: bool
  lastConfirmID :: uint64
  confirmGraceUntil :: gotime

type_synonym 'a session_result = "(session_error, 'a) outcome"

definition NewMachine :: "Role \<Rightarrow> TimeoutPolicy \<Rightarrow> gotime \<Rightarrow> Machine session_result" where
  "NewMachine role policy now =
    (if \<not> Role_valid role then Err (InvalidRole role)
     else obind (TimeoutPolicy_Validate policy) (\<lambda>_.
       Ret \<lparr>m_role = role, m_state = StateIdle, m_policy = policy, enteredAt = now, lastEventAt = now,
            deadline = 0, initialRetries = 0, controlRetries = 0, hasOutstandingPing = False,
            outstandingPingID = 0, rekeyHandshakeReady = False, hasLastConfirmID = False,
            lastConfirmID = 0, confirmGraceUntil = 0\<rparr>))"

definition NewDefaultMachine :: "Role \<Rightarrow> gotime \<Rightarrow> Machine session_result" where
  "NewDefaultMachine role now = NewMachine role DefaultTimeoutPolicy now"

definition requireTimeLocked :: "Machine \<Rightarrow> gotime \<Rightarrow> unit session_result" where
  "requireTimeLocked m now =
    (if now < lastEventAt m then Err (ErrTimeRegression (lastEventAt m) now) else Ret ())"

definition requireBeforeDeadlineLocked :: "Machine \<Rightarrow> gotime \<Rightarrow> unit session_result" where
  "requireBeforeDeadlineLocked m now =
    (if deadline m \<noteq> 0 \<and> \<not> now < deadline m then Err (ErrStateTimedOut (m_state m) (deadline m))
     else Ret ())"

definition requireEventLocked :: "Machine \<Rightarrow> Event \<Rightarrow> State session_result" where
  "requireEventLocked m event =
    (case nextState (m_role m) (m_state m) event of
       None \<Rightarrow> Err (TransitionError (m_role m) (m_state m) event)
     | Some next \<Rightarrow> Ret next)"

definition clearPingLocked :: "Machine \<Rightarrow> Machine" where
  "clearPingLocked m = m\<lparr>hasOutstandingPing := False, outstandingPingID := 0, controlRetries := 0\<rparr>"

definition setStateLocked :: "State \<Rightarrow> gotime \<Rightarrow> Machine \<Rightarrow> Machine" where
  "setStateLocked next now m0 =
    (let m = m0\<lparr>m_state := next, enteredAt := now, lastEventAt := now\<rparr> in
     case next of
       StateIdle \<Rightarrow> m\<lparr>deadline := 0\<rparr>
     | StateInitialSent \<Rightarrow>
         clearPingLocked (m\<lparr>deadline := now + InitialSent (m_policy m), initialRetries := 0\<rparr>)
     | StatePendingConfirm \<Rightarrow>
         clearPingLocked (m\<lparr>deadline := now + PendingConfirm (m_policy m), controlRetries := 0\<rparr>)
     | StateEstablished \<Rightarrow>
         m\<lparr>deadline := now + EstablishedIdle (m_policy m), rekeyHandshakeReady := False\<rparr>
     | StateRekeying \<Rightarrow>
         clearPingLocked (m\<lparr>deadline := now + PendingConfirm (m_policy m),
           rekeyHandshakeReady := False, controlRetries := 0\<rparr>)
     | StateDraining \<Rightarrow>
         clearPingLocked (m\<lparr>deadline := now + Draining (m_policy m), rekeyHandshakeReady := False\<rparr>)
     | StateClosed \<Rightarrow> clearPingLocked (m\<lparr>deadline := 0, rekeyHandshakeReady := False\<rparr>))"

definition BeginHandshake :: "Machine \<Rightarrow> gotime \<Rightarrow> Machine \<times> unit session_result" where
  "BeginHandshake m now =
     or_return (requireTimeLocked m now) m (\<lambda>_.
     or_return (requireEventLocked m EventBeginHandshake) m (\<lambda>next.
       (setStateLocked next now m, Ret ())))"

definition HandleRetry :: "Machine \<Rightarrow> gotime \<Rightarrow> Machine \<times> unit session_result" where
  "HandleRetry m now =
     or_return (requireTimeLocked m now) m (\<lambda>_.
     or_return (requireBeforeDeadlineLocked m now) m (\<lambda>_.
     or_return (requireEventLocked m EventRetryReceived) m (\<lambda>_.
       (m\<lparr>initialRetries := 0, lastEventAt := now\<rparr>, Ret ()))))"

definition RecordInitialRetransmission :: "Machine \<Rightarrow> gotime \<Rightarrow> Machine \<times> duration session_result" where
  "RecordInitialRetransmission m now =
     or_return (requireTimeLocked m now) m (\<lambda>_.
     or_return (requireBeforeDeadlineLocked m now) m (\<lambda>_.
     or_return (requireEventLocked m EventRetransmitInitial) m (\<lambda>_.
       if initialRetries m \<ge> MaxInitialRetries (m_policy m) then
         (m, Err (ErrRetriesExhausted ''INITIAL'' (MaxInitialRetries (m_policy m))))
       else
         let delay = initialBackoff (m_policy m) (initialRetries m) in
         (m\<lparr>initialRetries := initialRetries m + 1, lastEventAt := now\<rparr>, Ret delay))))"

definition HandshakeComplete :: "Machine \<Rightarrow> gotime \<Rightarrow> Machine \<times> unit session_result" where
  "HandshakeComplete m now =
     or_return (requireTimeLocked m now) m (\<lambda>_.
     or_return (requireBeforeDeadlineLocked m now) m (\<lambda>_.
     or_return (requireEventLocked m EventHandshakeComplete) m (\<lambda>next.
       if m_state m = StateRekeying then
         ((clearPingLocked (m\<lparr>rekeyHandshakeReady := True\<rparr>))
            \<lparr>deadline := now + PendingConfirm (m_policy m), lastEventAt := now\<rparr>, Ret ())
       else (setStateLocked next now m, Ret ()))))"

definition IssuePing :: "Machine \<Rightarrow> uint64 \<Rightarrow> gotime \<Rightarrow> Machine \<times> unit session_result" where
  "IssuePing m operationID now =
     or_return (requireTimeLocked m now) m (\<lambda>_.
     or_return (requireBeforeDeadlineLocked m now) m (\<lambda>_.
     or_return (requireEventLocked m EventIssuePing) m (\<lambda>_.
       if m_state m = StateRekeying \<and> \<not> rekeyHandshakeReady m then
         (m, Err (TransitionError (m_role m) (m_state m) EventIssuePing))
       else if hasOutstandingPing m then (m, Err ErrPingOutstanding)
       else (m\<lparr>hasOutstandingPing := True, outstandingPingID := operationID,
               controlRetries := 0, lastEventAt := now\<rparr>, Ret ()))))"

definition RecordPingRetransmission :: "Machine \<Rightarrow> uint64 \<Rightarrow> gotime \<Rightarrow> Machine \<times> duration session_result" where
  "RecordPingRetransmission m operationID now =
     or_return (requireTimeLocked m now) m (\<lambda>_.
     or_return (requireBeforeDeadlineLocked m now) m (\<lambda>_.
     or_return (requireEventLocked m EventRetransmitPing) m (\<lambda>_.
       if \<not> hasOutstandingPing m then (m, Err ErrNoOutstandingPing)
       else if operationID \<noteq> outstandingPingID m then
         (m, Err (PongMismatchError (outstandingPingID m) operationID))
       else if controlRetries m \<ge> MaxControlRetries (m_policy m) then
         (m, Err (ErrRetriesExhausted ''CONFIRM/PING'' (MaxControlRetries (m_policy m))))
       else
         let delay = controlBackoff (m_policy m) (controlRetries m) in
         (m\<lparr>controlRetries := controlRetries m + 1, lastEventAt := now\<rparr>, Ret delay))))"

definition AcceptPong :: "Machine \<Rightarrow> uint64 \<Rightarrow> gotime \<Rightarrow> Machine \<times> unit session_result" where
  "AcceptPong m operationID now =
     or_return (requireTimeLocked m now) m (\<lambda>_.
     or_return (requireBeforeDeadlineLocked m now) m (\<lambda>_.
     or_return (requireEventLocked m EventPong) m (\<lambda>next.
       if \<not> hasOutstandingPing m then (m, Err ErrNoOutstandingPing)
       else if operationID \<noteq> outstandingPingID m then
         (m, Err (PongMismatchError (outstandingPingID m) operationID))
       else (setStateLocked next now (clearPingLocked m), Ret ()))))"

definition AcceptConfirmPing :: "Machine \<Rightarrow> uint64 \<Rightarrow> gotime \<Rightarrow> Machine \<times> bool session_result" where
  "AcceptConfirmPing m operationID now =
     or_return (requireTimeLocked m now) m (\<lambda>_.
     or_return (requireBeforeDeadlineLocked m now) m (\<lambda>_.
     or_return (requireEventLocked m EventConfirmPing) m (\<lambda>next.
       if m_state m = StateRekeying \<and> \<not> rekeyHandshakeReady m then
         (m, Err (TransitionError (m_role m) (m_state m) EventConfirmPing))
       else if m_state m = StateEstablished then
         (if \<not> hasLastConfirmID m \<or> operationID \<noteq> lastConfirmID m then
            (m, Err (ConfirmMismatchError (lastConfirmID m) operationID))
          else if now > confirmGraceUntil m then (m, Err ErrConfirmGraceExpired)
          else (m\<lparr>lastEventAt := now, deadline := now + EstablishedIdle (m_policy m)\<rparr>, Ret True))
       else
         (setStateLocked next now
            (m\<lparr>hasLastConfirmID := True, lastConfirmID := operationID,
               confirmGraceUntil := now + ConfirmGrace (m_policy m)\<rparr>), Ret False))))"

definition BeginRekey :: "Machine \<Rightarrow> gotime \<Rightarrow> Machine \<times> unit session_result" where
  "BeginRekey m now =
     or_return (requireTimeLocked m now) m (\<lambda>_.
     or_return (requireBeforeDeadlineLocked m now) m (\<lambda>_.
     or_return (requireEventLocked m EventBeginRekey) m (\<lambda>next.
       (setStateLocked next now m, Ret ()))))"

definition Touch :: "Machine \<Rightarrow> gotime \<Rightarrow> Machine \<times> unit session_result" where
  "Touch m now =
     or_return (requireTimeLocked m now) m (\<lambda>_.
     or_return (requireBeforeDeadlineLocked m now) m (\<lambda>_.
     or_return (requireEventLocked m EventActivity) m (\<lambda>_.
       (m\<lparr>lastEventAt := now, deadline := now + EstablishedIdle (m_policy m)\<rparr>, Ret ()))))"

definition BeginDrain :: "Machine \<Rightarrow> gotime \<Rightarrow> Machine \<times> unit session_result" where
  "BeginDrain m now =
     or_return (requireTimeLocked m now) m (\<lambda>_.
     or_return (requireEventLocked m EventBeginDrain) m (\<lambda>next.
       (setStateLocked next now m, Ret ())))"

definition CheckTimeout :: "Machine \<Rightarrow> gotime \<Rightarrow> Machine \<times> bool session_result" where
  "CheckTimeout m now =
     or_return (requireTimeLocked m now) m (\<lambda>_.
       if deadline m = 0 \<or> now < deadline m then (m, Ret False)
       else or_return (requireEventLocked m EventTimeout) m (\<lambda>next.
         (setStateLocked next now m, Ret True)))"

definition Machine_Close :: "Machine \<Rightarrow> gotime \<Rightarrow> Machine \<times> unit session_result" where
  "Machine_Close m now =
     or_return (requireTimeLocked m now) m (\<lambda>_.
       if m_state m = StateClosed then (m, Ret ())
       else or_return (requireEventLocked m EventClose) m (\<lambda>next.
         (setStateLocked next now m, Ret ())))"

section \<open>Calls\<close>

text \<open>One constructor per method that changes the machine, and what it returns.\<close>

datatype call =
  CBeginHandshake | CHandleRetry | CRecordInitialRetransmission | CHandshakeComplete
| CIssuePing uint64 | CRecordPingRetransmission uint64 | CAcceptPong uint64
| CAcceptConfirmPing uint64 | CBeginRekey | CTouch | CBeginDrain | CCheckTimeout | CClose

datatype answer = ADone | ADelay duration | AFlag bool

fun answer_as :: "('a \<Rightarrow> answer) \<Rightarrow> Machine \<times> 'a session_result \<Rightarrow> Machine \<times> answer session_result" where
  "answer_as f (m, r) = (m, obind r (\<lambda>x. Ret (f x)))"

fun invoke :: "call \<Rightarrow> gotime \<Rightarrow> Machine \<Rightarrow> Machine \<times> answer session_result" where
  "invoke CBeginHandshake now m = answer_as (\<lambda>_. ADone) (BeginHandshake m now)"
| "invoke CHandleRetry now m = answer_as (\<lambda>_. ADone) (HandleRetry m now)"
| "invoke CRecordInitialRetransmission now m = answer_as ADelay (RecordInitialRetransmission m now)"
| "invoke CHandshakeComplete now m = answer_as (\<lambda>_. ADone) (HandshakeComplete m now)"
| "invoke (CIssuePing op) now m = answer_as (\<lambda>_. ADone) (IssuePing m op now)"
| "invoke (CRecordPingRetransmission op) now m = answer_as ADelay (RecordPingRetransmission m op now)"
| "invoke (CAcceptPong op) now m = answer_as (\<lambda>_. ADone) (AcceptPong m op now)"
| "invoke (CAcceptConfirmPing op) now m = answer_as AFlag (AcceptConfirmPing m op now)"
| "invoke CBeginRekey now m = answer_as (\<lambda>_. ADone) (BeginRekey m now)"
| "invoke CTouch now m = answer_as (\<lambda>_. ADone) (Touch m now)"
| "invoke CBeginDrain now m = answer_as (\<lambda>_. ADone) (BeginDrain m now)"
| "invoke CCheckTimeout now m = answer_as AFlag (CheckTimeout m now)"
| "invoke CClose now m = answer_as (\<lambda>_. ADone) (Machine_Close m now)"

fun event_of :: "call \<Rightarrow> Event" where
  "event_of CBeginHandshake = EventBeginHandshake"
| "event_of CHandleRetry = EventRetryReceived"
| "event_of CRecordInitialRetransmission = EventRetransmitInitial"
| "event_of CHandshakeComplete = EventHandshakeComplete"
| "event_of (CIssuePing _) = EventIssuePing"
| "event_of (CRecordPingRetransmission _) = EventRetransmitPing"
| "event_of (CAcceptPong _) = EventPong"
| "event_of (CAcceptConfirmPing _) = EventConfirmPing"
| "event_of CBeginRekey = EventBeginRekey"
| "event_of CTouch = EventActivity"
| "event_of CBeginDrain = EventBeginDrain"
| "event_of CCheckTimeout = EventTimeout"
| "event_of CClose = EventClose"

inductive machine_step :: "Machine \<Rightarrow> call \<Rightarrow> gotime \<Rightarrow> Machine \<Rightarrow> bool" where
  machine_step: "invoke c now m = (m', Ret a) \<Longrightarrow> machine_step m c now m'"

text \<open>\<open>machine_run m cs m'\<close>: the successful calls \<open>cs\<close>, in this order, take \<open>m\<close> to \<open>m'\<close>.\<close>

inductive machine_run :: "Machine \<Rightarrow> (call \<times> gotime) list \<Rightarrow> Machine \<Rightarrow> bool" where
  run_nil: "machine_run m [] m"
| run_snoc: "machine_run m cs m' \<Longrightarrow> machine_step m' c now m'' \<Longrightarrow> machine_run m (cs @ [(c, now)]) m''"

lemmas machine_ops =
  BeginHandshake_def HandleRetry_def RecordInitialRetransmission_def HandshakeComplete_def
  IssuePing_def RecordPingRetransmission_def AcceptPong_def AcceptConfirmPing_def BeginRekey_def
  Touch_def BeginDrain_def CheckTimeout_def Machine_Close_def

lemmas machine_guards =
  requireTimeLocked_def requireBeforeDeadlineLocked_def requireEventLocked_def

section \<open>Errors change nothing\<close>

lemma answer_as_Ret: "answer_as f p = (m', Ret a) \<longleftrightarrow> (\<exists>x. p = (m', Ret x) \<and> a = f x)"
  by (cases p; cases "snd p") auto

lemma requireTime_Ret [simp]: "requireTimeLocked m now = Ret u \<longleftrightarrow> lastEventAt m \<le> now"
  and requireBeforeDeadline_Ret [simp]:
    "requireBeforeDeadlineLocked m now = Ret u \<longleftrightarrow> deadline m = 0 \<or> now < deadline m"
  and requireEvent_Ret [simp]:
    "requireEventLocked m event = Ret s \<longleftrightarrow> nextState (m_role m) (m_state m) event = Some s"
  by (auto simp: machine_guards split: option.splits)

lemma guards_safe [simp]:
  "requireTimeLocked m now \<noteq> Panic" "requireBeforeDeadlineLocked m now \<noteq> Panic"
  "requireEventLocked m event \<noteq> Panic"
  by (auto simp: machine_guards split: option.splits)

text \<open>An outcome is transactional when the call succeeds or returns an error and the old machine.\<close>

definition transactional :: "Machine \<Rightarrow> Machine \<times> ('e, 'a) outcome \<Rightarrow> bool" where
  "transactional m p \<longleftrightarrow> (\<exists>x. snd p = Ret x) \<or> (\<exists>e. p = (m, Err e))"

lemma transactional_intros [simp]:
  "transactional m (m', Ret x)" "transactional m (m, Err e)"
  by (simp_all add: transactional_def)

lemma transactional_or_return [intro!]:
  "r \<noteq> Panic \<Longrightarrow> (\<And>x. transactional m (k x)) \<Longrightarrow> transactional m (or_return r m k)"
  by (cases r) simp_all

lemma transactional_answer_as: "transactional m p \<Longrightarrow> transactional m (answer_as f p)"
  by (cases p) (auto simp: transactional_def)

lemma invoke_transactional: "transactional m (invoke c now m)"
  by (cases c) (auto intro!: transactional_answer_as simp: machine_ops Let_def)

section \<open>What a successful call does\<close>

lemma setState_fields [simp]:
  "m_state (setStateLocked s now m) = s" "m_role (setStateLocked s now m) = m_role m"
  "m_policy (setStateLocked s now m) = m_policy m" "enteredAt (setStateLocked s now m) = now"
  "lastEventAt (setStateLocked s now m) = now"
  "hasLastConfirmID (setStateLocked s now m) = hasLastConfirmID m"
  "lastConfirmID (setStateLocked s now m) = lastConfirmID m"
  "confirmGraceUntil (setStateLocked s now m) = confirmGraceUntil m"
  by (simp_all add: setStateLocked_def clearPingLocked_def Let_def split: State.splits)

lemma clearPing_fields [simp]:
  "m_state (clearPingLocked m) = m_state m" "m_role (clearPingLocked m) = m_role m"
  "m_policy (clearPingLocked m) = m_policy m" "enteredAt (clearPingLocked m) = enteredAt m"
  "lastEventAt (clearPingLocked m) = lastEventAt m" "deadline (clearPingLocked m) = deadline m"
  "initialRetries (clearPingLocked m) = initialRetries m" "controlRetries (clearPingLocked m) = 0"
  "\<not> hasOutstandingPing (clearPingLocked m)" "outstandingPingID (clearPingLocked m) = 0"
  "rekeyHandshakeReady (clearPingLocked m) = rekeyHandshakeReady m"
  "hasLastConfirmID (clearPingLocked m) = hasLastConfirmID m"
  "lastConfirmID (clearPingLocked m) = lastConfirmID m"
  "confirmGraceUntil (clearPingLocked m) = confirmGraceUntil m"
  by (simp_all add: clearPingLocked_def)

text \<open>
  The successful calls, one rule per branch; every proof about runs goes through this case
  analysis instead of the bodies. The guards on time are in the first two assumptions.
\<close>

inductive effect :: "Machine \<Rightarrow> call \<Rightarrow> gotime \<Rightarrow> Machine \<Rightarrow> bool" where
  begin_handshake: "m_role m = RoleClient \<Longrightarrow> m_state m = StateIdle \<Longrightarrow>
    effect m CBeginHandshake now (setStateLocked StateInitialSent now m)"
| retry: "m_role m = RoleClient \<Longrightarrow> m_state m = StateInitialSent \<Longrightarrow>
    effect m CHandleRetry now (m\<lparr>initialRetries := 0, lastEventAt := now\<rparr>)"
| retransmit: "m_role m = RoleClient \<Longrightarrow> m_state m = StateInitialSent \<Longrightarrow>
    initialRetries m < MaxInitialRetries (m_policy m) \<Longrightarrow>
    effect m CRecordInitialRetransmission now (m\<lparr>initialRetries := initialRetries m + 1, lastEventAt := now\<rparr>)"
| complete: "m_role m = RoleClient \<and> m_state m = StateInitialSent \<or> m_role m = RoleServer \<and> m_state m = StateIdle \<Longrightarrow>
    effect m CHandshakeComplete now (setStateLocked StatePendingConfirm now m)"
| recomplete: "Role_valid (m_role m) \<Longrightarrow> m_state m = StateRekeying \<Longrightarrow>
    effect m CHandshakeComplete now
      ((clearPingLocked (m\<lparr>rekeyHandshakeReady := True\<rparr>))
        \<lparr>deadline := now + PendingConfirm (m_policy m), lastEventAt := now\<rparr>)"
| ping: "m_role m = RoleClient \<Longrightarrow> m_state m = StatePendingConfirm \<or> m_state m = StateRekeying \<and> rekeyHandshakeReady m \<Longrightarrow>
    \<not> hasOutstandingPing m \<Longrightarrow>
    effect m (CIssuePing op) now
      (m\<lparr>hasOutstandingPing := True, outstandingPingID := op, controlRetries := 0, lastEventAt := now\<rparr>)"
| reping: "m_role m = RoleClient \<Longrightarrow> m_state m = StatePendingConfirm \<or> m_state m = StateRekeying \<Longrightarrow>
    hasOutstandingPing m \<Longrightarrow> op = outstandingPingID m \<Longrightarrow> controlRetries m < MaxControlRetries (m_policy m) \<Longrightarrow>
    effect m (CRecordPingRetransmission op) now (m\<lparr>controlRetries := controlRetries m + 1, lastEventAt := now\<rparr>)"
| pong: "m_role m = RoleClient \<Longrightarrow> m_state m = StatePendingConfirm \<or> m_state m = StateRekeying \<Longrightarrow>
    hasOutstandingPing m \<Longrightarrow> op = outstandingPingID m \<Longrightarrow>
    effect m (CAcceptPong op) now (setStateLocked StateEstablished now (clearPingLocked m))"
| confirm: "m_role m = RoleServer \<Longrightarrow> m_state m = StatePendingConfirm \<or> m_state m = StateRekeying \<and> rekeyHandshakeReady m \<Longrightarrow>
    effect m (CAcceptConfirmPing op) now
      (setStateLocked StateEstablished now (m\<lparr>hasLastConfirmID := True, lastConfirmID := op,
         confirmGraceUntil := now + ConfirmGrace (m_policy m)\<rparr>))"
| reconfirm: "m_role m = RoleServer \<Longrightarrow> m_state m = StateEstablished \<Longrightarrow>
    hasLastConfirmID m \<Longrightarrow> op = lastConfirmID m \<Longrightarrow> now \<le> confirmGraceUntil m \<Longrightarrow>
    effect m (CAcceptConfirmPing op) now (m\<lparr>lastEventAt := now, deadline := now + EstablishedIdle (m_policy m)\<rparr>)"
| rekey: "Role_valid (m_role m) \<Longrightarrow> m_state m = StateEstablished \<Longrightarrow>
    effect m CBeginRekey now (setStateLocked StateRekeying now m)"
| touch: "Role_valid (m_role m) \<Longrightarrow> m_state m = StateEstablished \<Longrightarrow>
    effect m CTouch now (m\<lparr>lastEventAt := now, deadline := now + EstablishedIdle (m_policy m)\<rparr>)"
| drain: "Role_valid (m_role m) \<Longrightarrow> m_state m = StateEstablished \<or> m_state m = StateRekeying \<Longrightarrow>
    effect m CBeginDrain now (setStateLocked StateDraining now m)"
| not_due: "deadline m = 0 \<or> now < deadline m \<Longrightarrow> effect m CCheckTimeout now m"
| due: "deadline m \<noteq> 0 \<Longrightarrow> deadline m \<le> now \<Longrightarrow> nextState (m_role m) (m_state m) EventTimeout = Some s \<Longrightarrow>
    effect m CCheckTimeout now (setStateLocked s now m)"
| close: "m_state m \<noteq> StateClosed \<Longrightarrow> effect m CClose now (setStateLocked StateClosed now m)"
| closed: "m_state m = StateClosed \<Longrightarrow> effect m CClose now m"

definition in_time :: "Machine \<Rightarrow> call \<Rightarrow> gotime \<Rightarrow> bool" where
  "in_time m c now \<longleftrightarrow> lastEventAt m \<le> now
     \<and> (c \<notin> {CBeginHandshake, CBeginDrain, CCheckTimeout, CClose} \<longrightarrow> deadline m = 0 \<or> now < deadline m)"

lemma table_Some:
  "nextState r s EventBeginHandshake = Some t \<longleftrightarrow> r = RoleClient \<and> s = StateIdle \<and> t = StateInitialSent"
  "nextState r s EventRetryReceived = Some t \<longleftrightarrow> r = RoleClient \<and> s = StateInitialSent \<and> t = StateInitialSent"
  "nextState r s EventRetransmitInitial = Some t \<longleftrightarrow> r = RoleClient \<and> s = StateInitialSent \<and> t = StateInitialSent"
  "nextState r s EventHandshakeComplete = Some t \<longleftrightarrow>
     (r = RoleClient \<and> s = StateInitialSent \<or> r = RoleServer \<and> s = StateIdle) \<and> t = StatePendingConfirm
     \<or> Role_valid r \<and> s = StateRekeying \<and> t = StateRekeying"
  "nextState r s EventIssuePing = Some t \<longleftrightarrow>
     r = RoleClient \<and> (s = StatePendingConfirm \<or> s = StateRekeying) \<and> t = s"
  "nextState r s EventRetransmitPing = Some t \<longleftrightarrow>
     r = RoleClient \<and> (s = StatePendingConfirm \<or> s = StateRekeying) \<and> t = s"
  "nextState r s EventPong = Some t \<longleftrightarrow>
     r = RoleClient \<and> (s = StatePendingConfirm \<or> s = StateRekeying) \<and> t = StateEstablished"
  "nextState r s EventConfirmPing = Some t \<longleftrightarrow>
     r = RoleServer \<and> (s = StatePendingConfirm \<or> s = StateRekeying \<or> s = StateEstablished) \<and> t = StateEstablished"
  "nextState r s EventActivity = Some t \<longleftrightarrow> Role_valid r \<and> s = StateEstablished \<and> t = StateEstablished"
  "nextState r s EventBeginRekey = Some t \<longleftrightarrow> Role_valid r \<and> s = StateEstablished \<and> t = StateRekeying"
  "nextState r s EventBeginDrain = Some t \<longleftrightarrow>
     Role_valid r \<and> (s = StateEstablished \<or> s = StateRekeying) \<and> t = StateDraining"
  "nextState r s EventClose = Some t \<longleftrightarrow> t = StateClosed"
  by (cases s; cases r; auto simp: next_defs Role_valid_def)+

lemma complete_effect:
  assumes "HandshakeComplete m now = (m', Ret u)"
  shows "in_time m CHandshakeComplete now \<and> effect m CHandshakeComplete now m'"
proof (cases "m_state m = StateRekeying")
  case True
  with assms show ?thesis
    by (simp add: HandshakeComplete_def or_return_Ret_iff table_Some in_time_def)
      (use effect.recomplete [of m now] True in blast)
next
  case False
  with assms show ?thesis
    by (auto simp: HandshakeComplete_def or_return_Ret_iff table_Some in_time_def intro: effect.complete)
qed

lemma machine_step_effect: "machine_step m c now m' \<Longrightarrow> in_time m c now \<and> effect m c now m'"
proof (induction rule: machine_step.induct)
  case (machine_step c now m m' a)
  show ?case
  proof (cases "c = CHandshakeComplete")
    case True
    with machine_step show ?thesis by (auto simp: answer_as_Ret dest: complete_effect)
  next
    case False
    with machine_step show ?thesis
      by (cases c)
        (auto simp: answer_as_Ret machine_ops or_return_Ret_iff table_Some in_time_def Let_def not_le not_less
          intro: effect.intros split: if_splits)
  qed
qed

section \<open>The machine follows the transition table\<close>

lemma effect_role [simp]: "effect m c now m' \<Longrightarrow> m_role m' = m_role m"
  and effect_policy [simp]: "effect m c now m' \<Longrightarrow> m_policy m' = m_policy m"
  by (induction rule: effect.induct) simp_all

lemma effect_table:
  "effect m c now m' \<Longrightarrow> nextState (m_role m) (m_state m) (event_of c) = Some (m_state m')
     \<or> m' = m \<and> c \<in> {CCheckTimeout, CClose}"
  by (induction rule: effect.induct) (auto simp: table_Some Role_valid_def)

lemma effect_rank: "effect m c now m' \<Longrightarrow> rank (m_state m') \<le> rank (m_state m)"
  using effect_table [of m c now m'] nextState_rank by fastforce

section \<open>The invariant\<close>

definition active :: "State \<Rightarrow> bool" where
  "active s \<longleftrightarrow> s \<noteq> StateIdle \<and> s \<noteq> StateClosed"

text \<open>The longest time a session stays in a state without an event.\<close>

fun budget :: "TimeoutPolicy \<Rightarrow> State \<Rightarrow> duration" where
  "budget p StateIdle = 0"
| "budget p StateInitialSent = InitialSent p"
| "budget p StatePendingConfirm = PendingConfirm p"
| "budget p StateEstablished = EstablishedIdle p"
| "budget p StateRekeying = PendingConfirm p"
| "budget p StateDraining = Draining p"
| "budget p StateClosed = 0"

definition timers_ok :: "Machine \<Rightarrow> bool" where
  "timers_ok m \<longleftrightarrow> 0 \<le> enteredAt m \<and> enteredAt m \<le> lastEventAt m
     \<and> (active (m_state m) \<longrightarrow> lastEventAt m < deadline m
          \<and> deadline m \<le> lastEventAt m + budget (m_policy m) (m_state m))
     \<and> (\<not> active (m_state m) \<longrightarrow> deadline m = 0)
     \<and> (m_state m \<in> {StateInitialSent, StatePendingConfirm, StateDraining} \<longrightarrow>
          deadline m = enteredAt m + budget (m_policy m) (m_state m))"

definition ping_ok :: "Machine \<Rightarrow> bool" where
  "ping_ok m \<longleftrightarrow>
     (hasOutstandingPing m \<longrightarrow> m_role m = RoleClient
        \<and> (m_state m = StatePendingConfirm \<or> m_state m = StateRekeying \<and> rekeyHandshakeReady m))
     \<and> (\<not> hasOutstandingPing m \<longrightarrow> outstandingPingID m = 0 \<and> controlRetries m = 0)
     \<and> (rekeyHandshakeReady m \<longrightarrow> m_state m = StateRekeying)
     \<and> controlRetries m \<le> MaxControlRetries (m_policy m)
     \<and> initialRetries m \<le> MaxInitialRetries (m_policy m)"

definition role_ok :: "Machine \<Rightarrow> bool" where
  "role_ok m \<longleftrightarrow> Role_valid (m_role m)
     \<and> (m_state m = StateInitialSent \<longrightarrow> m_role m = RoleClient)
     \<and> (hasLastConfirmID m \<longrightarrow> m_role m = RoleServer)
     \<and> (m_role m = RoleServer \<and> m_state m \<in> {StateEstablished, StateRekeying} \<longrightarrow> hasLastConfirmID m)"

definition machine_ok :: "Machine \<Rightarrow> bool" where
  "machine_ok m \<longleftrightarrow> policy_ok (m_policy m) \<and> timers_ok m \<and> ping_ok m \<and> role_ok m"

lemma setState_deadline:
  "deadline (setStateLocked s now m) = (if active s then now + budget (m_policy m) s else 0)"
  by (simp add: setStateLocked_def clearPingLocked_def Let_def active_def split: State.splits)

lemma budget_pos: "policy_ok p \<Longrightarrow> active s \<Longrightarrow> 0 < budget p s"
  by (cases s) (simp_all add: policy_ok_def active_def)

lemma timers_setState: "policy_ok (m_policy m) \<Longrightarrow> 0 \<le> now \<Longrightarrow> timers_ok (setStateLocked s now m)"
  using budget_pos [of "m_policy m" s] by (auto simp: timers_ok_def setState_deadline active_def)

lemma timers_effect:
  assumes "effect m c now m'" and "in_time m c now" and "policy_ok (m_policy m)" and "timers_ok m"
  shows "timers_ok m'"
proof -
  have now: "0 \<le> now" using assms(2,4) by (auto simp: timers_ok_def in_time_def)
  note set = timers_setState [OF _ now]
  from assms(1) show ?thesis
    using assms(2-4) now
    by (cases rule: effect.cases)
      (auto simp: set, auto simp: timers_ok_def in_time_def active_def policy_ok_def)
qed

lemma setState_ping:
  "hasOutstandingPing (setStateLocked s now m) \<longleftrightarrow> s \<in> {StateIdle, StateEstablished} \<and> hasOutstandingPing m"
  "outstandingPingID (setStateLocked s now m) =
     (if s \<in> {StateIdle, StateEstablished} then outstandingPingID m else 0)"
  "controlRetries (setStateLocked s now m) =
     (if s \<in> {StateIdle, StateEstablished} then controlRetries m else 0)"
  "initialRetries (setStateLocked s now m) = (if s = StateInitialSent then 0 else initialRetries m)"
  "rekeyHandshakeReady (setStateLocked s now m) \<longleftrightarrow>
     s \<in> {StateIdle, StateInitialSent, StatePendingConfirm} \<and> rekeyHandshakeReady m"
  by (simp_all add: setStateLocked_def clearPingLocked_def Let_def split: State.splits)

lemma retry_step: "r < limit \<Longrightarrow> r + 1 \<le> (limit :: uint8)"
  by (simp add: inc_le)

lemma ping_setState:
  "ping_ok m \<Longrightarrow> \<not> hasOutstandingPing m \<or> s \<notin> {StateIdle, StateEstablished} \<Longrightarrow>
     \<not> rekeyHandshakeReady m \<or> s \<notin> {StateIdle, StateInitialSent, StatePendingConfirm} \<Longrightarrow>
     ping_ok (setStateLocked s now m)"
  by (simp add: ping_ok_def setState_ping) blast

lemma ping_rekeyReady: "ping_ok m \<Longrightarrow> m_state m \<noteq> StateRekeying \<Longrightarrow> \<not> rekeyHandshakeReady m"
  by (simp add: ping_ok_def)

lemma ping_server: "ping_ok m \<Longrightarrow> m_role m = RoleServer \<Longrightarrow> \<not> hasOutstandingPing m"
  by (auto simp: ping_ok_def)

lemma ping_clear: "ping_ok m \<Longrightarrow> ping_ok (clearPingLocked m)"
  by (simp add: ping_ok_def)

lemma timeout_target:
  "nextState r s EventTimeout = Some t \<Longrightarrow> t = StateDraining \<or> t = StateClosed"
  by (auto simp: next_defs split: Role.splits State.splits)

lemma ping_effect: "effect m c now m' \<Longrightarrow> ping_ok m \<Longrightarrow> ping_ok m'"
proof (induction rule: effect.induct)
  case (due m now s)
  then show ?case using timeout_target [of "m_role m" "m_state m" s] by (auto intro: ping_setState)
next
  case (confirm m op now)
  then have "\<not> hasOutstandingPing m" by (simp add: ping_server)
  then show ?case using confirm by (intro ping_setState) (simp_all add: ping_ok_def)
next
  case (pong m op now)
  then show ?case by (intro ping_setState) (simp_all add: ping_clear)
next
  case (reping m op now)
  then show ?case by (simp add: ping_ok_def retry_step)
next
  case (retransmit m now)
  then show ?case by (simp add: ping_ok_def retry_step)
next
  case (recomplete m now)
  then show ?case by (simp add: ping_ok_def)
next
  case (complete m now)
  then show ?case by (intro ping_setState) (auto simp: ping_rekeyReady)
qed (simp_all add: ping_setState ping_rekeyReady, simp_all add: ping_ok_def)

lemma role_effect: "effect m c now m' \<Longrightarrow> role_ok m \<Longrightarrow> role_ok m'"
  by (induction rule: effect.induct)
    (auto simp: role_ok_def Role_valid_def next_defs split: if_splits State.splits)

lemma machine_ok_step: "machine_step m c now m' \<Longrightarrow> machine_ok m \<Longrightarrow> machine_ok m'"
  using machine_step_effect [of m c now m'] timers_effect ping_effect role_effect
  unfolding machine_ok_def by (metis effect_policy)

lemma NewMachine_Ret_iff:
  "NewMachine role policy now = Ret m \<longleftrightarrow> Role_valid role \<and> policy_ok policy
     \<and> m = \<lparr>m_role = role, m_state = StateIdle, m_policy = policy, enteredAt = now, lastEventAt = now,
            deadline = 0, initialRetries = 0, controlRetries = 0, hasOutstandingPing = False,
            outstandingPingID = 0, rekeyHandshakeReady = False, hasLastConfirmID = False,
            lastConfirmID = 0, confirmGraceUntil = 0\<rparr>"
  by (auto simp: NewMachine_def obind_Ret_iff TimeoutPolicy_Validate_Ret_iff)

lemma NewMachine_ok: "NewMachine role policy now = Ret m \<Longrightarrow> 0 \<le> now \<Longrightarrow> machine_ok m"
  by (auto simp: NewMachine_Ret_iff machine_ok_def timers_ok_def ping_ok_def role_ok_def active_def)

inductive reachable :: "Machine \<Rightarrow> bool" where
  reach_new: "NewMachine role policy now = Ret m \<Longrightarrow> 0 \<le> now \<Longrightarrow> reachable m"
| reach_step: "reachable m \<Longrightarrow> machine_step m c now m' \<Longrightarrow> reachable m'"

inductive_cases machine_runE: "machine_run m cs m'"

lemma reachable_ok: "reachable m \<Longrightarrow> machine_ok m"
  by (induction rule: reachable.induct) (auto intro: NewMachine_ok machine_ok_step)

lemma run_reachable: "machine_run m cs m' \<Longrightarrow> reachable m \<Longrightarrow> reachable m'"
  by (induction rule: machine_run.induct) (auto intro: reach_step)

section \<open>Histories\<close>

text \<open>
  What the calls of a run must have contained, in this order: a completed handshake; a PING
  \<open>op\<close> issued after it; the PONG with the same \<open>op\<close> after that, on the client, or a CONFIRM/PING
  after the completed handshake, on the server.
\<close>

type_synonym history = "(call \<times> gotime) list"

definition completed :: "history \<Rightarrow> bool" where
  "completed cs \<longleftrightarrow> CHandshakeComplete \<in> fst ` set cs"

definition after :: "(history \<Rightarrow> bool) \<Rightarrow> call \<Rightarrow> history \<Rightarrow> bool" where
  "after P c cs \<longleftrightarrow> (\<exists>pre post t. cs = pre @ (c, t) # post \<and> P pre)"

definition issued :: "uint64 \<Rightarrow> history \<Rightarrow> bool" where
  "issued op = after completed (CIssuePing op)"

definition answered :: "history \<Rightarrow> bool" where
  "answered cs \<longleftrightarrow> (\<exists>op. after (issued op) (CAcceptPong op) cs)"

definition confirmed :: "history \<Rightarrow> bool" where
  "confirmed cs \<longleftrightarrow> (\<exists>op. after completed (CAcceptConfirmPing op) cs)"

lemma after_mono: "after P c cs \<Longrightarrow> after P c (cs @ ds)"
  unfolding after_def by force

lemma after_new: "P cs \<Longrightarrow> after P c (cs @ [(c, t)])"
  unfolding after_def by blast

lemma history_mono:
  "completed cs \<Longrightarrow> completed (cs @ ds)" "issued op cs \<Longrightarrow> issued op (cs @ ds)"
  "answered cs \<Longrightarrow> answered (cs @ ds)" "confirmed cs \<Longrightarrow> confirmed (cs @ ds)"
  by (auto simp: issued_def answered_def confirmed_def intro: after_mono) (simp add: completed_def image_Un)

lemma history_new:
  "completed (cs @ [(CHandshakeComplete, t)])"
  "completed cs \<Longrightarrow> issued op (cs @ [(CIssuePing op, t)])"
  "issued op cs \<Longrightarrow> answered (cs @ [(CAcceptPong op, t)])"
  "completed cs \<Longrightarrow> confirmed (cs @ [(CAcceptConfirmPing op, t)])"
  by (auto simp: issued_def answered_def confirmed_def intro: after_new) (simp add: completed_def)

definition history_ok :: "history \<Rightarrow> Machine \<Rightarrow> bool" where
  "history_ok cs m \<longleftrightarrow>
     (m_state m = StatePendingConfirm \<or> rekeyHandshakeReady m \<longrightarrow> completed cs)
     \<and> (hasOutstandingPing m \<longrightarrow> issued (outstandingPingID m) cs)
     \<and> (m_role m = RoleClient \<and> m_state m \<in> {StateEstablished, StateRekeying} \<longrightarrow> answered cs)
     \<and> (m_role m = RoleServer \<and> m_state m \<in> {StateEstablished, StateRekeying} \<longrightarrow> confirmed cs)"

lemma history_mono_ok: "history_ok cs m \<Longrightarrow> history_ok (cs @ ds) m"
  by (simp add: history_ok_def history_mono)

lemma history_setState:
  "history_ok cs m \<Longrightarrow> s \<in> {StateIdle, StateInitialSent, StateDraining, StateClosed} \<Longrightarrow>
     history_ok cs (setStateLocked s now m)"
  by (auto simp: history_ok_def setState_ping)

lemma effect_history:
  assumes "effect m c now m'" and "history_ok cs m" and "ping_ok m"
  shows "history_ok (cs @ [(c, now)]) m'"
  using assms
proof (induction rule: effect.induct)
  case (due m now s)
  then show ?case using timeout_target [of "m_role m" "m_state m" s]
    by (auto intro!: history_setState history_mono_ok)
next
  case (pong m op now)
  then have "answered (cs @ [(CAcceptPong op, now)])" by (simp add: history_ok_def history_new)
  with pong show ?case by (simp add: history_ok_def setState_ping)
next
  case (confirm m op now)
  then have "confirmed (cs @ [(CAcceptConfirmPing op, now)])" by (auto simp: history_ok_def history_new)
  with confirm show ?case by (simp add: history_ok_def setState_ping ping_server)
next
  case (rekey m now)
  then show ?case by (simp add: history_ok_def setState_ping history_mono)
next
  case (ping m op now)
  then have "completed cs" by (auto simp: history_ok_def)
  with ping show ?case by (auto simp: history_ok_def history_new history_mono)
qed (simp_all add: history_ok_def setState_ping history_new history_mono)

lemma run_history:
  "machine_run m cs m' \<Longrightarrow> reachable m \<Longrightarrow> m_state m = StateIdle \<Longrightarrow> history_ok cs m'"
proof (induction rule: machine_run.induct)
  case (run_nil m)
  then have "ping_ok m" using reachable_ok by (simp add: machine_ok_def)
  with run_nil show ?case by (auto simp: history_ok_def ping_ok_def)
next
  case (run_snoc m cs m' c now m'')
  then have "ping_ok m'" using run_reachable reachable_ok by (auto simp: machine_ok_def)
  with run_snoc show ?case using machine_step_effect effect_history by blast
qed

section \<open>Every session ends\<close>

lemma closed_absorbs: "effect m c now m' \<Longrightarrow> m_state m = StateClosed \<Longrightarrow> m' = m \<or> deadline m \<noteq> 0"
  by (induction rule: effect.induct) simp_all

lemma closed_stays:
  assumes "machine_run m cs m'" and "machine_ok m" and "m_state m = StateClosed"
  shows "m' = m"
  using assms
proof (induction rule: machine_run.induct)
  case (run_nil m)
  then show ?case by simp
next
  case (run_snoc m cs m' c now m'')
  then have "m' = m" by simp
  moreover have "deadline m = 0" using run_snoc.prems by (simp add: machine_ok_def timers_ok_def active_def)
  ultimately show ?case
    using closed_absorbs machine_step_effect [OF run_snoc.hyps(2)] run_snoc.prems by auto
qed

lemma timeout_fires:
  assumes "machine_ok m" and "active (m_state m)" and "deadline m \<le> now"
  shows "\<exists>m'. CheckTimeout m now = (m', Ret True) \<and> m_state m' \<in> {StateDraining, StateClosed}
    \<and> (m_state m = StateDraining \<longrightarrow> m_state m' = StateClosed) \<and> deadline m' \<le> now + Draining (m_policy m)"
proof -
  from assms obtain s where s: "nextState (m_role m) (m_state m) EventTimeout = Some s"
    "s \<in> {StateDraining, StateClosed}" "m_state m = StateDraining \<longrightarrow> s = StateClosed"
    using nextState_timeout [of "m_role m" "m_state m"] by (auto simp: machine_ok_def role_ok_def active_def)
  have due: "deadline m \<noteq> 0" "\<not> now < deadline m" "lastEventAt m \<le> now" "0 \<le> now"
    using assms by (auto simp: machine_ok_def timers_ok_def)
  have "0 < Draining (m_policy m)" using assms(1) by (simp add: machine_ok_def policy_ok_def)
  with due s show ?thesis
    by (auto simp: CheckTimeout_def requireTimeLocked_def requireEventLocked_def setState_deadline active_def)
qed

text \<open>Two timer ticks after its deadlines, whatever the state, a session is closed.\<close>

lemma two_ticks_close:
  assumes "machine_ok m" and "active (m_state m)" and "deadline m \<le> t1" and "t1 + Draining (m_policy m) \<le> t2"
  shows "m_state (fst (CheckTimeout (fst (CheckTimeout m t1)) t2)) = StateClosed"
proof -
  obtain m1 where m1: "CheckTimeout m t1 = (m1, Ret True)" "m_state m1 \<in> {StateDraining, StateClosed}"
    "deadline m1 \<le> t1 + Draining (m_policy m)"
    using timeout_fires [OF assms(1,2,3)] by auto
  have step: "machine_step m CCheckTimeout t1 m1"
    using m1(1) by (auto intro!: machine_step.intros [of _ _ _ _ "AFlag True"])
  have ok: "machine_ok m1" by (rule machine_ok_step [OF step assms(1)])
  show ?thesis
  proof (cases "m_state m1 = StateClosed")
    case True
    with ok have "deadline m1 = 0" by (simp add: machine_ok_def timers_ok_def active_def)
    with True m1(1) show ?thesis by (simp add: CheckTimeout_def requireTimeLocked_def)
  next
    case False
    with m1(2) have d: "m_state m1 = StateDraining" by simp
    moreover have "deadline m1 \<le> t2" using m1(3) assms(4) by simp
    ultimately show ?thesis using timeout_fires [OF ok, of t2] m1(1) by (auto simp: active_def)
  qed
qed

section \<open>Retransmissions\<close>

lemma initial_retransmission:
  assumes "machine_ok m" and "MaxRetryBackoff (m_policy m) < 2 ^ 63"
    and "RecordInitialRetransmission m now = (m', Ret delay)"
  shows "delay = min (MaxRetryBackoff (m_policy m)) (InitialRetryBase (m_policy m) * 2 ^ unat (initialRetries m))
    \<and> unat (initialRetries m') = unat (initialRetries m) + 1
    \<and> unat (initialRetries m') \<le> unat (MaxInitialRetries (m_policy m))"
proof -
  from assms(3) have lt: "initialRetries m < MaxInitialRetries (m_policy m)"
    and m': "initialRetries m' = initialRetries m + 1"
    and delay: "delay = initialBackoff (m_policy m) (initialRetries m)"
    by (auto simp: RecordInitialRetransmission_def or_return_Ret_iff Let_def split: if_splits)
  have "unat (initialRetries m + 1) = unat (initialRetries m) + 1"
    using lt by (rule unat_succ_less)
  moreover have "unat (initialRetries m) < unat (MaxInitialRetries (m_policy m))"
    using lt by (simp add: word_less_nat_alt)
  moreover have "policy_ok (m_policy m)" using assms(1) by (simp add: machine_ok_def)
  ultimately show ?thesis
    using m' delay assms(2) by (simp add: initialBackoff_def boundedBackoff_min policy_ok_def)
qed

section \<open>Properties\<close>

text \<open>
  A concrete client session for the witnesses: created at time 1, handshake begun and
  completed, PING 9 issued and answered.
\<close>

definition sample_policy :: TimeoutPolicy where
  "sample_policy = \<lparr>InitialSent = 10, PendingConfirm = 5, EstablishedIdle = 300, PathValidation = 3,
     Draining = 30, RetryToken = 30, ConfirmGrace = 10, InitialRetryBase = 1, ControlRetryBase = 1,
     MaxRetryBackoff = 8, MaxInitialRetries = 3, MaxControlRetries = 3\<rparr>"

definition sample_new :: "Role \<Rightarrow> Machine" where
  "sample_new r = \<lparr>m_role = r, m_state = StateIdle, m_policy = sample_policy, enteredAt = 1,
     lastEventAt = 1, deadline = 0, initialRetries = 0, controlRetries = 0, hasOutstandingPing = False,
     outstandingPingID = 0, rekeyHandshakeReady = False, hasLastConfirmID = False, lastConfirmID = 0,
     confirmGraceUntil = 0\<rparr>"

fun play :: "history \<Rightarrow> Machine \<Rightarrow> Machine option" where
  "play [] m = Some m"
| "play ((c, now) # cs) m = (case invoke c now m of (m', Ret _) \<Rightarrow> play cs m' | _ \<Rightarrow> None)"

definition client_calls :: history where
  "client_calls = [(CBeginHandshake, 1), (CHandshakeComplete, 2), (CIssuePing 9, 3), (CAcceptPong 9, 4)]"

definition server_calls :: history where
  "server_calls = [(CHandshakeComplete, 2), (CAcceptConfirmPing 9, 3)]"

lemma run_Cons: "machine_run m cs m'' \<Longrightarrow> machine_step m0 c now m \<Longrightarrow> machine_run m0 ((c, now) # cs) m''"
proof (induction rule: machine_run.induct)
  case (run_nil m)
  then show ?case using run_snoc [OF machine_run.run_nil [of m0]] by simp
next
  case (run_snoc m cs m' c' now' m'')
  then show ?case using machine_run.run_snoc [of m0 "(c, now) # cs"] by simp
qed

lemma play_run: "play cs m = Some m' \<Longrightarrow> machine_run m cs m'"
proof (induction cs m rule: play.induct)
  case (1 m)
  then show ?case by (simp add: run_nil)
next
  case (2 c now cs m)
  then obtain m1 a where "invoke c now m = (m1, Ret a)" "play cs m1 = Some m'"
    by (auto split: prod.splits outcome.splits)
  with 2 show ?case using run_Cons machine_step by metis
qed

lemma sample_policy_ok: "policy_ok sample_policy"
  by (simp add: policy_ok_def sample_policy_def)

lemma sample_reachable: "Role_valid r \<Longrightarrow> reachable (sample_new r)"
  by (rule reach_new [of r sample_policy 1]) (simp_all add: NewMachine_Ret_iff sample_new_def sample_policy_ok)

lemmas play_simps = machine_ops machine_guards table_Some next_defs setStateLocked_def clearPingLocked_def
  Let_def sample_policy_def sample_new_def

lemma client_plays:
  "\<exists>m. play client_calls (sample_new RoleClient) = Some m \<and> m_role m = RoleClient
     \<and> m_state m = StateEstablished \<and> deadline m = 304 \<and> m_policy m = sample_policy"
  by (simp add: client_calls_def play_simps)

lemma server_plays:
  "\<exists>m. play server_calls (sample_new RoleServer) = Some m \<and> m_role m = RoleServer \<and> m_state m = StateEstablished"
  by (simp add: server_calls_def play_simps)

lemma client_machine:
  obtains m where "machine_run (sample_new RoleClient) client_calls m" and "reachable m"
    and "m_role m = RoleClient" and "m_state m = StateEstablished" and "deadline m = 304"
    and "m_policy m = sample_policy"
  using client_plays play_run run_reachable [OF _ sample_reachable [of RoleClient]]
  by (auto simp: Role_valid_def)

lemma server_machine:
  obtains m where "machine_run (sample_new RoleServer) server_calls m" and "m_state m = StateEstablished"
  using server_plays play_run by blast

lemma play_reachable: "play cs (sample_new RoleClient) = Some m \<Longrightarrow> reachable m"
  using play_run run_reachable sample_reachable [of RoleClient] unfolding Role_valid_def by blast

lemma NewMachine_sample: "Role_valid r \<Longrightarrow> NewMachine r sample_policy 1 = Ret (sample_new r)"
  by (simp add: NewMachine_Ret_iff sample_new_def sample_policy_ok)

text \<open>C11. Every machine reachable from a new one by any sequence of calls satisfies the
  invariant: timers are ordered and within the policy's budget of the state (hard deadlines in
  InitialSent, PendingConfirm and Draining), retry counters stay within their limits, an
  outstanding PING exists only on a client that waits for its PONG, after the new handshake
  when it rekeys, and only a server stores confirmations.\<close>

theorem machine_invariant: "reachable m \<Longrightarrow> machine_ok m"
  by (rule reachable_ok)

theorem machine_invariant_witness:
  "\<exists>m. reachable m \<and> m_state m = StateEstablished \<and> machine_ok m"
  by (rule client_machine) (use machine_invariant in blast)

text \<open>The methods follow the transition table: a successful call moves the machine along
  the table's entry for its event, or is a timeout check that is not due or a repeated close,
  which change nothing.\<close>

theorem machine_follows_table:
  assumes "machine_step m c now m'"
  shows "nextState (m_role m) (m_state m) (event_of c) = Some (m_state m')
    \<or> m' = m \<and> c \<in> {CCheckTimeout, CClose}"
  using machine_step_effect [OF assms] effect_table by blast

theorem machine_follows_table_witness:
  "\<exists>m. machine_step (sample_new RoleClient) CBeginHandshake 1 m
     \<and> nextState RoleClient StateIdle EventBeginHandshake = Some (m_state m)"
proof -
  have "\<exists>m. invoke CBeginHandshake 1 (sample_new RoleClient) = (m, Ret ADone)" by (simp add: play_simps)
  then obtain m where step: "machine_step (sample_new RoleClient) CBeginHandshake 1 m"
    using machine_step by blast
  with machine_follows_table [OF step] show ?thesis by (auto simp: sample_new_def)
qed

text \<open>C20. Calls are atomic: every method, in every state and with any arguments, either succeeds
  or returns an error and leaves the machine exactly as it was; none panics.\<close>

theorem machine_calls_atomic:
  "(\<exists>a. snd (invoke c now m) = Ret a) \<or> (\<exists>e. invoke c now m = (m, Err e))"
  using invoke_transactional [of m c now] by (simp add: transactional_def)

text \<open>C10. A client session is never established early: if any run of calls on a new client
  machine ends Established, it contains a completed handshake, later a PING with some
  operation, and later the PONG with the same operation.\<close>

theorem client_established_by_pong:
  assumes "NewMachine RoleClient policy t = Ret m0" and "0 \<le> t" and "machine_run m0 cs m"
    and "m_state m = StateEstablished"
  shows "answered cs"
proof -
  have m0: "reachable m0" "m_state m0 = StateIdle" "m_role m0 = RoleClient"
    using assms(1,2) reach_new by (auto simp: NewMachine_Ret_iff)
  have "m_role m = m_role m0" using assms(3)
    by (induction rule: machine_run.induct) (auto dest: machine_step_effect)
  with run_history [OF assms(3) m0(1,2)] m0(3) assms(4) show ?thesis by (simp add: history_ok_def)
qed

theorem client_established_by_pong_witness: "answered client_calls"
proof (rule client_machine)
  fix m
  assume "machine_run (sample_new RoleClient) client_calls m" and "m_state m = StateEstablished"
  then show "answered client_calls"
    using client_established_by_pong [OF NewMachine_sample [of RoleClient]] by (simp add: Role_valid_def)
qed

text \<open>A server session is established only by confirmation: if any run of calls on a new
  server machine ends Established, it contains a completed handshake and later a CONFIRM/PING.\<close>

theorem server_established_by_confirm:
  assumes "NewMachine RoleServer policy t = Ret m0" and "0 \<le> t" and "machine_run m0 cs m"
    and "m_state m = StateEstablished"
  shows "confirmed cs"
proof -
  have m0: "reachable m0" "m_state m0 = StateIdle" "m_role m0 = RoleServer"
    using assms(1,2) reach_new by (auto simp: NewMachine_Ret_iff)
  have "m_role m = m_role m0" using assms(3)
    by (induction rule: machine_run.induct) (auto dest: machine_step_effect)
  with run_history [OF assms(3) m0(1,2)] m0(3) assms(4) show ?thesis by (simp add: history_ok_def)
qed

theorem server_established_by_confirm_witness: "confirmed server_calls"
proof (rule server_machine)
  fix m
  assume "machine_run (sample_new RoleServer) server_calls m" and "m_state m = StateEstablished"
  then show "confirmed server_calls"
    using server_established_by_confirm [OF NewMachine_sample [of RoleServer]] by (simp add: Role_valid_def)
qed

text \<open>C19. Sessions end: from every reachable machine in an active state, a timeout check at or
  after its deadline and another one a draining period later leave it Closed, whatever the
  state was.\<close>

theorem session_ends_by_timeouts:
  assumes "reachable m" and "m_state m \<notin> {StateIdle, StateClosed}" and "deadline m \<le> t1"
    and "t1 + Draining (m_policy m) \<le> t2"
  shows "m_state (fst (CheckTimeout (fst (CheckTimeout m t1)) t2)) = StateClosed"
  using two_ticks_close [OF reachable_ok [OF assms(1)]] assms by (simp add: active_def)

theorem session_ends_by_timeouts_witness:
  "\<exists>m. reachable m \<and> m_state m = StateEstablished
     \<and> m_state (fst (CheckTimeout (fst (CheckTimeout m 304)) 334)) = StateClosed"
proof (rule client_machine)
  fix m
  assume m: "reachable m" "m_state m = StateEstablished" "deadline m = 304" "m_policy m = sample_policy"
  then have "m_state (fst (CheckTimeout (fst (CheckTimeout m 304)) 334)) = StateClosed"
    by (intro session_ends_by_timeouts) (simp_all add: sample_policy_def)
  with m show ?thesis by blast
qed

text \<open>Closed is final: no sequence of calls changes a reachable machine that is Closed.\<close>

lemma closed_is_final:
  assumes "reachable m" and "m_state m = StateClosed" and "machine_run m cs m'"
  shows "m' = m"
  using closed_stays assms reachable_ok by blast

text \<open>INITIAL retransmissions are bounded and back off: on every reachable machine whose
  policy fits 64-bit durations, a granted retransmission returns the capped exponential delay
  of its number and counts exactly one, within the policy's limit.\<close>

theorem initial_retransmissions_bounded:
  assumes "reachable m" and "MaxRetryBackoff (m_policy m) < 2 ^ 63"
    and "RecordInitialRetransmission m now = (m', Ret delay)"
  shows "delay = min (MaxRetryBackoff (m_policy m)) (InitialRetryBase (m_policy m) * 2 ^ unat (initialRetries m))
    \<and> unat (initialRetries m') = unat (initialRetries m) + 1
    \<and> unat (initialRetries m') \<le> unat (MaxInitialRetries (m_policy m))"
  by (rule initial_retransmission [OF reachable_ok [OF assms(1)] assms(2,3)])

theorem initial_retransmissions_bounded_witness:
  "\<exists>m m'. reachable m \<and> RecordInitialRetransmission m 3 = (m', Ret 1) \<and> unat (initialRetries m') = 1"
proof -
  have "\<exists>m. play [(CBeginHandshake, 2)] (sample_new RoleClient) = Some m \<and> m_policy m = sample_policy
      \<and> initialRetries m = 0 \<and> (\<exists>m' d. RecordInitialRetransmission m 3 = (m', Ret d))"
    by (simp add: play_simps)
  then obtain m m' d where m: "reachable m" "m_policy m = sample_policy" "initialRetries m = 0"
    and r: "RecordInitialRetransmission m 3 = (m', Ret d)"
    using play_reachable by blast
  from initial_retransmissions_bounded [OF m(1) _ r] m r show ?thesis
    by (auto simp: sample_policy_def)
qed

end
