(* ===== verification/Go_Strings.thy ===== *)
theory Go_Strings
  imports Prelude
begin

text \<open>
  What the code uses of Go's \<^verbatim>\<open>strings\<close> and \<^verbatim>\<open>strconv\<close> packages. A string is its list of bytes,
  as characters. \<^verbatim>\<open>ToLower\<close>, \<^verbatim>\<open>ToUpper\<close>, \<^verbatim>\<open>TrimSpace\<close>, \<^verbatim>\<open>Fields\<close> and \<^verbatim>\<open>EqualFold\<close> are those of
  ASCII text (\<open>ascii\<close>), not of the rest of Unicode.
\<close>

section \<open>Characters\<close>

definition lower_char :: "char \<Rightarrow> char" where
  "lower_char c = (let n = (of_char c :: nat) in if 65 \<le> n \<and> n \<le> 90 then char_of (n + 32) else c)"

definition upper_char :: "char \<Rightarrow> char" where
  "upper_char c = (let n = (of_char c :: nat) in if 97 \<le> n \<and> n \<le> 122 then char_of (n - 32) else c)"

definition ascii_space :: "char \<Rightarrow> bool" where
  "ascii_space c \<longleftrightarrow> (of_char c :: nat) \<in> {9, 10, 11, 12, 13, 32}"

definition ascii :: "string \<Rightarrow> bool" where
  "ascii s \<longleftrightarrow> (\<forall>c \<in> set s. (of_char c :: nat) < 128)"

definition is_digit :: "char \<Rightarrow> bool" where
  "is_digit c \<longleftrightarrow> 48 \<le> (of_char c :: nat) \<and> (of_char c :: nat) \<le> 57"

section \<open>Package strings\<close>

definition strings_ToLower :: "string \<Rightarrow> string" where
  "strings_ToLower s = map lower_char s"

definition strings_ToUpper :: "string \<Rightarrow> string" where
  "strings_ToUpper s = map upper_char s"

definition strings_EqualFold :: "string \<Rightarrow> string \<Rightarrow> bool" where
  "strings_EqualFold a b \<longleftrightarrow> strings_ToLower a = strings_ToLower b"

definition strings_TrimSpace :: "string \<Rightarrow> string" where
  "strings_TrimSpace s = rev (dropWhile ascii_space (rev (dropWhile ascii_space s)))"

definition strings_HasPrefix :: "string \<Rightarrow> string \<Rightarrow> bool" where
  "strings_HasPrefix s pre \<longleftrightarrow> length pre \<le> length s \<and> take (length pre) s = pre"

definition strings_HasSuffix :: "string \<Rightarrow> string \<Rightarrow> bool" where
  "strings_HasSuffix s suf \<longleftrightarrow> length suf \<le> length s \<and> drop (length s - length suf) s = suf"

definition strings_TrimPrefix :: "string \<Rightarrow> string \<Rightarrow> string" where
  "strings_TrimPrefix s pre = (if strings_HasPrefix s pre then drop (length pre) s else s)"

definition strings_TrimSuffix :: "string \<Rightarrow> string \<Rightarrow> string" where
  "strings_TrimSuffix s suf =
    (if length suf \<le> length s \<and> drop (length s - length suf) s = suf
     then take (length s - length suf) s else s)"

fun strings_Contains :: "string \<Rightarrow> string \<Rightarrow> bool" where
  "strings_Contains [] sub = (sub = [])"
| "strings_Contains (c # s) sub = (strings_HasPrefix (c # s) sub \<or> strings_Contains s sub)"

text \<open>\<^verbatim>\<open>strings.Split\<close> at a separator of one character, and \<^verbatim>\<open>strings.Fields\<close>.\<close>

fun strings_Split :: "string \<Rightarrow> char \<Rightarrow> string list" where
  "strings_Split [] sep = [[]]"
| "strings_Split (c # s) sep =
    (if c = sep then [] # strings_Split s sep
     else (case strings_Split s sep of [] \<Rightarrow> [[c]] | w # ws \<Rightarrow> (c # w) # ws))"

function strings_Fields :: "string \<Rightarrow> string list" where
  "strings_Fields s =
    (let t = dropWhile ascii_space s in
     if t = [] then []
     else takeWhile (\<lambda>c. \<not> ascii_space c) t # strings_Fields (dropWhile (\<lambda>c. \<not> ascii_space c) t))"
  by auto
termination
proof (relation "measure length")
  fix s :: string and t assume t: "t = dropWhile ascii_space s" "t \<noteq> []"
  then have "\<not> ascii_space (hd t)" using hd_dropWhile by blast
  with t(2) have "length (dropWhile (\<lambda>c. \<not> ascii_space c) t) < length t"
    by (cases t) (simp_all add: length_dropWhile_le less_Suc_eq_le)
  also have "\<dots> \<le> length s" using t(1) by (simp add: length_dropWhile_le)
  finally show "(dropWhile (\<lambda>c. \<not> ascii_space c) t, s) \<in> measure length" by simp
qed simp

declare strings_Fields.simps [simp del]

text \<open>The index of the first and of the last occurrence of a character.\<close>

fun IndexByte :: "string \<Rightarrow> char \<Rightarrow> nat option" where
  "IndexByte [] c = None"
| "IndexByte (d # s) c = (if d = c then Some 0 else map_option Suc (IndexByte s c))"

definition LastIndexByte :: "string \<Rightarrow> char \<Rightarrow> nat option" where
  "LastIndexByte s c = map_option (\<lambda>i. length s - 1 - i) (IndexByte (rev s) c)"

section \<open>Package strconv\<close>

fun digits_value :: "nat \<Rightarrow> string \<Rightarrow> nat option" where
  "digits_value acc [] = Some acc"
| "digits_value acc (c # s) = (if is_digit c then digits_value (acc * 10 + (of_char c - 48)) s else None)"

text \<open>\<^verbatim>\<open>strconv.Atoi\<close>, with the range of a 64-bit \<^verbatim>\<open>int\<close>, and \<^verbatim>\<open>strconv.ParseUint\<close> in base 10.\<close>

definition strconv_Atoi :: "string \<Rightarrow> int option" where
  "strconv_Atoi s =
    (let (neg, t) = (case s of c # r \<Rightarrow> if c = CHR ''-'' then (True, r) else if c = CHR ''+'' then (False, r) else (False, s)
                             | [] \<Rightarrow> (False, [])) in
     if t = [] then None
     else case digits_value 0 t of
       None \<Rightarrow> None
     | Some n \<Rightarrow> if neg then (if n \<le> 2 ^ 63 then Some (- int n) else None)
                 else (if n < 2 ^ 63 then Some (int n) else None))"

definition strconv_ParseUint :: "string \<Rightarrow> nat \<Rightarrow> nat option" where
  "strconv_ParseUint s bits =
    (if s = [] then None
     else case digits_value 0 s of None \<Rightarrow> None | Some n \<Rightarrow> if n < 2 ^ bits then Some n else None)"

section \<open>Lemmas\<close>

lemma lower_char_cases:
  "lower_char c = c \<or> 65 \<le> (of_char c :: nat) \<and> (of_char c :: nat) \<le> 90 \<and> (of_char (lower_char c) :: nat) = of_char c + 32"
  by (auto simp: lower_char_def Let_def)

lemma lower_char_idem: "lower_char (lower_char c) = lower_char c"
  using lower_char_cases [of c]
  by (elim disjE) (simp, simp add: lower_char_def [of "lower_char c"] Let_def)

lemma space_lower [simp]: "ascii_space (lower_char c) = ascii_space c"
  using lower_char_cases [of c] by (auto simp: ascii_space_def)

lemma trim_lower: "strings_TrimSpace (strings_ToLower s) = strings_ToLower (strings_TrimSpace s)"
  by (simp add: strings_TrimSpace_def strings_ToLower_def dropWhile_map rev_map comp_def)

lemma lower_idem: "strings_ToLower (strings_ToLower s) = strings_ToLower s"
  by (simp add: strings_ToLower_def lower_char_idem)

lemma trim_fixed: "s = [] \<or> \<not> ascii_space (hd s) \<and> \<not> ascii_space (last s) \<Longrightarrow> strings_TrimSpace s = s"
proof -
  assume a: "s = [] \<or> \<not> ascii_space (hd s) \<and> \<not> ascii_space (last s)"
  then have "dropWhile ascii_space s = s" by (cases s) simp_all
  moreover have "dropWhile ascii_space (rev s) = rev s" using a by (cases s rule: rev_cases) simp_all
  ultimately show ?thesis by (simp add: strings_TrimSpace_def)
qed

lemma trim_ends:
  assumes "strings_TrimSpace s \<noteq> []"
  shows "\<not> ascii_space (hd (strings_TrimSpace s)) \<and> \<not> ascii_space (last (strings_TrimSpace s))"
proof -
  let ?a = "dropWhile ascii_space s" and ?t = "strings_TrimSpace s"
  have t: "?t = rev (dropWhile ascii_space (rev ?a))" by (simp add: strings_TrimSpace_def)
  have ne: "dropWhile ascii_space (rev ?a) \<noteq> []" using assms t by simp
  then have l: "\<not> ascii_space (last ?t)" unfolding t last_rev using hd_dropWhile [OF ne] by simp
  obtain r where "rev ?a = r @ dropWhile ascii_space (rev ?a)" by (metis takeWhile_dropWhile_id)
  then have "?a = ?t @ rev r" unfolding t by (metis rev_append rev_rev_ident)
  then have "hd ?a = hd ?t" and "?a \<noteq> []" using assms by auto
  with l show ?thesis using hd_dropWhile [of ascii_space s] by simp
qed

lemma trim_idem [simp]: "strings_TrimSpace (strings_TrimSpace s) = strings_TrimSpace s"
  using trim_fixed trim_ends by blast

lemma digit_char_digit: "n < 10 \<Longrightarrow> is_digit (digit_char n) \<and> of_char (digit_char n) - 48 = n"
  by (simp add: is_digit_def digit_char_def)

lemma digits_value_append: "digits_value acc (s @ t) = (case digits_value acc s of None \<Rightarrow> None | Some a \<Rightarrow> digits_value a t)"
  by (induction s arbitrary: acc) auto

lemma show_nat_value: "digits_value 0 (show_nat n) = Some n"
proof (induction n rule: show_nat.induct)
  case (1 n)
  then show ?case by (subst show_nat.simps) (use digit_char_digit [of n] digit_char_digit [of "n mod 10"] in \<open>auto simp: digits_value_append\<close>)
qed

lemma show_nat_digits: "\<forall>c \<in> set (show_nat n). is_digit c"
proof (induction n rule: show_nat.induct)
  case (1 n)
  then show ?case by (subst show_nat.simps) (use digit_char_digit [of n] digit_char_digit [of "n mod 10"] in auto)
qed

lemma show_nat_nonempty [simp]: "show_nat n \<noteq> []"
  by (subst show_nat.simps) simp

lemma show_nat_inj: "show_nat m = show_nat n \<Longrightarrow> m = n"
  using show_nat_value by (metis option.inject)

lemma show_nat_hd: "10 \<le> n \<Longrightarrow> hd (show_nat n) \<noteq> CHR ''0''"
proof (induction n rule: show_nat.induct)
  case (1 n)
  have d: "m < 10 \<Longrightarrow> m \<noteq> 0 \<Longrightarrow> digit_char m \<noteq> CHR ''0''" for m
  proof
    assume m: "m < 10" "m \<noteq> 0" "digit_char m = CHR ''0''"
    have "(of_char (digit_char m) :: nat) = 48 + m" using m(1) by (simp add: digit_char_def)
    with m show False by simp
  qed
  show ?case
  proof (cases "n div 10 < 10")
    case True
    with 1(2) d [of "n div 10"] show ?thesis by (subst show_nat.simps) (simp add: show_nat.simps [of "n div 10"])
  next
    case False
    with 1 show ?thesis by (subst show_nat.simps) simp
  qed
qed

end
