(* ===== verification/Private_DNS.thy ===== *)
theory Private_DNS
  imports Go_Strings "HOL-Library.AList"
begin

text \<open>
  \<^verbatim>\<open>internal/privatedns/manager.go\<close>: the private copy of the resolver configuration and the
  cache that belongs to one generation of it. The cache map is an association list with
  distinct keys; the clock \<^verbatim>\<open>m.now()\<close> is an argument of every method that reads it, and the
  read of a snapshot source, which runs outside the lock, is the argument \<open>source\<close> of
  \<open>RefreshFrom\<close>. Names are ASCII: \<^verbatim>\<open>strings.ToLower\<close> and \<^verbatim>\<open>strings.TrimSpace\<close> are modelled
  on it (\<open>ascii\<close>), not on the rest of Unicode. A detached copy of a value is the value.
\<close>

section \<open>Definitions\<close>

record Upstream =
  Address :: string
  Port :: uint16
  Transport :: string
  InterfaceName :: string
  InterfaceIndex :: int
  Scope :: string

record Snapshot =
  CapturedAt :: gotime
  NetworkGeneration :: uint64
  Upstreams :: "Upstream list"
  SearchDomains :: "string list"
  RoutingDomains :: "string list"
  Metadata :: "(string \<times> string) list"

record CacheKey =
  KName :: string
  KType :: uint16
  KClass :: uint16

record CacheRecord =
  Values :: "string list"
  StoredAt :: gotime
  ExpiresAt :: gotime
  Generation :: uint64

record CacheStats =
  Entries :: uint64
  Stores :: uint64
  Hits :: uint64
  Misses :: uint64
  Expired :: uint64

record Status =
  SGeneration :: uint64
  SNetworkGeneration :: uint64
  RefreshedAt :: gotime
  UpstreamCount :: nat
  SearchDomainCount :: nat
  RoutingDomainCount :: nat
  Degraded :: bool
  LastError :: string
  Cache :: CacheStats

record Manager =
  snapshot :: Snapshot
  generation :: uint64
  refreshedAt :: gotime
  degraded :: bool
  lastError :: string
  cache :: "(CacheKey \<times> CacheRecord) list"
  stores :: uint64
  hits :: uint64
  misses :: uint64
  expired :: uint64

type_synonym 'a dns_result = "(string, 'a) outcome"

definition updateHealthLocked :: "string \<Rightarrow> Manager \<Rightarrow> Manager" where
  "updateHealthLocked err m =
    (let m1 = m\<lparr>lastError := err\<rparr>;
         m2 = m1\<lparr>degraded := length (Upstreams (snapshot m1)) = 0\<rparr>
     in if degraded m2 \<and> lastError m2 = ''''
        then m2\<lparr>lastError := ''no resolver upstreams available in the copied snapshot''\<rparr> else m2)"

definition stampSnapshot :: "gotime \<Rightarrow> Snapshot \<Rightarrow> Snapshot" where
  "stampSnapshot now snap = (if CapturedAt snap = 0 then snap\<lparr>CapturedAt := now\<rparr> else snap)"

definition newManager :: "Snapshot \<Rightarrow> gotime \<Rightarrow> Manager" where
  "newManager initial now =
     updateHealthLocked ''''
       \<lparr>snapshot = stampSnapshot now initial, generation = 1, refreshedAt = now, degraded = False,
        lastError = '''', cache = [], stores = 0, hits = 0, misses = 0, expired = 0\<rparr>"

definition cacheStatsLocked :: "Manager \<Rightarrow> CacheStats" where
  "cacheStatsLocked m =
     \<lparr>Entries = word_of_nat (length (cache m)), Stores = stores m, Hits = hits m,
      Misses = misses m, Expired = expired m\<rparr>"

definition statusLocked :: "Manager \<Rightarrow> Status" where
  "statusLocked m =
     \<lparr>SGeneration = generation m, SNetworkGeneration = NetworkGeneration (snapshot m),
      RefreshedAt = refreshedAt m, UpstreamCount = length (Upstreams (snapshot m)),
      SearchDomainCount = length (SearchDomains (snapshot m)),
      RoutingDomainCount = length (RoutingDomains (snapshot m)),
      Degraded = degraded m, LastError = lastError m, Cache = cacheStatsLocked m\<rparr>"

definition Refresh :: "Manager \<Rightarrow> Snapshot \<Rightarrow> gotime \<Rightarrow> Manager \<times> Status" where
  "Refresh m next now =
    (let m1 = m\<lparr>snapshot := stampSnapshot now next, generation := generation m + 1,
                refreshedAt := now, cache := []\<rparr>;
         m2 = updateHealthLocked '''' m1
     in (m2, statusLocked m2))"

definition recordRefreshError :: "Manager \<Rightarrow> string \<Rightarrow> Manager \<times> Status" where
  "recordRefreshError m err =
    (let m1 = m\<lparr>degraded := True, lastError := err\<rparr> in (m1, statusLocked m1))"

definition RefreshFrom :: "Manager \<Rightarrow> Snapshot dns_result option \<Rightarrow> gotime \<Rightarrow> Manager \<times> Status \<times> unit dns_result" where
  "RefreshFrom m source now =
    (case source of
       None \<Rightarrow>
         let err = ''privatedns: nil snapshot source''; (m1, st) = recordRefreshError m err in (m1, st, Err err)
     | Some (Err err) \<Rightarrow> let (m1, st) = recordRefreshError m err in (m1, st, Err err)
     | Some (Ret next) \<Rightarrow> let (m1, st) = Refresh m next now in (m1, st, Ret ())
     | Some Panic \<Rightarrow> (m, statusLocked m, Panic))"

definition Manager_Snapshot :: "Manager \<Rightarrow> Snapshot" where
  "Manager_Snapshot m = snapshot m"

definition Manager_Status :: "Manager \<Rightarrow> Status" where
  "Manager_Status m = statusLocked m"

definition normalizeCacheKey :: "CacheKey \<Rightarrow> CacheKey dns_result" where
  "normalizeCacheKey key =
    (let name = strings_TrimSuffix (strings_ToLower (strings_TrimSpace (KName key))) ''.'' in
     if name = '''' then Err ''privatedns: empty cache name''
     else Ret (let k = (if KClass key = 0 then key\<lparr>KClass := 1\<rparr> else key) in k\<lparr>KName := name\<rparr>))"

definition Put :: "Manager \<Rightarrow> CacheKey \<Rightarrow> string list \<Rightarrow> duration \<Rightarrow> gotime \<Rightarrow> Manager \<times> unit dns_result" where
  "Put m key vals ttl now =
     or_return (normalizeCacheKey key) m (\<lambda>normalized.
       if ttl \<le> 0 then (m, Err ''privatedns: TTL must be positive'')
       else
         (m\<lparr>cache := AList.update normalized
               \<lparr>Values = vals, StoredAt = now, ExpiresAt = now + ttl, Generation = generation m\<rparr> (cache m),
            stores := stores m + 1\<rparr>, Ret ()))"

definition Lookup :: "Manager \<Rightarrow> CacheKey \<Rightarrow> gotime \<Rightarrow> Manager \<times> CacheRecord option" where
  "Lookup m key now =
    (case normalizeCacheKey key of
       Ret normalized \<Rightarrow>
         (case map_of (cache m) normalized of
            None \<Rightarrow> (m\<lparr>misses := misses m + 1\<rparr>, None)
          | Some entry \<Rightarrow>
              if Generation entry \<noteq> generation m then (m\<lparr>misses := misses m + 1\<rparr>, None)
              else if \<not> now < ExpiresAt entry then
                (m\<lparr>cache := AList.delete normalized (cache m), expired := expired m + 1,
                   misses := misses m + 1\<rparr>, None)
              else (m\<lparr>hits := hits m + 1\<rparr>, Some entry))
     | _ \<Rightarrow> (m\<lparr>misses := misses m + 1\<rparr>, None))"

definition dead_entry :: "Manager \<Rightarrow> gotime \<Rightarrow> CacheRecord \<Rightarrow> bool" where
  "dead_entry m now entry \<longleftrightarrow> Generation entry \<noteq> generation m \<or> \<not> now < ExpiresAt entry"

definition PurgeExpired :: "Manager \<Rightarrow> gotime \<Rightarrow> Manager \<times> nat" where
  "PurgeExpired m now =
    (let dead = filter (\<lambda>(key, entry). dead_entry m now entry) (cache m);
         live = filter (\<lambda>(key, entry). \<not> dead_entry m now entry) (cache m)
     in (m\<lparr>cache := live, expired := expired m + word_of_nat (length dead)\<rparr>, length dead))"

definition ClearCache :: "Manager \<Rightarrow> Manager" where
  "ClearCache m = m\<lparr>cache := []\<rparr>"

definition Manager_CacheStats :: "Manager \<Rightarrow> CacheStats" where
  "Manager_CacheStats m = cacheStatsLocked m"

section \<open>The cache invariant\<close>

definition cache_ok :: "Manager \<Rightarrow> bool" where
  "cache_ok m \<longleftrightarrow> distinct (map fst (cache m))
     \<and> (\<forall>(k, e) \<in> set (cache m). Generation e = generation m \<and> StoredAt e < ExpiresAt e
          \<and> KName k \<noteq> '''' \<and> KClass k \<noteq> 0)"

definition health_ok :: "Manager \<Rightarrow> bool" where
  "health_ok m \<longleftrightarrow> (Upstreams (snapshot m) = [] \<longrightarrow> degraded m) \<and> (\<not> degraded m \<longrightarrow> lastError m = '''')"

lemma normalize_ok: "normalizeCacheKey key = Ret k \<Longrightarrow> KName k \<noteq> '''' \<and> KClass k \<noteq> 0"
  by (auto simp: normalizeCacheKey_def Let_def split: if_splits)

lemma normalize_safe: "normalizeCacheKey key \<noteq> Panic"
  by (simp add: normalizeCacheKey_def Let_def)

lemma updateHealth_fields [simp]:
  "cache (updateHealthLocked e m) = cache m" "generation (updateHealthLocked e m) = generation m"
  "snapshot (updateHealthLocked e m) = snapshot m" "refreshedAt (updateHealthLocked e m) = refreshedAt m"
  "stores (updateHealthLocked e m) = stores m" "hits (updateHealthLocked e m) = hits m"
  "misses (updateHealthLocked e m) = misses m" "expired (updateHealthLocked e m) = expired m"
  by (simp_all add: updateHealthLocked_def Let_def)

lemma updateHealth_ok: "health_ok (updateHealthLocked '''' m)"
  by (auto simp: health_ok_def updateHealthLocked_def Let_def)

text \<open>The calls of a manager and the managers they reach.\<close>

datatype dns_call =
  DRefresh Snapshot | DRefreshFrom "Snapshot dns_result option"
| DPut CacheKey "string list" duration | DLookup CacheKey | DPurge | DClear

fun dns_invoke :: "dns_call \<Rightarrow> gotime \<Rightarrow> Manager \<Rightarrow> Manager" where
  "dns_invoke (DRefresh next) now m = fst (Refresh m next now)"
| "dns_invoke (DRefreshFrom source) now m = fst (RefreshFrom m source now)"
| "dns_invoke (DPut key vals ttl) now m = fst (Put m key vals ttl now)"
| "dns_invoke (DLookup key) now m = fst (Lookup m key now)"
| "dns_invoke DPurge now m = fst (PurgeExpired m now)"
| "dns_invoke DClear now m = ClearCache m"

definition dns_runs :: "Snapshot \<Rightarrow> gotime \<Rightarrow> (dns_call \<times> gotime) list \<Rightarrow> Manager" where
  "dns_runs initial start cs = fold (\<lambda>(c, now) m. dns_invoke c now m) cs (newManager initial start)"

lemma update_mem: "x \<in> set (AList.update k v al) \<Longrightarrow> x = (k, v) \<or> x \<in> set al"
  by (induction al) (auto split: if_splits)

lemma Put_Ret_iff:
  "Put m key vals ttl now = (m', Ret u) \<longleftrightarrow> (\<exists>k. normalizeCacheKey key = Ret k \<and> 0 < ttl
     \<and> m' = m\<lparr>cache := AList.update k
               \<lparr>Values = vals, StoredAt = now, ExpiresAt = now + ttl, Generation = generation m\<rparr> (cache m),
            stores := stores m + 1\<rparr>)"
  by (auto simp: Put_def or_return_Ret_iff)

lemma Put_error: "snd (Put m key vals ttl now) \<noteq> Ret () \<Longrightarrow> fst (Put m key vals ttl now) = m"
  by (cases "normalizeCacheKey key") (auto simp: Put_def)

lemma cache_ok_Put:
  assumes "cache_ok m"
  shows "cache_ok (fst (Put m key vals ttl now))"
proof (cases "snd (Put m key vals ttl now) = Ret ()")
  case True
  then obtain k where k: "normalizeCacheKey key = Ret k" "0 < ttl"
    and m': "fst (Put m key vals ttl now) = m\<lparr>cache := AList.update k
        \<lparr>Values = vals, StoredAt = now, ExpiresAt = now + ttl, Generation = generation m\<rparr> (cache m),
      stores := stores m + 1\<rparr>"
    using Put_Ret_iff [of m key vals ttl now "fst (Put m key vals ttl now)" "()"] by (auto simp: prod_eq_iff)
  show ?thesis
    using assms k normalize_ok [OF k(1)] unfolding m' cache_ok_def
    by (auto simp: distinct_update dest!: update_mem)
qed (simp add: Put_error assms)

lemma cache_ok_filter:
  "cache_ok m \<Longrightarrow> cache m' = filter P (cache m) \<Longrightarrow> generation m' = generation m \<Longrightarrow> cache_ok m'"
  unfolding cache_ok_def by (auto simp: distinct_map_filter)

lemma Lookup_shape:
  "generation (fst (Lookup m key now)) = generation m
   \<and> snapshot (fst (Lookup m key now)) = snapshot m \<and> degraded (fst (Lookup m key now)) = degraded m
   \<and> lastError (fst (Lookup m key now)) = lastError m
   \<and> (\<exists>P. cache (fst (Lookup m key now)) = filter P (cache m))"
proof -
  have "\<exists>P. cache m = filter P (cache m)" by (rule exI [of _ "\<lambda>_. True"]) simp
  moreover have "\<exists>P. AList.delete k (cache m) = filter P (cache m)" for k by (auto simp: AList.delete_eq)
  ultimately show ?thesis by (auto simp: Lookup_def split: outcome.splits option.splits)
qed

lemma cache_ok_invoke: "cache_ok m \<Longrightarrow> cache_ok (dns_invoke c now m)"
proof (cases c)
  case (DLookup key)
  assume ok: "cache_ok m"
  obtain P where "cache (fst (Lookup m key now)) = filter P (cache m)" using Lookup_shape by blast
  with cache_ok_filter [OF ok this] DLookup show ?thesis by (simp add: Lookup_shape)
next
  case DPurge
  assume ok: "cache_ok m"
  with DPurge cache_ok_filter [OF ok] show ?thesis by (simp add: PurgeExpired_def Let_def)
next
  case (DPut key vals ttl)
  assume "cache_ok m"
  with DPut show ?thesis by (simp add: cache_ok_Put)
qed (auto simp: cache_ok_def Refresh_def RefreshFrom_def recordRefreshError_def ClearCache_def Let_def
      split: option.splits outcome.splits)

lemma health_ok_invoke: "health_ok m \<Longrightarrow> health_ok (dns_invoke c now m)"
proof (cases c)
  case (DLookup key)
  assume "health_ok m"
  with DLookup show ?thesis by (simp add: health_ok_def Lookup_shape)
next
  case (DPut key vals ttl)
  assume "health_ok m"
  with DPut show ?thesis by (auto simp: Put_def health_ok_def or_return_def split: outcome.splits)
qed (auto simp: Refresh_def RefreshFrom_def recordRefreshError_def ClearCache_def PurgeExpired_def Let_def
      updateHealth_ok split: option.splits outcome.splits, auto simp: health_ok_def)

lemma newManager_ok: "cache_ok (newManager initial start)" "health_ok (newManager initial start)"
  by (simp_all add: newManager_def updateHealth_ok) (simp add: cache_ok_def)

lemma dns_runs_ok: "cache_ok (dns_runs initial start cs) \<and> health_ok (dns_runs initial start cs)"
proof -
  have "cache_ok m \<Longrightarrow> health_ok m \<Longrightarrow> cache_ok (fold (\<lambda>(c, now) m. dns_invoke c now m) cs m)
      \<and> health_ok (fold (\<lambda>(c, now) m. dns_invoke c now m) cs m)" for m
    by (induction cs arbitrary: m) (auto simp: cache_ok_invoke health_ok_invoke)
  then show ?thesis by (simp add: dns_runs_def newManager_ok)
qed

section \<open>Lookups\<close>

lemma Lookup_Some:
  assumes "Lookup m key now = (m', Some e)"
  obtains k where "normalizeCacheKey key = Ret k" and "map_of (cache m) k = Some e"
    and "Generation e = generation m" and "now < ExpiresAt e" and "m' = m\<lparr>hits := hits m + 1\<rparr>"
  using assms by (auto simp: Lookup_def split: outcome.splits option.splits if_splits)

lemma Lookup_live:
  assumes "normalizeCacheKey key = Ret k" and "map_of (cache m) k = Some e"
    and "Generation e = generation m" and "now < ExpiresAt e"
  shows "Lookup m key now = (m\<lparr>hits := hits m + 1\<rparr>, Some e)"
  using assms by (simp add: Lookup_def)

lemma Lookup_Put:
  assumes "Put m key vals ttl now = (m', Ret ())" and "normalizeCacheKey key' = normalizeCacheKey key"
  shows "snd (Lookup m' key' later) =
    (if later < now + ttl
     then Some \<lparr>Values = vals, StoredAt = now, ExpiresAt = now + ttl, Generation = generation m\<rparr> else None)"
  using assms by (auto simp: Put_Ret_iff Lookup_def update_conv')

lemma Lookup_Put_other:
  assumes "Put m key vals ttl now = (m', Ret ())" and "normalizeCacheKey key' \<noteq> normalizeCacheKey key"
  shows "snd (Lookup m' key' later) = snd (Lookup m key' later)"
  using assms
  by (auto simp: Put_Ret_iff Lookup_def update_conv' split: outcome.splits option.splits)

lemma Lookup_Refresh: "snd (Lookup (fst (Refresh m next now)) key later) = None"
  by (auto simp: Lookup_def Refresh_def Let_def split: outcome.splits)

lemma normalize_case: "normalizeCacheKey (key\<lparr>KName := strings_ToLower (KName key)\<rparr>) = normalizeCacheKey key"
  by (simp add: normalizeCacheKey_def trim_lower lower_idem Let_def)

lemma map_of_filter_distinct:
  "distinct (map fst al) \<Longrightarrow> map_of (filter (\<lambda>(k, v). P v) al) k =
     (case map_of al k of Some v \<Rightarrow> if P v then Some v else None | None \<Rightarrow> None)"
  by (induction al) (auto split: option.splits dest: map_of_SomeD simp: rev_image_eqI)

lemma Lookup_snd:
  "snd (Lookup m key now) = (case normalizeCacheKey key of
     Ret k \<Rightarrow> (case map_of (cache m) k of Some e \<Rightarrow> if dead_entry m now e then None else Some e | None \<Rightarrow> None)
   | _ \<Rightarrow> None)"
  by (auto simp: Lookup_def dead_entry_def split: outcome.splits option.splits)

lemma Purge_invisible:
  assumes "cache_ok m" and "now \<le> later"
  shows "snd (Lookup (fst (PurgeExpired m now)) key later) = snd (Lookup m key later)"
proof -
  let ?m = "fst (PurgeExpired m now)"
  have "generation ?m = generation m" by (simp add: PurgeExpired_def Let_def)
  then have dead: "dead_entry ?m = dead_entry m" by (auto simp: dead_entry_def fun_eq_iff)
  have "map_of (cache ?m) k = (case map_of (cache m) k of
      Some e \<Rightarrow> if \<not> dead_entry m now e then Some e else None | None \<Rightarrow> None)" for k
    using assms(1) by (simp add: PurgeExpired_def Let_def cache_ok_def map_of_filter_distinct)
  moreover have "dead_entry m now e \<Longrightarrow> dead_entry m later e" for e
    using assms(2) by (auto simp: dead_entry_def)
  ultimately show ?thesis
    by (auto simp: Lookup_snd dead split: outcome.splits option.splits)
qed

lemma Purge_live: "\<forall>(k, e) \<in> set (cache (fst (PurgeExpired m now))). \<not> dead_entry m now e"
  by (auto simp: PurgeExpired_def Let_def)

lemma Purge_count: "length (cache (fst (PurgeExpired m now))) + snd (PurgeExpired m now) = length (cache m)"
  using sum_length_filter_compl [of "\<lambda>(key, entry). dead_entry m now entry" "cache m"]
  by (simp add: PurgeExpired_def Let_def case_prod_beta' add.commute)

section \<open>Properties\<close>

text \<open>C21. A stored record is what a lookup of the same name returns, until its expiry and not
  from it on; lookups of other keys are not affected by the store. Keys are the same when
  they normalize to the same key.\<close>

theorem dns_put_lookup:
  assumes "Put m key vals ttl now = (m', Ret ())"
  shows "snd (Lookup m' key' later) =
    (if normalizeCacheKey key' = normalizeCacheKey key then
       if later < now + ttl
       then Some \<lparr>Values = vals, StoredAt = now, ExpiresAt = now + ttl, Generation = generation m\<rparr> else None
     else snd (Lookup m key' later))"
  using Lookup_Put [OF assms] Lookup_Put_other [OF assms] by simp

definition sample_key :: CacheKey where
  "sample_key = \<lparr>KName = ''Example.ORG.'', KType = 1, KClass = 0\<rparr>"

definition sample_manager :: Manager where
  "sample_manager = newManager
     \<lparr>CapturedAt = 0, NetworkGeneration = 1, Upstreams = [], SearchDomains = [], RoutingDomains = [], Metadata = []\<rparr> 5"

lemma sample_key_normal:
  "normalizeCacheKey sample_key = Ret \<lparr>KName = ''example.org'', KType = 1, KClass = 1\<rparr>"
  "normalizeCacheKey \<lparr>KName = ''example.org'', KType = 1, KClass = 1\<rparr> =
     Ret \<lparr>KName = ''example.org'', KType = 1, KClass = 1\<rparr>"
  by code_simp+

lemma sample_put: "\<exists>m. Put sample_manager sample_key [''192.0.2.1''] 60 10 = (m, Ret ())"
  by (simp add: Put_def sample_key_normal)

theorem dns_put_lookup_witness:
  "\<exists>m e. Put sample_manager sample_key [''192.0.2.1''] 60 10 = (m, Ret ())
     \<and> snd (Lookup m \<lparr>KName = ''example.org'', KType = 1, KClass = 1\<rparr> 69) = Some e
     \<and> Values e = [''192.0.2.1'']
     \<and> snd (Lookup m sample_key 70) = None"
proof -
  obtain m where m: "Put sample_manager sample_key [''192.0.2.1''] 60 10 = (m, Ret ())"
    using sample_put by blast
  note dns_put_lookup [OF m, of "\<lparr>KName = ''example.org'', KType = 1, KClass = 1\<rparr>" 69]
    dns_put_lookup [OF m, of sample_key 70]
  with m show ?thesis by (simp add: sample_key_normal)
qed

text \<open>C22. After any sequence of calls the cache holds at most one record per normalized key, all
  of the current generation with an expiry after their storage, and a manager without
  upstreams reports itself degraded.\<close>

theorem dns_invariant: "cache_ok (dns_runs initial start cs) \<and> health_ok (dns_runs initial start cs)"
  by (rule dns_runs_ok)

text \<open>A lookup never returns a stale record: whatever it returns is in the cache under the
  normalized key, belongs to the current generation of the snapshot and has not expired; and
  right after a refresh there is nothing to return.\<close>

theorem dns_lookup_fresh:
  "(snd (Lookup m key now) = Some e \<longleftrightarrow>
     (\<exists>k. normalizeCacheKey key = Ret k \<and> map_of (cache m) k = Some e
        \<and> Generation e = generation m \<and> now < ExpiresAt e))
   \<and> snd (Lookup (fst (Refresh m next t)) key now) = None"
proof
  show "snd (Lookup m key now) = Some e \<longleftrightarrow>
     (\<exists>k. normalizeCacheKey key = Ret k \<and> map_of (cache m) k = Some e
        \<and> Generation e = generation m \<and> now < ExpiresAt e)"
    by (auto simp: Lookup_snd dead_entry_def split: outcome.splits option.splits)
qed (rule Lookup_Refresh)

text \<open>Purging is invisible to clients: in every state reached by calls, purging expired
  entries changes no later lookup's answer.\<close>

theorem dns_purge_invisible:
  assumes "m = dns_runs initial start cs" and "now \<le> later"
  shows "snd (Lookup (fst (PurgeExpired m now)) key later) = snd (Lookup m key later)"
  using Purge_invisible assms dns_runs_ok by blast

theorem dns_purge_invisible_witness:
  "\<exists>initial start cs. sample_manager = dns_runs initial start cs
     \<and> snd (Lookup (fst (PurgeExpired sample_manager 6)) sample_key 7) = snd (Lookup sample_manager sample_key 7)"
proof -
  have "sample_manager = dns_runs \<lparr>CapturedAt = 0, NetworkGeneration = 1, Upstreams = [],
      SearchDomains = [], RoutingDomains = [], Metadata = []\<rparr> 5 []"
    by (simp add: sample_manager_def dns_runs_def)
  with dns_purge_invisible [OF this, of 6 7] show ?thesis by fastforce
qed

end
