(* ===== verification/Crypto_Schedule.thy ===== *)
theory Crypto_Schedule
  imports Codec_Base
begin

text \<open>
  \<^verbatim>\<open>internal/crypto\<close> without its transport part: \<^verbatim>\<open>errors.go\<close>, \<^verbatim>\<open>kdf.go\<close>, \<^verbatim>\<open>x25519.go\<close>,
  \<^verbatim>\<open>aead.go\<close> and \<^verbatim>\<open>fingerprint.go\<close>. The primitives the package composes are a parameter \<open>P\<close>
  of every definition: BLAKE2s-256, the X25519 function and its public keys, and
  ChaCha20-Poly1305. \<open>prims_ok\<close> is what their documentation promises. HMAC, HKDF, the key
  schedule, the nonces, and base32 are defined here. A \<^verbatim>\<open>[32]byte\<close> is a byte list of that
  length, a nil pointer is \<open>None\<close>, and a random source is the bytes it will deliver.
\<close>

unbundle bit_operations_syntax

section \<open>Primitives\<close>

record prims =
  p_blake2s :: "bytes \<Rightarrow> bytes"
  p_public :: "bytes \<Rightarrow> bytes"
  p_x25519 :: "bytes \<Rightarrow> bytes \<Rightarrow> bytes option"
  p_seal :: "bytes \<Rightarrow> bytes \<Rightarrow> bytes \<Rightarrow> bytes \<Rightarrow> bytes"
  p_open :: "bytes \<Rightarrow> bytes \<Rightarrow> bytes \<Rightarrow> bytes \<Rightarrow> bytes option"

text \<open>
  BLAKE2s-256 returns 32 bytes; X25519 public keys and shared secrets have 32 bytes and both
  sides compute the same secret; opening returns the plaintext of a sealed message and
  nothing else, and sealing adds a 16-byte tag. (Arguments: key, nonce, text, associated data.)
\<close>

definition hash_ok :: "prims \<Rightarrow> bool" where
  "hash_ok P \<longleftrightarrow> (\<forall>d. length (p_blake2s P d) = 32)"

definition dh_ok :: "prims \<Rightarrow> bool" where
  "dh_ok P \<longleftrightarrow> (\<forall>a. length (p_public P a) = 32) \<and> (\<forall>a b s. p_x25519 P a b = Some s \<longrightarrow> length s = 32)
     \<and> (\<forall>a b. p_x25519 P a (p_public P b) = p_x25519 P b (p_public P a))"

definition aead_ok :: "prims \<Rightarrow> bool" where
  "aead_ok P \<longleftrightarrow> (\<forall>k n c ad p. p_open P k n c ad = Some p \<longleftrightarrow> c = p_seal P k n p ad)
     \<and> (\<forall>k n p ad. length (p_seal P k n p ad) = length p + 16)"

definition prims_ok :: "prims \<Rightarrow> bool" where
  "prims_ok P \<longleftrightarrow> hash_ok P \<and> dh_ok P \<and> aead_ok P"

lemma hash_length: "hash_ok P \<Longrightarrow> length (p_blake2s P d) = 32"
  by (simp add: hash_ok_def)

lemma public_length: "dh_ok P \<Longrightarrow> length (p_public P a) = 32"
  and x25519_length: "dh_ok P \<Longrightarrow> p_x25519 P a b = Some s \<Longrightarrow> length s = 32"
  unfolding dh_ok_def by blast+

lemma x25519_agree: "dh_ok P \<Longrightarrow> p_x25519 P a (p_public P b) = p_x25519 P b (p_public P a)"
  unfolding dh_ok_def by blast

lemma open_iff: "aead_ok P \<Longrightarrow> p_open P k n c ad = Some p \<longleftrightarrow> c = p_seal P k n p ad"
  and seal_length: "aead_ok P \<Longrightarrow> length (p_seal P k n p ad) = length p + 16"
  by (simp_all add: aead_ok_def)

lemma prims_ok_parts: "prims_ok P \<Longrightarrow> hash_ok P" "prims_ok P \<Longrightarrow> dh_ok P" "prims_ok P \<Longrightarrow> aead_ok P"
  by (simp_all add: prims_ok_def)

datatype crypto_error =
  ErrInvalidLength | ErrInvalidRole | ErrInvalidKey | ErrRandomSource | ErrDH
| ErrZeroSharedSecret | ErrAuthentication | ErrInvalidTransport | ErrFrameEncoding DecodeError

type_synonym 'a crypto_result = "(crypto_error, 'a) outcome"

section \<open>Key derivation\<close>

definition ascii_bytes :: "string \<Rightarrow> bytes" where
  "ascii_bytes s = map (\<lambda>c. word_of_nat (of_char c)) s"

definition SuiteID :: string where
  "SuiteID = ''WG-HS1-X25519-CHACHAPOLY-BLAKE2S''"

definition hashSize :: nat where "hashSize = 32"

definition protocolLabel :: bytes where "protocolLabel = ascii_bytes ''WG/1''"
definition m1Label :: bytes where "m1Label = ascii_bytes ''WG-HS1/m1''"
definition m2Label :: bytes where "m2Label = ascii_bytes ''WG-HS1/m2''"
definition c2sLabel :: bytes where "c2sLabel = ascii_bytes ''WG-HS1/c2s''"
definition s2cLabel :: bytes where "s2cLabel = ascii_bytes ''WG-HS1/s2c''"

definition Context :: "bytes \<Rightarrow> bytes" where
  "Context deploymentID =
     [word_of_nat (length protocolLabel)] @ protocolLabel @ deploymentID
     @ [word_of_nat (length SuiteID)] @ ascii_bytes SuiteID"

definition Sum256 :: "prims \<Rightarrow> bytes list \<Rightarrow> bytes" where
  "Sum256 P parts = p_blake2s P (concat parts)"

text \<open>\<^verbatim>\<open>crypto/hmac\<close> over BLAKE2s-256, whose block has 64 bytes.\<close>

definition hmac_key :: "prims \<Rightarrow> bytes \<Rightarrow> bytes" where
  "hmac_key P key =
    (let k = (if length key > 64 then p_blake2s P key else key) in k @ replicate (64 - length k) 0)"

definition hmac :: "prims \<Rightarrow> bytes \<Rightarrow> bytes \<Rightarrow> bytes" where
  "hmac P key msg =
    (let k = hmac_key P key; ipad = map (\<lambda>b. b XOR 0x36) k; opad = map (\<lambda>b. b XOR 0x5C) k
     in p_blake2s P (opad @ p_blake2s P (ipad @ msg)))"

definition Extract :: "prims \<Rightarrow> bytes \<Rightarrow> bytes \<Rightarrow> bytes" where
  "Extract P salt ikm = hmac P (if length salt = 0 then replicate hashSize 0 else salt) ikm"

text \<open>
  The loop of \<^verbatim>\<open>Expand\<close>: \<open>fuel\<close> bounds the rounds (\<open>Panic\<close> when it runs out, which
  \<open>Expand_total\<close> excludes), the counter is a byte, \<open>previous\<close> is the last block.
\<close>

fun expand_loop :: "nat \<Rightarrow> prims \<Rightarrow> bytes \<Rightarrow> bytes \<Rightarrow> nat \<Rightarrow> byte \<Rightarrow> bytes \<Rightarrow> bytes \<Rightarrow> bytes crypto_result" where
  "expand_loop fuel P prk info len counter previous output =
    (if length output < len then
       (case fuel of
          0 \<Rightarrow> Panic
        | Suc f \<Rightarrow>
            let prev' = hmac P prk (previous @ info @ [counter]);
                need = min (len - length output) (length prev')
            in expand_loop f P prk info len (counter + 1) prev' (output @ take need prev'))
     else Ret output)"

declare expand_loop.simps [simp del]

definition Expand :: "prims \<Rightarrow> bytes \<Rightarrow> bytes \<Rightarrow> int \<Rightarrow> bytes crypto_result" where
  "Expand P prk info len =
    (if len < 0 \<or> len > 255 * int hashSize then Err ErrInvalidLength
     else if len = 0 then Ret []
     else expand_loop 255 P prk info (nat len) 1 [] [])"

definition isAllZero :: "bytes \<Rightarrow> bool" where
  "isAllZero value = (value = replicate (length value) 0)"

definition DeriveM1 :: "prims \<Rightarrow> bytes \<Rightarrow> bytes \<Rightarrow> (bytes \<times> bytes) crypto_result" where
  "DeriveM1 P ctx es =
    (if isAllZero es then Err ErrZeroSharedSecret
     else
       let salt = Sum256 P [ctx]; prk1 = Extract P salt es in
       obind (Expand P prk1 m1Label (int hashSize)) (\<lambda>k1. Ret (prk1, k1)))"

definition DeriveM2 :: "prims \<Rightarrow> bytes \<Rightarrow> bytes \<Rightarrow> bytes \<Rightarrow> bytes \<Rightarrow> bytes \<Rightarrow> (bytes \<times> bytes) crypto_result" where
  "DeriveM2 P th1 es ss ee se =
    (if isAllZero es \<or> isAllZero ss \<or> isAllZero ee \<or> isAllZero se then Err ErrZeroSharedSecret
     else
       let prk2 = Extract P th1 (es @ ss @ ee @ se) in
       obind (Expand P prk2 (m2Label @ th1) (int hashSize)) (\<lambda>k2. Ret (prk2, k2)))"

definition DeriveTraffic :: "prims \<Rightarrow> bytes \<Rightarrow> bytes \<Rightarrow> (bytes \<times> bytes) crypto_result" where
  "DeriveTraffic P prk2 th2 =
     obind (Expand P prk2 (c2sLabel @ th2) (int hashSize)) (\<lambda>c2s.
     obind (Expand P prk2 (s2cLabel @ th2) (int hashSize)) (\<lambda>s2c. Ret (c2s, s2c)))"

section \<open>Key agreement\<close>

definition GenerateKeyFrom :: "bytes option \<Rightarrow> (bytes \<times> bytes) crypto_result" where
  "GenerateKeyFrom random =
    (case random of
       None \<Rightarrow> Err ErrRandomSource
     | Some src \<Rightarrow> if length src < 32 then Err ErrRandomSource else Ret (take 32 src, drop 32 src))"

definition PublicBytes :: "bytes option \<Rightarrow> bytes crypto_result" where
  "PublicBytes key =
    (case key of
       None \<Rightarrow> Err ErrInvalidKey
     | Some encoded \<Rightarrow> if length encoded \<noteq> 32 then Err ErrInvalidKey else Ret encoded)"

definition DH :: "prims \<Rightarrow> bytes option \<Rightarrow> bytes \<Rightarrow> bytes crypto_result" where
  "DH P private peerPublic =
    (case private of
       None \<Rightarrow> Err ErrInvalidKey
     | Some k \<Rightarrow>
         if length peerPublic \<noteq> 32 then Err ErrInvalidKey
         else (case p_x25519 P k peerPublic of
            None \<Rightarrow> Err ErrDH
          | Some shared \<Rightarrow>
              if length shared \<noteq> 32 then Err ErrDH
              else if isAllZero shared then Err ErrZeroSharedSecret
              else Ret shared))"

section \<open>Handshake encryption\<close>

definition NonceSize :: nat where "NonceSize = 12"
definition KeySize :: nat where "KeySize = 32"
definition Overhead :: nat where "Overhead = 16"

lemmas crypto_sizes [go_consts] = NonceSize_def KeySize_def Overhead_def hashSize_def

definition handshakeNonce :: bytes where
  "handshakeNonce = replicate NonceSize 0"

definition SealHandshake :: "prims \<Rightarrow> bytes \<Rightarrow> bytes \<Rightarrow> bytes \<Rightarrow> bytes crypto_result" where
  "SealHandshake P key associatedData plaintext =
    (if length key \<noteq> KeySize then Err ErrInvalidKey
     else Ret (p_seal P key handshakeNonce plaintext associatedData))"

definition OpenHandshake :: "prims \<Rightarrow> bytes \<Rightarrow> bytes \<Rightarrow> bytes \<Rightarrow> bytes crypto_result" where
  "OpenHandshake P key associatedData ciphertext =
    (if length ciphertext < Overhead then Err ErrAuthentication
     else if length key \<noteq> KeySize then Err ErrInvalidKey
     else (case p_open P key handshakeNonce ciphertext associatedData of
             None \<Rightarrow> Err ErrAuthentication
           | Some plaintext \<Rightarrow> Ret plaintext))"

definition Nonce :: "uint64 \<Rightarrow> bytes" where
  "Nonce packetNumber = replicate 4 0 @ rev (be64 packetNumber)"

section \<open>Fingerprints\<close>

datatype FingerprintRole = FingerprintServer | FingerprintClient | FingerprintOther uint8

definition base32_char :: "nat \<Rightarrow> char" where
  "base32_char v = char_of (if v < 26 then 97 + v else 24 + v)"

fun digits32 :: "nat \<Rightarrow> nat \<Rightarrow> nat list" where
  "digits32 0 v = []"
| "digits32 (Suc n) v = digits32 n (v div 32) @ [v mod 32]"

text \<open>
  Unpadded base32 in lower case, five bytes to eight characters: of the characters of a last
  group of fewer bytes, those that hold bits of it.
\<close>

fun base32_lower :: "bytes \<Rightarrow> string" where
  "base32_lower [] = ''''"
| "base32_lower (b # bs) =
    (let group = take 5 (b # bs); padded = group @ replicate (5 - length group) 0 in
     map base32_char (take ((length group * 8 + 4) div 5) (digits32 8 (be_val padded)))
     @ base32_lower (drop 4 bs))"

function group_loop :: "string \<Rightarrow> nat \<Rightarrow> string crypto_result" where
  "group_loop encoded i =
    (if i < length encoded then
       obind (slice encoded i (i + 4)) (\<lambda>part.
       obind (group_loop encoded (i + 4)) (\<lambda>rest.
         Ret ((if i > 0 then ''-'' else '''') @ part @ rest)))
     else Ret '''')"
  by pat_completeness auto
termination by (relation "measure (\<lambda>(s, i). length s - i)") auto

declare group_loop.simps [simp del]

definition Fingerprint :: "prims \<Rightarrow> FingerprintRole \<Rightarrow> bytes \<Rightarrow> string crypto_result" where
  "Fingerprint P role publicKey =
    (let finish = (\<lambda>label prefix.
       let digest = Sum256 P [ascii_bytes label, publicKey] in
       obind (slice digest 0 20) (\<lambda>short.
       obind (group_loop (base32_lower short) 0) (\<lambda>grouped. Ret (prefix @ grouped))))
     in case role of
       FingerprintServer \<Rightarrow> finish ''WG-FP/1/server'' ''wgs-''
     | FingerprintClient \<Rightarrow> finish ''WG-FP/1/client'' ''wgc-''
     | FingerprintOther _ \<Rightarrow> Err ErrInvalidRole)"

section \<open>HKDF as in RFC 5869\<close>

fun hkdf_T :: "prims \<Rightarrow> bytes \<Rightarrow> bytes \<Rightarrow> nat \<Rightarrow> bytes" where
  "hkdf_T P prk info 0 = []"
| "hkdf_T P prk info (Suc i) = hmac P prk (hkdf_T P prk info i @ info @ [word_of_nat (Suc i)])"

definition okm :: "prims \<Rightarrow> bytes \<Rightarrow> bytes \<Rightarrow> nat \<Rightarrow> bytes" where
  "okm P prk info n = concat (map (hkdf_T P prk info) [1..<Suc n])"

lemma okm_simps: "okm P prk info 0 = []" "okm P prk info (Suc n) = okm P prk info n @ hkdf_T P prk info (Suc n)"
  by (simp_all add: okm_def)

lemma length_hmac [simp]: "hash_ok P \<Longrightarrow> length (hmac P key msg) = 32"
  by (simp add: hmac_def hash_length Let_def)

lemma length_okm [simp]: "hash_ok P \<Longrightarrow> length (okm P prk info n) = 32 * n"
  by (induction n) (simp_all add: okm_simps)

lemma take_okm: "hash_ok P \<Longrightarrow> len \<le> 32 * m \<Longrightarrow> take len (okm P prk info (m + d)) = take len (okm P prk info m)"
  by (induction d) (simp_all add: okm_simps)

lemma expand_loop_spec:
  assumes "hash_ok P" and "32 * i < len" and "len \<le> 32 * (i + fuel)"
  shows "expand_loop fuel P prk info len (word_of_nat (Suc i)) (hkdf_T P prk info i) (okm P prk info i)
    = Ret (take len (okm P prk info (i + fuel)))"
  using assms(2,3)
proof (induction fuel arbitrary: i)
  case 0
  then show ?case by simp
next
  case (Suc f)
  let ?prev = "hkdf_T P prk info (Suc i)"
  have len: "length ?prev = 32" using assms(1) by simp
  have step: "expand_loop (Suc f) P prk info len (word_of_nat (Suc i)) (hkdf_T P prk info i) (okm P prk info i)
      = expand_loop f P prk info len (word_of_nat (Suc (Suc i))) ?prev
          (okm P prk info i @ take (min (len - 32 * i) 32) ?prev)"
    using Suc.prems assms(1)
    by (simp add: expand_loop.simps [of "Suc f"] Let_def len add.commute)
  show ?case
  proof (cases "32 * Suc i < len")
    case True
    then have "min (len - 32 * i) 32 = 32" by simp
    then have "okm P prk info i @ take (min (len - 32 * i) 32) ?prev = okm P prk info (Suc i)"
      using len by (simp add: okm_simps)
    with step Suc.IH [OF True] Suc.prems show ?thesis by simp
  next
    case False
    then have "min (len - 32 * i) 32 = len - 32 * i" by simp
    then have "okm P prk info i @ take (min (len - 32 * i) 32) ?prev = take len (okm P prk info (Suc i))"
      using assms(1) Suc.prems by (simp add: okm_simps)
    moreover have "length (take len (okm P prk info (Suc i))) = len" using False assms(1) by simp
    moreover have "take len (okm P prk info (i + Suc f)) = take len (okm P prk info (Suc i))"
      using take_okm [OF assms(1), of len "Suc i" prk info f] False by simp
    ultimately show ?thesis using step by (simp add: expand_loop.simps [of f])
  qed
qed

lemma Expand_spec:
  assumes "hash_ok P" and "0 \<le> len" and "len \<le> 8160"
  shows "Expand P prk info len = Ret (take (nat len) (okm P prk info 255))"
proof (cases "len = 0")
  case False
  then have "0 < nat len" "nat len \<le> 8160" using assms by auto
  with expand_loop_spec [OF assms(1), of 0 "nat len" 255 prk info] assms False show ?thesis
    by (simp add: Expand_def go_consts okm_simps)
qed (simp add: Expand_def go_consts)

lemma Expand_total:
  "hash_ok P \<Longrightarrow> (\<exists>out. Expand P prk info len = Ret out \<and> int (length out) = len)
     \<or> Expand P prk info len = Err ErrInvalidLength \<and> \<not> (0 \<le> len \<and> len \<le> 8160)"
  by (cases "0 \<le> len \<and> len \<le> 8160") (auto simp: Expand_spec, auto simp: Expand_def go_consts)

lemma Expand32: "hash_ok P \<Longrightarrow> Expand P prk info 32 = Ret (hkdf_T P prk info 1)"
  using take_okm [of P 32 1 prk info 254] by (simp add: Expand_spec okm_simps)

lemma DeriveM1_Ret:
  "hash_ok P \<Longrightarrow> DeriveM1 P ctx es = Ret (prk1, k1) \<longleftrightarrow> \<not> isAllZero es
     \<and> prk1 = Extract P (p_blake2s P ctx) es \<and> k1 = hkdf_T P prk1 m1Label 1"
  by (auto simp: DeriveM1_def Sum256_def Expand32 go_consts Let_def)

lemma DeriveM2_Ret:
  "hash_ok P \<Longrightarrow> DeriveM2 P th1 es ss ee se = Ret (prk2, k2) \<longleftrightarrow>
     \<not> isAllZero es \<and> \<not> isAllZero ss \<and> \<not> isAllZero ee \<and> \<not> isAllZero se
     \<and> prk2 = Extract P th1 (es @ ss @ ee @ se) \<and> k2 = hkdf_T P prk2 (m2Label @ th1) 1"
  by (auto simp: DeriveM2_def Expand32 go_consts Let_def)

lemma DeriveTraffic_Ret:
  "hash_ok P \<Longrightarrow> DeriveTraffic P prk2 th2 = Ret (hkdf_T P prk2 (c2sLabel @ th2) 1, hkdf_T P prk2 (s2cLabel @ th2) 1)"
  by (simp add: DeriveTraffic_def Expand32 go_consts)

lemma derive_lengths:
  assumes "hash_ok P"
  shows "DeriveM1 P ctx es = Ret (prk1, k1) \<Longrightarrow> length prk1 = 32 \<and> length k1 = 32"
    and "DeriveM2 P th1 es ss ee se = Ret (prk2, k2) \<Longrightarrow> length prk2 = 32 \<and> length k2 = 32"
    and "DeriveTraffic P prk2 th2 = Ret (c2s, s2c) \<Longrightarrow> length c2s = 32 \<and> length s2c = 32"
  using assms by (auto simp: DeriveM1_Ret DeriveM2_Ret DeriveTraffic_Ret Extract_def)

section \<open>Agreement, encryption and nonces\<close>

lemma DH_Ret_iff:
  "DH P private peer = Ret s \<longleftrightarrow> (\<exists>k. private = Some k \<and> length peer = 32
     \<and> p_x25519 P k peer = Some s \<and> length s = 32 \<and> \<not> isAllZero s)"
  by (auto simp: DH_def split: option.splits if_splits)

lemma DH_agree:
  "dh_ok P \<Longrightarrow> DH P (Some a) (p_public P b) = DH P (Some b) (p_public P a)"
  using x25519_agree [of P a b] by (simp add: DH_def public_length)

lemma OpenHandshake_Ret_iff:
  assumes "aead_ok P"
  shows "OpenHandshake P key ad c = Ret p \<longleftrightarrow> SealHandshake P key ad p = Ret c"
  using open_iff [OF assms, of key handshakeNonce c ad p] seal_length [OF assms, of key handshakeNonce p ad]
  by (auto simp: OpenHandshake_def SealHandshake_def go_consts split: option.splits)

lemma SealHandshake_length:
  "aead_ok P \<Longrightarrow> SealHandshake P key ad p = Ret c \<Longrightarrow> length c = length p + 16"
  by (auto simp: SealHandshake_def seal_length split: if_splits)

lemma length_Nonce [simp]: "length (Nonce n) = 12"
  by (simp add: Nonce_def)

lemma Nonce_inj: "Nonce m = Nonce n \<longleftrightarrow> m = n"
proof
  assume "Nonce m = Nonce n"
  then have "be_val (be64 m) = be_val (be64 n)" by (simp add: Nonce_def)
  then show "m = n" by (simp add: word_unat_eq_iff)
qed simp

lemma Nonce_0: "Nonce 0 = handshakeNonce"
  by code_simp

lemma Nonce_handshake: "Nonce n = handshakeNonce \<longleftrightarrow> n = 0"
  using Nonce_inj [of n 0] by (simp add: Nonce_0)

section \<open>Fingerprints name the digest\<close>

lemma length_digits32 [simp]: "length (digits32 n v) = n"
  by (induction n arbitrary: v) simp_all

lemma digits32_range: "d \<in> set (digits32 n v) \<Longrightarrow> d < 32"
  by (induction n arbitrary: v) auto

lemma digits32_inj: "digits32 n v = digits32 n w \<Longrightarrow> v mod 32 ^ n = w mod 32 ^ n"
proof (induction n arbitrary: v w)
  case 0
  then show ?case by simp
next
  case (Suc n)
  then have "digits32 n (v div 32) = digits32 n (w div 32)" "v mod 32 = w mod 32"
    by (simp_all only: digits32.simps append1_eq_conv)
  with Suc.IH have "v div 32 mod 32 ^ n = w div 32 mod 32 ^ n" "v mod 32 = w mod 32" by blast+
  then show ?case by (simp only: power_Suc mod_mult2_eq)
qed

lemma code_base32_char: "c < 32 \<Longrightarrow> (of_char (base32_char c) :: nat) = (if c < 26 then 97 + c else 24 + c)"
  by (simp add: base32_char_def)

lemma base32_char_inj:
  assumes "c < 32" and "d < 32" and "base32_char c = base32_char d"
  shows "c = d"
proof -
  have "(if c < 26 then 97 + c else 24 + c) = (if d < 26 then 97 + d else 24 + d)"
    using code_base32_char [OF assms(1)] code_base32_char [OF assms(2)] assms(3) by metis
  then show ?thesis using assms(1,2) by (simp split: if_splits)
qed

lemma base32_char_dash: "c < 32 \<Longrightarrow> base32_char c \<noteq> CHR ''-''"
proof
  assume "c < 32" and "base32_char c = CHR ''-''"
  then have "(of_char (base32_char c) :: nat) = 45" by simp
  with code_base32_char [OF \<open>c < 32\<close>] show False by (auto split: if_splits)
qed

lemma map_base32_inj:
  assumes "\<forall>c \<in> set xs. c < 32" and "\<forall>c \<in> set ys. c < 32" and "map base32_char xs = map base32_char ys"
  shows "xs = ys"
proof (rule map_inj_on [OF assms(3)])
  show "inj_on base32_char (set xs \<union> set ys)"
    using assms(1,2) by (intro inj_onI base32_char_inj) blast+
qed

lemma base32_group:
  assumes "length g = 5"
  shows "base32_lower (g @ r) = map base32_char (digits32 8 (be_val g)) @ base32_lower r"
proof -
  obtain b bs where g: "g = b # bs" "length bs = 4" using assms by (cases g) auto
  then show ?thesis by (simp add: Let_def del: digits32.simps)
qed

lemma group_inj:
  assumes "length g = 5" and "length h = 5"
    and "map base32_char (digits32 8 (be_val g)) = map base32_char (digits32 8 (be_val h))"
  shows "g = h"
proof -
  have "digits32 8 (be_val g) = digits32 8 (be_val h)"
    using assms(3) digits32_range by (intro map_base32_inj) blast+
  then have "be_val g mod 32 ^ 8 = be_val h mod 32 ^ 8" by (rule digits32_inj)
  moreover have "be_val g < 32 ^ 8" "be_val h < 32 ^ 8"
    using be_val_bound [of g] be_val_bound [of h] assms(1,2) by simp_all
  ultimately have "be_val g = be_val h" by (simp only: mod_less)
  then show ?thesis using be_enc_val [of 5 g] be_enc_val [of 5 h] assms(1,2) by metis
qed

lemma base32_inj:
  "length xs = 5 * n \<Longrightarrow> length ys = 5 * n \<Longrightarrow> base32_lower xs = base32_lower ys \<Longrightarrow> xs = ys"
proof (induction n arbitrary: xs ys)
  case 0
  then show ?case by simp
next
  case (Suc n)
  obtain g r where xs: "xs = g @ r" "length g = 5" "length r = 5 * n"
    using Suc.prems(1) append_take_drop_id [of 5 xs] by (metis add_diff_cancel_left' length_drop length_take
        min.absorb2 mult_Suc_right le_add1)
  obtain h q where ys: "ys = h @ q" "length h = 5" "length q = 5 * n"
    using Suc.prems(2) append_take_drop_id [of 5 ys] by (metis add_diff_cancel_left' length_drop length_take
        min.absorb2 mult_Suc_right le_add1)
  have "map base32_char (digits32 8 (be_val g)) = map base32_char (digits32 8 (be_val h))
      \<and> base32_lower r = base32_lower q"
    using Suc.prems(3) xs ys by (simp only: base32_group) (simp add: append_eq_append_conv)
  with Suc.IH [of r q] xs ys group_inj [of g h] show ?case by simp
qed

lemma base32_shape:
  "length xs = 5 * n \<Longrightarrow> length (base32_lower xs) = 8 * n \<and> CHR ''-'' \<notin> set (base32_lower xs)"
proof (induction n arbitrary: xs)
  case 0
  then show ?case by simp
next
  case (Suc n)
  obtain g r where xs: "xs = g @ r" "length g = 5" "length r = 5 * n"
    using Suc.prems append_take_drop_id [of 5 xs] by (metis add_diff_cancel_left' length_drop length_take
        min.absorb2 mult_Suc_right le_add1)
  have "CHR ''-'' \<notin> set (map base32_char (digits32 8 (be_val g)))"
    using base32_char_dash digits32_range by (metis ex_map_conv imageE list.set_map)
  with Suc.IH [OF xs(3)] show ?case by (simp add: xs base32_group del: digits32.simps)
qed

lemma group_loop_spec:
  "length s = i + 4 * n \<Longrightarrow> CHR ''-'' \<notin> set s \<Longrightarrow>
     \<exists>out. group_loop s i = Ret out \<and> filter (\<lambda>c. c \<noteq> CHR ''-'') out = drop i s
       \<and> length out = 5 * n - (if i = 0 then min n 1 else 0)"
proof (induction n arbitrary: i)
  case 0
  then show ?case by (simp add: group_loop.simps [of s i])
next
  case (Suc n)
  let ?part = "take 4 (drop i s)"
  obtain out where out: "group_loop s (i + 4) = Ret out" "filter (\<lambda>c. c \<noteq> CHR ''-'') out = drop (i + 4) s"
    "length out = 5 * n"
    using Suc.IH [of "i + 4"] Suc.prems by auto
  have "group_loop s i = Ret ((if i > 0 then ''-'' else '''') @ ?part @ out)"
    using Suc.prems out(1) by (simp add: group_loop.simps [of s i])
  moreover have "filter (\<lambda>c. c \<noteq> CHR ''-'') ?part = ?part"
    using Suc.prems(2) by (auto simp: filter_id_conv dest: in_set_takeD in_set_dropD)
  moreover have "?part @ drop (i + 4) s = drop i s"
    using take_drop_split [of i "i + 4" s] by simp
  ultimately show ?case using out Suc.prems(1) by simp
qed

definition key_digest :: "prims \<Rightarrow> string \<Rightarrow> bytes \<Rightarrow> bytes" where
  "key_digest P label key = take 20 (p_blake2s P (ascii_bytes label @ key))"

lemma Fingerprint_shape:
  assumes "hash_ok P"
  shows "\<exists>out. Fingerprint P FingerprintServer key = Ret (''wgs-'' @ out)
      \<and> filter (\<lambda>c. c \<noteq> CHR ''-'') out = base32_lower (key_digest P ''WG-FP/1/server'' key) \<and> length out = 39"
    and "\<exists>out. Fingerprint P FingerprintClient key = Ret (''wgc-'' @ out)
      \<and> filter (\<lambda>c. c \<noteq> CHR ''-'') out = base32_lower (key_digest P ''WG-FP/1/client'' key) \<and> length out = 39"
proof -
  have "\<exists>out. group_loop (base32_lower (key_digest P label key)) 0 = Ret out
      \<and> filter (\<lambda>c. c \<noteq> CHR ''-'') out = base32_lower (key_digest P label key) \<and> length out = 39" for label
    using base32_shape [of "key_digest P label key" 4] assms
      group_loop_spec [of "base32_lower (key_digest P label key)" 0 8]
    by (simp add: key_digest_def hash_length)
  note this [of "''WG-FP/1/server''"] this [of "''WG-FP/1/client''"]
  then show "\<exists>out. Fingerprint P FingerprintServer key = Ret (''wgs-'' @ out)
      \<and> filter (\<lambda>c. c \<noteq> CHR ''-'') out = base32_lower (key_digest P ''WG-FP/1/server'' key) \<and> length out = 39"
    and "\<exists>out. Fingerprint P FingerprintClient key = Ret (''wgc-'' @ out)
      \<and> filter (\<lambda>c. c \<noteq> CHR ''-'') out = base32_lower (key_digest P ''WG-FP/1/client'' key) \<and> length out = 39"
    using assms by (auto simp: Fingerprint_def Let_def Sum256_def hash_length key_digest_def)
qed

fun role_label :: "FingerprintRole \<Rightarrow> string" where
  "role_label FingerprintServer = ''WG-FP/1/server''"
| "role_label FingerprintClient = ''WG-FP/1/client''"
| "role_label (FingerprintOther _) = ''''"

lemma Fingerprint_identifies:
  assumes "hash_ok P" and "Fingerprint P r key = Ret f" and "Fingerprint P r' key' = Ret f"
  shows "r = r' \<and> key_digest P (role_label r) key = key_digest P (role_label r') key'"
proof -
  have inj: "a = b" if "base32_lower a = base32_lower b" "length a = 20" "length b = 20" for a b
    using that base32_inj [of a 4 b] by simp
  have len: "length (key_digest P l k) = 20" for l k using assms(1) by (simp add: key_digest_def hash_length)
  show ?thesis
    using assms(2,3) Fingerprint_shape [OF assms(1), of key] Fingerprint_shape [OF assms(1), of key']
    by (cases r; cases r') (auto simp: Fingerprint_def [of _ "FingerprintOther _"] intro!: inj len)
qed

section \<open>A model of the primitives\<close>

text \<open>Functions with the documented behaviour, for the witnesses: they are not secure.\<close>

definition pad32 :: "bytes \<Rightarrow> bytes" where
  "pad32 k = take 32 (k @ replicate 32 0)"

definition sample_prims :: prims where
  "sample_prims =
    \<lparr>p_blake2s = pad32, p_public = pad32, p_x25519 = (\<lambda>a b. Some (map2 (+) (pad32 a) (pad32 b))),
     p_seal = (\<lambda>k n p ad. p @ replicate 16 0),
     p_open = (\<lambda>k n c ad. if length c \<ge> 16 \<and> drop (length c - 16) c = replicate 16 0
                          then Some (take (length c - 16) c) else None)\<rparr>"

lemma length_pad32 [simp]: "length (pad32 k) = 32"
  by (simp add: pad32_def)

lemma pad32_idem [simp]: "pad32 (pad32 k) = pad32 k"
  by (simp add: pad32_def [of "pad32 k"])

lemma map2_add_commute: "length xs = length ys \<Longrightarrow> map2 (+) xs ys = map2 (+) ys (xs :: bytes)"
  by (induction xs ys rule: list_induct2) (simp_all add: add.commute)

lemma sample_prims_ok: "prims_ok sample_prims"
proof -
  have "p_open sample_prims k n c ad = Some p \<longleftrightarrow> c = p_seal sample_prims k n p ad" for k n c ad p
    by (auto simp: sample_prims_def) (metis append_take_drop_id)
  moreover have "map2 (+) (pad32 a) (pad32 b) = map2 (+) (pad32 b) (pad32 a)" for a b
    by (rule map2_add_commute) simp
  ultimately show ?thesis
    by (simp add: prims_ok_def hash_ok_def dh_ok_def aead_ok_def) (simp add: sample_prims_def)
qed

section \<open>Properties\<close>

text \<open>C23. \<^verbatim>\<open>Expand\<close> computes RFC 5869: for any length of at most 255 blocks the output is the
  prefix of that length of the blocks \<open>T(1) T(2) ...\<close>, where \<open>T(i)\<close> is the HMAC of the previous
  block, the info and the counter byte; other lengths are rejected.\<close>

theorem expand_is_rfc5869:
  assumes "hash_ok P"
  shows "Expand P prk info len =
    (if 0 \<le> len \<and> len \<le> 8160 then Ret (take (nat len) (okm P prk info 255)) else Err ErrInvalidLength)"
  using Expand_spec [OF assms] by (auto simp: Expand_def go_consts)

theorem expand_is_rfc5869_witness:
  "hash_ok sample_prims \<and> Expand sample_prims [1] [2] 8161 = Err ErrInvalidLength
   \<and> (\<exists>out. Expand sample_prims [1] [2] 40 = Ret out)"
  using expand_is_rfc5869 [OF prims_ok_parts(1) [OF sample_prims_ok], of "[1]" "[2]"]
    prims_ok_parts(1) [OF sample_prims_ok] by simp

text \<open>Nonces are unique: different packet numbers give different 12-byte nonces, and only
  packet number 0 gives the nonce of the handshake messages.\<close>

lemma nonce_unique:
  "length (Nonce n) = NonceSize \<and> (Nonce m = Nonce n \<longleftrightarrow> m = n) \<and> (Nonce n = handshakeNonce \<longleftrightarrow> n = 0)"
  by (simp add: Nonce_inj Nonce_handshake go_consts)

text \<open>Fingerprints identify keys up to the hash: two keys with the same fingerprint have the
  same role and the same first 160 bits of the domain-separated digest; a fingerprint has 43
  characters.\<close>

theorem fingerprint_identifies_key:
  assumes "hash_ok P" and "Fingerprint P r key = Ret f" and "Fingerprint P r' key' = Ret f"
  shows "r = r' \<and> key_digest P (role_label r) key = key_digest P (role_label r') key' \<and> length f = 43"
  using Fingerprint_identifies [OF assms] Fingerprint_shape [OF assms(1), of key] assms(2)
  by (cases r) (auto simp: Fingerprint_def [of _ "FingerprintOther _"])

theorem fingerprint_identifies_key_witness:
  "\<exists>f. Fingerprint sample_prims FingerprintServer (replicate 32 1) = Ret f \<and> length f = 43"
proof -
  note ok = prims_ok_parts(1) [OF sample_prims_ok]
  obtain f where "Fingerprint sample_prims FingerprintServer (replicate 32 1) = Ret f"
    using Fingerprint_shape [OF ok, of "replicate 32 1"] by blast
  with fingerprint_identifies_key [OF ok this this] show ?thesis by blast
qed

end
