(* ===== verification/Crypto_Transport.thy ===== *)
theory Crypto_Transport
  imports Crypto_Schedule Codec_Packet Codec_Frame
begin

text \<open>
  \<^verbatim>\<open>internal/crypto/transport.go\<close>: sealing and opening TRANSPORT packets, with the complete
  32-byte header as associated data and the packet number as nonce. The lemmas show that
  opening inverts sealing on every packet, through the outer codec too, and that a packet
  opens only if it was sealed under its own header.
\<close>

section \<open>Definitions\<close>

definition SealTransportPlaintext :: "prims \<Rightarrow> bytes \<Rightarrow> Header \<Rightarrow> bytes \<Rightarrow> Packet crypto_result" where
  "SealTransportPlaintext P key header plaintext =
    (if HKind header \<noteq> PacketTransport then Err ErrInvalidTransport
     else if int (length plaintext) > MaxUint16 - int Overhead then Err ErrInvalidLength
     else
       let header' = header\<lparr>PayloadLength := word_of_nat (length plaintext + Overhead)\<rparr> in
       obind (omap_err (\<lambda>_. ErrInvalidTransport) (Header_MarshalBinary header')) (\<lambda>associatedData.
       if length key \<noteq> KeySize then Err ErrInvalidKey
       else
         let nonce = Nonce (PacketNumber header');
             ciphertext = p_seal P key nonce plaintext associatedData
         in Ret \<lparr>PHeader = header', Payload = ciphertext\<rparr>))"

definition SealTransport :: "prims \<Rightarrow> bytes \<Rightarrow> Header \<Rightarrow> Frame list \<Rightarrow> int \<Rightarrow> Packet crypto_result" where
  "SealTransport P key header frames maxPlaintext =
    (if HKind header \<noteq> PacketTransport then Err ErrInvalidTransport
     else obind (omap_err ErrFrameEncoding (MarshalFrames frames maxPlaintext)) (\<lambda>plaintext.
       SealTransportPlaintext P key header plaintext))"

definition OpenTransportPlaintext :: "prims \<Rightarrow> bytes \<Rightarrow> Packet \<Rightarrow> bytes crypto_result" where
  "OpenTransportPlaintext P key packet =
    (if HKind (PHeader packet) \<noteq> PacketTransport \<or> length (Payload packet) < Overhead
        \<or> int (length (Payload packet)) > MaxUint16 then Err ErrInvalidTransport
     else if unat (PayloadLength (PHeader packet)) \<noteq> length (Payload packet) then Err ErrInvalidTransport
     else obind (omap_err (\<lambda>_. ErrInvalidTransport) (Header_MarshalBinary (PHeader packet))) (\<lambda>associatedData.
       if length key \<noteq> KeySize then Err ErrInvalidKey
       else (case p_open P key (Nonce (PacketNumber (PHeader packet))) (Payload packet) associatedData of
               None \<Rightarrow> Err ErrAuthentication
             | Some plaintext \<Rightarrow> Ret plaintext)))"

definition OpenTransport :: "prims \<Rightarrow> bytes \<Rightarrow> Packet \<Rightarrow> int \<Rightarrow> Frame list crypto_result" where
  "OpenTransport P key packet maxPlaintext =
     obind (OpenTransportPlaintext P key packet) (\<lambda>plaintext.
       omap_err ErrFrameEncoding (ParseFrames plaintext maxPlaintext))"

section \<open>Opening inverts sealing\<close>

lemma SealTransportPlaintext_Ret_iff:
  "SealTransportPlaintext P key h p = Ret pkt \<longleftrightarrow>
     HKind h = PacketTransport \<and> length p \<le> 65519 \<and> length key = 32
     \<and> (\<exists>ad. Header_MarshalBinary (h\<lparr>PayloadLength := word_of_nat (length p + 16)\<rparr>) = Ret ad
          \<and> pkt = \<lparr>PHeader = h\<lparr>PayloadLength := word_of_nat (length p + 16)\<rparr>,
                   Payload = p_seal P key (Nonce (PacketNumber h)) p ad\<rparr>)"
  by (auto simp: SealTransportPlaintext_def go_consts Let_def obind_Ret_iff)

lemma OpenTransportPlaintext_Ret_iff:
  assumes "aead_ok P"
  shows "OpenTransportPlaintext P key pkt = Ret p \<longleftrightarrow>
     wf_packet pkt \<and> SealTransportPlaintext P key (PHeader pkt) p = Ret pkt"
proof -
  obtain h c where pkt: "pkt = \<lparr>PHeader = h, Payload = c\<rparr>" by (cases pkt) auto
  have open_eq: "p_open P k n c ad = Some q \<longleftrightarrow> c = p_seal P k n q ad" for k n ad q
    by (rule open_iff [OF assms])
  have len: "length (p_seal P k n q ad) = length q + 16" for k n q ad by (rule seal_length [OF assms])
  have upd: "PayloadLength h = w \<Longrightarrow> h\<lparr>PayloadLength := w\<rparr> = h" for w by (cases h) simp
  show ?thesis
  proof
    assume "OpenTransportPlaintext P key pkt = Ret p"
    then obtain ad where a: "HKind h = PacketTransport" "length c \<le> 65535" "unat (PayloadLength h) = length c"
      "Header_MarshalBinary h = Ret ad" "length key = 32" "c = p_seal P key (Nonce (PacketNumber h)) p ad"
      by (auto simp: OpenTransportPlaintext_def pkt go_consts obind_Ret_iff open_eq split: if_splits option.splits)
    have cl: "length c = length p + 16" using a(6) len by simp
    have "PayloadLength h = word_of_nat (length p + 16)" using a(2,3) cl unat_word_of_nat16 [of "length p + 16"]
      by (simp add: word_unat_eq_iff del: of_nat_add)
    note eq = this upd [OF this]
    have "SealTransportPlaintext P key h p = Ret pkt"
      unfolding SealTransportPlaintext_Ret_iff eq(2) using a cl pkt by auto
    moreover have "wf_packet pkt" using a(2) cl eq(1) by (simp add: wf_packet_def pkt)
    ultimately show "wf_packet pkt \<and> SealTransportPlaintext P key (PHeader pkt) p = Ret pkt"
      by (simp add: pkt)
  next
    assume "wf_packet pkt \<and> SealTransportPlaintext P key (PHeader pkt) p = Ret pkt"
    then obtain ad where a: "HKind h = PacketTransport" "length p \<le> 65519" "length key = 32"
      "Header_MarshalBinary (h\<lparr>PayloadLength := word_of_nat (length p + 16)\<rparr>) = Ret ad"
      "h = h\<lparr>PayloadLength := word_of_nat (length p + 16)\<rparr>"
      "c = p_seal P key (Nonce (PacketNumber h)) p ad"
      by (auto simp: SealTransportPlaintext_Ret_iff pkt)
    have cl: "length c = length p + 16" using a(6) len by simp
    have "PayloadLength h = word_of_nat (length p + 16)" using a(5) by (metis Header.select_convs(7) Header.surjective Header.update_convs(7))
    then have "unat (PayloadLength h) = length p + 16"
      using a(2) unat_word_of_nat16 [of "length p + 16"] by simp
    moreover have "Header_MarshalBinary h = Ret ad" using a(4,5) by metis
    moreover have "p_open P key (Nonce (PacketNumber h)) c ad = Some p" using a(6) open_eq by simp
    ultimately show "OpenTransportPlaintext P key pkt = Ret p"
      using a(1,2,3) cl by (simp add: OpenTransportPlaintext_def pkt go_consts)
  qed
qed

lemma sealed_wf:
  assumes "aead_ok P" and "SealTransportPlaintext P key h p = Ret pkt"
  shows "wf_packet pkt \<and> SealTransportPlaintext P key (PHeader pkt) p = Ret pkt"
  using assms by (auto simp: SealTransportPlaintext_Ret_iff wf_packet_def seal_length)

lemma transport_roundtrip:
  assumes "aead_ok P" and "SealTransport P key h frames m = Ret pkt"
  shows "OpenTransport P key pkt m = Ret frames"
proof -
  from assms(2) obtain p where p: "MarshalFrames frames m = Ret p" "SealTransportPlaintext P key h p = Ret pkt"
    by (auto simp: SealTransport_def obind_Ret_iff split: if_splits)
  have "OpenTransportPlaintext P key pkt = Ret p"
    using OpenTransportPlaintext_Ret_iff [OF assms(1)] sealed_wf [OF assms(1) p(2)] by simp
  moreover have "ParseFrames p m = Ret frames" using frame_codec.parse_marshal p(1) by blast
  ultimately show ?thesis by (simp add: OpenTransport_def)
qed

lemma transport_authentic:
  assumes "aead_ok P"
  shows "OpenTransport P key pkt m = Ret frames \<longleftrightarrow>
    wf_packet pkt \<and> SealTransport P key (PHeader pkt) frames m = Ret pkt"
  using OpenTransportPlaintext_Ret_iff [OF assms]
  by (auto simp: OpenTransport_def SealTransport_def obind_Ret_iff frame_codec.parse_iff_marshal
      SealTransportPlaintext_Ret_iff)

lemma sealed_kind: "SealTransport P key h frames m = Ret pkt \<Longrightarrow> HKind (PHeader pkt) = PacketTransport
    \<and> Header_validate (PHeader pkt) = Ret ()"
  by (auto simp: SealTransport_def SealTransportPlaintext_Ret_iff obind_Ret_iff Header_MarshalBinary_def split: if_splits)

text \<open>A sealed packet fits a datagram and survives the outer codec.\<close>

lemma sealed_datagram:
  assumes "aead_ok P" and "SealTransport P key h frames m = Ret pkt"
    and "normalizeDatagramLimit d = Ret limit" and "int (32 + length (Payload pkt)) \<le> limit"
  shows "\<exists>data. Packet_MarshalBinary pkt d = Ret data \<and> ParsePacket data d = Ret pkt"
proof -
  from assms(2) obtain p where p: "MarshalFrames frames m = Ret p" "SealTransportPlaintext P key h p = Ret pkt"
    by (auto simp: SealTransport_def obind_Ret_iff split: if_splits)
  note wf = sealed_wf [OF assms(1) p(2), THEN conjunct1]
  from p(2) obtain eh where eh: "Header_MarshalBinary (PHeader pkt) = Ret eh"
    and kind: "HKind (PHeader pkt) = PacketTransport" and len: "16 \<le> length (Payload pkt)"
    using assms(1) by (auto simp: SealTransportPlaintext_Ret_iff seal_length)
  have "p \<noteq> []"
    using p(1) by (cases frames) (auto simp: MarshalFrames_iff plaintext_ok_def encodeFrame_def)
  have "(PHeader pkt)\<lparr>PayloadLength := word_of_nat (length (Payload pkt))\<rparr> = PHeader pkt"
    using wf by (cases "PHeader pkt") (simp add: wf_packet_def)
  then have "Header_MarshalBinary ((PHeader pkt)\<lparr>PayloadLength := word_of_nat (length (Payload pkt))\<rparr>) = Ret eh"
    using eh by (simp only:)
  moreover have "validateOuterPayload PacketTransport (Payload pkt) = Ret ()"
    using len \<open>p \<noteq> []\<close> p(2) assms(1)
    by (auto simp: validateOuterPayload_def go_consts ParseTransport_def SealTransportPlaintext_Ret_iff
        seal_length)
  ultimately have "Packet_MarshalBinary pkt d = Ret (eh @ Payload pkt)"
    using assms(3,4) wf kind
    by (simp add: Packet_MarshalBinary_def wf_packet_def go_consts Let_def)
  with packet_parse_marshal [OF wf this] show ?thesis by blast
qed

section \<open>Properties\<close>

text \<open>C12. Transport round trip: frames sealed under a key are what the receiver with the same key
  gets from opening the packet, also after it has been marshalled into a datagram within the
  limit and parsed again.\<close>

theorem transport_end_to_end:
  assumes "prims_ok P" and "SealTransport P key h frames m = Ret pkt"
    and "normalizeDatagramLimit d = Ret limit" and "int (32 + length (Payload pkt)) \<le> limit"
  shows "\<exists>data pkt'. Packet_MarshalBinary pkt d = Ret data \<and> ParsePacket data d = Ret pkt'
    \<and> OpenTransport P key pkt' m = Ret frames"
  using sealed_datagram [OF prims_ok_parts(3) [OF assms(1)] assms(2-4)]
    transport_roundtrip [OF prims_ok_parts(3) [OF assms(1)] assms(2)] by blast

definition sample_header :: Header where
  "sample_header = \<lparr>Version = 1, HKind = 0x10, Flags = 0, DCID = 7, SCID = 9, PacketNumber = 3,
     PayloadLength = 0, Reserved = 0\<rparr>"

lemma sample_seal:
  "\<exists>pkt. SealTransport sample_prims (replicate 32 1) sample_header sample_frames 0 = Ret pkt
     \<and> length (Payload pkt) = 64"
  by (simp add: SealTransport_def sample_frames_marshal SealTransportPlaintext_def sample_header_def
      Header_MarshalBinary_def Header_validate_def PacketType_valid_def go_consts sample_prims_def)

theorem transport_end_to_end_witness:
  "\<exists>pkt data pkt'. SealTransport sample_prims (replicate 32 1) sample_header sample_frames 0 = Ret pkt
     \<and> Packet_MarshalBinary pkt 0 = Ret data \<and> ParsePacket data 0 = Ret pkt'
     \<and> OpenTransport sample_prims (replicate 32 1) pkt' 0 = Ret sample_frames"
proof -
  obtain pkt where pkt: "SealTransport sample_prims (replicate 32 1) sample_header sample_frames 0 = Ret pkt"
    "length (Payload pkt) = 64"
    using sample_seal by blast
  have "normalizeDatagramLimit 0 = Ret 1400" by (simp add: normalizeDatagramLimit_def go_consts)
  from transport_end_to_end [OF sample_prims_ok pkt(1) this] pkt show ?thesis by auto
qed

text \<open>C18. Only sealed packets open: a packet opens to some frames exactly when its length field is
  that of its payload and sealing those frames under the same key and the packet's own header
  gives this very packet. Every header field is therefore authenticated.\<close>

theorem transport_opens_only_sealed:
  assumes "prims_ok P"
  shows "OpenTransport P key pkt m = Ret frames \<longleftrightarrow>
    wf_packet pkt \<and> SealTransport P key (PHeader pkt) frames m = Ret pkt"
  by (rule transport_authentic [OF prims_ok_parts(3) [OF assms]])

theorem transport_opens_only_sealed_witness:
  "prims_ok sample_prims \<and> OpenTransport sample_prims [] sample_packet 0 \<noteq> Ret []"
  using transport_opens_only_sealed [OF sample_prims_ok, of "[]" sample_packet 0 "[]"] sample_prims_ok
  by (auto simp: SealTransport_def MarshalFrames_iff plaintext_ok_def obind_Ret_iff)

end
