(* ===== verification/Handshake_Types.thy ===== *)
theory Handshake_Types
  imports Crypto_Transport Codec_TLV Session_Replay
begin

text \<open>
  \<^verbatim>\<open>internal/handshake/errors.go\<close>, \<^verbatim>\<open>types.go\<close> and \<^verbatim>\<open>wire.go\<close>: the errors and states of the
  handshake, the configurations with the options they normalize to, and the wire forms of the
  two handshake messages. An error is its sentinel with the text after it. A random source is
  the list of the bytes it will still deliver (\<open>cryptorand\<close> stands for the one of the operating
  system), a private key its 32 bytes, a nil key \<open>None\<close>.
\<close>

unbundle bit_operations_syntax

section \<open>Errors and states\<close>

datatype hs_kind =
  ErrState | ErrConfiguration | ErrMessage | ErrAuthentication | ErrUnregisteredClient
| ErrEnrollmentUnsupported | ErrTranscript | ErrConnectionID | ErrParameters
| ErrAttemptCapacity | ErrAttemptExpired

type_synonym hs_error = "hs_kind \<times> string"

type_synonym 'a hs_result = "(hs_error, 'a) outcome"

definition hs_err :: "hs_kind \<Rightarrow> string \<Rightarrow> 'a hs_result" where
  "hs_err k detail = Err (k, detail)"

text \<open>\<open>wrap_as k t r\<close>: a failure of the callee becomes the sentinel \<open>k\<close> with the text \<open>t\<close>.\<close>

definition wrap_as :: "hs_kind \<Rightarrow> string \<Rightarrow> ('e, 'a) outcome \<Rightarrow> 'a hs_result" where
  "wrap_as k detail r = omap_err (\<lambda>_. (k, detail)) r"

definition wrap_codec :: "hs_kind \<Rightarrow> string \<Rightarrow> 'a codec_result \<Rightarrow> 'a hs_result" where
  "wrap_codec k detail r = omap_err (\<lambda>e. (k, detail @ DecodeError_Error e)) r"

lemma wrap_Ret_iff [simp]:
  "wrap_as k d r = Ret x \<longleftrightarrow> r = Ret x" "wrap_codec k d s = Ret x \<longleftrightarrow> s = Ret x"
  by (simp_all add: wrap_as_def wrap_codec_def)

lemma wrap_Panic_iff [simp]:
  "wrap_as k d r = Panic \<longleftrightarrow> r = Panic" "wrap_codec k d s = Panic \<longleftrightarrow> s = Panic"
  by (simp_all add: wrap_as_def wrap_codec_def)

lemma wrap_Ret [simp]: "wrap_as k d (Ret x) = Ret x" "wrap_codec k d (Ret x) = Ret x"
  by (simp_all add: wrap_as_def wrap_codec_def)

lemma wrap_other [simp]:
  "wrap_as k d (Err e) = Err (k, d)" "wrap_as k d Panic = Panic" "wrap_codec k d Panic = Panic"
  by (simp_all add: wrap_as_def wrap_codec_def)

lemma hs_err_not [simp]: "hs_err k d \<noteq> Ret x" "hs_err k d \<noteq> Panic"
  by (simp_all add: hs_err_def)

lemma hs_guard:
  "(if c then hs_err k d else m) = Ret x \<longleftrightarrow> \<not> c \<and> m = Ret x"
  "(if c then hs_err k d else m) = Panic \<longleftrightarrow> \<not> c \<and> m = Panic"
  by auto

lemma hs_err_bind [simp]: "obind (hs_err k d) f = hs_err k d"
  by (simp add: hs_err_def)

datatype hs_state =
  StateIdle | StateInitialSent | StatePendingConfirm | StatePendingPong | StateEstablished
| StateRejected | StateClosed

fun hs_state_String :: "hs_state \<Rightarrow> string" where
  "hs_state_String StateIdle = ''Idle''"
| "hs_state_String StateInitialSent = ''InitialSent''"
| "hs_state_String StatePendingConfirm = ''PendingConfirm''"
| "hs_state_String StatePendingPong = ''PendingPong''"
| "hs_state_String StateEstablished = ''Established''"
| "hs_state_String StateRejected = ''Rejected''"
| "hs_state_String StateClosed = ''Closed''"

section \<open>Configurations\<close>

record ClientConfig =
  cc_DeploymentID :: bytes
  cc_StaticPrivate :: "bytes option"
  cc_ServerStaticPublic :: bytes
  cc_Random :: "bytes option"
  cc_RetryToken :: bytes
  cc_Capabilities :: uint64
  cc_AddressFamilies :: uint8
  cc_MaxDatagramSize :: uint16
  cc_MinTunnelMTU :: uint16
  cc_MaxTunnelMTU :: uint16

record ServerConfig =
  sc_DeploymentID :: bytes
  sc_StaticPrivate :: "bytes option"
  sc_RegisteredClients :: "bytes list"
  sc_Random :: "bytes option"
  sc_Capabilities :: uint64
  sc_AddressFamilies :: uint8
  sc_MaxDatagramSize :: uint16
  sc_TunnelMTU :: uint16
  sc_LeaseSeconds :: uint32
  sc_IPv4Lease :: bytes
  sc_IPv6Lease :: bytes
  sc_EgressPolicy :: uint64
  sc_DNSParameters :: bytes
  sc_PendingAttemptTimeout :: duration
  sc_ConfirmGracePeriod :: duration
  sc_AttemptReplayRetention :: duration
  sc_MaxPendingAttempts :: int
  sc_MaxAttemptRecords :: int

record Negotiated =
  n_Capabilities :: uint64
  n_AddressFamilies :: uint8
  n_MaxDatagramSize :: uint16
  n_TunnelMTU :: uint16
  n_LeaseSeconds :: uint32
  n_IPv4Lease :: bytes
  n_IPv6Lease :: bytes
  n_EgressPolicy :: uint64
  n_DNSParameters :: bytes

record clientOptions =
  co_random :: bytes
  co_addressFamilies :: uint8
  co_maxDatagramSize :: uint16
  co_minTunnelMTU :: uint16
  co_maxTunnelMTU :: uint16
  co_capabilities :: uint64
  co_retryToken :: bytes

record serverOptions =
  so_random :: bytes
  so_addressFamilies :: uint8
  so_maxDatagramSize :: uint16
  so_tunnelMTU :: uint16
  so_leaseSeconds :: uint32
  so_capabilities :: uint64
  so_ipv4Lease :: bytes
  so_ipv6Lease :: bytes
  so_egressPolicy :: uint64
  so_dnsParameters :: bytes
  so_pendingAttemptTimeout :: duration
  so_confirmGracePeriod :: duration
  so_attemptReplayRetention :: duration
  so_maxPendingAttempts :: int
  so_maxAttemptRecords :: int

text \<open>The bytes of a datagram around a tunnelled packet: header, tag and frame header.\<close>

definition frameOverhead :: uint16 where
  "frameOverhead = word_of_nat (HeaderSize + AEADTagSize + FrameHeaderSize)"

definition normalizeClientConfig :: "bytes \<Rightarrow> ClientConfig \<Rightarrow> clientOptions hs_result" where
  "normalizeClientConfig cryptorand config =
    (if cc_StaticPrivate config = None then
       hs_err ErrConfiguration ''missing client static private key''
     else if cc_DeploymentID config = replicate 16 0 then
       hs_err ErrConfiguration ''deployment ID must be non-zero''
     else
       let random = (case cc_Random config of None \<Rightarrow> cryptorand | Some r \<Rightarrow> r);
           addressFamilies = (if cc_AddressFamilies config = 0 then 0x03 else cc_AddressFamilies config)
       in
       if addressFamilies AND NOT 0x03 \<noteq> 0 then
         hs_err ErrConfiguration ''unsupported address-family bits''
       else
         let maxDatagramSize = (if cc_MaxDatagramSize config = 0 then 1400 else cc_MaxDatagramSize config) in
         if maxDatagramSize < frameOverhead + 576 then
           hs_err ErrConfiguration ''max datagram size is too small''
         else
           let minTunnelMTU = (if cc_MinTunnelMTU config = 0 then 576 else cc_MinTunnelMTU config);
               maxTunnelMTU = (if cc_MaxTunnelMTU config = 0 then maxDatagramSize - frameOverhead
                               else cc_MaxTunnelMTU config)
           in
           if minTunnelMTU > maxTunnelMTU then
             hs_err ErrConfiguration ''invalid tunnel MTU interval''
           else Ret
             \<lparr>co_random = random, co_addressFamilies = addressFamilies,
              co_maxDatagramSize = maxDatagramSize, co_minTunnelMTU = minTunnelMTU,
              co_maxTunnelMTU = maxTunnelMTU, co_capabilities = cc_Capabilities config,
              co_retryToken = cc_RetryToken config\<rparr>)"

definition MaxInt :: int where
  "MaxInt = 2 ^ 63 - 1"

definition normalizeServerConfig :: "bytes \<Rightarrow> ServerConfig \<Rightarrow> serverOptions hs_result" where
  "normalizeServerConfig cryptorand config =
    (if sc_StaticPrivate config = None then
       hs_err ErrConfiguration ''missing server static private key''
     else if sc_DeploymentID config = replicate 16 0 then
       hs_err ErrConfiguration ''deployment ID must be non-zero''
     else if length (sc_RegisteredClients config) = 0 then
       hs_err ErrConfiguration ''no registered clients''
     else
       let random = (case sc_Random config of None \<Rightarrow> cryptorand | Some r \<Rightarrow> r);
           addressFamilies = (if sc_AddressFamilies config = 0 then 0x01 else sc_AddressFamilies config)
       in
       if addressFamilies AND NOT 0x03 \<noteq> 0 then
         hs_err ErrConfiguration ''unsupported address-family bits''
       else
       let maxDatagramSize = (if sc_MaxDatagramSize config = 0 then 1400 else sc_MaxDatagramSize config) in
       if maxDatagramSize < frameOverhead + 576 then
         hs_err ErrConfiguration ''max datagram size is too small''
       else
       let tunnelMTU = (if sc_TunnelMTU config = 0 then maxDatagramSize - frameOverhead
                        else sc_TunnelMTU config) in
       if tunnelMTU < 576 \<or> tunnelMTU > maxDatagramSize - frameOverhead then
         hs_err ErrConfiguration ''invalid tunnel MTU''
       else
       let leaseSeconds = (if sc_LeaseSeconds config = 0 then 600 else sc_LeaseSeconds config);
           ipv4Lease = sc_IPv4Lease config; ipv6Lease = sc_IPv6Lease config in
       if length ipv4Lease = 0 \<and> length ipv6Lease = 0 then
         hs_err ErrConfiguration ''at least one lease is required''
       else if length ipv4Lease \<noteq> 0 \<and> (length ipv4Lease \<noteq> 5 \<or> ipv4Lease ! 4 > 32) then
         hs_err ErrConfiguration ''invalid IPv4 lease''
       else if length ipv6Lease \<noteq> 0 \<and> (length ipv6Lease \<noteq> 17 \<or> ipv6Lease ! 16 > 128) then
         hs_err ErrConfiguration ''invalid IPv6 lease''
       else
       let second = 1000000000;
           pendingAttemptTimeout = (if sc_PendingAttemptTimeout config = 0 then 5 * second
                                    else sc_PendingAttemptTimeout config);
           confirmGracePeriod = (if sc_ConfirmGracePeriod config = 0 then 10 * second
                                 else sc_ConfirmGracePeriod config);
           attemptReplayRetention = (if sc_AttemptReplayRetention config = 0 then 30 * second
                                     else sc_AttemptReplayRetention config) in
       if pendingAttemptTimeout < 0 \<or> confirmGracePeriod < 0 \<or> attemptReplayRetention < 0 then
         hs_err ErrConfiguration ''attempt timeouts must be positive''
       else
       let maxPendingAttempts = (if sc_MaxPendingAttempts config = 0 then 1024
                                 else sc_MaxPendingAttempts config) in
       if maxPendingAttempts < 0 then
         hs_err ErrConfiguration ''pending-attempt limit must be positive''
       else if sc_MaxAttemptRecords config = 0 \<and> maxPendingAttempts > MaxInt div 4 then
         hs_err ErrConfiguration ''pending-attempt limit is too large''
       else
       let maxAttemptRecords = (if sc_MaxAttemptRecords config = 0 then maxPendingAttempts * 4
                                else sc_MaxAttemptRecords config) in
       if maxAttemptRecords < maxPendingAttempts then
         hs_err ErrConfiguration ''attempt-record limit is below pending-attempt limit''
       else Ret
         \<lparr>so_random = random, so_addressFamilies = addressFamilies,
          so_maxDatagramSize = maxDatagramSize, so_tunnelMTU = tunnelMTU,
          so_leaseSeconds = leaseSeconds, so_capabilities = sc_Capabilities config,
          so_ipv4Lease = ipv4Lease, so_ipv6Lease = ipv6Lease,
          so_egressPolicy = sc_EgressPolicy config, so_dnsParameters = sc_DNSParameters config,
          so_pendingAttemptTimeout = pendingAttemptTimeout,
          so_confirmGracePeriod = confirmGracePeriod,
          so_attemptReplayRetention = attemptReplayRetention,
          so_maxPendingAttempts = maxPendingAttempts, so_maxAttemptRecords = maxAttemptRecords\<rparr>)"

definition encodeUint16 :: "uint16 \<Rightarrow> bytes" where "encodeUint16 value = be16 value"
definition encodeUint32 :: "uint32 \<Rightarrow> bytes" where "encodeUint32 value = be32 value"
definition encodeUint64 :: "uint64 \<Rightarrow> bytes" where "encodeUint64 value = be64 value"

lemmas encode_uint = encodeUint16_def encodeUint32_def encodeUint64_def

text \<open>The value of a field that the context requires, as in \<^verbatim>\<open>version, _ := codec.FindTLV(...)\<close>.\<close>

definition FindTLVValue :: "TLV list \<Rightarrow> uint8 \<Rightarrow> bytes" where
  "FindTLVValue tlvs t = fst (FindTLV tlvs t)"

section \<open>Wire forms\<close>

definition makeInitialPrefix :: "bytes \<Rightarrow> bytes \<Rightarrow> int \<Rightarrow> bytes hs_result" where
  "makeInitialPrefix token ephemeral encryptedLength =
    (if int (length token) > MaxUint16 \<or> encryptedLength < int AEADTagSize \<or> encryptedLength > MaxUint16 then
       hs_err ErrMessage ''invalid INITIAL length''
     else Ret (be16 (word_of_nat (length token)) @ token @ ephemeral @ be16 (word_of_int encryptedLength)))"

definition makeHandshakePrefix :: "bytes \<Rightarrow> int \<Rightarrow> bytes hs_result" where
  "makeHandshakePrefix ephemeral encryptedLength =
    (if encryptedLength < int AEADTagSize \<or> encryptedLength > MaxUint16 then
       hs_err ErrMessage ''invalid HANDSHAKE length''
     else Ret (ephemeral @ be16 (word_of_int encryptedLength)))"

definition makeHeader :: "uint8 \<Rightarrow> uint64 \<Rightarrow> uint64 \<Rightarrow> uint64 \<Rightarrow> int \<Rightarrow> (Header \<times> bytes) hs_result" where
  "makeHeader kind dcid scid packetNumber payloadLength =
    (if payloadLength < 0 \<or> payloadLength > MaxUint16 then
       hs_err ErrMessage ''payload length out of range''
     else
       let header = \<lparr>Version = Version1, HKind = kind, Flags = 0, DCID = dcid, SCID = scid,
             PacketNumber = packetNumber, PayloadLength = word_of_int payloadLength, Reserved = 0\<rparr>
       in obind (wrap_codec ErrMessage '''' (Header_MarshalBinary header)) (\<lambda>encoded. Ret (header, encoded)))"

definition marshalWirePacket :: "Header \<Rightarrow> bytes \<Rightarrow> bytes \<Rightarrow> int \<Rightarrow> bytes hs_result" where
  "marshalWirePacket header prefix ciphertext maxDatagram =
     wrap_codec ErrMessage ''''
       (Packet_MarshalBinary \<lparr>PHeader = header, Payload = prefix @ ciphertext\<rparr> maxDatagram)"

definition parseInitialWire :: "prims \<Rightarrow> bytes \<Rightarrow> int \<Rightarrow> bytes \<Rightarrow> (Packet \<times> Initial \<times> bytes \<times> bytes) hs_result" where
  "parseInitialWire P datagram maxDatagram ctx =
     obind (wrap_codec ErrMessage '''' (ParsePacket datagram maxDatagram)) (\<lambda>packet.
     if HKind (PHeader packet) \<noteq> PacketInitial then hs_err ErrMessage ''expected INITIAL''
     else obind (wrap_codec ErrMessage '''' (ParseInitial (Payload packet))) (\<lambda>initial.
       let prefixLength = length (Payload packet) - length (InitialEncryptedPayload initial);
           adEnd = HeaderSize + prefixLength
       in
       if adEnd > length datagram then hs_err ErrMessage ''INITIAL prefix out of bounds''
       else obind (slice datagram 0 adEnd) (\<lambda>front.
         let ad = ctx @ front; th1 = Sum256 P [ad, InitialEncryptedPayload initial]
         in Ret (packet, initial, ad, th1))))"

definition parseHandshakeWire ::
  "prims \<Rightarrow> bytes \<Rightarrow> int \<Rightarrow> bytes \<Rightarrow> bytes \<Rightarrow> (Packet \<times> Handshake \<times> bytes \<times> bytes) hs_result" where
  "parseHandshakeWire P datagram maxDatagram ctx th1 =
     obind (wrap_codec ErrMessage '''' (ParsePacket datagram maxDatagram)) (\<lambda>packet.
     if HKind (PHeader packet) \<noteq> PacketHandshake then hs_err ErrMessage ''expected HANDSHAKE''
     else obind (wrap_codec ErrMessage '''' (ParseHandshake (Payload packet))) (\<lambda>handshake.
       let prefixLength = length (Payload packet) - length (HandshakeEncryptedPayload handshake);
           adEnd = HeaderSize + prefixLength
       in
       if adEnd > length datagram then hs_err ErrMessage ''HANDSHAKE prefix out of bounds''
       else obind (slice datagram 0 adEnd) (\<lambda>front.
         let ad = ctx @ th1 @ front; th2 = Sum256 P [ad, HandshakeEncryptedPayload handshake]
         in Ret (packet, handshake, ad, th2))))"

definition secureEqual :: "bytes \<Rightarrow> bytes \<Rightarrow> bool" where
  "secureEqual left right \<longleftrightarrow> length left = length right \<and> left = right"

lemma secureEqual_iff [simp]: "secureEqual a b \<longleftrightarrow> a = b"
  by (auto simp: secureEqual_def)

definition ReadFull :: "bytes \<Rightarrow> nat \<Rightarrow> bytes \<times> (unit, bytes) outcome" where
  "ReadFull random n = (if length random < n then ([], Err ()) else (drop n random, Ret (take n random)))"

text \<open>The loop of \<^verbatim>\<open>nextNonZeroCID\<close> by its remaining attempts.\<close>

fun nonZeroCID_loop :: "nat \<Rightarrow> bytes \<Rightarrow> bytes \<times> uint64 hs_result" where
  "nonZeroCID_loop 0 random =
     (random, hs_err ErrConfiguration ''random source repeatedly produced a zero connection identifier'')"
| "nonZeroCID_loop (Suc attempt) random =
    (case ReadFull random 8 of
       (random', Ret raw) \<Rightarrow>
         (case Uint64 raw of
            Ret cid \<Rightarrow> if cid \<noteq> 0 then (random', Ret cid) else nonZeroCID_loop attempt random'
          | Err e \<Rightarrow> (random', Err e)
          | Panic \<Rightarrow> (random', Panic))
     | (random', _) \<Rightarrow> (random', hs_err ErrConfiguration ''read connection identifier''))"

definition nextNonZeroCID :: "bytes \<Rightarrow> bytes \<times> uint64 hs_result" where
  "nextNonZeroCID random = nonZeroCID_loop 32 random"

section \<open>Datagrams and their parts\<close>

lemma ParsePacket_parts:
  assumes "ParsePacket d m = Ret p"
  obtains eh where "Header_MarshalBinary (PHeader p) = Ret eh" and "d = eh @ Payload p" and "length eh = 32"
    and "Header_validate (PHeader p) = Ret ()" and "unat (PayloadLength (PHeader p)) = length (Payload p)"
proof -
  have wf: "wf_packet p" and m: "Packet_MarshalBinary p m = Ret d"
    using packet_marshal_parse [OF assms] by auto
  then have upd: "(PHeader p)\<lparr>PayloadLength := word_of_nat (length (Payload p))\<rparr> = PHeader p"
    by (cases "PHeader p") (simp add: wf_packet_def)
  from m obtain eh where "Header_MarshalBinary ((PHeader p)\<lparr>PayloadLength := word_of_nat (length (Payload p))\<rparr>) = Ret eh"
    and d: "d = eh @ Payload p"
    by (auto simp: Packet_MarshalBinary_def Let_def obind_Ret_iff decode_guard)
  then have eh: "Header_MarshalBinary (PHeader p) = Ret eh" by (simp only: upd)
  show ?thesis
  proof (rule that [OF eh d Header_MarshalBinary_length [OF eh]])
    show "Header_validate (PHeader p) = Ret ()" using eh by (auto simp: Header_MarshalBinary_def obind_Ret_iff)
    show "unat (PayloadLength (PHeader p)) = length (Payload p)"
      using wf by (simp add: wf_packet_def unat_word_of_nat16)
  qed
qed

lemma ParsePacket_unique: "ParsePacket d m = Ret p \<Longrightarrow> ParsePacket d m' = Ret q \<Longrightarrow> p = q"
proof -
  assume p: "ParsePacket d m = Ret p" and q: "ParsePacket d m' = Ret q"
  have "PHeader p = PHeader q" using ParsePacket_length [OF p] ParsePacket_length [OF q] by simp
  moreover have "Payload p = Payload q"
    using p q by (elim ParsePacket_parts) (metis append_eq_append_conv)
  ultimately show "p = q" by (cases p; cases q) simp
qed

lemma marshalWirePacket_Ret:
  assumes "marshalWirePacket h prefix ct m = Ret d" and "unat (PayloadLength h) = length prefix + length ct"
  shows "\<exists>eh. Header_MarshalBinary h = Ret eh \<and> d = eh @ prefix @ ct
    \<and> ParsePacket d m = Ret \<lparr>PHeader = h, Payload = prefix @ ct\<rparr>"
proof -
  let ?p = "\<lparr>PHeader = h, Payload = prefix @ ct\<rparr>"
  have "length prefix + length ct < 65536"
    using assms(2) unat_uint16_bound [of "PayloadLength h"] by simp
  moreover have "PayloadLength h = word_of_nat (length prefix + length ct)"
    using assms(2) calculation by (metis unat_word_of_nat16 word_unat_eq_iff)
  ultimately have "wf_packet ?p" by (simp add: wf_packet_def)
  with assms(1) have "ParsePacket d m = Ret ?p"
    by (simp add: marshalWirePacket_def packet_parse_marshal)
  note parsed = this
  then obtain eh where "Header_MarshalBinary h = Ret eh" "d = eh @ prefix @ ct" by (elim ParsePacket_parts) simp
  with parsed show ?thesis by blast
qed

lemma makeHeader_Ret:
  "makeHeader kind dcid scid pn n = Ret (h, enc) \<longleftrightarrow> 0 \<le> n \<and> n \<le> 65535
     \<and> h = \<lparr>Version = Version1, HKind = kind, Flags = 0, DCID = dcid, SCID = scid,
            PacketNumber = pn, PayloadLength = word_of_int n, Reserved = 0\<rparr>
     \<and> Header_MarshalBinary h = Ret enc"
  by (auto simp: makeHeader_def go_consts Let_def obind_Ret_iff hs_guard)

lemma unat_word_of_int16:
  assumes "0 \<le> n" and "n \<le> 65535"
  shows "unat (word_of_int n :: uint16) = nat n"
proof -
  have "(word_of_int n :: uint16) = word_of_nat (nat n)" using assms by simp
  then show ?thesis using assms unat_word_of_nat16 [of "nat n"] by simp
qed

lemma makeHeader_facts:
  assumes "makeHeader kind dcid scid pn n = Ret (h, enc)"
  shows "n \<le> 65535 \<and> int (unat (PayloadLength h)) = n \<and> Header_MarshalBinary h = Ret enc
    \<and> HKind h = kind \<and> DCID h = dcid \<and> SCID h = scid"
  using assms unat_word_of_int16 [of n] unfolding makeHeader_Ret by (auto simp del: of_nat_unat)

section \<open>The INITIAL on the wire\<close>

definition initial_prefix :: "Initial \<Rightarrow> bytes" where
  "initial_prefix i = be16 (word_of_nat (length (InitialToken i))) @ InitialToken i
     @ ClientEphemeralPublic i @ be16 (word_of_nat (length (InitialEncryptedPayload i)))"

lemma ParseInitial_payload:
  assumes "ParseInitial d = Ret i"
  shows "d = initial_prefix i @ InitialEncryptedPayload i \<and> length (ClientEphemeralPublic i) = 32"
  using marshal_parse_initial [OF assms]
  by (auto simp: Initial_MarshalBinary_def initial_prefix_def wf_initial_def go_consts split: if_splits)

lemma parseInitialWire_Ret:
  assumes "parseInitialWire P d m ctx = Ret (p, i, ad, th1)"
  shows "ParsePacket d m = Ret p \<and> HKind (PHeader p) = PacketInitial
    \<and> ParseInitial (Payload p) = Ret i
    \<and> (\<exists>eh. Header_MarshalBinary (PHeader p) = Ret eh \<and> d = eh @ Payload p
         \<and> ad = ctx @ eh @ initial_prefix i \<and> th1 = p_blake2s P (ad @ InitialEncryptedPayload i))"
proof -
  from assms have p: "ParsePacket d m = Ret p" and k: "HKind (PHeader p) = PacketInitial"
    and i: "ParseInitial (Payload p) = Ret i"
    and ad: "ad = ctx @ take (32 + (length (Payload p) - length (InitialEncryptedPayload i))) d"
    and th: "th1 = Sum256 P [ad, InitialEncryptedPayload i]"
    by (auto simp: parseInitialWire_def Let_def obind_Ret_iff hs_guard slice_Ret_iff go_consts)
  note pl = ParseInitial_payload [OF i]
  obtain eh where eh: "Header_MarshalBinary (PHeader p) = Ret eh" "d = eh @ Payload p" "length eh = 32"
    using p by (elim ParsePacket_parts)
  have "length (Payload p) - length (InitialEncryptedPayload i) = length (initial_prefix i)"
    using pl by (metis add_diff_cancel_right' length_append)
  moreover have "take (32 + length (initial_prefix i)) d = eh @ initial_prefix i"
    using eh pl by (metis append.assoc append_eq_conv_conj length_append)
  ultimately have "ad = ctx @ eh @ initial_prefix i" using ad by simp
  with p k i eh th show ?thesis by (simp add: Sum256_def)
qed

lemma initial_on_wire:
  assumes prefix: "makeInitialPrefix token eph (int (length ct)) = Ret prefix" and eph: "length eph = 32"
    and header: "makeHeader PacketInitial 0 cid 0 (int (length prefix + length ct)) = Ret (h, enc)"
    and wire: "marshalWirePacket h prefix ct m = Ret d"
    and parsed: "parseInitialWire P d m' ctx = Ret (p, i, ad, th1)"
  shows "PHeader p = h \<and> i = \<lparr>InitialToken = token, ClientEphemeralPublic = eph, InitialEncryptedPayload = ct\<rparr>
    \<and> ad = ctx @ enc @ prefix \<and> th1 = p_blake2s P (ctx @ enc @ prefix @ ct)"
proof -
  let ?i = "\<lparr>InitialToken = token, ClientEphemeralPublic = eph, InitialEncryptedPayload = ct\<rparr>"
  from prefix have pr: "prefix = initial_prefix ?i" "16 \<le> length ct" "length ct \<le> 65535" "length token \<le> 65535"
    by (auto simp: makeInitialPrefix_def initial_prefix_def go_consts hs_guard)
  from makeHeader_facts [OF header] have h: "unat (PayloadLength h) = length prefix + length ct"
    "length prefix + length ct \<le> 65535" "Header_MarshalBinary h = Ret enc"
    by (simp_all del: of_nat_unat of_nat_add)
  from marshalWirePacket_Ret [OF wire h(1)] h(3) have d: "d = enc @ prefix @ ct"
    "ParsePacket d m = Ret \<lparr>PHeader = h, Payload = prefix @ ct\<rparr>" by auto
  note w = parseInitialWire_Ret [OF parsed]
  from w ParsePacket_unique [OF d(2)] have p: "p = \<lparr>PHeader = h, Payload = prefix @ ct\<rparr>" by blast
  have "length (initial_prefix ?i) = 36 + length token" using eph by (simp add: initial_prefix_def)
  then have "Initial_MarshalBinary ?i = Ret (prefix @ ct)"
    using pr h(2) by (simp add: Initial_MarshalBinary_def initial_prefix_def go_consts)
  then have "ParseInitial (prefix @ ct) = Ret ?i"
    by (intro parse_marshal_initial) (simp_all add: wf_initial_def eph go_consts)
  with w p have i: "i = ?i" by simp
  with w p h(3) pr(1) show ?thesis by auto
qed

section \<open>The HANDSHAKE on the wire\<close>

definition handshake_prefix :: "Handshake \<Rightarrow> bytes" where
  "handshake_prefix i = ServerEphemeralPublic i @ be16 (word_of_nat (length (HandshakeEncryptedPayload i)))"

lemma ParseHandshake_payload:
  assumes "ParseHandshake d = Ret i"
  shows "d = handshake_prefix i @ HandshakeEncryptedPayload i \<and> length (ServerEphemeralPublic i) = 32"
  using marshal_parse_handshake [OF assms]
  by (auto simp: Handshake_MarshalBinary_def handshake_prefix_def wf_handshake_def go_consts split: if_splits)

lemma parseHandshakeWire_Ret:
  assumes "parseHandshakeWire P d m ctx th1 = Ret (p, i, ad, th2)"
  shows "ParsePacket d m = Ret p \<and> HKind (PHeader p) = PacketHandshake
    \<and> ParseHandshake (Payload p) = Ret i
    \<and> (\<exists>eh. Header_MarshalBinary (PHeader p) = Ret eh \<and> d = eh @ Payload p
         \<and> ad = ctx @ th1 @ eh @ handshake_prefix i \<and> th2 = p_blake2s P (ad @ HandshakeEncryptedPayload i))"
proof -
  from assms have p: "ParsePacket d m = Ret p" and k: "HKind (PHeader p) = PacketHandshake"
    and i: "ParseHandshake (Payload p) = Ret i"
    and ad: "ad = ctx @ th1 @ take (32 + (length (Payload p) - length (HandshakeEncryptedPayload i))) d"
    and th: "th2 = Sum256 P [ad, HandshakeEncryptedPayload i]"
    by (auto simp: parseHandshakeWire_def Let_def obind_Ret_iff hs_guard slice_Ret_iff go_consts)
  note pl = ParseHandshake_payload [OF i]
  obtain eh where eh: "Header_MarshalBinary (PHeader p) = Ret eh" "d = eh @ Payload p" "length eh = 32"
    using p by (elim ParsePacket_parts)
  have "length (Payload p) - length (HandshakeEncryptedPayload i) = length (handshake_prefix i)"
    using pl by (metis add_diff_cancel_right' length_append)
  moreover have "take (32 + length (handshake_prefix i)) d = eh @ handshake_prefix i"
    using eh pl by (metis append.assoc append_eq_conv_conj length_append)
  ultimately have "ad = ctx @ th1 @ eh @ handshake_prefix i" using ad by simp
  with p k i eh th show ?thesis by (simp add: Sum256_def)
qed

lemma handshake_on_wire:
  assumes prefix: "makeHandshakePrefix eph (int (length ct)) = Ret prefix" and eph: "length eph = 32"
    and header: "makeHeader PacketHandshake dcid cid 0 (int (length prefix + length ct)) = Ret (h, enc)"
    and wire: "marshalWirePacket h prefix ct m = Ret d"
    and parsed: "parseHandshakeWire P d m' ctx th1 = Ret (p, i, ad, th2)"
  shows "PHeader p = h \<and> i = \<lparr>ServerEphemeralPublic = eph, HandshakeEncryptedPayload = ct\<rparr>
    \<and> ad = ctx @ th1 @ enc @ prefix \<and> th2 = p_blake2s P (ctx @ th1 @ enc @ prefix @ ct)"
proof -
  let ?i = "\<lparr>ServerEphemeralPublic = eph, HandshakeEncryptedPayload = ct\<rparr>"
  from prefix have pr: "prefix = handshake_prefix ?i" "16 \<le> length ct" "length ct \<le> 65535"
    by (auto simp: makeHandshakePrefix_def handshake_prefix_def go_consts hs_guard)
  from makeHeader_facts [OF header] have h: "unat (PayloadLength h) = length prefix + length ct"
    "length prefix + length ct \<le> 65535" "Header_MarshalBinary h = Ret enc"
    by (simp_all del: of_nat_unat of_nat_add)
  from marshalWirePacket_Ret [OF wire h(1)] h(3) have d: "d = enc @ prefix @ ct"
    "ParsePacket d m = Ret \<lparr>PHeader = h, Payload = prefix @ ct\<rparr>" by auto
  note w = parseHandshakeWire_Ret [OF parsed]
  from w ParsePacket_unique [OF d(2)] have p: "p = \<lparr>PHeader = h, Payload = prefix @ ct\<rparr>" by blast
  have "length (handshake_prefix ?i) = 34" using eph by (simp add: handshake_prefix_def)
  then have "Handshake_MarshalBinary ?i = Ret (prefix @ ct)"
    using pr h(2) by (simp add: Handshake_MarshalBinary_def handshake_prefix_def go_consts)
  then have "ParseHandshake (prefix @ ct) = Ret ?i"
    by (intro parse_marshal_handshake) (simp_all add: wf_handshake_def eph go_consts)
  with w p have i: "i = ?i" by simp
  with w p h(3) pr(1) show ?thesis by auto
qed

end
