(* ===== verification/Handshake_Client.thy ===== *)
theory Handshake_Client
  imports Handshake_Types
begin

text \<open>
  \<^verbatim>\<open>internal/handshake/client.go\<close>: one attempt of a client. \<open>initialMessage\<close> and
  \<open>finishMessage\<close> are the bodies of \<^verbatim>\<open>Start\<close> and \<^verbatim>\<open>Finish\<close> without the update of the client,
  which the methods add; \<^verbatim>\<open>Finish\<close> closes the client with Rejected on every failure. Zeroing of
  local secrets has no effect on the results and is left out. The address tests are those of
  \<^verbatim>\<open>net/netip\<close>.
\<close>

unbundle bit_operations_syntax

section \<open>Addresses\<close>

definition v4_IsLoopback :: "bytes \<Rightarrow> bool" where "v4_IsLoopback a \<longleftrightarrow> a ! 0 = 127"
definition v4_IsMulticast :: "bytes \<Rightarrow> bool" where "v4_IsMulticast a \<longleftrightarrow> a ! 0 AND 0xF0 = 0xE0"
definition v4_IsLinkLocalUnicast :: "bytes \<Rightarrow> bool" where
  "v4_IsLinkLocalUnicast a \<longleftrightarrow> a ! 0 = 169 \<and> a ! 1 = 254"

definition v4_IsGlobalUnicast :: "bytes \<Rightarrow> bool" where
  "v4_IsGlobalUnicast a \<longleftrightarrow> a \<noteq> [0, 0, 0, 0] \<and> a \<noteq> [255, 255, 255, 255]
     \<and> \<not> v4_IsLoopback a \<and> \<not> v4_IsMulticast a \<and> \<not> v4_IsLinkLocalUnicast a"

definition Is4In6 :: "bytes \<Rightarrow> bool" where
  "Is4In6 a \<longleftrightarrow> take 12 a = replicate 10 0 @ [0xFF, 0xFF]"

definition v6_IsLoopback :: "bytes \<Rightarrow> bool" where
  "v6_IsLoopback a \<longleftrightarrow> (if Is4In6 a then v4_IsLoopback (drop 12 a) else a = replicate 15 0 @ [1])"

definition v6_IsMulticast :: "bytes \<Rightarrow> bool" where
  "v6_IsMulticast a \<longleftrightarrow> (if Is4In6 a then v4_IsMulticast (drop 12 a) else a ! 0 = 0xFF)"

definition v6_IsLinkLocalUnicast :: "bytes \<Rightarrow> bool" where
  "v6_IsLinkLocalUnicast a \<longleftrightarrow>
     (if Is4In6 a then v4_IsLinkLocalUnicast (drop 12 a) else a ! 0 = 0xFE \<and> a ! 1 AND 0xC0 = 0x80)"

definition v6_IsGlobalUnicast :: "bytes \<Rightarrow> bool" where
  "v6_IsGlobalUnicast a \<longleftrightarrow> a \<noteq> replicate 16 0
     \<and> \<not> v6_IsLoopback a \<and> \<not> v6_IsMulticast a \<and> \<not> v6_IsLinkLocalUnicast a"

section \<open>The client\<close>

record Client =
  c_state :: hs_state
  c_deploymentID :: bytes
  c_staticPrivate :: "bytes option"
  c_staticPublic :: bytes
  c_serverStaticPublic :: bytes
  c_options :: clientOptions
  c_context :: bytes
  c_clientCID :: uint64
  c_serverCID :: uint64
  c_ephemeralPrivate :: "bytes option"
  c_es :: bytes
  c_th1 :: bytes
  c_th2 :: bytes
  c_c2sKey :: bytes
  c_s2cKey :: bytes
  c_sendPN :: uint64
  c_receiveWindow :: ReplayWindow
  c_transportMaxSize :: int
  c_pendingChallenge :: bytes
  c_haveChallenge :: bool
  c_negotiated :: Negotiated

definition zeroKey :: bytes where "zeroKey = replicate 32 0"

definition noNegotiated :: Negotiated where
  "noNegotiated = \<lparr>n_Capabilities = 0, n_AddressFamilies = 0, n_MaxDatagramSize = 0, n_TunnelMTU = 0,
     n_LeaseSeconds = 0, n_IPv4Lease = [], n_IPv6Lease = [], n_EgressPolicy = 0, n_DNSParameters = []\<rparr>"

definition NewClient :: "prims \<Rightarrow> bytes \<Rightarrow> ClientConfig \<Rightarrow> Client hs_result" where
  "NewClient P cryptorand config =
     obind (normalizeClientConfig cryptorand config) (\<lambda>options.
     obind (wrap_as ErrConfiguration ''client static public key''
              (PublicBytes (map_option (p_public P) (cc_StaticPrivate config)))) (\<lambda>staticPublic.
     Ret \<lparr>c_state = StateIdle, c_deploymentID = cc_DeploymentID config,
          c_staticPrivate = cc_StaticPrivate config, c_staticPublic = staticPublic,
          c_serverStaticPublic = cc_ServerStaticPublic config, c_options = options,
          c_context = Context (cc_DeploymentID config), c_clientCID = 0, c_serverCID = 0,
          c_ephemeralPrivate = None, c_es = zeroKey, c_th1 = zeroKey, c_th2 = zeroKey,
          c_c2sKey = zeroKey, c_s2cKey = zeroKey, c_sendPN = 0, c_receiveWindow = new_ReplayWindow,
          c_transportMaxSize = uint (co_maxDatagramSize options), c_pendingChallenge = replicate 8 0,
          c_haveChallenge = False, c_negotiated = noNegotiated\<rparr>))"

definition Client_closeLocked :: "hs_state \<Rightarrow> Client \<Rightarrow> Client" where
  "Client_closeLocked state client =
     client\<lparr>c_ephemeralPrivate := None, c_es := zeroKey, c_c2sKey := zeroKey, c_s2cKey := zeroKey,
            c_haveChallenge := False, c_pendingChallenge := replicate 8 0, c_state := state\<rparr>"

definition Client_Close :: "Client \<Rightarrow> Client" where
  "Client_Close client = Client_closeLocked StateClosed client"

definition Client_Negotiated :: "Client \<Rightarrow> Negotiated option" where
  "Client_Negotiated client =
    (if c_state client \<in> {StateIdle, StateInitialSent, StateRejected, StateClosed} then None
     else Some (c_negotiated client))"

definition initialFields :: "Client \<Rightarrow> uint64 \<Rightarrow> TLV list" where
  "initialFields client clientCID =
    [\<lparr>TType = TLVVersion, TValue = [Version1]\<rparr>,
     \<lparr>TType = TLVDeploymentID, TValue = c_deploymentID client\<rparr>,
     \<lparr>TType = TLVClientCID, TValue = encodeUint64 clientCID\<rparr>,
     \<lparr>TType = TLVCapabilities, TValue = encodeUint64 (co_capabilities (c_options client))\<rparr>,
     \<lparr>TType = TLVAddressFamilies, TValue = [co_addressFamilies (c_options client)]\<rparr>,
     \<lparr>TType = TLVMaxDatagramSize, TValue = encodeUint16 (co_maxDatagramSize (c_options client))\<rparr>,
     \<lparr>TType = TLVClientStaticKey, TValue = c_staticPublic client\<rparr>]"

definition initialMessage :: "prims \<Rightarrow> Client \<Rightarrow> uint64 \<Rightarrow> bytes \<Rightarrow> (bytes \<times> bytes \<times> bytes) hs_result" where
  "initialMessage P client clientCID ephemeralPrivate =
     obind (wrap_as ErrConfiguration ''encode client ephemeral key''
              (PublicBytes (Some (p_public P ephemeralPrivate)))) (\<lambda>ephemeralPublic.
     obind (wrap_as ErrAuthentication ''client ephemeral/server static DH''
              (DH P (Some ephemeralPrivate) (c_serverStaticPublic client))) (\<lambda>es.
     obind (wrap_as ErrAuthentication ''derive INITIAL keys'' (DeriveM1 P (c_context client) es)) (\<lambda>(prk1, k1).
     obind (wrap_codec ErrMessage ''encode INITIAL fields: ''
              (MarshalTLVsFor (initialFields client clientCID) TLVContextInitial)) (\<lambda>plaintext.
     let ciphertextLength = int (length plaintext) + int AEADTagSize in
     obind (makeInitialPrefix (co_retryToken (c_options client)) ephemeralPublic ciphertextLength) (\<lambda>prefix.
     obind (makeHeader PacketInitial 0 clientCID 0 (int (length prefix) + ciphertextLength)) (\<lambda>(header, encodedHeader).
     let m1AD = c_context client @ encodedHeader @ prefix in
     obind (wrap_as ErrAuthentication ''encrypt INITIAL'' (SealHandshake P k1 m1AD plaintext)) (\<lambda>ciphertext.
     if int (length ciphertext) \<noteq> ciphertextLength then
       hs_err ErrMessage ''unexpected INITIAL ciphertext length''
     else
       obind (marshalWirePacket header prefix ciphertext (uint (co_maxDatagramSize (c_options client)))) (\<lambda>datagram.
       Ret (datagram, es, Sum256 P [m1AD, ciphertext])))))))))"

definition set_random :: "bytes \<Rightarrow> Client \<Rightarrow> Client" where
  "set_random r client = client\<lparr>c_options := (c_options client)\<lparr>co_random := r\<rparr>\<rparr>"

definition Start :: "prims \<Rightarrow> Client \<Rightarrow> Client \<times> bytes hs_result" where
  "Start P client =
    (if c_state client \<noteq> StateIdle then
       (client, hs_err ErrState (''Start from '' @ hs_state_String (c_state client)))
     else
       let (random, cid) = nextNonZeroCID (co_random (c_options client)) in
       or_return cid (set_random random client) (\<lambda>clientCID.
       case GenerateKeyFrom (Some random) of
         Ret (ephemeralPrivate, random') \<Rightarrow>
           let client' = set_random random' client in
           or_return (initialMessage P client clientCID ephemeralPrivate) client' (\<lambda>(datagram, es, th1).
             (client'\<lparr>c_clientCID := clientCID, c_ephemeralPrivate := Some ephemeralPrivate,
                c_es := es, c_th1 := th1, c_state := StateInitialSent\<rparr>, Ret datagram))
       | _ \<Rightarrow> (set_random [] client, hs_err ErrConfiguration ''generate client ephemeral key'')))"

definition validateHandshakeFields :: "Client \<Rightarrow> TLV list \<Rightarrow> uint64 \<Rightarrow> (Negotiated \<times> uint64) hs_result" where
  "validateHandshakeFields client tlvs outerServerCID =
    (let version = FindTLVValue tlvs TLVVersion in
     if length version \<noteq> 1 \<or> version ! 0 \<noteq> Version1 then hs_err ErrParameters ''VERSION''
     else if \<not> secureEqual (FindTLVValue tlvs TLVDeploymentID) (c_deploymentID client) then
       hs_err ErrParameters ''DEPLOYMENT_ID''
     else obind (Uint64 (FindTLVValue tlvs TLVClientCID)) (\<lambda>clientCID.
     if clientCID \<noteq> c_clientCID client then hs_err ErrConnectionID ''CLIENT_CID''
     else obind (Uint64 (FindTLVValue tlvs TLVServerCID)) (\<lambda>serverCID.
     if serverCID = 0 \<or> serverCID \<noteq> outerServerCID then hs_err ErrConnectionID ''SERVER_CID''
     else obind (index (FindTLVValue tlvs TLVAddressFamilies) 0) (\<lambda>returnedFamilies.
     if returnedFamilies = 0 \<or> returnedFamilies AND NOT (co_addressFamilies (c_options client)) \<noteq> 0 then
       hs_err ErrParameters ''ADDRESS_FAMILIES''
     else obind (Uint16 (FindTLVValue tlvs TLVMaxDatagramSize)) (\<lambda>returnedMaxDatagram.
     if returnedMaxDatagram < frameOverhead \<or> returnedMaxDatagram > co_maxDatagramSize (c_options client) then
       hs_err ErrParameters ''MAX_DATAGRAM_SIZE''
     else obind (Uint16 (FindTLVValue tlvs TLVTunnelMTU)) (\<lambda>returnedMTU.
     if returnedMTU < co_minTunnelMTU (c_options client) \<or> returnedMTU > co_maxTunnelMTU (c_options client)
        \<or> returnedMTU > returnedMaxDatagram - frameOverhead then
       hs_err ErrParameters ''TUNNEL_MTU''
     else obind (Uint32 (FindTLVValue tlvs TLVLeaseSeconds)) (\<lambda>returnedLeaseSeconds.
     if returnedLeaseSeconds = 0 then hs_err ErrParameters ''LEASE_SECONDS''
     else
       let (ipv4Lease, hasIPv4) = FindTLV tlvs TLVIPv4Lease; (ipv6Lease, hasIPv6) = FindTLV tlvs TLVIPv6Lease in
       if hasIPv4 \<noteq> (returnedFamilies AND 0x01 \<noteq> 0) \<or> hasIPv6 \<noteq> (returnedFamilies AND 0x02 \<noteq> 0) then
         hs_err ErrParameters ''lease/address-family mismatch''
       else obind (if hasIPv4 then slice ipv4Lease 0 4 else Ret []) (\<lambda>v4.
       if hasIPv4 \<and> (\<not> v4_IsGlobalUnicast v4 \<or> v4_IsLoopback v4) then
         hs_err ErrParameters ''unacceptable IPv4 lease''
       else obind (if hasIPv6 then slice ipv6Lease 0 16 else Ret []) (\<lambda>v6.
       if hasIPv6 \<and> (\<not> v6_IsGlobalUnicast v6 \<or> v6_IsLoopback v6) then
         hs_err ErrParameters ''unacceptable IPv6 lease''
       else
         let (egressPolicyValue, hasEgressPolicy) = FindTLV tlvs TLVEgressPolicyVersion in
         obind (if hasEgressPolicy then Uint64 egressPolicyValue else Ret 0) (\<lambda>egressPolicy.
         obind (Uint64 (FindTLVValue tlvs TLVCapabilities)) (\<lambda>capabilities.
         Ret (\<lparr>n_Capabilities = capabilities, n_AddressFamilies = returnedFamilies,
               n_MaxDatagramSize = returnedMaxDatagram, n_TunnelMTU = returnedMTU,
               n_LeaseSeconds = returnedLeaseSeconds, n_IPv4Lease = ipv4Lease, n_IPv6Lease = ipv6Lease,
               n_EgressPolicy = egressPolicy, n_DNSParameters = FindTLVValue tlvs TLVDNSParameters\<rparr>,
              serverCID))))))))))))"

definition finishMessage ::
  "prims \<Rightarrow> Client \<Rightarrow> bytes \<Rightarrow> (Negotiated \<times> uint64 \<times> bytes \<times> bytes \<times> bytes) hs_result" where
  "finishMessage P client datagram =
     obind (parseHandshakeWire P datagram (uint (co_maxDatagramSize (c_options client)))
              (c_context client) (c_th1 client)) (\<lambda>(packet, message, m2AD, th2).
     if DCID (PHeader packet) \<noteq> c_clientCID client \<or> SCID (PHeader packet) = 0 then
       hs_err ErrConnectionID ''HANDSHAKE outer CID''
     else
     obind (wrap_as ErrAuthentication ''static/static DH''
              (DH P (c_staticPrivate client) (c_serverStaticPublic client))) (\<lambda>ss.
     obind (wrap_as ErrAuthentication ''ephemeral/ephemeral DH''
              (DH P (c_ephemeralPrivate client) (ServerEphemeralPublic message))) (\<lambda>ee.
     obind (wrap_as ErrAuthentication ''static/ephemeral DH''
              (DH P (c_staticPrivate client) (ServerEphemeralPublic message))) (\<lambda>se.
     obind (wrap_as ErrAuthentication ''derive HANDSHAKE keys''
              (DeriveM2 P (c_th1 client) (c_es client) ss ee se)) (\<lambda>(prk2, k2).
     obind (wrap_as ErrAuthentication ''decrypt HANDSHAKE''
              (OpenHandshake P k2 m2AD (HandshakeEncryptedPayload message))) (\<lambda>plaintext.
     obind (wrap_codec ErrMessage ''HANDSHAKE fields: '' (ParseTLVsFor plaintext TLVContextHandshake)) (\<lambda>tlvs.
     obind (validateHandshakeFields client tlvs (SCID (PHeader packet))) (\<lambda>(negotiated, serverCID).
     obind (wrap_as ErrAuthentication ''derive traffic keys'' (DeriveTraffic P prk2 th2)) (\<lambda>(c2s, s2c).
     Ret (negotiated, serverCID, th2, c2s, s2c))))))))))"

definition Finish :: "prims \<Rightarrow> Client \<Rightarrow> bytes \<Rightarrow> Client \<times> unit hs_result" where
  "Finish P client datagram =
    (if c_state client \<noteq> StateInitialSent \<or> c_ephemeralPrivate client = None then
       (client, hs_err ErrState (''Finish from '' @ hs_state_String (c_state client)))
     else
       or_return (finishMessage P client datagram) (Client_closeLocked StateRejected client)
         (\<lambda>(negotiated, serverCID, th2, c2s, s2c).
           (client\<lparr>c_serverCID := serverCID, c_th2 := th2, c_c2sKey := c2s, c_s2cKey := s2c,
              c_negotiated := negotiated, c_transportMaxSize := uint (n_MaxDatagramSize negotiated),
              c_ephemeralPrivate := None, c_es := zeroKey, c_state := StatePendingConfirm\<rparr>, Ret ())))"

end
