(* ===== verification/Handshake_Cache.thy ===== *)
theory Handshake_Cache
  imports Handshake_Types "HOL-Library.AList"
begin

text \<open>
  \<^verbatim>\<open>internal/handshake/cache.go\<close> with the server state of \<^verbatim>\<open>server.go\<close> it works on: the table of
  handshake attempts, which deduplicates INITIAL datagrams, bounds the attempts in flight and
  remembers finished ones. Entries and sessions are shared by pointers and compared by pointer
  identity, so both live in stores of the server and a pointer is an index there; the table
  maps a transcript hash to an entry. A \<^verbatim>\<open>done\<close> channel is the Boolean \<open>ae_done\<close>, true once it
  is closed. The clock readings of an operation are arguments of its definition. A session's
  \<^verbatim>\<open>owner\<close> is the server it lives in and is never nil.

  Every definition is one critical section of \<^verbatim>\<open>attemptMu\<close>, except \<open>acquireAttempt\<close>, which adds
  the closing of the expired sessions after it and ends in \<open>Wait\<close> where the code blocks on the
  channel; the concurrent behaviour is their interleaving, \<open>server_step\<close> in
  \<open>Handshake_Interleaving\<close>.
\<close>

section \<open>State\<close>

datatype attemptPhase = attemptBuilding | attemptReady | attemptTombstone | attemptFailed

record attemptEntry =
  ae_key :: bytes
  ae_initial :: bytes
  ae_phase :: attemptPhase
  ae_done :: bool
  ae_response :: bytes
  ae_session :: "nat option"
  ae_expiresAt :: gotime
  ae_forgetAt :: gotime
  ae_confirmed :: bool
  ae_err :: "hs_error option"

record attemptLease =
  al_entry :: "nat option"
  al_builder :: bool
  al_session :: "nat option"
  al_response :: bytes

record ServerSession =
  ss_state :: hs_state
  ss_clientCID :: uint64
  ss_serverCID :: uint64
  ss_clientStatic :: bytes
  ss_th2 :: bytes
  ss_c2sKey :: bytes
  ss_s2cKey :: bytes
  ss_sendPN :: uint64
  ss_receiveWindow :: ReplayWindow
  ss_maxDatagram :: int
  ss_closedCID :: bool
  ss_attemptKey :: bytes
  ss_hasAttempt :: bool
  ss_confirmChallenge :: bytes
  ss_haveConfirmChallenge :: bool

record Server =
  sv_deploymentID :: bytes
  sv_staticPrivate :: "bytes option"
  sv_registeredClients :: "bytes list"
  sv_options :: serverOptions
  sv_context :: bytes
  sv_activeCIDs :: "uint64 list"
  sv_attempts :: "(bytes \<times> nat) list"
  sv_activeAttempts :: int
  sv_entries :: "attemptEntry list"
  sv_sessions :: "ServerSession list"

definition entry :: "Server \<Rightarrow> nat \<Rightarrow> attemptEntry" where
  "entry server e = sv_entries server ! e"

definition set_entry :: "nat \<Rightarrow> attemptEntry \<Rightarrow> Server \<Rightarrow> Server" where
  "set_entry e x server = server\<lparr>sv_entries := (sv_entries server)[e := x]\<rparr>"

definition session :: "Server \<Rightarrow> nat \<Rightarrow> ServerSession" where
  "session server s = sv_sessions server ! s"

definition set_session :: "nat \<Rightarrow> ServerSession \<Rightarrow> Server \<Rightarrow> Server" where
  "set_session s x server = server\<lparr>sv_sessions := (sv_sessions server)[s := x]\<rparr>"

definition releaseCID :: "uint64 \<Rightarrow> Server \<Rightarrow> Server" where
  "releaseCID cid server = server\<lparr>sv_activeCIDs := removeAll cid (sv_activeCIDs server)\<rparr>"

section \<open>Operations\<close>

definition tombstoneAttemptLocked :: "nat \<Rightarrow> hs_error \<Rightarrow> gotime \<Rightarrow> Server \<Rightarrow> Server" where
  "tombstoneAttemptLocked e reason now server =
    (let x = entry server e;
         server' = (if ae_phase x = attemptBuilding \<or> ae_phase x = attemptReady
                    then server\<lparr>sv_activeAttempts := sv_activeAttempts server - 1\<rparr> else server)
     in set_entry e (x\<lparr>ae_phase := attemptTombstone, ae_response := [], ae_session := None,
          ae_err := Some reason, ae_confirmed := False, ae_expiresAt := 0,
          ae_forgetAt := now + so_attemptReplayRetention (sv_options server), ae_done := True\<rparr>) server')"

text \<open>\<^verbatim>\<open>cleanupAttemptsLocked\<close> over the table as the loop has it, with the sessions it expires
  and the number of changed entries.\<close>

fun cleanup_loop :: "gotime \<Rightarrow> (bytes \<times> nat) list \<Rightarrow> Server \<Rightarrow> Server \<times> nat list \<times> nat" where
  "cleanup_loop now [] server = (server, [], 0)"
| "cleanup_loop now ((key, e) # rest) server =
    (let x = entry server e in
     case ae_phase x of
       attemptTombstone \<Rightarrow>
         if \<not> now < ae_forgetAt x then
           let (server', expired, changed) =
             cleanup_loop now rest (server\<lparr>sv_attempts := AList.delete key (sv_attempts server)\<rparr>)
           in (server', expired, Suc changed)
         else cleanup_loop now rest server
     | attemptFailed \<Rightarrow>
         let (server', expired, changed) =
           cleanup_loop now rest (server\<lparr>sv_attempts := AList.delete key (sv_attempts server)\<rparr>)
         in (server', expired, Suc changed)
     | _ \<Rightarrow>
         if now < ae_expiresAt x then cleanup_loop now rest server
         else
           let (server', expired, changed) =
             cleanup_loop now rest (tombstoneAttemptLocked e (ErrAttemptExpired, '''') now server)
           in (if ae_phase x = attemptReady \<and> \<not> ae_confirmed x
               then (case ae_session x of Some s \<Rightarrow> (server', s # expired, Suc changed)
                                        | None \<Rightarrow> (server', expired, Suc changed))
               else (server', expired, Suc changed)))"

definition cleanupAttemptsLocked :: "gotime \<Rightarrow> Server \<Rightarrow> Server \<times> nat list \<times> nat" where
  "cleanupAttemptsLocked now server = cleanup_loop now (sv_attempts server) server"

definition removeAttempt :: "bytes \<Rightarrow> nat \<Rightarrow> hs_error \<Rightarrow> gotime \<Rightarrow> Server \<Rightarrow> Server" where
  "removeAttempt key s reason now server =
    (case map_of (sv_attempts server) key of
       None \<Rightarrow> server
     | Some e \<Rightarrow>
         if ae_phase (entry server e) \<noteq> attemptReady \<or> ae_session (entry server e) \<noteq> Some s then server
         else tombstoneAttemptLocked e reason now server)"

text \<open>\<^verbatim>\<open>ServerSession.closeLocked\<close> and \<^verbatim>\<open>Close\<close>.\<close>

definition Session_closeLocked :: "hs_state \<Rightarrow> nat \<Rightarrow> gotime \<Rightarrow> Server \<Rightarrow> Server" where
  "Session_closeLocked state s now server =
    (let x = session server s;
         reason = (if state = StateRejected then (ErrTranscript, '''') else (ErrState, ''''));
         server1 = (if ss_hasAttempt x then removeAttempt (ss_attemptKey x) s reason now server else server);
         server2 = (if \<not> ss_closedCID x then releaseCID (ss_serverCID x) server1 else server1)
     in set_session s (x\<lparr>ss_state := state, ss_c2sKey := replicate 32 0, ss_s2cKey := replicate 32 0,
          ss_confirmChallenge := replicate 8 0, ss_haveConfirmChallenge := False,
          ss_hasAttempt := False, ss_closedCID := True\<rparr>) server2)"

definition Session_Close :: "nat \<Rightarrow> gotime \<Rightarrow> Server \<Rightarrow> Server" where
  "Session_Close s now server = Session_closeLocked StateClosed s now server"

fun closeExpiredSessions :: "nat list \<Rightarrow> gotime \<Rightarrow> Server \<Rightarrow> Server" where
  "closeExpiredSessions [] now server = server"
| "closeExpiredSessions (s # rest) now server = closeExpiredSessions rest now (Session_Close s now server)"

definition CleanupExpired :: "gotime \<Rightarrow> gotime \<Rightarrow> Server \<Rightarrow> Server \<times> nat" where
  "CleanupExpired now later server =
    (let (server', expired, changed) = cleanupAttemptsLocked now server
     in (closeExpiredSessions expired later server', changed))"

datatype acquired = Lease attemptLease | Refused hs_error | Wait nat

text \<open>What \<^verbatim>\<open>acquireAttempt\<close> decides under the lock, after the cleanup.\<close>

definition acquireLocked :: "gotime \<Rightarrow> bytes \<Rightarrow> bytes \<Rightarrow> Server \<Rightarrow> Server \<times> acquired" where
  "acquireLocked now key initial server =
    (case map_of (sv_attempts server) key of
       Some e \<Rightarrow>
         let existing = entry server e in
         if \<not> secureEqual (ae_initial existing) initial then
           (server, Refused (ErrTranscript, ''transcript key collision''))
         else (case ae_phase existing of
             attemptBuilding \<Rightarrow> (server, Wait e)
           | attemptReady \<Rightarrow>
               (server, Lease \<lparr>al_entry = Some e, al_builder = False, al_session = ae_session existing,
                               al_response = ae_response existing\<rparr>)
           | attemptTombstone \<Rightarrow>
               (server, Refused (case ae_err existing of Some err \<Rightarrow> err | None \<Rightarrow> (ErrAttemptExpired, '''')))
           | attemptFailed \<Rightarrow>
               (server, case ae_err existing of
                   Some err \<Rightarrow> Refused err
                 | None \<Rightarrow> Lease \<lparr>al_entry = None, al_builder = False, al_session = None, al_response = []\<rparr>))
     | None \<Rightarrow>
         if sv_activeAttempts server \<ge> so_maxPendingAttempts (sv_options server)
            \<or> int (length (sv_attempts server)) \<ge> so_maxAttemptRecords (sv_options server) then
           (server, Refused (ErrAttemptCapacity, ''''))
         else
           let e = length (sv_entries server);
               x = \<lparr>ae_key = key, ae_initial = initial, ae_phase = attemptBuilding, ae_done = False,
                    ae_response = [], ae_session = None,
                    ae_expiresAt = now + so_pendingAttemptTimeout (sv_options server), ae_forgetAt = 0,
                    ae_confirmed = False, ae_err = None\<rparr>
           in (server\<lparr>sv_entries := sv_entries server @ [x], sv_attempts := sv_attempts server @ [(key, e)],
                 sv_activeAttempts := sv_activeAttempts server + 1\<rparr>,
               Lease \<lparr>al_entry = Some e, al_builder = True, al_session = None, al_response = []\<rparr>))"

definition acquireAttempt :: "gotime \<Rightarrow> gotime \<Rightarrow> bytes \<Rightarrow> bytes \<Rightarrow> Server \<Rightarrow> Server \<times> acquired" where
  "acquireAttempt now later key initial server =
    (let (server1, expired, changed) = cleanupAttemptsLocked now server;
         (server2, result) = acquireLocked now key initial server1
     in (closeExpiredSessions expired later server2, result))"

definition resultOfAttempt :: "nat \<Rightarrow> Server \<Rightarrow> attemptLease hs_result" where
  "resultOfAttempt e server =
    (let x = entry server e in
     case ae_phase x of
       attemptReady \<Rightarrow> Ret \<lparr>al_entry = Some e, al_builder = False, al_session = ae_session x,
                            al_response = ae_response x\<rparr>
     | attemptBuilding \<Rightarrow> hs_err ErrState ''attempt did not complete''
     | _ \<Rightarrow> (case ae_err x of Some err \<Rightarrow> Err err | None \<Rightarrow> hs_err ErrAttemptExpired ''''))"

definition publishAttempt :: "nat \<Rightarrow> nat \<Rightarrow> bytes \<Rightarrow> gotime \<Rightarrow> Server \<Rightarrow> Server \<times> unit hs_result" where
  "publishAttempt e s response now server =
    (let x = entry server e in
     if map_of (sv_attempts server) (ae_key x) \<noteq> Some e \<or> ae_phase x \<noteq> attemptBuilding then
       (server, case ae_err x of Some err \<Rightarrow> Err err | None \<Rightarrow> hs_err ErrAttemptExpired '''')
     else
       (set_session s ((session server s)\<lparr>ss_attemptKey := ae_key x, ss_hasAttempt := True\<rparr>)
          (set_entry e (x\<lparr>ae_phase := attemptReady, ae_session := Some s, ae_response := response,
             ae_expiresAt := now + so_pendingAttemptTimeout (sv_options server), ae_done := True\<rparr>) server),
        Ret ()))"

definition failAttempt :: "nat \<Rightarrow> hs_error \<Rightarrow> Server \<Rightarrow> Server" where
  "failAttempt e failure server =
    (let x = entry server e in
     if map_of (sv_attempts server) (ae_key x) = Some e \<and> ae_phase x = attemptBuilding then
       set_entry e (x\<lparr>ae_phase := attemptFailed, ae_err := Some failure, ae_done := True\<rparr>)
         (server\<lparr>sv_attempts := AList.delete (ae_key x) (sv_attempts server),
                 sv_activeAttempts := sv_activeAttempts server - 1\<rparr>)
     else server)"

definition promoteAttempt :: "bytes \<Rightarrow> nat \<Rightarrow> gotime \<Rightarrow> Server \<Rightarrow> Server \<times> bool" where
  "promoteAttempt key s now server =
    (case map_of (sv_attempts server) key of
       None \<Rightarrow> (server, False)
     | Some e \<Rightarrow>
         let x = entry server e in
         if ae_phase x \<noteq> attemptReady \<or> ae_session x \<noteq> Some s \<or> \<not> now < ae_expiresAt x then
           (if ae_phase x = attemptReady \<and> ae_session x = Some s
            then (tombstoneAttemptLocked e (ErrAttemptExpired, '''') now server, False)
            else (server, False))
         else
           (set_entry e (x\<lparr>ae_confirmed := True,
              ae_expiresAt := now + so_confirmGracePeriod (sv_options server)\<rparr>) server, True))"

definition confirmGraceActive :: "bytes \<Rightarrow> nat \<Rightarrow> gotime \<Rightarrow> Server \<Rightarrow> Server \<times> bool" where
  "confirmGraceActive key s now server =
    (case map_of (sv_attempts server) key of
       None \<Rightarrow> (server, False)
     | Some e \<Rightarrow>
         let x = entry server e in
         if ae_phase x \<noteq> attemptReady \<or> ae_session x \<noteq> Some s \<or> \<not> ae_confirmed x then (server, False)
         else if \<not> now < ae_expiresAt x then
           (tombstoneAttemptLocked e (ErrAttemptExpired, '''') now server, False)
         else (server, True))"


section \<open>Invariant\<close>

definition active_entry :: "attemptEntry \<Rightarrow> bool" where
  "active_entry x \<longleftrightarrow> ae_phase x = attemptBuilding \<or> ae_phase x = attemptReady"

definition active_set :: "Server \<Rightarrow> nat set" where
  "active_set server = {e. e < length (sv_entries server) \<and> active_entry (entry server e)}"

text \<open>The table: keys are unique, every entry is filed under its own key, failed entries are
  gone, and every attempt in flight is filed.\<close>

definition table_ok :: "Server \<Rightarrow> bool" where
  "table_ok server \<longleftrightarrow> distinct (map fst (sv_attempts server))
     \<and> (\<forall>(k, e) \<in> set (sv_attempts server). e < length (sv_entries server) \<and> ae_key (entry server e) = k
          \<and> ae_phase (entry server e) \<noteq> attemptFailed)
     \<and> (\<forall>e \<in> active_set server. (ae_key (entry server e), e) \<in> set (sv_attempts server))"

text \<open>One entry: its channel is closed exactly when it left the building phase, a finished one
  carries its error, and a ready one belongs to a session that knows it.\<close>

definition entry_ok :: "Server \<Rightarrow> attemptEntry \<Rightarrow> bool" where
  "entry_ok server x \<longleftrightarrow> (ae_done x \<longleftrightarrow> ae_phase x \<noteq> attemptBuilding)
     \<and> (ae_phase x \<in> {attemptTombstone, attemptFailed} \<longrightarrow> ae_err x \<noteq> None)
     \<and> (ae_phase x = attemptReady \<longrightarrow> (\<exists>s. ae_session x = Some s \<and> s < length (sv_sessions server)
          \<and> ss_hasAttempt (session server s) \<and> ss_attemptKey (session server s) = ae_key x))"

definition limits_ok :: "Server \<Rightarrow> bool" where
  "limits_ok server \<longleftrightarrow> sv_activeAttempts server = int (card (active_set server))
     \<and> sv_activeAttempts server \<le> so_maxPendingAttempts (sv_options server)
     \<and> int (length (sv_attempts server)) \<le> so_maxAttemptRecords (sv_options server)"

definition cache_ok :: "Server \<Rightarrow> bool" where
  "cache_ok server \<longleftrightarrow> table_ok server \<and> (\<forall>x \<in> set (sv_entries server). entry_ok server x) \<and> limits_ok server"

section \<open>Stores\<close>

lemma entry_set_entry [simp]:
  "entry (set_entry e x server) e' = (if e' = e \<and> e < length (sv_entries server) then x else entry server e')"
  by (auto simp: entry_def set_entry_def list_update_beyond not_less)

lemma session_set_session [simp]:
  "session (set_session s x server) s' = (if s' = s \<and> s < length (sv_sessions server) then x else session server s')"
  by (auto simp: session_def set_session_def list_update_beyond not_less)

lemma set_entry_simps [simp]:
  "sv_sessions (set_entry e x server) = sv_sessions server" "sv_attempts (set_entry e x server) = sv_attempts server"
  "sv_options (set_entry e x server) = sv_options server"
  "sv_activeAttempts (set_entry e x server) = sv_activeAttempts server"
  "sv_activeCIDs (set_entry e x server) = sv_activeCIDs server"
  "length (sv_entries (set_entry e x server)) = length (sv_entries server)"
  "session (set_entry e x server) = session server"
  by (simp_all add: set_entry_def session_def fun_eq_iff)

lemma set_session_simps [simp]:
  "sv_entries (set_session s x server) = sv_entries server" "sv_attempts (set_session s x server) = sv_attempts server"
  "sv_options (set_session s x server) = sv_options server"
  "sv_activeAttempts (set_session s x server) = sv_activeAttempts server"
  "sv_activeCIDs (set_session s x server) = sv_activeCIDs server"
  "length (sv_sessions (set_session s x server)) = length (sv_sessions server)"
  "entry (set_session s x server) = entry server"
  by (simp_all add: set_session_def entry_def fun_eq_iff)

lemma releaseCID_simps [simp]:
  "sv_entries (releaseCID c server) = sv_entries server" "sv_attempts (releaseCID c server) = sv_attempts server"
  "sv_options (releaseCID c server) = sv_options server" "sv_sessions (releaseCID c server) = sv_sessions server"
  "sv_activeAttempts (releaseCID c server) = sv_activeAttempts server"
  "sv_activeCIDs (releaseCID c server) = removeAll c (sv_activeCIDs server)"
  "entry (releaseCID c server) = entry server" "session (releaseCID c server) = session server"
  by (simp_all add: releaseCID_def entry_def session_def fun_eq_iff)

lemma all_entries: "(\<forall>x \<in> set (sv_entries server). Q x) \<longleftrightarrow> (\<forall>e < length (sv_entries server). Q (entry server e))"
  by (auto simp: entry_def all_set_conv_all_nth)

lemma finite_active_set [simp]: "finite (active_set server)"
  by (simp add: active_set_def)

lemma active_set_update:
  "e < length (sv_entries server) \<Longrightarrow> active_set (set_entry e x server) =
     (if active_entry x then insert e (active_set server) else active_set server - {e})"
  by (auto simp: active_set_def)

text \<open>The parts of the server the invariant speaks of.\<close>

definition same_cache :: "Server \<Rightarrow> Server \<Rightarrow> bool" where
  "same_cache a b \<longleftrightarrow> sv_entries a = sv_entries b \<and> sv_attempts a = sv_attempts b
     \<and> sv_activeAttempts a = sv_activeAttempts b
     \<and> so_maxPendingAttempts (sv_options a) = so_maxPendingAttempts (sv_options b)
     \<and> so_maxAttemptRecords (sv_options a) = so_maxAttemptRecords (sv_options b)
     \<and> length (sv_sessions b) \<le> length (sv_sessions a)
     \<and> (\<forall>s < length (sv_sessions b). ss_hasAttempt (session b s) \<longrightarrow>
          ss_hasAttempt (session a s) \<and> ss_attemptKey (session a s) = ss_attemptKey (session b s))"

lemma same_cache_ok: "same_cache a b \<Longrightarrow> cache_ok b \<Longrightarrow> cache_ok a"
proof -
  assume s: "same_cache a b" and b: "cache_ok b"
  from s have e: "entry a = entry b" by (simp add: same_cache_def entry_def fun_eq_iff)
  with s have act: "active_set a = active_set b" by (simp add: same_cache_def active_set_def)
  have "entry_ok b x \<Longrightarrow> entry_ok a x" for x
    using s unfolding same_cache_def entry_ok_def by (metis (no_types, lifting) order_less_le_trans)
  with s b e act show "cache_ok a"
    unfolding cache_ok_def table_ok_def limits_ok_def same_cache_def by auto
qed

text \<open>Replacing an entry by one with the same key.\<close>

lemma set_entry_ok:
  assumes "cache_ok server" and "e < length (sv_entries server)" and "ae_key x = ae_key (entry server e)"
    and "entry_ok server x" and "active_entry x \<longleftrightarrow> active_entry (entry server e)"
    and "ae_phase x = attemptFailed \<longrightarrow> ae_phase (entry server e) = attemptFailed"
  shows "cache_ok (set_entry e x server)"
proof -
  have act: "active_set (set_entry e x server) = active_set server"
    using assms(2,5) unfolding active_set_update [OF assms(2)] by (auto simp: active_set_def)
  have "entry_ok (set_entry e x server) y \<longleftrightarrow> entry_ok server y" for y by (simp add: entry_ok_def)
  moreover have "table_ok (set_entry e x server)"
    using assms unfolding cache_ok_def table_ok_def act by (auto split: if_splits)
  ultimately show ?thesis
    using assms(1,2,4) unfolding cache_ok_def limits_ok_def act all_entries by simp
qed

text \<open>Retiring an entry: the counter goes down with the set of attempts in flight.\<close>

lemma retire_entry_ok:
  assumes "cache_ok server" and "e < length (sv_entries server)" and "active_entry (entry server e)"
    and "ae_key x = ae_key (entry server e)" and "entry_ok server x" and "\<not> active_entry x"
    and "ae_phase x = attemptFailed \<longrightarrow> e \<notin> snd ` set tab"
    and "set tab \<subseteq> set (sv_attempts server)" and "distinct (map fst tab)"
    and "\<forall>(k, e') \<in> set (sv_attempts server). e' \<noteq> e \<longrightarrow> (k, e') \<in> set tab"
  shows "cache_ok (set_entry e x (server\<lparr>sv_attempts := tab, sv_activeAttempts := sv_activeAttempts server - 1\<rparr>))"
    (is "cache_ok ?s")
proof -
  let ?m = "server\<lparr>sv_attempts := tab, sv_activeAttempts := sv_activeAttempts server - 1\<rparr>"
  have m: "active_set ?m = active_set server" "entry ?m = entry server" "session ?m = session server"
    by (simp_all add: active_set_def entry_def session_def fun_eq_iff)
  have act: "active_set ?s = active_set server - {e}"
    using active_set_update [of e ?m x] assms(2,6) m(1) by simp
  have mem: "e \<in> active_set server" using assms(2,3) by (simp add: active_set_def)
  then have "0 < card (active_set server)" by (simp add: card_gt_0_iff) blast
  with mem have card: "int (card (active_set ?s)) = int (card (active_set server)) - 1"
    by (simp add: act of_nat_diff)
  have "length tab \<le> length (sv_attempts server)"
  proof -
    have "length tab = card (set tab)"
      using assms(9) by (metis distinct_card distinct_map)
    also have "\<dots> \<le> card (set (sv_attempts server))" using assms(8) by (simp add: card_mono)
    also have "\<dots> \<le> length (sv_attempts server)" by (rule card_length)
    finally show ?thesis .
  qed
  then have "limits_ok ?s" using assms(1) card unfolding cache_ok_def limits_ok_def by simp
  moreover have "entry_ok ?s y \<longleftrightarrow> entry_ok server y" for y using m(3) by (simp add: entry_ok_def)
  moreover have "table_ok ?s"
    unfolding table_ok_def act
  proof (intro conjI ballI)
    show "distinct (map fst (sv_attempts ?s))" using assms(9) by simp
  next
    fix p assume "p \<in> set (sv_attempts ?s)"
    then have "p \<in> set tab" by simp
    then obtain k e' where p: "p = (k, e')" "(k, e') \<in> set tab" by (metis surj_pair)
    with assms(1,8) have "e' < length (sv_entries server)" "ae_key (entry server e') = k"
      "ae_phase (entry server e') \<noteq> attemptFailed" unfolding cache_ok_def table_ok_def by auto
    moreover have "e' = e \<Longrightarrow> ae_phase x \<noteq> attemptFailed" using assms(7) p(2) by (metis image_eqI snd_conv)
    ultimately show "case p of (k, e) \<Rightarrow> e < length (sv_entries ?s) \<and> ae_key (entry ?s e) = k
        \<and> ae_phase (entry ?s e) \<noteq> attemptFailed" using assms(4) by (auto simp: p(1) m(2))
  next
    fix e' assume e': "e' \<in> active_set server - {e}"
    then have "(ae_key (entry server e'), e') \<in> set (sv_attempts server)"
      using assms(1) by (simp add: cache_ok_def table_ok_def)
    with assms(10) e' show "(ae_key (entry ?s e'), e') \<in> set (sv_attempts ?s)" by (auto simp: m(2))
  qed
  ultimately show ?thesis using assms(1,2,5) m(2) unfolding cache_ok_def all_entries by simp
qed


section \<open>Every operation keeps the invariant\<close>

lemma tombstone_simps [simp]:
  "sv_attempts (tombstoneAttemptLocked e r t server) = sv_attempts server"
  "sv_options (tombstoneAttemptLocked e r t server) = sv_options server"
  "sv_sessions (tombstoneAttemptLocked e r t server) = sv_sessions server"
  "sv_activeCIDs (tombstoneAttemptLocked e r t server) = sv_activeCIDs server"
  "length (sv_entries (tombstoneAttemptLocked e r t server)) = length (sv_entries server)"
  "session (tombstoneAttemptLocked e r t server) = session server"
  "e' \<noteq> e \<Longrightarrow> entry (tombstoneAttemptLocked e r t server) e' = entry server e'"
  "e < length (sv_entries server) \<Longrightarrow> ae_phase (entry (tombstoneAttemptLocked e r t server) e) = attemptTombstone"
  by (simp_all add: tombstoneAttemptLocked_def Let_def session_def fun_eq_iff) (simp_all add: entry_def)

lemma tombstone_ok:
  assumes "cache_ok server" and "e < length (sv_entries server)" and "active_entry (entry server e)"
  shows "cache_ok (tombstoneAttemptLocked e r t server)"
proof -
  let ?x = "(entry server e)\<lparr>ae_phase := attemptTombstone, ae_response := [], ae_session := None,
    ae_err := Some r, ae_confirmed := False, ae_expiresAt := 0,
    ae_forgetAt := t + so_attemptReplayRetention (sv_options server), ae_done := True\<rparr>"
  have "cache_ok (set_entry e ?x (server\<lparr>sv_attempts := sv_attempts server,
      sv_activeAttempts := sv_activeAttempts server - 1\<rparr>))"
    using assms by (intro retire_entry_ok)
      (auto simp: entry_ok_def active_entry_def cache_ok_def table_ok_def)
  moreover have "server\<lparr>sv_attempts := sv_attempts server, sv_activeAttempts := sv_activeAttempts server - 1\<rparr>
      = server\<lparr>sv_activeAttempts := sv_activeAttempts server - 1\<rparr>" by simp
  moreover have "ae_phase (entry server e) = attemptBuilding \<or> ae_phase (entry server e) = attemptReady"
    using assms(3) by (simp add: active_entry_def)
  ultimately show ?thesis unfolding tombstoneAttemptLocked_def Let_def by simp
qed

lemma table_entry:
  assumes "cache_ok server" and "map_of (sv_attempts server) k = Some e"
  shows "e < length (sv_entries server) \<and> ae_key (entry server e) = k \<and> entry_ok server (entry server e)"
proof -
  from assms have "(k, e) \<in> set (sv_attempts server)" by (simp add: map_of_SomeD)
  with assms(1) show ?thesis unfolding cache_ok_def table_ok_def all_entries by auto
qed

lemma removeAttempt_ok: "cache_ok server \<Longrightarrow> cache_ok (removeAttempt k s r t server)"
  using table_entry [of server k]
  by (auto simp: removeAttempt_def tombstone_ok active_entry_def split: option.splits)

lemma removeAttempt_simps [simp]:
  "sv_attempts (removeAttempt k s r t server) = sv_attempts server"
  "sv_options (removeAttempt k s r t server) = sv_options server"
  "sv_sessions (removeAttempt k s r t server) = sv_sessions server"
  "sv_activeCIDs (removeAttempt k s r t server) = sv_activeCIDs server"
  "length (sv_entries (removeAttempt k s r t server)) = length (sv_entries server)"
  "session (removeAttempt k s r t server) = session server"
  by (auto simp: removeAttempt_def split: option.splits)

text \<open>After \<open>removeAttempt\<close> with its own key, no ready attempt belongs to the session.\<close>

lemma removeAttempt_detaches:
  assumes "cache_ok server" and "ss_attemptKey (session server s) = k"
    and "e < length (sv_entries server)" and "ae_phase (entry (removeAttempt k s r t server) e) = attemptReady"
  shows "ae_session (entry (removeAttempt k s r t server) e) \<noteq> Some s"
proof
  let ?r = "removeAttempt k s r t server"
  assume att: "ae_session (entry ?r e) = Some s"
  have ok: "cache_ok ?r" by (rule removeAttempt_ok [OF assms(1)])
  then have "entry_ok ?r (entry ?r e)" using assms(3) unfolding cache_ok_def all_entries by simp
  with att assms(2,4) have key: "ae_key (entry ?r e) = k" by (simp add: entry_ok_def)
  have "e \<in> active_set ?r" using assms(3,4) by (simp add: active_set_def active_entry_def)
  then have "(k, e) \<in> set (sv_attempts server)" "distinct (map fst (sv_attempts server))"
    using ok key unfolding cache_ok_def table_ok_def by auto
  then have "map_of (sv_attempts server) k = Some e" by simp
  then show False using assms(3,4) att unfolding removeAttempt_def by (auto split: if_splits)
qed

lemma set_session_ok:
  assumes "cache_ok server"
    and "\<forall>e < length (sv_entries server). ae_phase (entry server e) = attemptReady \<longrightarrow> ae_session (entry server e) \<noteq> Some s"
  shows "cache_ok (set_session s x server)"
proof -
  have "active_set (set_session s x server) = active_set server" by (simp add: active_set_def)
  moreover have "\<forall>e < length (sv_entries server). entry_ok (set_session s x server) (entry server e)"
    using assms unfolding cache_ok_def all_entries entry_ok_def by (auto split: if_splits) metis
  ultimately show ?thesis
    using assms(1) unfolding cache_ok_def table_ok_def limits_ok_def all_entries by simp
qed

lemma detach_ok:
  assumes "cache_ok server"
    and a: "a = (if ss_hasAttempt (session server s) then removeAttempt (ss_attemptKey (session server s)) s r t server
      else server)"
  shows "cache_ok a \<and> (\<forall>e < length (sv_entries a). ae_phase (entry a e) = attemptReady \<longrightarrow> ae_session (entry a e) \<noteq> Some s)"
proof (cases "ss_hasAttempt (session server s)")
  case True
  then show ?thesis using removeAttempt_detaches [OF assms(1) refl] removeAttempt_ok [OF assms(1)] a by simp
next
  case False
  with a assms(1) show ?thesis unfolding cache_ok_def all_entries entry_ok_def by auto
qed

lemma releaseCID_ok: "cache_ok server \<Longrightarrow> cache_ok (releaseCID c server)"
  by (erule same_cache_ok [rotated]) (simp add: same_cache_def)

lemma Session_closeLocked_ok:
  assumes "cache_ok server"
  shows "cache_ok (Session_closeLocked st s t server)"
  unfolding Session_closeLocked_def Let_def
  using detach_ok [OF assms refl, of s "if st = StateRejected then (ErrTranscript, '''') else (ErrState, '''')" t]
  by (intro set_session_ok) (auto simp: releaseCID_ok)

lemma closeExpired_ok: "cache_ok server \<Longrightarrow> cache_ok (closeExpiredSessions ss t server)"
  by (induction ss t server rule: closeExpiredSessions.induct)
    (simp_all add: Session_Close_def Session_closeLocked_ok)


text \<open>Dropping a record that is not in flight.\<close>

lemma drop_record_ok:
  assumes "cache_ok server" and "(k, e) \<in> set (sv_attempts server)" and "\<not> active_entry (entry server e)"
  shows "cache_ok (server\<lparr>sv_attempts := AList.delete k (sv_attempts server)\<rparr>)" (is "cache_ok ?s")
proof -
  have e: "entry ?s = entry server" "active_set ?s = active_set server" "session ?s = session server"
    by (simp_all add: entry_def active_set_def session_def fun_eq_iff)
  have key: "ae_key (entry server e') \<noteq> k" if "e' \<in> active_set server" for e'
  proof
    assume "ae_key (entry server e') = k"
    with that assms(1) have "(k, e') \<in> set (sv_attempts server)" "distinct (map fst (sv_attempts server))"
      unfolding cache_ok_def table_ok_def by auto
    with assms(2) have "e' = e" by (metis map_of_eq_Some_iff option.inject)
    with that assms(3) show False by (simp add: active_set_def)
  qed
  have "table_ok ?s"
    using assms(1) key unfolding cache_ok_def table_ok_def e
    by (auto simp: AList.delete_eq distinct_map_filter dest: bspec)
  moreover have "length (AList.delete k (sv_attempts server)) \<le> length (sv_attempts server)"
    by (simp add: AList.delete_eq)
  then have "limits_ok ?s" using assms(1) unfolding cache_ok_def limits_ok_def e by simp
  moreover have "entry_ok ?s x \<longleftrightarrow> entry_ok server x" for x by (simp add: entry_ok_def e)
  ultimately show ?thesis using assms(1) unfolding cache_ok_def by simp
qed

lemma cleanup_loop_ok:
  assumes "cleanup_loop now tab server = (server', expired, changed)" and "cache_ok server"
    and "set tab \<subseteq> set (sv_attempts server)" and "distinct (map fst tab)"
  shows "cache_ok server'"
  using assms
proof (induction tab arbitrary: server server' expired changed)
  case Nil
  then show ?case by simp
next
  case (Cons p tab)
  obtain k e where p: "p = (k, e)" by fastforce
  let ?x = "entry server e"
  have e: "e < length (sv_entries server)" "(k, e) \<in> set (sv_attempts server)"
    using Cons.prems(2,3) p unfolding cache_ok_def table_ok_def by auto
  have tab: "set tab \<subseteq> set (sv_attempts server)" "distinct (map fst tab)" "k \<notin> fst ` set tab"
    using Cons.prems(3,4) p by auto
  have drop: "set tab \<subseteq> set (AList.delete k (sv_attempts server))"
    using tab by (force simp: AList.delete_eq)
  show ?case
  proof (cases "active_entry ?x")
    case True
    then have ph: "ae_phase ?x = attemptBuilding \<or> ae_phase ?x = attemptReady" by (simp add: active_entry_def)
    show ?thesis
    proof (cases "now < ae_expiresAt ?x")
      case True
      then have "cleanup_loop now tab server = (server', expired, changed)"
        using Cons.prems(1) p ph by (auto simp: Let_def)
      then show ?thesis by (rule Cons.IH [OF _ Cons.prems(2) tab(1,2)])
    next
      case False
      then obtain ex ch where "cleanup_loop now tab (tombstoneAttemptLocked e (ErrAttemptExpired, '''') now server) = (server', ex, ch)"
        using Cons.prems(1) p ph by (auto simp: Let_def split: prod.splits if_splits option.splits)
      then show ?thesis
        using Cons.IH tombstone_ok [OF Cons.prems(2) e(1) \<open>active_entry ?x\<close>] tab by simp
    qed
  next
    case False
    note d = drop_record_ok [OF Cons.prems(2) e(2) False]
    have ph: "ae_phase ?x = attemptTombstone \<or> ae_phase ?x = attemptFailed"
      using False by (cases "ae_phase ?x") (auto simp: active_entry_def)
    then consider "cleanup_loop now tab server = (server', expired, changed)"
      | ex ch where "cleanup_loop now tab (server\<lparr>sv_attempts := AList.delete k (sv_attempts server)\<rparr>) = (server', ex, ch)"
      using Cons.prems(1) p by (auto simp: Let_def split: prod.splits if_splits)
    then show ?thesis
    proof cases
      case 1
      then show ?thesis by (rule Cons.IH [OF _ Cons.prems(2) tab(1,2)])
    next
      case 2
      then show ?thesis using Cons.IH d drop tab(2) by simp
    qed
  qed
qed

lemma cleanup_ok:
  "cache_ok server \<Longrightarrow> cleanupAttemptsLocked now server = (server', expired, changed) \<Longrightarrow> cache_ok server'"
  unfolding cleanupAttemptsLocked_def
  by (erule cleanup_loop_ok) (simp_all add: cache_ok_def table_ok_def)

lemma CleanupExpired_ok: "cache_ok server \<Longrightarrow> cache_ok (fst (CleanupExpired now later server))"
  by (auto simp: CleanupExpired_def closeExpired_ok cleanup_ok split: prod.splits)

lemma add_entry_ok:
  assumes "cache_ok server" and "map_of (sv_attempts server) key = None"
    and "sv_activeAttempts server < so_maxPendingAttempts (sv_options server)"
    and "int (length (sv_attempts server)) < so_maxAttemptRecords (sv_options server)"
    and x: "ae_key x = key" "ae_phase x = attemptBuilding" "\<not> ae_done x"
    and s: "s = server\<lparr>sv_entries := sv_entries server @ [x],
      sv_attempts := sv_attempts server @ [(key, length (sv_entries server))],
      sv_activeAttempts := sv_activeAttempts server + 1\<rparr>"
  shows "cache_ok s"
proof -
  let ?e = "length (sv_entries server)"
  have old: "entry s e = entry server e" if "e < ?e" for e using that by (simp add: s entry_def nth_append)
  have new: "entry s ?e = x" "length (sv_entries s) = Suc ?e" by (simp_all add: s entry_def)
  have act: "active_set s = insert ?e (active_set server)"
    using old new x(2) by (auto simp: active_set_def active_entry_def less_Suc_eq)
  have "?e \<notin> active_set server" by (simp add: active_set_def)
  then have "limits_ok s" using assms(1,3,4) unfolding cache_ok_def limits_ok_def act by (simp add: s)
  moreover have "table_ok s" unfolding table_ok_def act
  proof (intro conjI ballI)
    have "key \<notin> fst ` set (sv_attempts server)" using assms(2) by (simp add: map_of_eq_None_iff)
    then show "distinct (map fst (sv_attempts s))" using assms(1) by (simp add: s cache_ok_def table_ok_def)
    fix p assume "p \<in> set (sv_attempts s)"
    then have "p = (key, ?e) \<or> p \<in> set (sv_attempts server)" by (auto simp: s)
    then consider "p = (key, ?e)" | k e where "p = (k, e)" "(k, e) \<in> set (sv_attempts server)"
      by (metis surj_pair)
    then show "case p of (k, e) \<Rightarrow> e < length (sv_entries s) \<and> ae_key (entry s e) = k
      \<and> ae_phase (entry s e) \<noteq> attemptFailed"
      using assms(1) new old x unfolding cache_ok_def table_ok_def by cases auto
  next
    fix e assume "e \<in> insert ?e (active_set server)"
    then show "(ae_key (entry s e), e) \<in> set (sv_attempts s)"
      using assms(1) new old x(1) unfolding cache_ok_def table_ok_def by (auto simp: s active_set_def)
  qed
  moreover have "entry_ok s y \<longleftrightarrow> entry_ok server y" for y by (simp add: s entry_ok_def session_def)
  moreover have "entry_ok server x" using x by (simp add: entry_ok_def)
  ultimately show ?thesis
    using assms(1) new old unfolding cache_ok_def all_entries by (auto simp: less_Suc_eq)
qed

lemma acquireLocked_ok:
  assumes "cache_ok server"
  shows "cache_ok (fst (acquireLocked now key initial server))"
proof (cases "map_of (sv_attempts server) key")
  case (Some e)
  then show ?thesis using assms by (simp add: acquireLocked_def Let_def split: attemptPhase.splits)
next
  case None
  from assms this show ?thesis
    by (auto simp: acquireLocked_def Let_def intro!: add_entry_ok [OF assms None])
qed

lemma acquireAttempt_ok: "cache_ok server \<Longrightarrow> cache_ok (fst (acquireAttempt now later key initial server))"
proof -
  assume ok: "cache_ok server"
  obtain s1 ex ch where c: "cleanupAttemptsLocked now server = (s1, ex, ch)" by (metis surj_pair)
  have "cache_ok (fst (acquireLocked now key initial s1))" by (rule acquireLocked_ok [OF cleanup_ok [OF ok c]])
  then show ?thesis by (simp add: acquireAttempt_def c split_beta closeExpired_ok)
qed

lemma publishAttempt_ok:
  assumes "cache_ok server" and "e < length (sv_entries server)" and "s < length (sv_sessions server)"
    and "\<not> ss_hasAttempt (session server s)"
  shows "cache_ok (fst (publishAttempt e s response now server))"
proof (cases "map_of (sv_attempts server) (ae_key (entry server e)) \<noteq> Some e \<or> ae_phase (entry server e) \<noteq> attemptBuilding")
  case True
  then show ?thesis using assms(1) by (simp add: publishAttempt_def)
next
  case False
  let ?x = "entry server e"
  let ?m = "set_session s ((session server s)\<lparr>ss_attemptKey := ae_key ?x, ss_hasAttempt := True\<rparr>) server"
  let ?y = "?x\<lparr>ae_phase := attemptReady, ae_session := Some s, ae_response := response,
    ae_expiresAt := now + so_pendingAttemptTimeout (sv_options server), ae_done := True\<rparr>"
  have "cache_ok ?m"
    using assms by (intro set_session_ok) (auto simp: cache_ok_def all_entries entry_ok_def)
  moreover have "entry_ok ?m ?y" using assms(3) by (simp add: entry_ok_def)
  ultimately have "cache_ok (set_entry e ?y ?m)"
    using assms(2) False by (intro set_entry_ok) (auto simp: active_entry_def)
  moreover have "set_entry e ?y ?m = fst (publishAttempt e s response now server)"
    using False by (cases server) (simp add: publishAttempt_def set_entry_def set_session_def Let_def)
  ultimately show ?thesis by simp
qed

lemma failAttempt_ok:
  assumes "cache_ok server" and "e < length (sv_entries server)"
  shows "cache_ok (failAttempt e f server)"
proof (cases "map_of (sv_attempts server) (ae_key (entry server e)) = Some e \<and> ae_phase (entry server e) = attemptBuilding")
  case True
  let ?x = "entry server e"
  have d: "distinct (map fst (sv_attempts server))" and keys: "\<forall>(k, e') \<in> set (sv_attempts server). ae_key (entry server e') = k"
    using assms(1) by (auto simp: cache_ok_def table_ok_def)
  from True keys have "e \<notin> snd ` set (AList.delete (ae_key ?x) (sv_attempts server))"
    by (auto simp: AList.delete_eq)
  moreover have "\<forall>(k, e') \<in> set (sv_attempts server). e' \<noteq> e \<longrightarrow> (k, e') \<in> set (AList.delete (ae_key ?x) (sv_attempts server))"
    using True d by (auto simp: AList.delete_eq dest: eq_key_imp_eq_value)
  ultimately have "cache_ok (set_entry e (?x\<lparr>ae_phase := attemptFailed, ae_err := Some f, ae_done := True\<rparr>)
     (server\<lparr>sv_attempts := AList.delete (ae_key ?x) (sv_attempts server),
             sv_activeAttempts := sv_activeAttempts server - 1\<rparr>))"
    using True assms d by (intro retire_entry_ok)
      (auto simp: active_entry_def entry_ok_def AList.delete_eq distinct_map_filter)
  then show ?thesis using True by (simp add: failAttempt_def Let_def)
qed (use assms in \<open>auto simp: failAttempt_def Let_def\<close>)

lemma touch_entry_ok:
  assumes "cache_ok server" and "map_of (sv_attempts server) k = Some e"
    and "y = (entry server e)\<lparr>ae_confirmed := c, ae_expiresAt := t\<rparr>"
  shows "cache_ok (set_entry e y server)"
  using assms table_entry [OF assms(1,2)]
  by (intro set_entry_ok) (auto simp: active_entry_def entry_ok_def)

lemma promoteAttempt_ok: "cache_ok server \<Longrightarrow> cache_ok (fst (promoteAttempt k s now server))"
  using table_entry [of server k]
  by (auto simp: promoteAttempt_def Let_def tombstone_ok touch_entry_ok active_entry_def split: option.splits)

lemma confirmGraceActive_ok: "cache_ok server \<Longrightarrow> cache_ok (fst (confirmGraceActive k s now server))"
  using table_entry [of server k]
  by (auto simp: confirmGraceActive_def Let_def tombstone_ok active_entry_def split: option.splits)

end
