(* ===== verification/Handshake_Server.thy ===== *)
theory Handshake_Server
  imports Handshake_Cache
begin

text \<open>
  \<^verbatim>\<open>internal/handshake/server.go\<close>: the responder. \<open>openInitial\<close> and \<open>respond\<close> are the two
  computations of \<^verbatim>\<open>HandleInitial\<close> that do not change the server, before and after it reserves
  a connection identifier; the method adds the attempt table, the identifiers and the clean-up
  its deferred functions do on every failure. \<open>HandleInitial\<close> ends in \<open>Blocked\<close> where the code
  waits for another goroutine that builds the response to the same datagram.
\<close>

unbundle bit_operations_syntax

section \<open>Definitions\<close>

definition NewServer :: "bytes \<Rightarrow> ServerConfig \<Rightarrow> Server hs_result" where
  "NewServer cryptorand config =
     obind (normalizeServerConfig cryptorand config) (\<lambda>options.
     Ret \<lparr>sv_deploymentID = sc_DeploymentID config, sv_staticPrivate = sc_StaticPrivate config,
          sv_registeredClients = sc_RegisteredClients config, sv_options = options,
          sv_context = Context (sc_DeploymentID config), sv_activeCIDs = [], sv_attempts = [],
          sv_activeAttempts = 0, sv_entries = [], sv_sessions = []\<rparr>)"

fun isRegistered_loop :: "bytes list \<Rightarrow> bytes \<Rightarrow> uint8 \<Rightarrow> uint8" where
  "isRegistered_loop [] candidate matched = matched"
| "isRegistered_loop (registered # rest) candidate matched =
     isRegistered_loop rest candidate (matched OR (if candidate = registered then 1 else 0))"

definition isRegistered :: "Server \<Rightarrow> bytes \<Rightarrow> bool" where
  "isRegistered server candidate \<longleftrightarrow> isRegistered_loop (sv_registeredClients server) candidate 0 = 1"

definition minUint16 :: "uint16 \<Rightarrow> uint16 \<Rightarrow> uint16" where
  "minUint16 left right = (if left < right then left else right)"

text \<open>\<^verbatim>\<open>copy\<close> into a 32-byte array that is zero before.\<close>

definition copy32 :: "bytes \<Rightarrow> bytes" where
  "copy32 value = take 32 (value @ replicate 32 0)"

definition validateInitialFields :: "Server \<Rightarrow> TLV list \<Rightarrow> uint64 \<Rightarrow> (bytes \<times> uint8 \<times> uint16) hs_result" where
  "validateInitialFields server tlvs outerClientCID =
    (if snd (FindTLV tlvs TLVEnrollmentTokenID) then hs_err ErrEnrollmentUnsupported ''''
     else if snd (FindTLV tlvs TLVEnrollmentProof) then hs_err ErrEnrollmentUnsupported ''''
     else obind (index (FindTLVValue tlvs TLVVersion) 0) (\<lambda>version.
     if version \<noteq> Version1 then hs_err ErrParameters ''VERSION''
     else if \<not> secureEqual (FindTLVValue tlvs TLVDeploymentID) (sv_deploymentID server) then
       hs_err ErrParameters ''DEPLOYMENT_ID''
     else obind (Uint64 (FindTLVValue tlvs TLVClientCID)) (\<lambda>clientCID.
     if clientCID \<noteq> outerClientCID then hs_err ErrConnectionID ''CLIENT_CID''
     else obind (index (FindTLVValue tlvs TLVAddressFamilies) 0) (\<lambda>requestedFamilies.
     if requestedFamilies = 0 \<or> requestedFamilies AND NOT 0x03 \<noteq> 0 then
       hs_err ErrParameters ''ADDRESS_FAMILIES''
     else obind (Uint16 (FindTLVValue tlvs TLVMaxDatagramSize)) (\<lambda>clientMaxDatagram.
     if clientMaxDatagram < frameOverhead then hs_err ErrParameters ''MAX_DATAGRAM_SIZE''
     else
       let clientStatic = copy32 (FindTLVValue tlvs TLVClientStaticKey) in
       if \<not> isRegistered server clientStatic then hs_err ErrUnregisteredClient ''''
       else Ret (clientStatic, requestedFamilies, clientMaxDatagram))))))"

definition handshakeFields :: "Server \<Rightarrow> uint64 \<Rightarrow> uint64 \<Rightarrow> uint8 \<Rightarrow> uint16 \<Rightarrow> uint16 \<Rightarrow> TLV list" where
  "handshakeFields server clientCID serverCID families maxDatagram tunnelMTU =
    (let options = sv_options server in
     [\<lparr>TType = TLVEgressPolicyVersion, TValue = encodeUint64 (so_egressPolicy options)\<rparr>,
      \<lparr>TType = TLVVersion, TValue = [Version1]\<rparr>,
      \<lparr>TType = TLVDeploymentID, TValue = sv_deploymentID server\<rparr>,
      \<lparr>TType = TLVClientCID, TValue = encodeUint64 clientCID\<rparr>,
      \<lparr>TType = TLVServerCID, TValue = encodeUint64 serverCID\<rparr>,
      \<lparr>TType = TLVCapabilities, TValue = encodeUint64 (so_capabilities options)\<rparr>,
      \<lparr>TType = TLVAddressFamilies, TValue = [families]\<rparr>,
      \<lparr>TType = TLVMaxDatagramSize, TValue = encodeUint16 maxDatagram\<rparr>,
      \<lparr>TType = TLVTunnelMTU, TValue = encodeUint16 tunnelMTU\<rparr>,
      \<lparr>TType = TLVLeaseSeconds, TValue = encodeUint32 (so_leaseSeconds options)\<rparr>]
     @ (if length (so_dnsParameters options) \<noteq> 0
        then [\<lparr>TType = TLVDNSParameters, TValue = so_dnsParameters options\<rparr>] else [])
     @ (if families AND 0x01 \<noteq> 0 \<and> length (so_ipv4Lease options) \<noteq> 0
        then [\<lparr>TType = TLVIPv4Lease, TValue = so_ipv4Lease options\<rparr>] else [])
     @ (if families AND 0x02 \<noteq> 0 \<and> length (so_ipv6Lease options) \<noteq> 0
        then [\<lparr>TType = TLVIPv6Lease, TValue = so_ipv6Lease options\<rparr>] else []))"

definition set_server_random :: "bytes \<Rightarrow> Server \<Rightarrow> Server" where
  "set_server_random r server = server\<lparr>sv_options := (sv_options server)\<lparr>so_random := r\<rparr>\<rparr>"

fun reserve_loop :: "nat \<Rightarrow> Server \<Rightarrow> Server \<times> uint64 hs_result" where
  "reserve_loop 0 server = (server, hs_err ErrConfiguration ''unable to allocate a unique server CID'')"
| "reserve_loop (Suc attempt) server =
    (let (random, cid) = nextNonZeroCID (so_random (sv_options server));
         server' = set_server_random random server in
     or_return cid server' (\<lambda>cid.
       if cid \<in> set (sv_activeCIDs server') then reserve_loop attempt server'
       else (server'\<lparr>sv_activeCIDs := cid # sv_activeCIDs server'\<rparr>, Ret cid)))"

definition reserveServerCIDLocked :: "Server \<Rightarrow> Server \<times> uint64 hs_result" where
  "reserveServerCIDLocked server = reserve_loop 32 server"

text \<open>Decrypting and checking an INITIAL: the shared secret \<open>es\<close>, the client's static key, the
  address families it asks for and its datagram limit.\<close>

definition openInitial ::
  "prims \<Rightarrow> Server \<Rightarrow> Packet \<Rightarrow> Initial \<Rightarrow> bytes \<Rightarrow> (bytes \<times> bytes \<times> uint8 \<times> uint16) hs_result" where
  "openInitial P server packet initial m1AD =
     obind (wrap_as ErrAuthentication ''server static/client ephemeral DH''
              (DH P (sv_staticPrivate server) (ClientEphemeralPublic initial))) (\<lambda>es.
     obind (wrap_as ErrAuthentication ''derive INITIAL keys'' (DeriveM1 P (sv_context server) es)) (\<lambda>(prk1, k1).
     obind (wrap_as ErrAuthentication ''decrypt INITIAL''
              (OpenHandshake P k1 m1AD (InitialEncryptedPayload initial))) (\<lambda>plaintext.
     obind (wrap_codec ErrMessage ''INITIAL fields: '' (ParseTLVsFor plaintext TLVContextInitial)) (\<lambda>tlvs.
     obind (validateInitialFields server tlvs (SCID (PHeader packet)))
       (\<lambda>(clientStatic, requestedFamilies, clientMaxDatagram).
     Ret (es, clientStatic, requestedFamilies, clientMaxDatagram))))))"

definition availableFamilies :: "serverOptions \<Rightarrow> uint8" where
  "availableFamilies options =
    (let a = so_addressFamilies options;
         b = (if length (so_ipv4Lease options) = 0 then a AND NOT 0x01 else a)
     in if length (so_ipv6Lease options) = 0 then b AND NOT 0x02 else b)"

text \<open>Deriving the keys and encrypting the HANDSHAKE: the response, \<open>th2\<close>, the traffic keys and
  the negotiated datagram limit.\<close>

definition respond ::
  "prims \<Rightarrow> Server \<Rightarrow> Packet \<Rightarrow> Initial \<Rightarrow> bytes \<Rightarrow> (bytes \<times> bytes \<times> uint8 \<times> uint16) \<Rightarrow> uint64 \<Rightarrow> bytes \<Rightarrow>
   (bytes \<times> bytes \<times> bytes \<times> bytes \<times> uint16) hs_result" where
  "respond P server packet initial th1 opened serverCID ephemeralPrivate =
    (let (es, clientStatic, requestedFamilies, clientMaxDatagram) = opened in
     obind (wrap_as ErrConfiguration ''encode server ephemeral key''
              (PublicBytes (Some (p_public P ephemeralPrivate)))) (\<lambda>ephemeralPublic.
     obind (wrap_as ErrAuthentication ''static/static DH'' (DH P (sv_staticPrivate server) clientStatic)) (\<lambda>ss.
     obind (wrap_as ErrAuthentication ''ephemeral/ephemeral DH''
              (DH P (Some ephemeralPrivate) (ClientEphemeralPublic initial))) (\<lambda>ee.
     obind (wrap_as ErrAuthentication ''ephemeral/static DH'' (DH P (Some ephemeralPrivate) clientStatic)) (\<lambda>se.
     obind (wrap_as ErrAuthentication ''derive HANDSHAKE keys'' (DeriveM2 P th1 es ss ee se)) (\<lambda>(prk2, k2).
     let selectedFamilies = requestedFamilies AND availableFamilies (sv_options server) in
     if selectedFamilies = 0 then hs_err ErrParameters ''no shared address family''
     else
     let selectedMaxDatagram = minUint16 clientMaxDatagram (so_maxDatagramSize (sv_options server));
         maxTunnelMTU = selectedMaxDatagram - frameOverhead;
         selectedTunnelMTU = minUint16 (so_tunnelMTU (sv_options server)) maxTunnelMTU in
     if selectedTunnelMTU < 576 then hs_err ErrParameters ''negotiated tunnel MTU is too small''
     else
     obind (wrap_codec ErrMessage ''encode HANDSHAKE fields: ''
              (MarshalTLVsFor (handshakeFields server (SCID (PHeader packet)) serverCID selectedFamilies
                 selectedMaxDatagram selectedTunnelMTU) TLVContextHandshake)) (\<lambda>encodedFields.
     let ciphertextLength = int (length encodedFields) + int AEADTagSize in
     obind (makeHandshakePrefix ephemeralPublic ciphertextLength) (\<lambda>prefix.
     obind (makeHeader PacketHandshake (SCID (PHeader packet)) serverCID 0
              (int (length prefix) + ciphertextLength)) (\<lambda>(header, encodedHeader).
     let m2AD = sv_context server @ th1 @ encodedHeader @ prefix in
     obind (wrap_as ErrAuthentication ''encrypt HANDSHAKE'' (SealHandshake P k2 m2AD encodedFields)) (\<lambda>ciphertext.
     if int (length ciphertext) \<noteq> ciphertextLength then
       hs_err ErrMessage ''unexpected HANDSHAKE ciphertext length''
     else
     obind (marshalWirePacket header prefix ciphertext (uint selectedMaxDatagram)) (\<lambda>response.
     let th2 = Sum256 P [m2AD, ciphertext] in
     obind (wrap_as ErrAuthentication ''derive traffic keys'' (DeriveTraffic P prk2 th2)) (\<lambda>(c2s, s2c).
     Ret (response, th2, c2s, s2c, selectedMaxDatagram)))))))))))))"

definition newSession :: "Packet \<Rightarrow> uint64 \<Rightarrow> bytes \<Rightarrow> bytes \<Rightarrow> bytes \<Rightarrow> bytes \<Rightarrow> uint16 \<Rightarrow> ServerSession" where
  "newSession packet serverCID clientStatic th2 c2s s2c selectedMaxDatagram =
     \<lparr>ss_state = StatePendingConfirm, ss_clientCID = SCID (PHeader packet), ss_serverCID = serverCID,
      ss_clientStatic = clientStatic, ss_th2 = th2, ss_c2sKey = c2s, ss_s2cKey = s2c, ss_sendPN = 0,
      ss_receiveWindow = new_ReplayWindow, ss_maxDatagram = uint selectedMaxDatagram, ss_closedCID = False,
      ss_attemptKey = replicate 32 0, ss_hasAttempt = False, ss_confirmChallenge = replicate 8 0,
      ss_haveConfirmChallenge = False\<rparr>"

datatype handled = Done "(nat option \<times> bytes) hs_result" | Blocked nat

text \<open>Publishing the session that a builder created, or closing it when the attempt is gone.\<close>

definition publishSession ::
  "nat \<Rightarrow> ServerSession \<Rightarrow> bytes \<Rightarrow> gotime \<Rightarrow> gotime \<Rightarrow> Server \<Rightarrow> Server \<times> (nat option \<times> bytes) hs_result" where
  "publishSession e x response now later server =
    (let s = length (sv_sessions server);
         server1 = server\<lparr>sv_sessions := sv_sessions server @ [x]\<rparr> in
     case publishAttempt e s response now server1 of
       (server2, Ret _) \<Rightarrow> (server2, Ret (Some s, response))
     | (server2, Err err) \<Rightarrow> (failAttempt e err (Session_Close s later server2), Err err)
     | (server2, Panic) \<Rightarrow> (server2, Panic))"

text \<open>What the builder of an attempt does: every failure after the reservation releases the
  identifier and then fails the attempt.\<close>

definition buildAttempt ::
  "prims \<Rightarrow> Packet \<Rightarrow> Initial \<Rightarrow> bytes \<Rightarrow> bytes \<Rightarrow> nat \<Rightarrow> gotime \<Rightarrow> gotime \<Rightarrow> Server \<Rightarrow>
   Server \<times> (nat option \<times> bytes) hs_result" where
  "buildAttempt P packet initial m1AD th1 e now later server =
    (case openInitial P server packet initial m1AD of
       Err err \<Rightarrow> (failAttempt e err server, Err err)
     | Panic \<Rightarrow> (server, Panic)
     | Ret opened \<Rightarrow>
         (case reserveServerCIDLocked server of
            (server1, Err err) \<Rightarrow> (failAttempt e err server1, Err err)
          | (server1, Panic) \<Rightarrow> (server1, Panic)
          | (server1, Ret serverCID) \<Rightarrow>
              (case GenerateKeyFrom (Some (so_random (sv_options server1))) of
                 Err _ \<Rightarrow>
                   (let err = (ErrConfiguration, ''generate server ephemeral key'') in
                    (failAttempt e err (releaseCID serverCID (set_server_random [] server1)), Err err))
               | Panic \<Rightarrow> (server1, Panic)
               | Ret (ephemeralPrivate, random) \<Rightarrow>
                   (let server2 = set_server_random random server1 in
                    case respond P server2 packet initial th1 opened serverCID ephemeralPrivate of
                      Err err \<Rightarrow> (failAttempt e err (releaseCID serverCID server2), Err err)
                    | Panic \<Rightarrow> (server2, Panic)
                    | Ret (response, th2, c2s, s2c, maxDatagram) \<Rightarrow>
                        publishSession e (newSession packet serverCID (fst (snd opened)) th2 c2s s2c maxDatagram)
                          response now later server2))))"

definition HandleInitial ::
  "prims \<Rightarrow> gotime \<Rightarrow> gotime \<Rightarrow> gotime \<Rightarrow> bytes \<Rightarrow> Server \<Rightarrow> Server \<times> handled" where
  "HandleInitial P now later published datagram server =
    (case parseInitialWire P datagram (uint (so_maxDatagramSize (sv_options server))) (sv_context server) of
       Err err \<Rightarrow> (server, Done (Err err))
     | Panic \<Rightarrow> (server, Done Panic)
     | Ret (packet, initial, m1AD, th1) \<Rightarrow>
         if DCID (PHeader packet) \<noteq> 0 \<or> SCID (PHeader packet) = 0 then
           (server, Done (hs_err ErrConnectionID ''INITIAL outer CID''))
         else
           (case acquireAttempt now later th1 datagram server of
              (server1, Refused err) \<Rightarrow> (server1, Done (Err err))
            | (server1, Wait e) \<Rightarrow> (server1, Blocked e)
            | (server1, Lease lease) \<Rightarrow>
                if \<not> al_builder lease then (server1, Done (Ret (al_session lease, al_response lease)))
                else (case al_entry lease of
                    Some e \<Rightarrow> (let (server2, r) = buildAttempt P packet initial m1AD th1 e published later server1
                               in (server2, Done r))
                  | None \<Rightarrow> (server1, Done Panic))))"

end
