(* ===== verification/Handshake_Transport.thy ===== *)
theory Handshake_Transport
  imports Handshake_Client Handshake_Server
begin

text \<open>
  \<^verbatim>\<open>internal/handshake/transport.go\<close>: the CONFIRM/PONG exchange that ends the handshake, and
  sealing and opening of TRANSPORT datagrams on both sides. The operations of a server session
  act on the server, where the session is an index of \<open>sv_sessions\<close>; the clock readings they
  may take are arguments (\<open>now\<close> for the attempt table, \<open>later\<close> for a closing after it).
\<close>

section \<open>Definitions\<close>

definition rehandshakePacketNumber :: uint64 where
  "rehandshakePacketNumber = push_bit 32 1"

definition parseTransportDatagram :: "bytes \<Rightarrow> int \<Rightarrow> Packet hs_result" where
  "parseTransportDatagram datagram maxDatagram =
     obind (wrap_codec ErrMessage ''TRANSPORT packet: '' (ParsePacket datagram maxDatagram)) (\<lambda>packet.
     if HKind (PHeader packet) \<noteq> PacketTransport then hs_err ErrMessage ''expected TRANSPORT''
     else Ret packet)"

definition maxPlaintextForDatagram :: "int \<Rightarrow> int" where
  "maxPlaintextForDatagram maxDatagram = maxDatagram - int HeaderSize - int AEADTagSize"

definition transportHeader :: "uint64 \<Rightarrow> uint64 \<Rightarrow> uint64 \<Rightarrow> Header" where
  "transportHeader dcid scid pn =
     \<lparr>Version = Version1, HKind = PacketTransport, Flags = 0, DCID = dcid, SCID = scid,
      PacketNumber = pn, PayloadLength = 0, Reserved = 0\<rparr>"

subsection \<open>The client\<close>

definition Client_sealLocked :: "prims \<Rightarrow> Frame list \<Rightarrow> Client \<Rightarrow> Client \<times> bytes hs_result" where
  "Client_sealLocked P frames client =
    (if c_sendPN client \<ge> rehandshakePacketNumber then
       (Client_closeLocked StateClosed client, hs_err ErrState ''client packet-number limit reached'')
     else
       let pn = c_sendPN client;
           client' = client\<lparr>c_sendPN := c_sendPN client + 1\<rparr>;
           header = transportHeader (c_serverCID client) (c_clientCID client) pn
       in (client',
           obind (wrap_as ErrMessage ''seal client TRANSPORT''
                    (SealTransport P (c_c2sKey client) header frames
                       (maxPlaintextForDatagram (c_transportMaxSize client)))) (\<lambda>packet.
           wrap_codec ErrMessage ''marshal client TRANSPORT: ''
             (Packet_MarshalBinary packet (c_transportMaxSize client)))))"

definition Client_openLocked :: "prims \<Rightarrow> bytes \<Rightarrow> Client \<Rightarrow> Client \<times> Frame list hs_result" where
  "Client_openLocked P datagram client =
     or_return (parseTransportDatagram datagram (c_transportMaxSize client)) client (\<lambda>packet.
     let header = PHeader packet in
     if DCID header \<noteq> c_clientCID client \<or> SCID header \<noteq> c_serverCID client then
       (client, hs_err ErrConnectionID ''server TRANSPORT CID'')
     else if PacketNumber header \<ge> rehandshakePacketNumber
             \<or> \<not> Precheck (c_receiveWindow client) (PacketNumber header) then
       (client, hs_err ErrMessage ''unacceptable server packet number'')
     else or_return (wrap_as ErrAuthentication ''open server TRANSPORT''
                       (OpenTransportPlaintext P (c_s2cKey client) packet)) client (\<lambda>plaintext.
     let (window, accepted) = AcceptAuthenticated (c_receiveWindow client) (PacketNumber header) in
     or_return (wrap_as ErrMessage ''replayed server packet'' accepted) client (\<lambda>_.
       (client\<lparr>c_receiveWindow := window\<rparr>,
        wrap_codec ErrMessage ''parse server frames: ''
          (ParseFrames plaintext (maxPlaintextForDatagram (c_transportMaxSize client)))))))"

definition confirmFrames :: "bytes \<Rightarrow> bytes \<Rightarrow> Frame list" where
  "confirmFrames th2 challenge =
     [\<lparr>FType = FrameConfirm, FFlags = 0, FBody = th2\<rparr>, \<lparr>FType = FramePing, FFlags = 0, FBody = challenge\<rparr>]"

definition BuildConfirm :: "prims \<Rightarrow> Client \<Rightarrow> Client \<times> (bytes \<times> bytes) hs_result" where
  "BuildConfirm P client =
    (if c_state client \<noteq> StatePendingConfirm then
       (client, hs_err ErrState (''BuildConfirm from '' @ hs_state_String (c_state client)))
     else case ReadFull (co_random (c_options client)) 8 of
         (random, Ret challenge) \<Rightarrow>
           (let (client', sealed) =
              Client_sealLocked P (confirmFrames (c_th2 client) challenge) (set_random random client) in
            or_return sealed client' (\<lambda>datagram.
              (client'\<lparr>c_pendingChallenge := challenge, c_haveChallenge := True,
                 c_state := StatePendingPong\<rparr>, Ret (datagram, challenge))))
       | (random, _) \<Rightarrow> (set_random random client, hs_err ErrConfiguration ''generate PING challenge''))"

definition RetransmitConfirm :: "prims \<Rightarrow> Client \<Rightarrow> Client \<times> bytes hs_result" where
  "RetransmitConfirm P client =
    (if c_state client \<noteq> StatePendingPong \<or> \<not> c_haveChallenge client then
       (client, hs_err ErrState (''RetransmitConfirm from '' @ hs_state_String (c_state client)))
     else Client_sealLocked P (confirmFrames (c_th2 client) (c_pendingChallenge client)) client)"

definition HandlePong :: "prims \<Rightarrow> bytes \<Rightarrow> Client \<Rightarrow> Client \<times> unit hs_result" where
  "HandlePong P datagram client =
    (if c_state client \<noteq> StatePendingPong \<or> \<not> c_haveChallenge client then
       (client, hs_err ErrState (''HandlePong from '' @ hs_state_String (c_state client)))
     else
       let (client', opened) = Client_openLocked P datagram client in
       or_return opened client' (\<lambda>frames.
       case frames of
         [f] \<Rightarrow>
           if FType f \<noteq> FramePong \<or> \<not> secureEqual (FBody f) (c_pendingChallenge client') then
             (client', hs_err ErrMessage ''expected matching PONG'')
           else (client'\<lparr>c_haveChallenge := False, c_pendingChallenge := replicate 8 0,
                   c_state := StateEstablished\<rparr>, Ret ())
       | _ \<Rightarrow> (client', hs_err ErrMessage ''expected matching PONG'')))"

definition Client_Seal :: "prims \<Rightarrow> Frame list \<Rightarrow> Client \<Rightarrow> Client \<times> bytes hs_result" where
  "Client_Seal P frames client =
    (if c_state client \<noteq> StateEstablished then
       (client, hs_err ErrState (''client Seal from '' @ hs_state_String (c_state client)))
     else Client_sealLocked P frames client)"

definition Client_Open :: "prims \<Rightarrow> bytes \<Rightarrow> Client \<Rightarrow> Client \<times> Frame list hs_result" where
  "Client_Open P datagram client =
    (if c_state client \<noteq> StateEstablished then
       (client, hs_err ErrState (''client Open from '' @ hs_state_String (c_state client)))
     else Client_openLocked P datagram client)"

subsection \<open>The server session\<close>

definition Session_openLocked :: "prims \<Rightarrow> bytes \<Rightarrow> nat \<Rightarrow> Server \<Rightarrow> Server \<times> Frame list hs_result" where
  "Session_openLocked P datagram s server =
    (let x = session server s in
     or_return (parseTransportDatagram datagram (ss_maxDatagram x)) server (\<lambda>packet.
     let header = PHeader packet in
     if DCID header \<noteq> ss_serverCID x \<or> SCID header \<noteq> ss_clientCID x then
       (server, hs_err ErrConnectionID ''client TRANSPORT CID'')
     else if PacketNumber header \<ge> rehandshakePacketNumber
             \<or> \<not> Precheck (ss_receiveWindow x) (PacketNumber header) then
       (server, hs_err ErrMessage ''unacceptable client packet number'')
     else or_return (wrap_as ErrAuthentication ''open client TRANSPORT''
                       (OpenTransportPlaintext P (ss_c2sKey x) packet)) server (\<lambda>plaintext.
     let (window, accepted) = AcceptAuthenticated (ss_receiveWindow x) (PacketNumber header) in
     or_return (wrap_as ErrMessage ''replayed client packet'' accepted) server (\<lambda>_.
       (set_session s (x\<lparr>ss_receiveWindow := window\<rparr>) server,
        wrap_codec ErrMessage ''parse client frames: ''
          (ParseFrames plaintext (maxPlaintextForDatagram (ss_maxDatagram x))))))))"

definition Session_sealLocked :: "prims \<Rightarrow> Frame list \<Rightarrow> nat \<Rightarrow> gotime \<Rightarrow> Server \<Rightarrow> Server \<times> bytes hs_result" where
  "Session_sealLocked P frames s now server =
    (let x = session server s in
     if ss_sendPN x \<ge> rehandshakePacketNumber then
       (Session_closeLocked StateClosed s now server, hs_err ErrState ''server packet-number limit reached'')
     else
       let pn = ss_sendPN x;
           header = transportHeader (ss_clientCID x) (ss_serverCID x) pn
       in (set_session s (x\<lparr>ss_sendPN := ss_sendPN x + 1\<rparr>) server,
           obind (wrap_as ErrMessage ''seal server TRANSPORT''
                    (SealTransport P (ss_s2cKey x) header frames
                       (maxPlaintextForDatagram (ss_maxDatagram x)))) (\<lambda>packet.
           wrap_codec ErrMessage ''marshal server TRANSPORT: ''
             (Packet_MarshalBinary packet (ss_maxDatagram x)))))"

text \<open>The reply of \<^verbatim>\<open>HandleConfirm\<close>, which closes the session when it cannot be sealed.\<close>

definition replyPong :: "prims \<Rightarrow> bytes \<Rightarrow> nat \<Rightarrow> gotime \<Rightarrow> Server \<Rightarrow> Server \<times> bytes hs_result" where
  "replyPong P challenge s now server =
    (let (server', sealed) = Session_sealLocked P [\<lparr>FType = FramePong, FFlags = 0, FBody = challenge\<rparr>] s now server in
     case sealed of
       Ret response \<Rightarrow> (server', Ret response)
     | Err err \<Rightarrow> (Session_closeLocked StateClosed s now server', Err err)
     | Panic \<Rightarrow> (server', Panic))"

text \<open>\<^verbatim>\<open>HandleConfirm\<close> once its datagram has been opened; \<open>wasEstablished\<close> is the state before.\<close>

definition confirmOpened :: "prims \<Rightarrow> bool \<Rightarrow> Frame list \<Rightarrow> nat \<Rightarrow> gotime \<Rightarrow> gotime \<Rightarrow> Server \<Rightarrow> Server \<times> bytes hs_result" where
  "confirmOpened P wasEstablished frames s now later server =
    (case frames of
       [f0, f1] \<Rightarrow>
         if FType f0 \<noteq> FrameConfirm \<or> FType f1 \<noteq> FramePing then
           (server, hs_err ErrMessage ''expected CONFIRM followed by PING'')
         else
         let x = session server s; challenge = FBody f1 in
         if \<not> secureEqual (FBody f0) (ss_th2 x) then
           (if wasEstablished then server else Session_closeLocked StateRejected s later server,
            hs_err ErrTranscript '''')
         else if wasEstablished then
           (if \<not> ss_haveConfirmChallenge x \<or> \<not> secureEqual challenge (ss_confirmChallenge x) then
              (server, hs_err ErrMessage ''CONFIRM retry challenge mismatch'')
            else if \<not> ss_hasAttempt x then (server, hs_err ErrAttemptExpired '''')
            else case confirmGraceActive (ss_attemptKey x) s now server of
                (server1, True) \<Rightarrow> replyPong P challenge s later server1
              | (server1, False) \<Rightarrow> (server1, hs_err ErrAttemptExpired ''''))
         else if \<not> ss_hasAttempt x then
           (Session_closeLocked StateClosed s later server, hs_err ErrAttemptExpired '''')
         else (case promoteAttempt (ss_attemptKey x) s now server of
             (server1, False) \<Rightarrow>
               (Session_closeLocked StateClosed s later server1, hs_err ErrAttemptExpired '''')
           | (server1, True) \<Rightarrow>
               replyPong P challenge s later
                 (set_session s ((session server1 s)\<lparr>ss_confirmChallenge := take 8 challenge
                      @ drop (length challenge) (ss_confirmChallenge (session server1 s)),
                    ss_haveConfirmChallenge := True, ss_state := StateEstablished\<rparr>) server1))
     | _ \<Rightarrow> (server, hs_err ErrMessage ''expected CONFIRM followed by PING''))"

definition HandleConfirm :: "prims \<Rightarrow> bytes \<Rightarrow> nat \<Rightarrow> gotime \<Rightarrow> gotime \<Rightarrow> Server \<Rightarrow> Server \<times> bytes hs_result" where
  "HandleConfirm P datagram s now later server =
    (let state = ss_state (session server s) in
     if state \<noteq> StatePendingConfirm \<and> state \<noteq> StateEstablished then
       (server, hs_err ErrState (''HandleConfirm from '' @ hs_state_String state))
     else
       let (server', opened) = Session_openLocked P datagram s server in
       or_return opened server' (\<lambda>frames. confirmOpened P (state = StateEstablished) frames s now later server'))"

definition Session_Open :: "prims \<Rightarrow> bytes \<Rightarrow> nat \<Rightarrow> Server \<Rightarrow> Server \<times> Frame list hs_result" where
  "Session_Open P datagram s server =
    (if ss_state (session server s) \<noteq> StateEstablished then
       (server, hs_err ErrState (''server Open from '' @ hs_state_String (ss_state (session server s))))
     else Session_openLocked P datagram s server)"

definition Session_Seal :: "prims \<Rightarrow> Frame list \<Rightarrow> nat \<Rightarrow> gotime \<Rightarrow> Server \<Rightarrow> Server \<times> bytes hs_result" where
  "Session_Seal P frames s now server =
    (if ss_state (session server s) \<noteq> StateEstablished then
       (server, hs_err ErrState (''server Seal from '' @ hs_state_String (ss_state (session server s))))
     else Session_sealLocked P frames s now server)"

end
