(* ===== verification/Handshake_Agreement.thy ===== *)
theory Handshake_Agreement
  imports Handshake_Transport
begin

text \<open>
  Both sides of the key exchange together: the server opens exactly what the client put into
  the INITIAL, the client opens exactly what the server put into the HANDSHAKE, and a client
  that finishes holds the same transcript hash, the same traffic keys, the same connection
  identifiers and the same datagram limit as the session the server created.
\<close>

section \<open>Fields through encryption\<close>

lemma MarshalTLVsFor_distinct: "MarshalTLVsFor tlvs ctx = Ret data \<Longrightarrow> distinct (map TType tlvs)"
  by (auto simp: MarshalTLVsFor_def obind_Ret_iff ValidateTLVs_Ret_iff context_ok_def)

lemma tlv_map_sort:
  assumes "distinct (map TType tlvs)"
  shows "tlv_map (sort_key TType tlvs) = tlv_map tlvs"
proof
  fix t
  have "distinct (map TType (sort_key TType tlvs))"
    using assms by (metis distinct_map distinct_sort set_sort)
  then have "tlv_map (sort_key TType tlvs) t = Some f \<longleftrightarrow> tlv_map tlvs t = Some f" for f
    using assms by (simp add: tlv_map_eq_Some)
  then show "tlv_map (sort_key TType tlvs) t = tlv_map tlvs t" by (metis not_None_eq)
qed

text \<open>What the receiver of a marshalled field list finds in it is what the sender listed.\<close>

lemma fields_received:
  assumes "MarshalTLVsFor tlvs ctx = Ret data" and "ParseTLVsFor data ctx' = Ret tlvs'"
  shows "FindTLV tlvs' t = FindTLV tlvs t"
proof -
  let ?s = "sort_key TType tlvs"
  note d = MarshalTLVsFor_distinct [OF assms(1)]
  have "distinct (map TType ?s)" using d by (metis distinct_map distinct_sort set_sort)
  then have "wf_tlvs ?s" by (simp add: wf_tlvs_iff)
  moreover have "MarshalTLVs ?s = Ret data"
    using assms(1) sort_key_wf_tlvs [OF calculation] by (simp add: MarshalTLVsFor_def obind_Ret_iff MarshalTLVs_def)
  ultimately have "ParseTLVs data = Ret ?s" by (simp add: tlv_codec.parse_iff_marshal)
  then have "tlvs' = ?s" using assms(2) by (auto simp: ParseTLVsFor_def obind_Ret_iff)
  then show ?thesis by (simp add: FindTLV_map tlv_map_sort [OF d])
qed

section \<open>The first message\<close>

lemma initialMessage_parts:
  assumes "aead_ok P" and "initialMessage P client cid eph = Ret (d, es, th1)"
  obtains prk1 k1 plaintext ct prefix h enc
  where "DH P (Some eph) (c_serverStaticPublic client) = Ret es"
    and "DeriveM1 P (c_context client) es = Ret (prk1, k1)"
    and "MarshalTLVsFor (initialFields client cid) TLVContextInitial = Ret plaintext"
    and "makeInitialPrefix (co_retryToken (c_options client)) (p_public P eph) (int (length ct)) = Ret prefix"
    and "makeHeader PacketInitial 0 cid 0 (int (length prefix + length ct)) = Ret (h, enc)"
    and "SealHandshake P k1 (c_context client @ enc @ prefix) plaintext = Ret ct"
    and "marshalWirePacket h prefix ct (uint (co_maxDatagramSize (c_options client))) = Ret d"
    and "th1 = p_blake2s P (c_context client @ enc @ prefix @ ct)" and "length (p_public P eph) = 32"
proof -
  from assms(2) obtain prk1 k1 plaintext ct prefix h enc where
    s: "DH P (Some eph) (c_serverStaticPublic client) = Ret es"
       "DeriveM1 P (c_context client) es = Ret (prk1, k1)"
       "MarshalTLVsFor (initialFields client cid) TLVContextInitial = Ret plaintext"
       "makeInitialPrefix (co_retryToken (c_options client)) (p_public P eph) (int (length plaintext) + int AEADTagSize) = Ret prefix"
       "makeHeader PacketInitial 0 cid 0 (int (length prefix) + (int (length plaintext) + int AEADTagSize)) = Ret (h, enc)"
       "SealHandshake P k1 (c_context client @ enc @ prefix) plaintext = Ret ct"
       "int (length ct) = int (length plaintext) + int AEADTagSize"
       "marshalWirePacket h prefix ct (uint (co_maxDatagramSize (c_options client))) = Ret d"
       "th1 = Sum256 P [c_context client @ enc @ prefix, ct]" "length (p_public P eph) = 32"
    unfolding initialMessage_def Let_def
    by (auto simp: obind_Ret_iff hs_guard PublicBytes_def split: if_splits)
  note len = s(7) [symmetric]
  have "int (length prefix) + int (length ct) = int (length prefix + length ct)" by simp
  note s5 = s(5) [unfolded len, unfolded this]
  show thesis
    by (rule that [OF s(1-3) s(4) [unfolded len] s5 s(6,8) _ s(10)]) (simp add: s(9) Sum256_def)
qed

lemma openInitial_parts:
  assumes "openInitial P server p i ad = Ret (es, cs, fam, maxd)"
  obtains prk1 k1 plaintext tlvs
  where "DH P (sv_staticPrivate server) (ClientEphemeralPublic i) = Ret es"
    and "DeriveM1 P (sv_context server) es = Ret (prk1, k1)"
    and "OpenHandshake P k1 ad (InitialEncryptedPayload i) = Ret plaintext"
    and "ParseTLVsFor plaintext TLVContextInitial = Ret tlvs"
    and "validateInitialFields server tlvs (SCID (PHeader p)) = Ret (cs, fam, maxd)"
  using assms unfolding openInitial_def by (auto simp: obind_Ret_iff split: prod.splits)

lemma validateInitialFields_Ret:
  assumes "validateInitialFields server tlvs cid = Ret (cs, fam, maxd)"
  shows "cs = copy32 (FindTLVValue tlvs TLVClientStaticKey) \<and> isRegistered server cs
    \<and> index (FindTLVValue tlvs TLVAddressFamilies) 0 = (Ret fam :: uint8 hs_result)
    \<and> Uint16 (FindTLVValue tlvs TLVMaxDatagramSize) = (Ret maxd :: uint16 hs_result)
    \<and> FindTLVValue tlvs TLVDeploymentID = sv_deploymentID server"
  using assms unfolding validateInitialFields_def
  by (auto simp: obind_Ret_iff hs_guard Let_def index_Ret_iff Uint16_Ret_iff)

lemma tlv_type_distinct:
  "distinct [TLVEgressPolicyVersion, TLVDNSParameters, TLVVersion, TLVDeploymentID, TLVClientCID, TLVServerCID,
     TLVCapabilities, TLVAddressFamilies, TLVMaxDatagramSize, TLVIPv4Lease, TLVIPv6Lease, TLVTunnelMTU,
     TLVLeaseSeconds, TLVClientStaticKey, TLVEnrollmentTokenID, TLVEnrollmentProof]"
  by (simp add: tlv_types)

lemma initialFields_values:
  "FindTLVValue (initialFields client cid) TLVDeploymentID = c_deploymentID client"
  "FindTLVValue (initialFields client cid) TLVAddressFamilies = [co_addressFamilies (c_options client)]"
  "FindTLVValue (initialFields client cid) TLVMaxDatagramSize = be16 (co_maxDatagramSize (c_options client))"
  "FindTLVValue (initialFields client cid) TLVClientStaticKey = c_staticPublic client"
  using tlv_type_distinct by (simp_all add: FindTLVValue_def initialFields_def encode_uint)

text \<open>The server recovers the client's parameters, its static key, the shared secret and the
  transcript hash.\<close>

lemma initial_opened:
  assumes P: "prims_ok P"
    and sent: "initialMessage P client cid eph = Ret (d, es, th1)"
    and keys: "sv_staticPrivate server = Some sk" "c_serverStaticPublic client = p_public P sk"
      "length (c_staticPublic client) = 32"
    and ctx: "sv_context server = c_context client"
    and parsed: "parseInitialWire P d m (sv_context server) = Ret (p, i, ad, th1')"
    and opened: "openInitial P server p i ad = Ret (es', cs, fam, maxd)"
  shows "th1' = th1 \<and> es' = es \<and> SCID (PHeader p) = cid \<and> DCID (PHeader p) = 0
    \<and> ClientEphemeralPublic i = p_public P eph \<and> cs = c_staticPublic client
    \<and> fam = co_addressFamilies (c_options client) \<and> maxd = co_maxDatagramSize (c_options client)
    \<and> sv_deploymentID server = c_deploymentID client"
proof -
  note Pp = prims_ok_parts [OF P]
  from initialMessage_parts [OF Pp(3) sent] obtain prk1 k1 plaintext ct prefix h enc where
    s: "DH P (Some eph) (c_serverStaticPublic client) = Ret es"
       "DeriveM1 P (c_context client) es = Ret (prk1, k1)"
       "MarshalTLVsFor (initialFields client cid) TLVContextInitial = Ret plaintext"
       "makeInitialPrefix (co_retryToken (c_options client)) (p_public P eph) (int (length ct)) = Ret prefix"
       "makeHeader PacketInitial 0 cid 0 (int (length prefix + length ct)) = Ret (h, enc)"
       "SealHandshake P k1 (c_context client @ enc @ prefix) plaintext = Ret ct"
       "marshalWirePacket h prefix ct (uint (co_maxDatagramSize (c_options client))) = Ret d"
       "th1 = p_blake2s P (c_context client @ enc @ prefix @ ct)" "length (p_public P eph) = 32" .
  from initial_on_wire [OF s(4) s(9) s(5) s(7) parsed] have w: "PHeader p = h"
    "i = \<lparr>InitialToken = co_retryToken (c_options client), ClientEphemeralPublic = p_public P eph, InitialEncryptedPayload = ct\<rparr>"
    "ad = c_context client @ enc @ prefix" "th1' = th1" by (simp_all add: ctx s(8))
  note hd = makeHeader_facts [OF s(5)]
  from openInitial_parts [OF opened] obtain prk k pt tlvs where
    o: "DH P (sv_staticPrivate server) (ClientEphemeralPublic i) = Ret es'"
       "DeriveM1 P (sv_context server) es' = Ret (prk, k)"
       "OpenHandshake P k ad (InitialEncryptedPayload i) = Ret pt"
       "ParseTLVsFor pt TLVContextInitial = Ret tlvs"
       "validateInitialFields server tlvs (SCID (PHeader p)) = Ret (cs, fam, maxd)" .
  have es: "es' = es" using o(1) s(1) DH_agree [OF Pp(2), of eph sk] by (simp add: keys w(2))
  then have "k = k1" using o(2) s(2) by (simp add: ctx)
  then have "pt = plaintext"
    using o(3) s(6) OpenHandshake_Ret_iff [OF Pp(3), of k1 ad ct plaintext] by (simp add: w)
  then have "FindTLVValue tlvs t = FindTLVValue (initialFields client cid) t" for t
    using fields_received [OF s(3), of TLVContextInitial tlvs t] o(4) by (simp add: FindTLVValue_def)
  with validateInitialFields_Ret [OF o(5)] keys(3)
  have "cs = c_staticPublic client \<and> fam = co_addressFamilies (c_options client)
    \<and> maxd = co_maxDatagramSize (c_options client) \<and> sv_deploymentID server = c_deploymentID client"
    by (simp add: initialFields_values copy32_def)
  with es w hd show ?thesis by simp
qed

section \<open>The second message\<close>

lemma respond_parts:
  assumes "aead_ok P"
    and "respond P server p i th1 (es, cs, fam, maxd) serverCID eph = Ret (resp, th2, c2s, s2c, selmax)"
  obtains ss ee se prk2 k2 fields' selfam mtu plaintext ct prefix h enc
  where "DH P (sv_staticPrivate server) cs = Ret ss" and "DH P (Some eph) (ClientEphemeralPublic i) = Ret ee"
    and "DH P (Some eph) cs = Ret se" and "DeriveM2 P th1 es ss ee se = Ret (prk2, k2)"
    and "selfam = fam AND availableFamilies (sv_options server)" and "selfam \<noteq> 0"
    and "selmax = minUint16 maxd (so_maxDatagramSize (sv_options server))"
    and "mtu = minUint16 (so_tunnelMTU (sv_options server)) (selmax - frameOverhead)" and "\<not> mtu < 576"
    and "fields' = handshakeFields server (SCID (PHeader p)) serverCID selfam selmax mtu"
    and "MarshalTLVsFor fields' TLVContextHandshake = Ret plaintext"
    and "makeHandshakePrefix (p_public P eph) (int (length ct)) = Ret prefix"
    and "makeHeader PacketHandshake (SCID (PHeader p)) serverCID 0 (int (length prefix + length ct)) = Ret (h, enc)"
    and "SealHandshake P k2 (sv_context server @ th1 @ enc @ prefix) plaintext = Ret ct"
    and "marshalWirePacket h prefix ct (uint selmax) = Ret resp"
    and "th2 = p_blake2s P (sv_context server @ th1 @ enc @ prefix @ ct)"
    and "DeriveTraffic P prk2 th2 = Ret (c2s, s2c)" and "length (p_public P eph) = 32"
proof -
  from assms(2) obtain ss ee se prk2 k2 plaintext ct prefix h enc selfam mtu where
    s: "DH P (sv_staticPrivate server) cs = Ret ss" "DH P (Some eph) (ClientEphemeralPublic i) = Ret ee"
       "DH P (Some eph) cs = Ret se" "DeriveM2 P th1 es ss ee se = Ret (prk2, k2)"
       "selfam = fam AND availableFamilies (sv_options server)" "selfam \<noteq> 0"
       "selmax = minUint16 maxd (so_maxDatagramSize (sv_options server))"
       "mtu = minUint16 (so_tunnelMTU (sv_options server)) (selmax - frameOverhead)" "\<not> mtu < 576"
       "MarshalTLVsFor (handshakeFields server (SCID (PHeader p)) serverCID selfam selmax mtu) TLVContextHandshake = Ret plaintext"
       "makeHandshakePrefix (p_public P eph) (int (length plaintext) + int AEADTagSize) = Ret prefix"
       "makeHeader PacketHandshake (SCID (PHeader p)) serverCID 0 (int (length prefix) + (int (length plaintext) + int AEADTagSize)) = Ret (h, enc)"
       "SealHandshake P k2 (sv_context server @ th1 @ enc @ prefix) plaintext = Ret ct"
       "int (length ct) = int (length plaintext) + int AEADTagSize"
       "marshalWirePacket h prefix ct (uint selmax) = Ret resp"
       "th2 = Sum256 P [sv_context server @ th1 @ enc @ prefix, ct]"
       "DeriveTraffic P prk2 th2 = Ret (c2s, s2c)" "length (p_public P eph) = 32"
    unfolding respond_def Let_def prod.case
    by (auto simp: obind_Ret_iff hs_guard PublicBytes_def split: if_splits)
  note len = s(14) [symmetric]
  have "int (length prefix) + int (length ct) = int (length prefix + length ct)" by simp
  note hd = s(12) [unfolded len, unfolded this]
  show thesis
    by (rule that [OF s(1-9) refl s(10) s(11) [unfolded len] hd s(13,15) _ s(17,18)]) (simp add: s(16) Sum256_def)
qed

lemma finishMessage_parts:
  assumes "finishMessage P client d = Ret (neg, serverCID, th2, c2s, s2c)"
  obtains p i ad ss ee se prk2 k2 plaintext tlvs
  where "parseHandshakeWire P d (uint (co_maxDatagramSize (c_options client))) (c_context client) (c_th1 client) = Ret (p, i, ad, th2)"
    and "DCID (PHeader p) = c_clientCID client"
    and "DH P (c_staticPrivate client) (c_serverStaticPublic client) = Ret ss"
    and "DH P (c_ephemeralPrivate client) (ServerEphemeralPublic i) = Ret ee"
    and "DH P (c_staticPrivate client) (ServerEphemeralPublic i) = Ret se"
    and "DeriveM2 P (c_th1 client) (c_es client) ss ee se = Ret (prk2, k2)"
    and "OpenHandshake P k2 ad (HandshakeEncryptedPayload i) = Ret plaintext"
    and "ParseTLVsFor plaintext TLVContextHandshake = Ret tlvs"
    and "validateHandshakeFields client tlvs (SCID (PHeader p)) = Ret (neg, serverCID)"
    and "DeriveTraffic P prk2 th2 = Ret (c2s, s2c)"
  using assms unfolding finishMessage_def by (auto simp: obind_Ret_iff hs_guard split: prod.splits)


lemma validateHandshakeFields_Ret:
  assumes "validateHandshakeFields client tlvs outer = Ret (neg, cid)"
  shows "cid = outer \<and> cid \<noteq> 0
    \<and> index (FindTLVValue tlvs TLVAddressFamilies) 0 = (Ret (n_AddressFamilies neg) :: uint8 hs_result)
    \<and> Uint16 (FindTLVValue tlvs TLVMaxDatagramSize) = (Ret (n_MaxDatagramSize neg) :: uint16 hs_result)
    \<and> Uint16 (FindTLVValue tlvs TLVTunnelMTU) = (Ret (n_TunnelMTU neg) :: uint16 hs_result)
    \<and> Uint32 (FindTLVValue tlvs TLVLeaseSeconds) = (Ret (n_LeaseSeconds neg) :: uint32 hs_result)
    \<and> Uint64 (FindTLVValue tlvs TLVCapabilities) = (Ret (n_Capabilities neg) :: uint64 hs_result)
    \<and> n_IPv4Lease neg = FindTLVValue tlvs TLVIPv4Lease \<and> n_IPv6Lease neg = FindTLVValue tlvs TLVIPv6Lease
    \<and> n_DNSParameters neg = FindTLVValue tlvs TLVDNSParameters
    \<and> (snd (FindTLV tlvs TLVEgressPolicyVersion) \<longrightarrow>
         Uint64 (FindTLVValue tlvs TLVEgressPolicyVersion) = (Ret (n_EgressPolicy neg) :: uint64 hs_result))"
  using assms unfolding validateHandshakeFields_def Let_def
  by (auto simp: obind_Ret_iff hs_guard FindTLVValue_def split_beta split: if_splits)

lemma handshakeFields_values:
  assumes "f = handshakeFields server ccid scid fam maxd mtu"
  shows "FindTLVValue f TLVAddressFamilies = [fam]" "FindTLVValue f TLVMaxDatagramSize = be16 maxd"
    "FindTLVValue f TLVTunnelMTU = be16 mtu" "FindTLVValue f TLVLeaseSeconds = be32 (so_leaseSeconds (sv_options server))"
    "FindTLVValue f TLVCapabilities = be64 (so_capabilities (sv_options server))"
    "FindTLVValue f TLVDNSParameters = so_dnsParameters (sv_options server)"
    "FindTLVValue f TLVIPv4Lease = (if fam AND 0x01 \<noteq> 0 then so_ipv4Lease (sv_options server) else [])"
    "FindTLVValue f TLVIPv6Lease = (if fam AND 0x02 \<noteq> 0 then so_ipv6Lease (sv_options server) else [])"
    "FindTLV f TLVEgressPolicyVersion = (be64 (so_egressPolicy (sv_options server)), True)"
  unfolding assms FindTLVValue_def handshakeFields_def encode_uint Let_def tlv_types by simp_all

text \<open>The parameters the server chose for a client.\<close>

definition offered :: "Server \<Rightarrow> uint8 \<Rightarrow> uint16 \<Rightarrow> Negotiated" where
  "offered server fam maxd =
    (let opts = sv_options server; selfam = fam AND availableFamilies opts;
         selmax = minUint16 maxd (so_maxDatagramSize opts) in
     \<lparr>n_Capabilities = so_capabilities opts, n_AddressFamilies = selfam, n_MaxDatagramSize = selmax,
      n_TunnelMTU = minUint16 (so_tunnelMTU opts) (selmax - frameOverhead), n_LeaseSeconds = so_leaseSeconds opts,
      n_IPv4Lease = (if selfam AND 0x01 \<noteq> 0 then so_ipv4Lease opts else []),
      n_IPv6Lease = (if selfam AND 0x02 \<noteq> 0 then so_ipv6Lease opts else []),
      n_EgressPolicy = so_egressPolicy opts, n_DNSParameters = so_dnsParameters opts\<rparr>)"

lemma response_finished:
  assumes P: "prims_ok P"
    and sent: "respond P server p i (c_th1 client) (c_es client, c_staticPublic client, fam, maxd) serverCID eph'
      = Ret (resp, th2, c2s, s2c, selmax)"
    and i: "ClientEphemeralPublic i = p_public P eph"
    and keys: "sv_staticPrivate server = Some sk" "c_serverStaticPublic client = p_public P sk"
      "c_staticPrivate client = Some ck" "c_staticPublic client = p_public P ck" "c_ephemeralPrivate client = Some eph"
    and ctx: "sv_context server = c_context client"
    and fin: "finishMessage P client resp = Ret (neg, serverCID', th2', c2s', s2c')"
  shows "serverCID' = serverCID \<and> th2' = th2 \<and> c2s' = c2s \<and> s2c' = s2c \<and> neg = offered server fam maxd
    \<and> selmax = n_MaxDatagramSize neg \<and> c_clientCID client = SCID (PHeader p)"
proof -
  note Pp = prims_ok_parts [OF P]
  from respond_parts [OF Pp(3) sent] obtain ss ee se prk2 k2 tl selfam mtu plaintext ct prefix h enc where
    s: "DH P (sv_staticPrivate server) (c_staticPublic client) = Ret ss"
       "DH P (Some eph') (ClientEphemeralPublic i) = Ret ee" "DH P (Some eph') (c_staticPublic client) = Ret se"
       "DeriveM2 P (c_th1 client) (c_es client) ss ee se = Ret (prk2, k2)"
       "selfam = fam AND availableFamilies (sv_options server)" "selfam \<noteq> 0"
       "selmax = minUint16 maxd (so_maxDatagramSize (sv_options server))"
       "mtu = minUint16 (so_tunnelMTU (sv_options server)) (selmax - frameOverhead)" "\<not> mtu < 576"
       "tl = handshakeFields server (SCID (PHeader p)) serverCID selfam selmax mtu"
       "MarshalTLVsFor tl TLVContextHandshake = Ret plaintext"
       "makeHandshakePrefix (p_public P eph') (int (length ct)) = Ret prefix"
       "makeHeader PacketHandshake (SCID (PHeader p)) serverCID 0 (int (length prefix + length ct)) = Ret (h, enc)"
       "SealHandshake P k2 (sv_context server @ c_th1 client @ enc @ prefix) plaintext = Ret ct"
       "marshalWirePacket h prefix ct (uint selmax) = Ret resp"
       "th2 = p_blake2s P (sv_context server @ c_th1 client @ enc @ prefix @ ct)"
       "DeriveTraffic P prk2 th2 = Ret (c2s, s2c)" "length (p_public P eph') = 32" .
  from finishMessage_parts [OF fin] obtain q j ad ss' ee' se' prk k pt tlvs where
    f: "parseHandshakeWire P resp (uint (co_maxDatagramSize (c_options client))) (c_context client) (c_th1 client) = Ret (q, j, ad, th2')"
       "DCID (PHeader q) = c_clientCID client"
       "DH P (c_staticPrivate client) (c_serverStaticPublic client) = Ret ss'"
       "DH P (c_ephemeralPrivate client) (ServerEphemeralPublic j) = Ret ee'"
       "DH P (c_staticPrivate client) (ServerEphemeralPublic j) = Ret se'"
       "DeriveM2 P (c_th1 client) (c_es client) ss' ee' se' = Ret (prk, k)"
       "OpenHandshake P k ad (HandshakeEncryptedPayload j) = Ret pt"
       "ParseTLVsFor pt TLVContextHandshake = Ret tlvs"
       "validateHandshakeFields client tlvs (SCID (PHeader q)) = Ret (neg, serverCID')"
       "DeriveTraffic P prk th2' = Ret (c2s', s2c')" .
  from handshake_on_wire [OF s(12) s(18) s(13) s(15) f(1)] have w: "PHeader q = h"
    "j = \<lparr>ServerEphemeralPublic = p_public P eph', HandshakeEncryptedPayload = ct\<rparr>"
    "ad = c_context client @ c_th1 client @ enc @ prefix" "th2' = th2" by (simp_all add: ctx s(16))
  have "ss' = ss" "ee' = ee" "se' = se"
    using s(1-3) f(3-5) DH_agree [OF Pp(2)] i by (simp_all add: keys w(2))
  then have "prk = prk2" "k = k2" using f(6) s(4) by simp_all
  then have "pt = plaintext" and tr: "c2s' = c2s" "s2c' = s2c"
    using f(7,10) s(14,17) w OpenHandshake_Ret_iff [OF Pp(3), of k2 ad ct] by (simp_all add: ctx)
  then have rec: "FindTLV tlvs t = FindTLV tl t" for t using fields_received [OF s(11)] f(8) by simp
  then have recv: "FindTLVValue tlvs t = FindTLVValue tl t" for t by (simp add: FindTLVValue_def)
  note v = validateHandshakeFields_Ret [OF f(9)]
  note hd = makeHeader_facts [OF s(13)]
  have "neg = offered server fam maxd"
    using v unfolding recv rec handshakeFields_values [OF s(10)]
    by (cases neg) (simp add: offered_def Let_def s(5,7,8) FindTLVValue_def handshakeFields_values(9) [OF s(10)])
  with v tr w hd f(2) s(7) show ?thesis by (simp add: offered_def Let_def)
qed


section \<open>The server's part as a whole\<close>

text \<open>The operations of the table leave the configuration and the number of sessions alone.\<close>

definition same_config :: "Server \<Rightarrow> Server \<Rightarrow> bool" where
  "same_config a b \<longleftrightarrow> sv_deploymentID a = sv_deploymentID b \<and> sv_staticPrivate a = sv_staticPrivate b
     \<and> sv_registeredClients a = sv_registeredClients b \<and> sv_context a = sv_context b
     \<and> (\<exists>r. sv_options a = (sv_options b)\<lparr>so_random := r\<rparr>)"

lemma same_config_refl [simp]: "same_config a a"
  unfolding same_config_def by (metis serverOptions.surjective serverOptions.update_convs(1))

lemma same_config_trans: "same_config a b \<Longrightarrow> same_config b c \<Longrightarrow> same_config a c"
  unfolding same_config_def by auto

definition frame_cache :: "Server \<Rightarrow> Server \<Rightarrow> bool" where
  "frame_cache a b \<longleftrightarrow> sv_deploymentID a = sv_deploymentID b \<and> sv_staticPrivate a = sv_staticPrivate b
     \<and> sv_registeredClients a = sv_registeredClients b \<and> sv_context a = sv_context b \<and> sv_options a = sv_options b
     \<and> length (sv_sessions a) = length (sv_sessions b)"

lemma frame_cache_simps [simp]:
  "frame_cache a a" "frame_cache (set_entry e x a) b = frame_cache a b" "frame_cache (set_session s y a) b = frame_cache a b"
  "frame_cache (releaseCID c a) b = frame_cache a b" "frame_cache (a\<lparr>sv_attempts := t\<rparr>) b = frame_cache a b"
  "frame_cache (a\<lparr>sv_activeAttempts := n\<rparr>) b = frame_cache a b" "frame_cache (a\<lparr>sv_entries := es\<rparr>) b = frame_cache a b"
  by (simp_all add: frame_cache_def set_entry_def set_session_def releaseCID_def)

lemma frame_tombstone [simp]: "frame_cache (tombstoneAttemptLocked e r t a) b = frame_cache a b"
  by (simp add: tombstoneAttemptLocked_def Let_def)

lemma frame_close [simp]: "frame_cache (Session_closeLocked st s t a) b = frame_cache a b"
  by (simp add: Session_closeLocked_def Let_def removeAttempt_def split: option.splits)

lemma frame_cleanup: "cleanup_loop now tab a = (a', ex, ch) \<Longrightarrow> frame_cache a b \<Longrightarrow> frame_cache a' b"
  by (induction now tab a arbitrary: a' ex ch rule: cleanup_loop.induct)
    (auto simp: Let_def split: prod.splits if_splits option.splits attemptPhase.splits)

lemma frame_closeExpired [simp]: "frame_cache (closeExpiredSessions ss t a) b = frame_cache a b"
  by (induction ss t a rule: closeExpiredSessions.induct) (simp_all add: Session_Close_def)

lemma frame_acquireLocked: "acquireLocked now key ini a = (a', r) \<Longrightarrow> frame_cache a' a"
  by (auto simp: acquireLocked_def Let_def split: option.splits if_splits attemptPhase.splits)

lemma frame_cache_trans: "frame_cache a b \<Longrightarrow> frame_cache b c \<Longrightarrow> frame_cache a c"
  by (simp add: frame_cache_def)

lemma frame_acquire: "acquireAttempt now later key ini a = (a', r) \<Longrightarrow> frame_cache a' a"
  unfolding acquireAttempt_def cleanupAttemptsLocked_def
  by (auto split: prod.splits dest!: frame_acquireLocked frame_cleanup [where b = a] intro: frame_cache_trans)

lemma frame_same_config: "frame_cache a b \<Longrightarrow> same_config a b"
  using same_config_refl [of b] unfolding frame_cache_def same_config_def by metis

lemma same_config_random [simp]: "same_config (set_server_random r a) b = same_config a b"
  unfolding same_config_def set_server_random_def by auto (metis serverOptions.surjective serverOptions.update_convs(1))

lemma reserve_Ret:
  "reserve_loop n a = (a', Ret cid) \<Longrightarrow> same_config a' a \<and> sv_sessions a' = sv_sessions a \<and> sv_entries a' = sv_entries a
     \<and> sv_attempts a' = sv_attempts a \<and> sv_activeAttempts a' = sv_activeAttempts a
     \<and> cid \<notin> set (sv_activeCIDs a) \<and> sv_activeCIDs a' = cid # sv_activeCIDs a"
proof (induction n arbitrary: a)
  case 0
  then show ?case by simp
next
  case (Suc n)
  obtain r c where c: "nextNonZeroCID (so_random (sv_options a)) = (r, c)" by fastforce
  let ?b = "set_server_random r a"
  have b: "sv_sessions ?b = sv_sessions a" "sv_activeCIDs ?b = sv_activeCIDs a" "sv_entries ?b = sv_entries a"
    "sv_attempts ?b = sv_attempts a" "sv_activeAttempts ?b = sv_activeAttempts a"
    by (simp_all add: set_server_random_def)
  have conf: "same_config (?b\<lparr>sv_activeCIDs := l\<rparr>) a" for l
    using same_config_random [of r a a] by (simp add: same_config_def)
  from Suc.prems obtain cid' where cid': "c = Ret cid'" "(if cid' \<in> set (sv_activeCIDs ?b) then reserve_loop n ?b
      else (?b\<lparr>sv_activeCIDs := cid' # sv_activeCIDs ?b\<rparr>, Ret cid')) = (a', Ret cid)"
    by (auto simp: c or_return_Ret_iff Let_def)
  show ?case
  proof (cases "cid' \<in> set (sv_activeCIDs ?b)")
    case True
    with Suc.IH [of ?b] cid'(2) b same_config_random [of r a a] show ?thesis
      by (auto intro: same_config_trans)
  next
    case False
    with cid'(2) b conf show ?thesis by auto
  qed
qed

lemma config_functions:
  assumes "same_config a b"
  shows "validateInitialFields a = validateInitialFields b" "handshakeFields a = handshakeFields b"
    "availableFamilies (sv_options a) = availableFamilies (sv_options b)"
    "so_maxDatagramSize (sv_options a) = so_maxDatagramSize (sv_options b)"
    "so_tunnelMTU (sv_options a) = so_tunnelMTU (sv_options b)"
    "sv_staticPrivate a = sv_staticPrivate b" "sv_context a = sv_context b"
proof -
  from assms obtain r where o: "sv_options a = (sv_options b)\<lparr>so_random := r\<rparr>" and
    e: "sv_deploymentID a = sv_deploymentID b" "sv_registeredClients a = sv_registeredClients b"
       "sv_staticPrivate a = sv_staticPrivate b" "sv_context a = sv_context b"
    unfolding same_config_def by blast
  have reg: "isRegistered a = isRegistered b" by (simp add: isRegistered_def fun_eq_iff e)
  show "validateInitialFields a = validateInitialFields b"
    by (intro ext) (simp only: validateInitialFields_def e reg)
  show "handshakeFields a = handshakeFields b" by (simp add: handshakeFields_def fun_eq_iff o e(1) Let_def)
qed (use assms in \<open>auto simp: same_config_def availableFamilies_def\<close>)

lemma openInitial_config: "same_config a b \<Longrightarrow> openInitial P a p i ad = openInitial P b p i ad"
  unfolding openInitial_def by (simp only: config_functions [of a b])

lemma respond_config: "same_config a b \<Longrightarrow> respond P a p i th1 opened cid eph = respond P b p i th1 opened cid eph"
  unfolding respond_def by (simp only: config_functions [of a b])


lemma publishSession_Ret:
  assumes "publishSession e x resp now later server = (server', Ret r)"
  shows "r = (Some (length (sv_sessions server)), resp) \<and> length (sv_sessions server') = Suc (length (sv_sessions server))
    \<and> session server' (length (sv_sessions server)) = x\<lparr>ss_attemptKey := ae_key (entry server e), ss_hasAttempt := True\<rparr>
    \<and> (\<forall>s < length (sv_sessions server). session server' s = session server s)
    \<and> map_of (sv_attempts server') (ae_key (entry server e)) = Some e
    \<and> (e < length (sv_entries server) \<longrightarrow> entry server' e = (entry server e)\<lparr>ae_phase := attemptReady,
          ae_session := Some (length (sv_sessions server)), ae_response := resp,
          ae_expiresAt := now + so_pendingAttemptTimeout (sv_options server), ae_done := True\<rparr>)"
  using assms unfolding publishSession_def publishAttempt_def Let_def
  by (auto simp: entry_def session_def nth_append set_entry_def set_session_def hs_err_def
      split: if_splits outcome.splits option.splits prod.splits)

lemma buildAttempt_parts:
  assumes "buildAttempt P p i ad th1 e now later server = (server', Ret r)"
  obtains opened server1 cid eph server2 resp th2 c2s s2c maxd
  where "openInitial P server p i ad = Ret opened" and "reserveServerCIDLocked server = (server1, Ret cid)"
    and "respond P server2 p i th1 opened cid eph = Ret (resp, th2, c2s, s2c, maxd)"
    and "server2 = set_server_random (drop 32 (so_random (sv_options server1))) server1"
    and "publishSession e (newSession p cid (fst (snd opened)) th2 c2s s2c maxd) resp now later server2 = (server', Ret r)"
  using assms unfolding buildAttempt_def Let_def GenerateKeyFrom_def
  by (auto split: outcome.splits prod.splits if_splits)

definition paired :: "Client \<Rightarrow> ServerSession \<Rightarrow> bool" where
  "paired client x \<longleftrightarrow> c_clientCID client = ss_clientCID x \<and> c_serverCID client = ss_serverCID x
     \<and> c_th2 client = ss_th2 x \<and> c_c2sKey client = ss_c2sKey x \<and> c_s2cKey client = ss_s2cKey x
     \<and> c_transportMaxSize client = ss_maxDatagram x"

lemma HandleInitial_lease:
  assumes "HandleInitial P now later published d server = (server', Done (Ret r))"
  obtains p i ad th1 server1 l
  where "parseInitialWire P d (uint (so_maxDatagramSize (sv_options server))) (sv_context server) = Ret (p, i, ad, th1)"
    and "acquireAttempt now later th1 d server = (server1, Lease l)"
    and "if \<not> al_builder l then server1 = server' \<and> (al_session l, al_response l) = r
        else (\<exists>e. al_entry l = Some e \<and> buildAttempt P p i ad th1 e published later server1 = (server', Ret r))"
proof -
  obtain p i ad th1 where parsed:
    "parseInitialWire P d (uint (so_maxDatagramSize (sv_options server))) (sv_context server) = Ret (p, i, ad, th1)"
    using assms unfolding HandleInitial_def by (auto split: outcome.splits)
  obtain server1 a where acq: "acquireAttempt now later th1 d server = (server1, a)" by fastforce
  with assms parsed obtain l where l: "a = Lease l"
    unfolding HandleInitial_def by (cases a) (auto simp: hs_err_def split: if_splits)
  note eq = assms [unfolded HandleInitial_def parsed outcome.case prod.case acq l acquired.case]
  show thesis
  proof (rule that [OF parsed acq [unfolded l]])
    show "if \<not> al_builder l then server1 = server' \<and> (al_session l, al_response l) = r
        else (\<exists>e. al_entry l = Some e \<and> buildAttempt P p i ad th1 e published later server1 = (server', Ret r))"
      using eq by (cases "al_entry l") (simp_all add: hs_err_def split: if_splits prod.splits)
  qed
qed

lemma HandleInitial_new:
  assumes "HandleInitial P now later published d server = (server', Done (Ret (Some s, resp)))"
    and "cache_ok server" and "length (sv_sessions server) \<le> s"
  obtains p i ad th1 opened cid eph th2 c2s s2c maxd x
  where "parseInitialWire P d (uint (so_maxDatagramSize (sv_options server))) (sv_context server) = Ret (p, i, ad, th1)"
    and "openInitial P server p i ad = Ret opened"
    and "respond P server p i th1 opened cid eph = Ret (resp, th2, c2s, s2c, maxd)"
    and "s = length (sv_sessions server)"
    and "x = newSession p cid (fst (snd opened)) th2 c2s s2c maxd"
    and "\<exists>k. session server' s = x\<lparr>ss_attemptKey := k, ss_hasAttempt := True\<rparr>"
proof -
  from HandleInitial_lease [OF assms(1)] obtain p i ad th1 server1 l where
    h: "parseInitialWire P d (uint (so_maxDatagramSize (sv_options server))) (sv_context server) = Ret (p, i, ad, th1)"
       "acquireAttempt now later th1 d server = (server1, Lease l)"
       "if \<not> al_builder l then server1 = server' \<and> (al_session l, al_response l) = (Some s, resp)
        else (\<exists>e. al_entry l = Some e \<and> buildAttempt P p i ad th1 e published later server1 = (server', Ret (Some s, resp)))" .
  note f = frame_acquire [OF h(2)]
  obtain s1 ex ch where c: "cleanupAttemptsLocked now server = (s1, ex, ch)" by (metis surj_pair)
  have lease: "snd (acquireLocked now th1 d s1) = Lease l"
    using h(2) by (auto simp: acquireAttempt_def c split: prod.splits)
  have "frame_cache s1 server" using frame_cleanup [of now "sv_attempts server" server s1 ex ch server] c
    by (simp add: cleanupAttemptsLocked_def)
  then have len1: "length (sv_sessions s1) = length (sv_sessions server)" by (simp add: frame_cache_def)
  have builder: "al_builder l"
  proof (rule ccontr)
    assume nb: "\<not> al_builder l"
    with lease obtain e where e: "map_of (sv_attempts s1) th1 = Some e"
      "ae_phase (entry s1 e) = attemptReady \<and> al_session l = ae_session (entry s1 e) \<or> al_session l = None"
      unfolding acquireLocked_def Let_def by (auto split: option.splits if_splits attemptPhase.splits)
    with table_entry [OF cleanup_ok [OF assms(2) c] e(1)] nb h(3) have "s < length (sv_sessions s1)"
      by (auto simp: entry_ok_def)
    with len1 assms(3) show False by simp
  qed
  with h(3) obtain e where b: "buildAttempt P p i ad th1 e published later server1 = (server', Ret (Some s, resp))" by auto
  from buildAttempt_parts [OF b] obtain opened server2 cid eph server3 resp' th2 c2s s2c maxd where
    p: "openInitial P server1 p i ad = Ret opened" "reserveServerCIDLocked server1 = (server2, Ret cid)"
       "respond P server3 p i th1 opened cid eph = Ret (resp', th2, c2s, s2c, maxd)"
       "server3 = set_server_random (drop 32 (so_random (sv_options server2))) server2"
       "publishSession e (newSession p cid (fst (snd opened)) th2 c2s s2c maxd) resp' published later server3 = (server', Ret (Some s, resp))" .
  note r = reserve_Ret [OF p(2) [unfolded reserveServerCIDLocked_def]]
  have conf: "same_config server1 server" by (rule frame_same_config [OF f])
  then have conf3: "same_config server3 server" unfolding p(4) same_config_random using r same_config_trans by blast
  have len: "length (sv_sessions server3) = length (sv_sessions server)"
    using r f by (simp add: p(4) set_server_random_def frame_cache_def)
  note pub = publishSession_Ret [OF p(5)]
  show thesis
  proof (rule that [OF h(1) _ _ _ refl])
    show "openInitial P server p i ad = Ret opened" using p(1) openInitial_config [OF conf] by simp
    show "respond P server p i th1 opened cid eph = Ret (resp, th2, c2s, s2c, maxd)"
      using p(3) respond_config [OF conf3] pub by auto
    show "s = length (sv_sessions server)" using pub len by auto
    show "\<exists>k. session server' s = (newSession p cid (fst (snd opened)) th2 c2s s2c maxd)\<lparr>ss_attemptKey := k, ss_hasAttempt := True\<rparr>"
      using pub by auto
  qed
qed

end
