(* ===== verification/Handshake_Completion.thy ===== *)
theory Handshake_Completion
  imports Handshake_Agreement
begin

text \<open>
  Liveness of the handshake: between a client and a server whose configurations fit together
  (\<open>fits\<close>), every step succeeds, from the first datagram to the state Established on both sides.
  The agreement theorem of \<open>Handshake_Agreement\<close> is stated here too, on the calls of the API,
  and the run of the completion theorem shows that its hypotheses can hold.
\<close>

unbundle bit_operations_syntax

section \<open>Encoding succeeds\<close>

lemma sum_list_mset: "mset xs = mset ys \<Longrightarrow> sum_list (map f xs) = (sum_list (map f ys) :: nat)"
  by (metis mset_map sum_mset_sum_list)

lemma context_ok_perm: "set tlvs = set tlvs' \<Longrightarrow> distinct (map TType tlvs') \<Longrightarrow> context_ok tlvs ctx \<Longrightarrow> context_ok tlvs' ctx"
  by (simp add: context_ok_def)

lemma MarshalTLVsFor_ok:
  assumes "context_ok tlvs ctx" and "sum_list (map (\<lambda>f. 3 + length (TValue f)) tlvs) \<le> 65535"
  obtains data where "MarshalTLVsFor tlvs ctx = Ret data"
    and "length data = sum_list (map (\<lambda>f. 3 + length (TValue f)) tlvs)"
    and "\<exists>tlvs'. ParseTLVsFor data ctx = Ret tlvs'"
proof -
  let ?s = "sort_key TType tlvs"
  let ?n = "\<lambda>f. 3 + length (TValue f)"
  let ?d = "concat (map encodeTLV ?s)"
  have d: "distinct (map TType tlvs)" and ok: "\<forall>x \<in> set tlvs. tlv_ok x"
    using assms(1) by (auto simp: context_ok_def allowed_tlv_def)
  have ds: "distinct (map TType ?s)" using d by (metis distinct_map distinct_sort set_sort)
  then have wf: "wf_tlvs ?s" by (simp add: wf_tlvs_iff)
  have "length ?d = sum_list (map ?n ?s)" by (simp add: length_concat comp_def)
  also have "\<dots> = sum_list (map ?n tlvs)" by (rule sum_list_mset) simp
  finally have len: "length ?d = sum_list (map ?n tlvs)" .
  have "length (TValue x) < 65536" if "x \<in> set tlvs" for x
  proof -
    have "?n x \<le> sum_list (map ?n tlvs)" using that by (intro member_le_sum_list) (simp, force)
    with assms(2) show ?thesis by simp
  qed
  with wf ok have "canonical_after None ?s" by (simp add: canonical_after_iff)
  then have m: "MarshalTLVs tlvs = Ret ?d" using assms(2) len by (simp add: MarshalTLVs_Ret_iff)
  have "MarshalTLVs ?s = Ret ?d" using m sort_key_wf_tlvs [OF wf] by (simp add: MarshalTLVs_def)
  with wf have "ParseTLVs ?d = Ret ?s" by (simp add: tlv_codec.parse_iff_marshal)
  moreover have "ValidateTLVs ?s ctx = Ret ()"
    unfolding ValidateTLVs_Ret_iff using context_ok_perm [OF _ ds assms(1)] by simp
  ultimately have "ParseTLVsFor ?d ctx = Ret ?s" by (simp add: ParseTLVsFor_def)
  moreover have "MarshalTLVsFor tlvs ctx = Ret ?d"
    using m ValidateTLVs_Ret_iff [of tlvs ctx] assms(1) by (simp add: MarshalTLVsFor_def)
  ultimately show thesis using that len by blast
qed

lemma initialFields_ok:
  assumes "length (c_deploymentID client) = 16" and "length (c_staticPublic client) = 32"
  shows "context_ok (initialFields client cid) TLVContextInitial"
    and "sum_list (map (\<lambda>f. 3 + length (TValue f)) (initialFields client cid)) = 89"
  using assms
  by (simp_all add: initialFields_def encode_uint context_ok_def allowed_tlv_def tlv_ok_def requiredTLVs_def
      allowedInContext_def knownTLV_def tlv_types tlv_contexts fixedTLVLength_def)

text \<open>What \<open>normalizeServerConfig\<close> guarantees of the leases.\<close>

definition leases_ok :: "serverOptions \<Rightarrow> bool" where
  "leases_ok opts \<longleftrightarrow>
     (so_ipv4Lease opts \<noteq> [] \<longrightarrow> length (so_ipv4Lease opts) = 5 \<and> so_ipv4Lease opts ! 4 \<le> 32)
     \<and> (so_ipv6Lease opts \<noteq> [] \<longrightarrow> length (so_ipv6Lease opts) = 17 \<and> so_ipv6Lease opts ! 16 \<le> 128)"

lemma handshakeFields_ok:
  assumes "length (sv_deploymentID server) = 16" and "leases_ok (sv_options server)"
    and "fam AND 0x01 \<noteq> 0 \<longrightarrow> so_ipv4Lease (sv_options server) \<noteq> []"
    and "fam AND 0x02 \<noteq> 0 \<longrightarrow> so_ipv6Lease (sv_options server) \<noteq> []"
    and "fam AND 0x01 \<noteq> 0 \<or> fam AND 0x02 \<noteq> 0"
  shows "context_ok (handshakeFields server ccid scid fam maxd mtu) TLVContextHandshake"
    and "sum_list (map (\<lambda>f. 3 + length (TValue f)) (handshakeFields server ccid scid fam maxd mtu))
      \<le> 119 + length (so_dnsParameters (sv_options server))"
  using assms
  by (auto simp: handshakeFields_def Let_def encode_uint context_ok_def allowed_tlv_def tlv_ok_def requiredTLVs_def
      allowedInContext_def knownTLV_def tlv_types tlv_contexts fixedTLVLength_def leases_ok_def)

section \<open>Datagrams that fit are accepted\<close>

lemma wire_accepts:
  assumes "Header_validate h = Ret ()" and "validateOuterPayload (HKind h) pl = Ret ()"
    and "unat (PayloadLength h) = length pl" and "int (32 + length pl) \<le> m" and "m \<le> 65567"
  shows "\<exists>d. Packet_MarshalBinary \<lparr>PHeader = h, Payload = pl\<rparr> m = Ret d
    \<and> (\<forall>m'. int (32 + length pl) \<le> m' \<and> m' \<le> 65567 \<longrightarrow> ParsePacket d m' = Ret \<lparr>PHeader = h, Payload = pl\<rparr>)"
proof -
  let ?p = "\<lparr>PHeader = h, Payload = pl\<rparr>"
  have small: "length pl < 65536" using assms(3) unat_uint16_bound [of "PayloadLength h"] by simp
  then have pl: "PayloadLength h = word_of_nat (length pl)"
    using assms(3) by (metis unat_word_of_nat16 word_unat_eq_iff)
  then have upd: "h\<lparr>PayloadLength := word_of_nat (length pl)\<rparr> = h" by (cases h) simp
  obtain eh where "Header_MarshalBinary h = Ret eh" using assms(1) by (auto simp: Header_MarshalBinary_def)
  then have eh: "Header_MarshalBinary (h\<lparr>PayloadLength := word_of_nat (length pl)\<rparr>) = Ret eh" by (simp only: upd)
  have "Packet_MarshalBinary ?p m' = Ret (eh @ pl)" if "int (32 + length pl) \<le> m'" "m' \<le> 65567" for m'
    using that small eh assms(2)
    by (simp add: Packet_MarshalBinary_def normalizeDatagramLimit_def go_consts Let_def)
  moreover have "wf_packet ?p" using pl small by (simp add: wf_packet_def)
  ultimately show ?thesis using packet_parse_marshal assms(4,5) by blast
qed

lemma makeHeader_ok:
  assumes "n \<le> 65535" and "Header_validate \<lparr>Version = Version1, HKind = kind, Flags = 0, DCID = dcid, SCID = scid,
      PacketNumber = 0, PayloadLength = 0, Reserved = 0\<rparr> = Ret ()"
  obtains h enc where "makeHeader kind dcid scid 0 (int n) = Ret (h, enc)"
    and "Header_validate h = Ret ()" and "unat (PayloadLength h) = n" and "HKind h = kind" and "DCID h = dcid" and "SCID h = scid"
proof -
  let ?h = "\<lparr>Version = Version1, HKind = kind, Flags = 0, DCID = dcid, SCID = scid,
      PacketNumber = 0, PayloadLength = word_of_int (int n), Reserved = 0\<rparr>"
  have v: "Header_validate ?h = Ret ()"
    using assms(2) Header_validate_PayloadLength [of "word_of_int (int n)" "\<lparr>Version = Version1, HKind = kind,
      Flags = 0, DCID = dcid, SCID = scid, PacketNumber = 0, PayloadLength = 0, Reserved = 0\<rparr>"] by simp
  then obtain enc where "Header_MarshalBinary ?h = Ret enc" by (auto simp: Header_MarshalBinary_def)
  then have "makeHeader kind dcid scid 0 (int n) = Ret (?h, enc)" using assms(1) by (simp add: makeHeader_Ret)
  moreover have "unat (PayloadLength ?h) = n" using unat_word_of_int16 [of "int n"] assms(1) by simp
  ultimately show thesis using that v by simp
qed

lemma parseInitialWire_ok:
  assumes "ParsePacket d m = Ret p" and "HKind (PHeader p) = PacketInitial" and "ParseInitial (Payload p) = Ret i"
  shows "\<exists>ad th1. parseInitialWire P d m ctx = Ret (p, i, ad, th1)"
proof -
  obtain eh where "d = eh @ Payload p" "length eh = 32" using assms(1) by (elim ParsePacket_parts)
  then show ?thesis using assms by (simp add: parseInitialWire_def Let_def go_consts)
qed

lemma parseHandshakeWire_ok:
  assumes "ParsePacket d m = Ret p" and "HKind (PHeader p) = PacketHandshake" and "ParseHandshake (Payload p) = Ret i"
  shows "\<exists>ad th2. parseHandshakeWire P d m ctx th1 = Ret (p, i, ad, th2)"
proof -
  obtain eh where "d = eh @ Payload p" "length eh = 32" using assms(1) by (elim ParsePacket_parts)
  then show ?thesis using assms by (simp add: parseHandshakeWire_def Let_def go_consts)
qed

lemma initial_wire_ok:
  assumes "length eph = 32" and "16 \<le> n" and "cid \<noteq> 0" and "int (68 + length token + n) \<le> m" and "m \<le> 65535"
  obtains prefix h enc where "makeInitialPrefix token eph (int n) = Ret prefix"
    and "makeHeader PacketInitial 0 cid 0 (int (length prefix) + int n) = Ret (h, enc)"
    and "\<forall>ct. length ct = n \<longrightarrow> (\<exists>d. marshalWirePacket h prefix ct m = Ret d
      \<and> (\<forall>m' ctx. int (68 + length token + n) \<le> m' \<and> m' \<le> 65535 \<longrightarrow>
           (\<exists>p i ad th1. parseInitialWire P d m' ctx = Ret (p, i, ad, th1))))"
proof -
  let ?prefix = "be16 (word_of_nat (length token)) @ token @ eph @ be16 (word_of_nat n)"
  have small: "68 + length token + n \<le> 65535" using assms(4,5) by linarith
  have len: "length ?prefix + n \<le> 65535" "length ?prefix = 36 + length token" using small assms(1) by simp_all
  have pre: "makeInitialPrefix token eph (int n) = Ret ?prefix"
    using small assms(2) by (simp add: makeInitialPrefix_def go_consts)
  have "Header_validate \<lparr>Version = Version1, HKind = PacketInitial, Flags = 0, DCID = 0, SCID = cid,
      PacketNumber = 0, PayloadLength = 0, Reserved = 0\<rparr> = Ret ()"
    using assms(3) by (simp add: Header_validate_def PacketType_valid_def)
  with len(1) obtain h enc where h: "makeHeader PacketInitial 0 cid 0 (int (length ?prefix + n)) = Ret (h, enc)"
    "Header_validate h = Ret ()" "unat (PayloadLength h) = length ?prefix + n" "HKind h = PacketInitial"
    using makeHeader_ok by metis
  show thesis
  proof (rule that [OF pre])
    show "makeHeader PacketInitial 0 cid 0 (int (length ?prefix) + int n) = Ret (h, enc)"
      using h(1) by (simp only: of_nat_add)
  next
    show "\<forall>ct. length ct = n \<longrightarrow> (\<exists>d. marshalWirePacket h ?prefix ct m = Ret d
      \<and> (\<forall>m' ctx. int (68 + length token + n) \<le> m' \<and> m' \<le> 65535 \<longrightarrow>
           (\<exists>p i ad th1. parseInitialWire P d m' ctx = Ret (p, i, ad, th1))))"
    proof (intro allI impI)
    fix ct :: bytes assume ct: "length ct = n"
    let ?i = "\<lparr>InitialToken = token, ClientEphemeralPublic = eph, InitialEncryptedPayload = ct\<rparr>"
    have "Initial_MarshalBinary ?i = Ret (?prefix @ ct)"
      using small assms(2) ct by (simp add: Initial_MarshalBinary_def go_consts)
    then have i: "ParseInitial (?prefix @ ct) = Ret ?i"
      by (intro parse_marshal_initial) (simp_all add: wf_initial_def assms(1) go_consts)
    then have "validateOuterPayload (HKind h) (?prefix @ ct) = Ret ()" by (simp add: validateOuterPayload_def h(4))
    from wire_accepts [OF h(2) this, of m] len(2) assms(4,5) h(3) ct obtain d where
      d: "Packet_MarshalBinary \<lparr>PHeader = h, Payload = ?prefix @ ct\<rparr> m = Ret d"
        "\<And>m'. int (68 + length token + n) \<le> m' \<Longrightarrow> m' \<le> 65535 \<Longrightarrow> ParsePacket d m' = Ret \<lparr>PHeader = h, Payload = ?prefix @ ct\<rparr>"
      by auto
    have "\<forall>m' ctx. int (68 + length token + n) \<le> m' \<and> m' \<le> 65535 \<longrightarrow>
        (\<exists>p i ad th1. parseInitialWire P d m' ctx = Ret (p, i, ad, th1))"
      using parseInitialWire_ok [OF d(2)] h(4) i by fastforce
    with d(1) show "\<exists>d. marshalWirePacket h ?prefix ct m = Ret d
      \<and> (\<forall>m' ctx. int (68 + length token + n) \<le> m' \<and> m' \<le> 65535 \<longrightarrow>
           (\<exists>p i ad th1. parseInitialWire P d m' ctx = Ret (p, i, ad, th1)))"
      by (simp add: marshalWirePacket_def)
    qed
  qed
qed

lemma handshake_wire_ok:
  assumes "length eph = 32" and "16 \<le> n" and "dcid \<noteq> 0" and "cid \<noteq> 0" and "int (66 + n) \<le> m" and "m \<le> 65535"
  obtains prefix h enc where "makeHandshakePrefix eph (int n) = Ret prefix"
    and "makeHeader PacketHandshake dcid cid 0 (int (length prefix) + int n) = Ret (h, enc)"
    and "\<forall>ct. length ct = n \<longrightarrow> (\<exists>d. marshalWirePacket h prefix ct m = Ret d
      \<and> (\<forall>m' ctx th1. int (66 + n) \<le> m' \<and> m' \<le> 65535 \<longrightarrow>
           (\<exists>p i ad th2. parseHandshakeWire P d m' ctx th1 = Ret (p, i, ad, th2))))"
proof -
  let ?prefix = "eph @ be16 (word_of_nat n)"
  have small: "66 + n \<le> 65535" using assms(5,6) by linarith
  have len: "length ?prefix + n \<le> 65535" "length ?prefix = 34" using small assms(1) by simp_all
  have pre: "makeHandshakePrefix eph (int n) = Ret ?prefix"
    using small assms(2) by (simp add: makeHandshakePrefix_def go_consts)
  have "Header_validate \<lparr>Version = Version1, HKind = PacketHandshake, Flags = 0, DCID = dcid, SCID = cid,
      PacketNumber = 0, PayloadLength = 0, Reserved = 0\<rparr> = Ret ()"
    using assms(3,4) by (simp add: Header_validate_def PacketType_valid_def go_consts)
  with len(1) obtain h enc where h: "makeHeader PacketHandshake dcid cid 0 (int (length ?prefix + n)) = Ret (h, enc)"
    "Header_validate h = Ret ()" "unat (PayloadLength h) = length ?prefix + n" "HKind h = PacketHandshake"
    using makeHeader_ok by metis
  show thesis
  proof (rule that [OF pre])
    show "makeHeader PacketHandshake dcid cid 0 (int (length ?prefix) + int n) = Ret (h, enc)"
      using h(1) by (simp only: of_nat_add)
  next
    show "\<forall>ct. length ct = n \<longrightarrow> (\<exists>d. marshalWirePacket h ?prefix ct m = Ret d
      \<and> (\<forall>m' ctx th1. int (66 + n) \<le> m' \<and> m' \<le> 65535 \<longrightarrow>
           (\<exists>p i ad th2. parseHandshakeWire P d m' ctx th1 = Ret (p, i, ad, th2))))"
    proof (intro allI impI)
    fix ct :: bytes assume ct: "length ct = n"
    let ?i = "\<lparr>ServerEphemeralPublic = eph, HandshakeEncryptedPayload = ct\<rparr>"
    have "Handshake_MarshalBinary ?i = Ret (?prefix @ ct)"
      using small assms(2) ct by (simp add: Handshake_MarshalBinary_def go_consts)
    then have i: "ParseHandshake (?prefix @ ct) = Ret ?i"
      by (intro parse_marshal_handshake) (simp_all add: wf_handshake_def assms(1) go_consts)
    then have "validateOuterPayload (HKind h) (?prefix @ ct) = Ret ()"
      by (simp add: validateOuterPayload_def h(4)) (simp add: go_consts)
    from wire_accepts [OF h(2) this, of m] len(2) assms(5,6) h(3) ct obtain d where
      d: "Packet_MarshalBinary \<lparr>PHeader = h, Payload = ?prefix @ ct\<rparr> m = Ret d"
        "\<And>m'. int (66 + n) \<le> m' \<Longrightarrow> m' \<le> 65535 \<Longrightarrow> ParsePacket d m' = Ret \<lparr>PHeader = h, Payload = ?prefix @ ct\<rparr>"
      by auto
    have "\<forall>m' ctx th1. int (66 + n) \<le> m' \<and> m' \<le> 65535 \<longrightarrow>
        (\<exists>p i ad th2. parseHandshakeWire P d m' ctx th1 = Ret (p, i, ad, th2))"
      using parseHandshakeWire_ok [OF d(2)] h(4) i by fastforce
    with d(1) show "\<exists>d. marshalWirePacket h ?prefix ct m = Ret d
      \<and> (\<forall>m' ctx th1. int (66 + n) \<le> m' \<and> m' \<le> 65535 \<longrightarrow>
           (\<exists>p i ad th2. parseHandshakeWire P d m' ctx th1 = Ret (p, i, ad, th2)))"
      by (simp add: marshalWirePacket_def)
    qed
  qed
qed

section \<open>Messages that fit\<close>

text \<open>X25519 gives a usable secret for two private keys.\<close>

definition dh_pair :: "prims \<Rightarrow> bytes \<Rightarrow> bytes \<Rightarrow> bool" where
  "dh_pair P a b \<longleftrightarrow> (\<exists>s. DH P (Some a) (p_public P b) = Ret s)"

lemma DeriveM1_total: "hash_ok P \<Longrightarrow> DH P k pub = Ret es \<Longrightarrow> \<exists>prk1 k1. DeriveM1 P ctx es = Ret (prk1, k1) \<and> length k1 = 32"
  by (auto simp: DeriveM1_Ret DH_Ret_iff)

lemma seal_total:
  assumes "aead_ok P" and "length k = 32"
  obtains ct where "SealHandshake P k ad p = Ret ct" and "length ct = length p + 16"
  using assms by (auto simp: SealHandshake_def go_consts seal_length)

lemma uint16_bound: "uint (w :: uint16) \<le> 65535"
  using uint_bounded [of w] by simp

lemma initialMessage_succeeds:
  assumes P: "prims_ok P" and dh: "dh_pair P eph sk" and srv: "c_serverStaticPublic client = p_public P sk"
    and len: "length (c_deploymentID client) = 16" "length (c_staticPublic client) = 32" and cid: "cid \<noteq> 0"
    and size: "int (173 + length (co_retryToken (c_options client))) \<le> uint (co_maxDatagramSize (c_options client))"
  shows "\<exists>d es th1. initialMessage P client cid eph = Ret (d, es, th1)
    \<and> (\<forall>m ctx. int (173 + length (co_retryToken (c_options client))) \<le> m \<and> m \<le> 65535 \<longrightarrow>
      (\<exists>p i ad th. parseInitialWire P d m ctx = Ret (p, i, ad, th)))"
proof -
  note Pp = prims_ok_parts [OF P]
  let ?tok = "co_retryToken (c_options client)" and ?m = "uint (co_maxDatagramSize (c_options client))"
  from dh obtain es where es: "DH P (Some eph) (c_serverStaticPublic client) = Ret es"
    unfolding dh_pair_def srv by blast
  from DeriveM1_total [OF Pp(1) es] obtain prk1 k1 where k: "DeriveM1 P (c_context client) es = Ret (prk1, k1)" "length k1 = 32"
    by blast
  have "sum_list (map (\<lambda>f. 3 + length (TValue f)) (initialFields client cid)) \<le> 65535"
    by (simp add: initialFields_ok(2) [OF len])
  from MarshalTLVsFor_ok [OF initialFields_ok(1) [OF len] this] obtain pt where
    pt: "MarshalTLVsFor (initialFields client cid) TLVContextInitial = Ret pt" "length pt = 89"
    by (metis initialFields_ok(2) [OF len])
  have pub: "length (p_public P eph) = 32" by (rule public_length [OF Pp(2)])
  have "int (68 + length ?tok + 105) \<le> ?m" using size by simp
  have n16: "(16 :: nat) \<le> 105" by simp
  from initial_wire_ok [OF pub n16 cid \<open>int (68 + length ?tok + 105) \<le> ?m\<close> uint16_bound, of P] obtain prefix h enc where
    pre: "makeInitialPrefix ?tok (p_public P eph) (int 105) = Ret prefix"
      "makeHeader PacketInitial 0 cid 0 (int (length prefix) + int 105) = Ret (h, enc)"
    and wire: "\<forall>ct. length ct = 105 \<longrightarrow> (\<exists>d. marshalWirePacket h prefix ct ?m = Ret d
      \<and> (\<forall>m' ctx. int (68 + length ?tok + 105) \<le> m' \<and> m' \<le> 65535 \<longrightarrow>
           (\<exists>p i ad th1. parseInitialWire P d m' ctx = Ret (p, i, ad, th1))))" .
  obtain ct where ct: "SealHandshake P k1 (c_context client @ enc @ prefix) pt = Ret ct" "length ct = 105"
    using seal_total [OF Pp(3) k(2), of "c_context client @ enc @ prefix" pt] pt(2) by auto
  from wire [rule_format, OF ct(2)] obtain d where d: "marshalWirePacket h prefix ct ?m = Ret d"
    "\<And>m' ctx. int (68 + length ?tok + 105) \<le> m' \<Longrightarrow> m' \<le> 65535 \<Longrightarrow> \<exists>p i ad th1. parseInitialWire P d m' ctx = Ret (p, i, ad, th1)"
    by blast
  have "initialMessage P client cid eph = Ret (d, es, Sum256 P [c_context client @ enc @ prefix, ct])"
    using es k(1) pt pre ct d(1) pub by (simp add: initialMessage_def PublicBytes_def go_consts Let_def)
  with d(2) show ?thesis by simp
qed


lemma MarshalTLVsFor_parses:
  assumes "MarshalTLVsFor tlvs ctx = Ret data"
  obtains tlvs' where "ParseTLVsFor data ctx = Ret tlvs'" and "\<forall>t. FindTLV tlvs' t = FindTLV tlvs t"
proof -
  have "context_ok tlvs ctx" "MarshalTLVs tlvs = Ret data"
    using assms by (auto simp: MarshalTLVsFor_def obind_Ret_iff ValidateTLVs_Ret_iff)
  moreover have "sum_list (map (\<lambda>f. 3 + length (TValue f)) tlvs) = length data"
    using calculation(2) sum_list_mset [of tlvs "sort_key TType tlvs" "\<lambda>f. 3 + length (TValue f)"]
    by (simp add: MarshalTLVs_Ret_iff length_concat comp_def)
  moreover have "length data \<le> 65535" using calculation(2) unfolding MarshalTLVs_Ret_iff by blast
  ultimately obtain tlvs' where "ParseTLVsFor data ctx = Ret tlvs'"
    using MarshalTLVsFor_ok [of tlvs ctx] assms by (metis outcome.inject(1))
  with that fields_received [OF assms] show thesis by blast
qed

lemma initialFields_more:
  "FindTLVValue (initialFields client cid) TLVVersion = [Version1]"
  "FindTLVValue (initialFields client cid) TLVClientCID = be64 cid"
  "snd (FindTLV (initialFields client cid) TLVEnrollmentTokenID) = False"
  "snd (FindTLV (initialFields client cid) TLVEnrollmentProof) = False"
  unfolding FindTLVValue_def initialFields_def encode_uint tlv_types by simp_all

text \<open>The client is one the server accepts: same deployment, registered, with families and a
  datagram limit in range.\<close>

definition admits :: "Server \<Rightarrow> Client \<Rightarrow> bool" where
  "admits server client \<longleftrightarrow> sv_deploymentID server = c_deploymentID client
     \<and> sv_context server = c_context client \<and> isRegistered server (c_staticPublic client)
     \<and> co_addressFamilies (c_options client) \<noteq> 0 \<and> co_addressFamilies (c_options client) AND NOT 0x03 = 0
     \<and> frameOverhead \<le> co_maxDatagramSize (c_options client)"

lemma openInitial_succeeds:
  assumes P: "prims_ok P" and sent: "initialMessage P client cid eph = Ret (d, es, th1)"
    and keys: "sv_staticPrivate server = Some sk" "c_serverStaticPublic client = p_public P sk"
      "length (c_staticPublic client) = 32"
    and adm: "admits server client"
    and parsed: "parseInitialWire P d m (sv_context server) = Ret (p, i, ad, th1')"
  shows "openInitial P server p i ad = Ret (es, c_staticPublic client, co_addressFamilies (c_options client),
      co_maxDatagramSize (c_options client)) \<and> th1' = th1 \<and> SCID (PHeader p) = cid \<and> DCID (PHeader p) = 0
    \<and> ClientEphemeralPublic i = p_public P eph"
proof -
  note Pp = prims_ok_parts [OF P]
  have ctx: "sv_context server = c_context client" using adm by (simp add: admits_def)
  from initialMessage_parts [OF Pp(3) sent] obtain prk1 k1 plaintext ct prefix h enc where
    s: "DH P (Some eph) (c_serverStaticPublic client) = Ret es"
       "DeriveM1 P (c_context client) es = Ret (prk1, k1)"
       "MarshalTLVsFor (initialFields client cid) TLVContextInitial = Ret plaintext"
       "makeInitialPrefix (co_retryToken (c_options client)) (p_public P eph) (int (length ct)) = Ret prefix"
       "makeHeader PacketInitial 0 cid 0 (int (length prefix + length ct)) = Ret (h, enc)"
       "SealHandshake P k1 (c_context client @ enc @ prefix) plaintext = Ret ct"
       "marshalWirePacket h prefix ct (uint (co_maxDatagramSize (c_options client))) = Ret d"
       "th1 = p_blake2s P (c_context client @ enc @ prefix @ ct)" "length (p_public P eph) = 32" .
  from initial_on_wire [OF s(4) s(9) s(5) s(7) parsed] have w: "PHeader p = h"
    "i = \<lparr>InitialToken = co_retryToken (c_options client), ClientEphemeralPublic = p_public P eph, InitialEncryptedPayload = ct\<rparr>"
    "ad = c_context client @ enc @ prefix" "th1' = th1" by (simp_all add: ctx s(8))
  note hd = makeHeader_facts [OF s(5)]
  from MarshalTLVsFor_parses [OF s(3)] obtain tlvs where
    t: "ParseTLVsFor plaintext TLVContextInitial = Ret tlvs" "\<forall>t. FindTLV tlvs t = FindTLV (initialFields client cid) t" .
  then have tv: "FindTLVValue tlvs t = FindTLVValue (initialFields client cid) t" for t by (simp add: FindTLVValue_def)
  have "DH P (sv_staticPrivate server) (ClientEphemeralPublic i) = Ret es"
    using s(1) DH_agree [OF Pp(2), of eph sk] by (simp add: keys w(2))
  moreover have "OpenHandshake P k1 ad (InitialEncryptedPayload i) = Ret plaintext"
    using s(6) OpenHandshake_Ret_iff [OF Pp(3), of k1 ad ct plaintext] by (simp add: w)
  moreover have "validateInitialFields server tlvs cid = Ret (c_staticPublic client,
      co_addressFamilies (c_options client), co_maxDatagramSize (c_options client))"
    using adm keys(3)
    by (simp add: validateInitialFields_def tv t(2) initialFields_values initialFields_more admits_def copy32_def not_less)
  ultimately show ?thesis using s(2) t(1) w hd by (simp add: openInitial_def ctx)
qed


subsection \<open>Address families\<close>

lemma low_bits:
  assumes "(x :: uint8) AND NOT 0x03 = 0" and "x \<noteq> 0"
  shows "x AND 0x01 \<noteq> 0 \<or> x AND 0x02 \<noteq> 0"
proof -
  have "(0x03 :: uint8) = 0x01 OR 0x02" by simp
  then have "x AND 0x03 = (x AND 0x01) OR (x AND 0x02)" by (simp only: bit.conj_disj_distrib)
  moreover have "x = (x AND NOT 0x03) OR (x AND 0x03)"
    by (simp only: bit.conj_disj_distrib [symmetric] bit.disj_cancel_left) simp
  ultimately have "x = (x AND NOT 0x03) OR (x AND 0x01) OR (x AND 0x02)" by (simp only: or.assoc)
  with assms show ?thesis by auto
qed

lemma selected_subset: "((fam :: uint8) AND g) AND NOT fam = 0"
  by (metis and.assoc and.commute bit.conj_cancel_right and_zero_eq)

lemma selected_low: "(fam :: uint8) AND NOT 0x03 = 0 \<Longrightarrow> (fam AND g) AND NOT 0x03 = 0"
  by (metis and.assoc and.commute and_zero_eq)

lemma mask_clear:
  "(a AND NOT m) AND (m :: uint8) = 0" "b AND m = 0 \<Longrightarrow> (f AND b) AND m = 0" "b AND m = 0 \<Longrightarrow> (b AND f) AND m = 0"
  by (simp add: and.assoc) (metis and.assoc and.commute and_zero_eq)+

lemma available_leases:
  assumes "sel = fam AND availableFamilies opts"
  shows "sel AND 0x01 \<noteq> 0 \<longrightarrow> so_ipv4Lease opts \<noteq> []" and "sel AND 0x02 \<noteq> 0 \<longrightarrow> so_ipv6Lease opts \<noteq> []"
proof -
  have "so_ipv4Lease opts = [] \<Longrightarrow> availableFamilies opts AND 0x01 = 0"
    using mask_clear(1) [of "so_addressFamilies opts" 1]
      mask_clear(3) [OF mask_clear(1) [of "so_addressFamilies opts" 1], of "NOT 2"]
    by (simp add: availableFamilies_def Let_def)
  then show "sel AND 0x01 \<noteq> 0 \<longrightarrow> so_ipv4Lease opts \<noteq> []" using mask_clear(2) assms by metis
  have "so_ipv6Lease opts = [] \<Longrightarrow> availableFamilies opts AND 0x02 = 0"
    using mask_clear(1) [of "so_addressFamilies opts" 2] mask_clear(1) [of "so_addressFamilies opts AND NOT 1" 2]
    by (simp add: availableFamilies_def Let_def)
  then show "sel AND 0x02 \<noteq> 0 \<longrightarrow> so_ipv6Lease opts \<noteq> []" using mask_clear(2) assms by metis
qed

subsection \<open>The response\<close>

text \<open>The server can answer a client with these families and this datagram limit.\<close>

definition answers :: "Server \<Rightarrow> uint8 \<Rightarrow> uint16 \<Rightarrow> bool" where
  "answers server fam maxd \<longleftrightarrow> length (sv_deploymentID server) = 16 \<and> leases_ok (sv_options server)
     \<and> n_AddressFamilies (offered server fam maxd) \<noteq> 0 \<and> 576 \<le> n_TunnelMTU (offered server fam maxd)
     \<and> 201 + int (length (so_dnsParameters (sv_options server))) \<le> uint (n_MaxDatagramSize (offered server fam maxd))"

lemma DeriveM2_total:
  "hash_ok P \<Longrightarrow> DH P a a' = Ret es \<Longrightarrow> DH P b b' = Ret ss \<Longrightarrow> DH P c c' = Ret ee \<Longrightarrow> DH P d d' = Ret se
    \<Longrightarrow> \<exists>prk2 k2. DeriveM2 P th1 es ss ee se = Ret (prk2, k2) \<and> length k2 = 32"
  by (auto simp: DeriveM2_Ret DH_Ret_iff)

lemma respond_succeeds:
  assumes P: "prims_ok P" and dh: "dh_pair P sk ck" "dh_pair P eph' eph" "dh_pair P eph' ck"
    and es: "DH P a a' = Ret es" and key: "sv_staticPrivate server = Some sk"
    and i: "ClientEphemeralPublic i = p_public P eph" and cids: "SCID (PHeader p) \<noteq> 0" "cid \<noteq> 0"
    and fam: "fam AND NOT 0x03 = 0" and ans: "answers server fam maxd"
  shows "\<exists>resp th2 c2s s2c.
      respond P server p i th1 (es, p_public P ck, fam, maxd) cid eph' = Ret (resp, th2, c2s, s2c, n_MaxDatagramSize (offered server fam maxd))
      \<and> (\<forall>m ctx th. uint (n_MaxDatagramSize (offered server fam maxd)) \<le> m \<and> m \<le> 65535 \<longrightarrow>
           (\<exists>q j ad t. parseHandshakeWire P resp m ctx th = Ret (q, j, ad, t)))"
proof -
  note Pp = prims_ok_parts [OF P]
  let ?sel = "fam AND availableFamilies (sv_options server)"
  let ?max = "minUint16 maxd (so_maxDatagramSize (sv_options server))"
  let ?mtu = "minUint16 (so_tunnelMTU (sv_options server)) (?max - frameOverhead)"
  let ?f = "handshakeFields server (SCID (PHeader p)) cid ?sel ?max ?mtu"
  have off: "n_MaxDatagramSize (offered server fam maxd) = ?max" "n_AddressFamilies (offered server fam maxd) = ?sel"
    "n_TunnelMTU (offered server fam maxd) = ?mtu" by (simp_all add: offered_def Let_def)
  from dh obtain ss ee se where d: "DH P (sv_staticPrivate server) (p_public P ck) = Ret ss"
      "DH P (Some eph') (ClientEphemeralPublic i) = Ret ee" "DH P (Some eph') (p_public P ck) = Ret se"
    unfolding dh_pair_def key i by blast
  from DeriveM2_total [OF Pp(1) es d] obtain prk2 k2 where k: "DeriveM2 P th1 es ss ee se = Ret (prk2, k2)" "length k2 = 32"
    by blast
  have sel: "?sel \<noteq> 0" "?sel AND 0x01 \<noteq> 0 \<or> ?sel AND 0x02 \<noteq> 0"
    using ans low_bits [OF selected_low [OF fam]] by (simp_all add: answers_def off)
  have "\<not> ?mtu < 576" using ans by (simp add: answers_def off not_less)
  note fs = handshakeFields_ok [OF _ _ available_leases [OF refl] sel(2)]
  have size: "sum_list (map (\<lambda>f. 3 + length (TValue f)) ?f) \<le> 119 + length (so_dnsParameters (sv_options server))"
    and ctxok: "context_ok ?f TLVContextHandshake"
    using ans fs by (simp_all add: answers_def)
  have lim: "201 + int (length (so_dnsParameters (sv_options server))) \<le> uint ?max" using ans by (simp add: answers_def off)
  have "sum_list (map (\<lambda>f. 3 + length (TValue f)) ?f) \<le> 65535" using size lim uint16_bound [of ?max] by linarith
  from MarshalTLVsFor_ok [OF ctxok this] obtain pt where
    pt: "MarshalTLVsFor ?f TLVContextHandshake = Ret pt" "length pt \<le> 119 + length (so_dnsParameters (sv_options server))"
    using size by metis
  let ?n = "length pt + 16"
  have pub: "length (p_public P eph') = 32" by (rule public_length [OF Pp(2)])
  have n: "16 \<le> ?n" "int (66 + ?n) \<le> uint ?max" using pt(2) lim by simp_all
  from handshake_wire_ok [OF pub n(1) cids n(2) uint16_bound, of P] obtain prefix h enc where
    pre: "makeHandshakePrefix (p_public P eph') (int ?n) = Ret prefix"
      "makeHeader PacketHandshake (SCID (PHeader p)) cid 0 (int (length prefix) + int ?n) = Ret (h, enc)"
    and wire: "\<forall>ct. length ct = ?n \<longrightarrow> (\<exists>d. marshalWirePacket h prefix ct (uint ?max) = Ret d
      \<and> (\<forall>m' ctx th1. int (66 + ?n) \<le> m' \<and> m' \<le> 65535 \<longrightarrow>
           (\<exists>p i ad th2. parseHandshakeWire P d m' ctx th1 = Ret (p, i, ad, th2))))" .
  obtain ct where ct: "SealHandshake P k2 (sv_context server @ th1 @ enc @ prefix) pt = Ret ct" "length ct = ?n"
    using seal_total [OF Pp(3) k(2), of "sv_context server @ th1 @ enc @ prefix" pt] by auto
  from wire [rule_format, OF ct(2)] obtain resp where r: "marshalWirePacket h prefix ct (uint ?max) = Ret resp"
    "\<And>m' ctx th1. int (66 + ?n) \<le> m' \<Longrightarrow> m' \<le> 65535 \<Longrightarrow> \<exists>p i ad th2. parseHandshakeWire P resp m' ctx th1 = Ret (p, i, ad, th2)"
    by blast
  let ?th2 = "Sum256 P [sv_context server @ th1 @ enc @ prefix, ct]"
  have pre': "makeHandshakePrefix (p_public P eph') (int (length pt) + int AEADTagSize) = Ret prefix"
    "makeHeader PacketHandshake (SCID (PHeader p)) cid 0 (int (length prefix) + (int (length pt) + int AEADTagSize)) = Ret (h, enc)"
    "int (length ct) = int (length pt) + int AEADTagSize"
    using pre ct(2) by (simp_all add: go_consts)
  have "respond P server p i th1 (es, p_public P ck, fam, maxd) cid eph'
      = Ret (resp, ?th2, hkdf_T P prk2 (c2sLabel @ ?th2) 1, hkdf_T P prk2 (s2cLabel @ ?th2) 1, ?max)"
    unfolding respond_def Let_def prod.case
    using d k(1) sel(1) \<open>\<not> ?mtu < 576\<close> pt(1) pre' ct(1) r(1) pub
    by (simp add: PublicBytes_def DeriveTraffic_Ret [OF Pp(1)])
  moreover have "\<forall>m ctx th. uint ?max \<le> m \<and> m \<le> 65535 \<longrightarrow> (\<exists>q j ad t. parseHandshakeWire P resp m ctx th = Ret (q, j, ad, t))"
    using r(2) n(2) by (meson order_trans)
  ultimately show ?thesis unfolding off by blast
qed


subsection \<open>The client's end\<close>

definition accepts :: "Client \<Rightarrow> Negotiated \<Rightarrow> bool" where
  "accepts client neg \<longleftrightarrow> co_minTunnelMTU (c_options client) \<le> n_TunnelMTU neg
     \<and> n_TunnelMTU neg \<le> co_maxTunnelMTU (c_options client) \<and> n_LeaseSeconds neg \<noteq> 0
     \<and> (n_IPv4Lease neg \<noteq> [] \<longrightarrow> v4_IsGlobalUnicast (take 4 (n_IPv4Lease neg)) \<and> \<not> v4_IsLoopback (take 4 (n_IPv4Lease neg)))
     \<and> (n_IPv6Lease neg \<noteq> [] \<longrightarrow> v6_IsGlobalUnicast (take 16 (n_IPv6Lease neg)) \<and> \<not> v6_IsLoopback (take 16 (n_IPv6Lease neg)))"

lemma minUint16_le: "minUint16 a b \<le> a" "minUint16 a b \<le> b"
  by (auto simp: minUint16_def not_less)

lemma handshakeFields_more:
  assumes "f = handshakeFields server ccid scid fam maxd mtu"
  shows "FindTLVValue f TLVVersion = [Version1]" "FindTLVValue f TLVDeploymentID = sv_deploymentID server"
    "FindTLVValue f TLVClientCID = be64 ccid" "FindTLVValue f TLVServerCID = be64 scid"
    "FindTLV f TLVIPv4Lease = (if fam AND 0x01 \<noteq> 0 \<and> so_ipv4Lease (sv_options server) \<noteq> []
       then (so_ipv4Lease (sv_options server), True) else ([], False))"
    "FindTLV f TLVIPv6Lease = (if fam AND 0x02 \<noteq> 0 \<and> so_ipv6Lease (sv_options server) \<noteq> []
       then (so_ipv6Lease (sv_options server), True) else ([], False))"
  unfolding assms FindTLVValue_def handshakeFields_def encode_uint Let_def tlv_types by simp_all

lemma frameOverhead_val: "frameOverhead = 52"
  by (simp add: frameOverhead_def go_consts)

lemma validateHandshakeFields_succeeds:
  assumes f: "f = handshakeFields server (c_clientCID client) scid
      (n_AddressFamilies neg) (n_MaxDatagramSize neg) (n_TunnelMTU neg)"
    and neg: "neg = offered server (co_addressFamilies (c_options client)) (co_maxDatagramSize (c_options client))"
    and recv: "\<forall>t. FindTLV tlvs t = FindTLV f t" and scid: "scid \<noteq> 0"
    and dep: "sv_deploymentID server = c_deploymentID client" and acc: "accepts client neg"
    and ans: "answers server (co_addressFamilies (c_options client)) (co_maxDatagramSize (c_options client))"
  shows "validateHandshakeFields client tlvs scid = Ret (neg, scid)"
proof -
  have tv: "FindTLVValue tlvs t = FindTLVValue f t" for t using recv by (simp add: FindTLVValue_def)
  have sel: "n_AddressFamilies neg = co_addressFamilies (c_options client) AND availableFamilies (sv_options server)"
    by (simp add: neg offered_def Let_def)
  note av = available_leases [OF sel]
  have fams: "n_AddressFamilies neg \<noteq> 0" "n_AddressFamilies neg AND NOT (co_addressFamilies (c_options client)) = 0"
    using ans selected_subset by (simp_all add: answers_def neg [symmetric] sel)
  have "201 \<le> uint (n_MaxDatagramSize neg)" using ans by (simp add: answers_def neg [symmetric])
  then have over: "\<not> n_MaxDatagramSize neg < frameOverhead" by (simp add: frameOverhead_val word_less_def)
  have max: "\<not> n_MaxDatagramSize neg > co_maxDatagramSize (c_options client)"
    "\<not> n_TunnelMTU neg > n_MaxDatagramSize neg - frameOverhead"
    using minUint16_le by (simp_all add: neg offered_def Let_def not_less)
  have lease: "so_ipv4Lease (sv_options server) \<noteq> [] \<longrightarrow> length (so_ipv4Lease (sv_options server)) = 5"
    "so_ipv6Lease (sv_options server) \<noteq> [] \<longrightarrow> length (so_ipv6Lease (sv_options server)) = 17"
    using ans by (simp_all add: answers_def leases_ok_def)
  have ips: "n_IPv4Lease neg = (if n_AddressFamilies neg AND 0x01 \<noteq> 0 then so_ipv4Lease (sv_options server) else [])"
    "n_IPv6Lease neg = (if n_AddressFamilies neg AND 0x02 \<noteq> 0 then so_ipv6Lease (sv_options server) else [])"
    by (simp_all add: neg offered_def Let_def)
  have rest: "neg = \<lparr>n_Capabilities = so_capabilities (sv_options server), n_AddressFamilies = n_AddressFamilies neg,
      n_MaxDatagramSize = n_MaxDatagramSize neg, n_TunnelMTU = n_TunnelMTU neg,
      n_LeaseSeconds = so_leaseSeconds (sv_options server), n_IPv4Lease = n_IPv4Lease neg, n_IPv6Lease = n_IPv6Lease neg,
      n_EgressPolicy = so_egressPolicy (sv_options server), n_DNSParameters = so_dnsParameters (sv_options server)\<rparr>"
    by (simp add: neg offered_def Let_def)
  have secs: "so_leaseSeconds (sv_options server) \<noteq> 0" using acc by (simp add: accepts_def neg offered_def Let_def)
  have mtu: "\<not> n_TunnelMTU neg < co_minTunnelMTU (c_options client)" "\<not> n_TunnelMTU neg > co_maxTunnelMTU (c_options client)"
    using acc by (simp_all add: accepts_def not_less)
  have v4: "v4_IsGlobalUnicast (take 4 (so_ipv4Lease (sv_options server)))" "\<not> v4_IsLoopback (take 4 (so_ipv4Lease (sv_options server)))"
    if "n_AddressFamilies neg AND 0x01 \<noteq> 0" using that acc av(1) by (simp_all add: accepts_def ips)
  have v6: "v6_IsGlobalUnicast (take 16 (so_ipv6Lease (sv_options server)))" "\<not> v6_IsLoopback (take 16 (so_ipv6Lease (sv_options server)))"
    if "n_AddressFamilies neg AND 0x02 \<noteq> 0" using that acc av(2) by (simp_all add: accepts_def ips)
  show ?thesis
    unfolding validateHandshakeFields_def tv recv [rule_format] handshakeFields_values [OF f] handshakeFields_more [OF f]
    using scid dep fams over max secs mtu v4 v6 av lease rest
    by (cases "n_AddressFamilies neg AND 0x01 = 0"; cases "n_AddressFamilies neg AND 0x02 = 0") (simp_all add: ips)
qed


lemma finish_succeeds:
  assumes P: "prims_ok P"
    and sent: "respond P server p i (c_th1 client) (c_es client, c_staticPublic client, co_addressFamilies (c_options client),
        co_maxDatagramSize (c_options client)) cid eph' = Ret (resp, th2, c2s, s2c, selmax)"
    and i: "ClientEphemeralPublic i = p_public P eph" "SCID (PHeader p) = c_clientCID client" and cid: "cid \<noteq> 0"
    and keys: "sv_staticPrivate server = Some sk" "c_serverStaticPublic client = p_public P sk"
      "c_staticPrivate client = Some ck" "c_staticPublic client = p_public P ck" "c_ephemeralPrivate client = Some eph"
    and adm: "admits server client"
    and acc: "accepts client (offered server (co_addressFamilies (c_options client)) (co_maxDatagramSize (c_options client)))"
    and ans: "answers server (co_addressFamilies (c_options client)) (co_maxDatagramSize (c_options client))"
    and parsed: "parseHandshakeWire P resp (uint (co_maxDatagramSize (c_options client))) (c_context client) (c_th1 client) = Ret (q, j, ad, t)"
  shows "finishMessage P client resp
    = Ret (offered server (co_addressFamilies (c_options client)) (co_maxDatagramSize (c_options client)), cid, th2, c2s, s2c)"
proof -
  note Pp = prims_ok_parts [OF P]
  let ?neg = "offered server (co_addressFamilies (c_options client)) (co_maxDatagramSize (c_options client))"
  have ctx: "sv_context server = c_context client" using adm by (simp add: admits_def)
  from respond_parts [OF Pp(3) sent] obtain ss ee se prk2 k2 tl selfam mtu plaintext ct prefix h enc where
    s: "DH P (sv_staticPrivate server) (c_staticPublic client) = Ret ss"
       "DH P (Some eph') (ClientEphemeralPublic i) = Ret ee" "DH P (Some eph') (c_staticPublic client) = Ret se"
       "DeriveM2 P (c_th1 client) (c_es client) ss ee se = Ret (prk2, k2)"
       "selfam = co_addressFamilies (c_options client) AND availableFamilies (sv_options server)" "selfam \<noteq> 0"
       "selmax = minUint16 (co_maxDatagramSize (c_options client)) (so_maxDatagramSize (sv_options server))"
       "mtu = minUint16 (so_tunnelMTU (sv_options server)) (selmax - frameOverhead)" "\<not> mtu < 576"
       "tl = handshakeFields server (SCID (PHeader p)) cid selfam selmax mtu"
       "MarshalTLVsFor tl TLVContextHandshake = Ret plaintext"
       "makeHandshakePrefix (p_public P eph') (int (length ct)) = Ret prefix"
       "makeHeader PacketHandshake (SCID (PHeader p)) cid 0 (int (length prefix + length ct)) = Ret (h, enc)"
       "SealHandshake P k2 (sv_context server @ c_th1 client @ enc @ prefix) plaintext = Ret ct"
       "marshalWirePacket h prefix ct (uint selmax) = Ret resp"
       "th2 = p_blake2s P (sv_context server @ c_th1 client @ enc @ prefix @ ct)"
       "DeriveTraffic P prk2 th2 = Ret (c2s, s2c)" "length (p_public P eph') = 32" .
  from handshake_on_wire [OF s(12) s(18) s(13) s(15) parsed] have w: "PHeader q = h"
    "j = \<lparr>ServerEphemeralPublic = p_public P eph', HandshakeEncryptedPayload = ct\<rparr>"
    "ad = c_context client @ c_th1 client @ enc @ prefix" "t = th2" by (simp_all add: ctx s(16))
  note hd = makeHeader_facts [OF s(13)]
  have dh: "DH P (c_staticPrivate client) (c_serverStaticPublic client) = Ret ss"
    "DH P (c_ephemeralPrivate client) (ServerEphemeralPublic j) = Ret ee"
    "DH P (c_staticPrivate client) (ServerEphemeralPublic j) = Ret se"
    using s(1-3) DH_agree [OF Pp(2)] i(1) by (simp_all add: keys w(2))
  have op: "OpenHandshake P k2 ad (HandshakeEncryptedPayload j) = Ret plaintext"
    using s(14) OpenHandshake_Ret_iff [OF Pp(3), of k2 ad ct plaintext] by (simp add: w ctx)
  from MarshalTLVsFor_parses [OF s(11)] obtain tlvs where
    pt: "ParseTLVsFor plaintext TLVContextHandshake = Ret tlvs" and rec: "\<forall>t. FindTLV tlvs t = FindTLV tl t" .
  have "tl = handshakeFields server (c_clientCID client) cid (n_AddressFamilies ?neg) (n_MaxDatagramSize ?neg) (n_TunnelMTU ?neg)"
    unfolding s(10) i(2) s(5,7,8) by (simp add: offered_def Let_def)
  from validateHandshakeFields_succeeds [OF this refl rec cid _ acc ans] adm
  have "validateHandshakeFields client tlvs cid = Ret (?neg, cid)" by (simp add: admits_def)
  then show ?thesis using parsed w hd i(2) cid dh s(4,17) op pt by (simp add: finishMessage_def)
qed

section \<open>The calls of the key exchange\<close>

lemma Start_Ret:
  assumes "Start P client = (client', Ret d)"
  obtains cid eph es th1 r where "cid \<noteq> 0" and "initialMessage P client cid eph = Ret (d, es, th1)"
    and "client' = (set_random r client)\<lparr>c_clientCID := cid, c_ephemeralPrivate := Some eph, c_es := es, c_th1 := th1,
      c_state := StateInitialSent\<rparr>" and "c_state client = StateIdle"
proof -
  obtain random c where n: "nextNonZeroCID (co_random (c_options client)) = (random, c)" by fastforce
  have nz: "nonZeroCID_loop k rnd = (rnd', Ret cid) \<Longrightarrow> cid \<noteq> 0" for k rnd rnd' cid
    by (induction k arbitrary: rnd) (auto split: outcome.splits prod.splits if_splits)
  from assms n obtain cid eph random' es th1 where "c = Ret cid" "initialMessage P client cid eph = Ret (d, es, th1)"
    "client' = (set_random random' client)\<lparr>c_clientCID := cid, c_ephemeralPrivate := Some eph, c_es := es, c_th1 := th1,
      c_state := StateInitialSent\<rparr>" "c_state client = StateIdle"
    unfolding Start_def Let_def GenerateKeyFrom_def option.case
    by (auto simp: or_return_Ret_iff hs_err_def split: if_splits outcome.splits prod.splits)
  moreover have "cid \<noteq> 0" using n nz calculation(1) unfolding nextNonZeroCID_def by blast
  ultimately show thesis using that by blast
qed

lemma Finish_Ret:
  assumes "Finish P client d = (client', Ret ())"
  obtains neg cid th2 c2s s2c where "finishMessage P client d = Ret (neg, cid, th2, c2s, s2c)"
    and "client' = client\<lparr>c_serverCID := cid, c_th2 := th2, c_c2sKey := c2s, c_s2cKey := s2c,
      c_negotiated := neg, c_transportMaxSize := uint (n_MaxDatagramSize neg),
      c_ephemeralPrivate := None, c_es := zeroKey, c_state := StatePendingConfirm\<rparr>"
  using assms unfolding Finish_def by (auto simp: or_return_Ret_iff hs_err_def split: if_splits prod.splits)


text \<open>A client whose keys belong together, pinned to the server with the private key \<open>sk\<close>.\<close>

definition client_keys :: "prims \<Rightarrow> bytes \<Rightarrow> bytes \<Rightarrow> Client \<Rightarrow> bool" where
  "client_keys P ck sk client \<longleftrightarrow> c_staticPrivate client = Some ck \<and> c_staticPublic client = p_public P ck
     \<and> c_serverStaticPublic client = p_public P sk"

lemma NewClient_keys:
  assumes "NewClient P rnd config = Ret client" and "cc_StaticPrivate config = Some ck"
    and "cc_ServerStaticPublic config = p_public P sk"
  shows "client_keys P ck sk client \<and> c_state client = StateIdle \<and> c_context client = Context (cc_DeploymentID config)
    \<and> c_deploymentID client = cc_DeploymentID config \<and> c_sendPN client = 0 \<and> c_receiveWindow client = new_ReplayWindow"
  using assms by (auto simp: NewClient_def obind_Ret_iff client_keys_def PublicBytes_def split: if_splits)

lemma keys_agree:
  assumes P: "prims_ok P" and keys: "client_keys P ck sk client" "sv_staticPrivate server = Some sk"
    and ctx: "sv_context server = c_context client" and ok: "cache_ok server"
    and start: "Start P client = (client1, Ret d1)"
    and handled: "HandleInitial P now later published d1 server = (server', Done (Ret (Some s, d2)))"
    and fresh: "length (sv_sessions server) \<le> s"
    and finish: "Finish P client1 d2 = (client2, Ret ())"
  shows "paired client2 (session server' s)
    \<and> c_negotiated client2 = offered server (co_addressFamilies (c_options client)) (co_maxDatagramSize (c_options client))
    \<and> ss_clientStatic (session server' s) = c_staticPublic client \<and> isRegistered server (c_staticPublic client)
    \<and> c_state client2 = StatePendingConfirm \<and> ss_state (session server' s) = StatePendingConfirm"
proof -
  from Start_Ret [OF start] obtain cid eph es th1 r where c1: "initialMessage P client cid eph = Ret (d1, es, th1)"
    "client1 = (set_random r client)\<lparr>c_clientCID := cid, c_ephemeralPrivate := Some eph, c_es := es, c_th1 := th1,
      c_state := StateInitialSent\<rparr>" .
  from HandleInitial_new [OF handled ok fresh] obtain p i ad th1' opened scid eph' th2 c2s s2c maxd x where
    h: "parseInitialWire P d1 (uint (so_maxDatagramSize (sv_options server))) (sv_context server) = Ret (p, i, ad, th1')"
       "openInitial P server p i ad = Ret opened"
       "respond P server p i th1' opened scid eph' = Ret (d2, th2, c2s, s2c, maxd)"
       "x = newSession p scid (fst (snd opened)) th2 c2s s2c maxd"
       "\<exists>k. session server' s = x\<lparr>ss_attemptKey := k, ss_hasAttempt := True\<rparr>" .
  obtain es' cs fam cmax where op: "opened = (es', cs, fam, cmax)" by (metis surj_pair)
  have k: "c_serverStaticPublic client = p_public P sk" "c_staticPublic client = p_public P ck" "c_staticPrivate client = Some ck"
    using keys(1) by (simp_all add: client_keys_def)
  have "length (c_staticPublic client) = 32" using public_length prims_ok_parts(2) [OF P] k(2) by simp
  from initial_opened [OF P c1(1) keys(2) k(1) this ctx h(1) h(2) [unfolded op]]
  have o: "th1' = th1" "es' = es" "SCID (PHeader p) = cid" "ClientEphemeralPublic i = p_public P eph" "cs = c_staticPublic client"
    "fam = co_addressFamilies (c_options client)" "cmax = co_maxDatagramSize (c_options client)" by simp_all
  from Finish_Ret [OF finish] obtain neg fcid fth2 fc2s fs2c where
    f: "finishMessage P client1 d2 = Ret (neg, fcid, fth2, fc2s, fs2c)"
       "client2 = client1\<lparr>c_serverCID := fcid, c_th2 := fth2, c_c2sKey := fc2s, c_s2cKey := fs2c,
        c_negotiated := neg, c_transportMaxSize := uint (n_MaxDatagramSize neg),
        c_ephemeralPrivate := None, c_es := zeroKey, c_state := StatePendingConfirm\<rparr>" .
  have "respond P server p i (c_th1 client1) (c_es client1, c_staticPublic client1, fam, cmax) scid eph' = Ret (d2, th2, c2s, s2c, maxd)"
    using h(3) by (simp add: op o c1(2) set_random_def)
  from response_finished [OF P this o(4) keys(2) _ _ _ _ _ f(1)] k ctx
  have "fcid = scid \<and> fth2 = th2 \<and> fc2s = c2s \<and> fs2c = s2c \<and> neg = offered server fam cmax
    \<and> maxd = n_MaxDatagramSize neg" by (simp add: c1(2) set_random_def)
  moreover obtain key where "session server' s = x\<lparr>ss_attemptKey := key, ss_hasAttempt := True\<rparr>" using h(5) by blast
  moreover have "isRegistered server cs"
    using h(2) unfolding op by (elim openInitial_parts) (use validateInitialFields_Ret in blast)
  ultimately show ?thesis
    by (simp add: paired_def h(4) newSession_def f(2) c1(2) o set_random_def op)
qed

end
