(* ===== verification/Handshake_Traffic.thy ===== *)
theory Handshake_Traffic
  imports Handshake_Transport
begin

text \<open>
  Lemmas on \<^verbatim>\<open>sealLocked\<close> and \<^verbatim>\<open>openLocked\<close>, which the client and the server session have in the
  same form. \<open>transmit\<close> and \<open>receive\<close> are the common form; the lemmas are proved for it once:
  what one side seals the other opens, what opens was sealed, no packet number is sealed twice
  under a key, and no datagram opens twice.
\<close>

section \<open>The common form\<close>

definition transmit :: "prims \<Rightarrow> bytes \<Rightarrow> uint64 \<Rightarrow> uint64 \<Rightarrow> uint64 \<Rightarrow> int \<Rightarrow> Frame list \<Rightarrow> string \<Rightarrow> bytes hs_result" where
  "transmit P key dcid scid pn m frames who =
     obind (wrap_as ErrMessage (''seal '' @ who @ '' TRANSPORT'')
              (SealTransport P key (transportHeader dcid scid pn) frames (maxPlaintextForDatagram m))) (\<lambda>packet.
     wrap_codec ErrMessage (''marshal '' @ who @ '' TRANSPORT: '') (Packet_MarshalBinary packet m))"

definition receive ::
  "prims \<Rightarrow> bytes \<Rightarrow> uint64 \<Rightarrow> uint64 \<Rightarrow> int \<Rightarrow> bytes \<Rightarrow> string \<Rightarrow> ReplayWindow \<Rightarrow> ReplayWindow \<times> Frame list hs_result" where
  "receive P key dcid scid m datagram who w =
     or_return (parseTransportDatagram datagram m) w (\<lambda>packet.
     let header = PHeader packet in
     if DCID header \<noteq> dcid \<or> SCID header \<noteq> scid then (w, hs_err ErrConnectionID (who @ '' TRANSPORT CID''))
     else if PacketNumber header \<ge> rehandshakePacketNumber \<or> \<not> Precheck w (PacketNumber header) then
       (w, hs_err ErrMessage (''unacceptable '' @ who @ '' packet number''))
     else or_return (wrap_as ErrAuthentication (''open '' @ who @ '' TRANSPORT'')
                       (OpenTransportPlaintext P key packet)) w (\<lambda>plaintext.
     let (window, accepted) = AcceptAuthenticated w (PacketNumber header) in
     or_return (wrap_as ErrMessage (''replayed '' @ who @ '' packet'') accepted) w (\<lambda>_.
       (window, wrap_codec ErrMessage (''parse '' @ who @ '' frames: '')
          (ParseFrames plaintext (maxPlaintextForDatagram m))))))"

lemma Client_openLocked_receive:
  "Client_openLocked P d client =
    (case receive P (c_s2cKey client) (c_clientCID client) (c_serverCID client) (c_transportMaxSize client) d ''server''
            (c_receiveWindow client) of
       (w, r) \<Rightarrow> (client\<lparr>c_receiveWindow := w\<rparr>, r))"
proof -
  have "client\<lparr>c_receiveWindow := c_receiveWindow client\<rparr> = client" by simp
  then show ?thesis
    by (simp add: Client_openLocked_def receive_def Let_def or_return_def split: outcome.split prod.split)
qed

lemma Session_openLocked_receive:
  assumes "x = session server s"
  shows "Session_openLocked P d s server =
    (case receive P (ss_c2sKey x) (ss_serverCID x) (ss_clientCID x) (ss_maxDatagram x) d ''client'' (ss_receiveWindow x) of
       (w, r) \<Rightarrow> (set_session s (x\<lparr>ss_receiveWindow := w\<rparr>) server, r))"
proof -
  have "set_session s (x\<lparr>ss_receiveWindow := ss_receiveWindow x\<rparr>) server = server"
    unfolding assms by (simp add: set_session_def session_def)
  then show ?thesis
    by (simp add: Session_openLocked_def receive_def Let_def or_return_def assms split: outcome.split prod.split)
qed

lemma Client_sealLocked_transmit:
  "Client_sealLocked P frames client =
    (if c_sendPN client \<ge> rehandshakePacketNumber then
       (Client_closeLocked StateClosed client, hs_err ErrState ''client packet-number limit reached'')
     else (client\<lparr>c_sendPN := c_sendPN client + 1\<rparr>,
           transmit P (c_c2sKey client) (c_serverCID client) (c_clientCID client) (c_sendPN client)
             (c_transportMaxSize client) frames ''client''))"
  unfolding Client_sealLocked_def transmit_def by simp

lemma Session_sealLocked_transmit:
  assumes "x = session server s"
  shows "Session_sealLocked P frames s now server =
    (if ss_sendPN x \<ge> rehandshakePacketNumber then
       (Session_closeLocked StateClosed s now server, hs_err ErrState ''server packet-number limit reached'')
     else (set_session s (x\<lparr>ss_sendPN := ss_sendPN x + 1\<rparr>) server,
           transmit P (ss_s2cKey x) (ss_clientCID x) (ss_serverCID x) (ss_sendPN x) (ss_maxDatagram x) frames ''server''))"
  unfolding Session_sealLocked_def transmit_def assms Let_def by simp

section \<open>Sealing and opening\<close>

lemma transmit_Ret:
  assumes "aead_ok P" and "transmit P key dcid scid pn m frames who = Ret d"
  obtains pkt where "SealTransport P key (transportHeader dcid scid pn) frames (maxPlaintextForDatagram m) = Ret pkt"
    and "ParsePacket d m = Ret pkt" and "DCID (PHeader pkt) = dcid" and "SCID (PHeader pkt) = scid"
    and "PacketNumber (PHeader pkt) = pn" and "HKind (PHeader pkt) = PacketTransport"
proof -
  from assms(2) obtain pkt where p: "SealTransport P key (transportHeader dcid scid pn) frames (maxPlaintextForDatagram m) = Ret pkt"
    "Packet_MarshalBinary pkt m = Ret d" by (auto simp: transmit_def obind_Ret_iff)
  from p(1) obtain pt where "SealTransportPlaintext P key (transportHeader dcid scid pn) pt = Ret pkt"
    by (auto simp: SealTransport_def obind_Ret_iff split: if_splits)
  note seal = this
  have "wf_packet pkt" using sealed_wf [OF assms(1) seal] by blast
  then have parsed: "ParsePacket d m = Ret pkt" using p(2) packet_parse_marshal by blast
  have "DCID (PHeader pkt) = dcid" "SCID (PHeader pkt) = scid" "PacketNumber (PHeader pkt) = pn"
    "HKind (PHeader pkt) = PacketTransport"
    using seal by (auto simp: SealTransportPlaintext_Ret_iff transportHeader_def)
  then show thesis by (rule that [OF p(1) parsed])
qed

lemma state_guard: "(if c then (s, hs_err k t) else m) = (s', Ret x) \<longleftrightarrow> \<not> c \<and> m = (s', Ret x)"
  by (simp add: hs_err_def)

lemma receive_Ret:
  assumes "receive P key dcid scid m d who w = (w', Ret frames)"
  obtains pkt where "ParsePacket d m = Ret pkt" and "DCID (PHeader pkt) = dcid" and "SCID (PHeader pkt) = scid"
    and "PacketNumber (PHeader pkt) < rehandshakePacketNumber"
    and "OpenTransport P key pkt (maxPlaintextForDatagram m) = Ret frames"
    and "AcceptAuthenticated w (PacketNumber (PHeader pkt)) = (w', Ret ())"
proof -
  from assms obtain pkt pt where p: "parseTransportDatagram d m = Ret pkt" "DCID (PHeader pkt) = dcid" "SCID (PHeader pkt) = scid"
    "PacketNumber (PHeader pkt) < rehandshakePacketNumber" "OpenTransportPlaintext P key pkt = Ret pt"
    "snd (AcceptAuthenticated w (PacketNumber (PHeader pkt))) = Ret ()"
    "fst (AcceptAuthenticated w (PacketNumber (PHeader pkt))) = w'" "ParseFrames pt (maxPlaintextForDatagram m) = Ret frames"
    unfolding receive_def Let_def or_return_Ret_iff state_guard wrap_Ret_iff split_beta prod.inject by (auto simp: not_le)
  have "AcceptAuthenticated w (PacketNumber (PHeader pkt)) = (w', Ret ())" using p(6,7) by (metis prod.collapse)
  moreover have "ParsePacket d m = Ret pkt"
    using p(1) by (simp add: parseTransportDatagram_def obind_Ret_iff hs_guard)
  ultimately show thesis using that p by (simp add: OpenTransport_def)
qed

lemma receive_window:
  assumes "receive P key dcid scid m d who w = (w', r)"
  shows "w' = w \<or> (\<exists>pkt. ParsePacket d m = Ret pkt \<and> AcceptAuthenticated w (PacketNumber (PHeader pkt)) = (w', Ret ())
    \<and> (\<exists>plaintext. OpenTransportPlaintext P key pkt = Ret plaintext))"
  using assms unfolding receive_def parseTransportDatagram_def Let_def
  by (auto simp: or_return_def hs_err_def hs_guard obind_Ret_iff
      split: if_splits prod.splits outcome.splits)

text \<open>What one side transmits the other receives, unless its window has the number already or
  has moved past it.\<close>

lemma transmit_receive:
  assumes P: "aead_ok P" and sent: "transmit P key dcid scid pn m frames who = Ret d"
    and pn: "pn < rehandshakePacketNumber" and w: "window_represents w A" "spec_verdict A (unat pn) = None"
  shows "receive P key dcid scid m d who' w = (fst (AcceptAuthenticated w pn), Ret frames)"
proof -
  from transmit_Ret [OF P sent] obtain pkt where
    p: "SealTransport P key (transportHeader dcid scid pn) frames (maxPlaintextForDatagram m) = Ret pkt"
       "ParsePacket d m = Ret pkt" "DCID (PHeader pkt) = dcid" "SCID (PHeader pkt) = scid"
       "PacketNumber (PHeader pkt) = pn" "HKind (PHeader pkt) = PacketTransport" .
  from transport_roundtrip [OF P p(1)] obtain pt where
    o: "OpenTransportPlaintext P key pkt = Ret pt" "ParseFrames pt (maxPlaintextForDatagram m) = Ret frames"
    by (auto simp: OpenTransport_def obind_Ret_iff)
  have pre: "Precheck w pn" using Precheck_iff [OF w(1)] w(2) by simp
  obtain w' r where acc: "AcceptAuthenticated w pn = (w', r)" by fastforce
  moreover have "r = Ret ()" using AcceptAuthenticated_Ret_iff [OF w(1), of pn] w(2) acc by simp
  ultimately show ?thesis
    using p o pn pre by (simp add: receive_def parseTransportDatagram_def Let_def not_le)
qed

section \<open>Packet numbers of a sender\<close>

text \<open>\<open>carries d n\<close>: the datagram carries the packet number \<open>n\<close> in its header.\<close>

definition carries :: "bytes \<Rightarrow> uint64 \<Rightarrow> bool" where
  "carries d n \<longleftrightarrow> (\<exists>m pkt. ParsePacket d m = Ret pkt \<and> PacketNumber (PHeader pkt) = n)"

lemma carries_unique: "carries d n \<Longrightarrow> carries d n' \<Longrightarrow> n = n'"
  unfolding carries_def using ParsePacket_unique by blast

lemma transmit_carries: "transmit P key dcid scid pn m frames who = Ret d \<Longrightarrow> carries d pn"
proof -
  assume "transmit P key dcid scid pn m frames who = Ret d"
  then obtain pkt where p: "SealTransport P key (transportHeader dcid scid pn) frames (maxPlaintextForDatagram m) = Ret pkt"
    "Packet_MarshalBinary pkt m = Ret d" by (auto simp: transmit_def obind_Ret_iff)
  from p(1) have pn: "PacketNumber (PHeader pkt) = pn"
    by (auto simp: SealTransport_def obind_Ret_iff SealTransportPlaintext_Ret_iff transportHeader_def split: if_splits)
  let ?q = "\<lparr>PHeader = (PHeader pkt)\<lparr>PayloadLength := word_of_nat (length (Payload pkt))\<rparr>, Payload = Payload pkt\<rparr>"
  have "Packet_MarshalBinary ?q m = Ret d" using p(2) by (simp add: Packet_MarshalBinary_def Let_def obind_Ret_iff decode_guard)
  moreover have "wf_packet ?q"
    using p(2) by (auto simp: wf_packet_def Packet_MarshalBinary_def go_consts split: if_splits)
  ultimately have "ParsePacket d m = Ret ?q" using packet_parse_marshal by blast
  with pn show "carries d pn" unfolding carries_def by fastforce
qed

text \<open>An endpoint as its peer sees it: a call changes the state, may send a datagram and may
  deliver one. The locale has what the code promises of the counter and of the window.\<close>

locale endpoint =
  fixes call :: "'c \<Rightarrow> 's \<Rightarrow> 's \<times> bytes option \<times> bytes option"
    and valid :: "'s \<Rightarrow> bool" and counter :: "'s \<Rightarrow> uint64" and window :: "'s \<Rightarrow> ReplayWindow"
  assumes valid_call: "valid s \<Longrightarrow> call c s = (s', out, inn) \<Longrightarrow> valid s'"
    and silent: "valid s \<Longrightarrow> call c s = (s', None, inn) \<Longrightarrow> unat (counter s) \<le> unat (counter s')"
    and sends: "valid s \<Longrightarrow> call c s = (s', Some d, inn) \<Longrightarrow>
      carries d (counter s) \<and> unat (counter s') = Suc (unat (counter s)) \<and> counter s < rehandshakePacketNumber"
    and keeps: "valid s \<Longrightarrow> call c s = (s', out, None) \<Longrightarrow>
      window s' = window s \<or> (\<exists>n. AcceptAuthenticated (window s) n = (window s', Ret ()))"
    and delivers: "valid s \<Longrightarrow> call c s = (s', out, Some d) \<Longrightarrow>
      \<exists>n. carries d n \<and> AcceptAuthenticated (window s) n = (window s', Ret ())"
begin

fun run :: "'c list \<Rightarrow> 's \<Rightarrow> 's \<times> bytes list \<times> bytes list" where
  "run [] s = (s, [], [])"
| "run (c # cs) s =
    (let (s', out, inn) = call c s; (s'', sent, got) = run cs s'
     in (s'', (case out of None \<Rightarrow> sent | Some d \<Rightarrow> d # sent), (case inn of None \<Rightarrow> got | Some d \<Rightarrow> d # got)))"

lemma run_numbers:
  assumes "valid s" and "run cs s = (s', sent, got)"
  shows "\<exists>ns. list_all2 carries sent ns \<and> sorted_wrt (<) ns
    \<and> (\<forall>n \<in> set ns. counter s \<le> n \<and> n < rehandshakePacketNumber)"
  using assms
proof (induction cs arbitrary: s s' sent got)
  case Nil
  then show ?case by simp
next
  case (Cons c cs)
  obtain t out inn where c: "call c s = (t, out, inn)" by (metis surj_pair)
  obtain sent' got' where r: "run cs t = (s', sent', got')" using Cons.prems(2) c by (auto split: prod.splits)
  from Cons.IH [OF valid_call [OF Cons.prems(1) c] r] obtain ns where
    ns: "list_all2 carries sent' ns" "sorted_wrt (<) ns" "\<forall>n \<in> set ns. counter t \<le> n \<and> n < rehandshakePacketNumber" by blast
  show ?case
  proof (cases out)
    case None
    then have "counter s \<le> counter t" using silent [OF Cons.prems(1)] c by (auto simp: word_le_nat_alt)
    with ns None Cons.prems(2) c r show ?thesis by (intro exI [of _ ns]) (auto intro: order_trans)
  next
    case (Some d)
    with sends [OF Cons.prems(1)] c have d: "carries d (counter s)" "unat (counter t) = Suc (unat (counter s))"
      "counter s < rehandshakePacketNumber" by auto
    then have lt: "counter s < counter t" by (simp add: word_less_nat_alt)
    have "\<forall>n \<in> set ns. counter s < n" using ns(3) lt by (auto intro: less_le_trans)
    with ns d Some Cons.prems(2) c r show ?thesis by (intro exI [of _ "counter s # ns"]) auto
  qed
qed

lemma run_delivered:
  assumes "valid s" and "run cs s = (s', sent, got)" and "window_represents (window s) A"
  shows "\<exists>ns B. list_all2 carries got ns \<and> distinct ns \<and> unat ` set ns \<inter> A = {}
    \<and> window_represents (window s') B \<and> A \<union> unat ` set ns \<subseteq> B"
  using assms
proof (induction cs arbitrary: s s' sent got A)
  case Nil
  then show ?case by auto
next
  case (Cons c cs)
  obtain t out inn where c: "call c s = (t, out, inn)" by (metis surj_pair)
  obtain sent' got' where r: "run cs t = (s', sent', got')" using Cons.prems(2) c by (auto split: prod.splits)
  have acc: "unat n \<notin> A \<and> window_represents (window t) (insert (unat n) A)"
    if "AcceptAuthenticated (window s) n = (window t, Ret ())" for n
    using AcceptAuthenticated_refines [OF Cons.prems(3), of n] AcceptAuthenticated_Ret_iff [OF Cons.prems(3), of n] that
    by (auto simp: spec_verdict_def split: if_splits)
  have "\<exists>A'. window_represents (window t) A' \<and> A \<subseteq> A'
      \<and> (\<forall>d. inn = Some d \<longrightarrow> (\<exists>n. carries d n \<and> unat n \<notin> A \<and> unat n \<in> A'))"
  proof (cases inn)
    case None
    then consider "window t = window s" | n where "AcceptAuthenticated (window s) n = (window t, Ret ())"
      using keeps [OF Cons.prems(1)] c by blast
    then show ?thesis
    proof cases
      case 1
      then show ?thesis using None Cons.prems(3) by auto
    next
      case 2
      from acc [OF 2] None show ?thesis by (intro exI [of _ "insert (unat n) A"]) auto
    qed
  next
    case (Some d)
    from delivers [OF Cons.prems(1) c [unfolded Some]] obtain n where
      n: "carries d n" "AcceptAuthenticated (window s) n = (window t, Ret ())" by blast
    from acc [OF n(2)] n(1) Some show ?thesis by (intro exI [of _ "insert (unat n) A"]) auto
  qed
  then obtain A' where A': "window_represents (window t) A'" "A \<subseteq> A'"
    "\<forall>d. inn = Some d \<longrightarrow> (\<exists>n. carries d n \<and> unat n \<notin> A \<and> unat n \<in> A')" by blast
  from Cons.IH [OF valid_call [OF Cons.prems(1) c] r A'(1)] obtain ns B where
    ns: "list_all2 carries got' ns" "distinct ns" "unat ` set ns \<inter> A' = {}" "window_represents (window s') B"
        "A' \<union> unat ` set ns \<subseteq> B" by blast
  show ?case
  proof (cases inn)
    case None
    with ns A'(2) Cons.prems(2) c r show ?thesis by (intro exI [of _ ns] exI [of _ B]) auto
  next
    case (Some d)
    with A'(3) obtain n where n: "carries d n" "unat n \<notin> A" "unat n \<in> A'" by blast
    have "n \<notin> set ns" using ns(3) n(3) by auto
    with ns n A'(2) Some Cons.prems(2) c r show ?thesis by (intro exI [of _ "n # ns"] exI [of _ B]) auto
  qed
qed

end


section \<open>The client as an endpoint\<close>

datatype client_call =
  CallBuildConfirm | CallRetransmit | CallPong bytes | CallSeal "Frame list" | CallOpen bytes | CallClose

definition sent :: "'a hs_result \<Rightarrow> ('a \<Rightarrow> bytes) \<Rightarrow> bytes option" where
  "sent r f = (case r of Ret x \<Rightarrow> Some (f x) | _ \<Rightarrow> None)"

definition got :: "'a hs_result \<Rightarrow> bytes \<Rightarrow> bytes option" where
  "got r d = (case r of Ret _ \<Rightarrow> Some d | _ \<Rightarrow> None)"

fun client_do :: "prims \<Rightarrow> client_call \<Rightarrow> Client \<Rightarrow> Client \<times> bytes option \<times> bytes option" where
  "client_do P CallBuildConfirm c = (let (c', r) = BuildConfirm P c in (c', sent r fst, None))"
| "client_do P CallRetransmit c = (let (c', r) = RetransmitConfirm P c in (c', sent r id, None))"
| "client_do P (CallPong d) c = (let (c', r) = HandlePong P d c in (c', None, got r d))"
| "client_do P (CallSeal frames) c = (let (c', r) = Client_Seal P frames c in (c', sent r id, None))"
| "client_do P (CallOpen d) c = (let (c', r) = Client_Open P d c in (c', None, got r d))"
| "client_do P CallClose c = (Client_Close c, None, None)"

lemma rehandshake_unat: "unat rehandshakePacketNumber = 2 ^ 32"
  by (simp add: rehandshakePacketNumber_def push_bit_eq_mult unat_word_ariths)

lemma pn_succ: "pn < rehandshakePacketNumber \<Longrightarrow> unat (pn + 1) = Suc (unat pn)"
  using unat_succ_less [of pn rehandshakePacketNumber] by simp

lemma Client_close_fields [simp]:
  "c_sendPN (Client_closeLocked st c) = c_sendPN c" "c_receiveWindow (Client_closeLocked st c) = c_receiveWindow c"
  "c_sendPN (set_random r c) = c_sendPN c" "c_receiveWindow (set_random r c) = c_receiveWindow c"
  by (simp_all add: Client_closeLocked_def set_random_def)

lemma Client_seal_step:
  assumes "Client_sealLocked P frames c = (c', r)"
  shows "c_receiveWindow c' = c_receiveWindow c \<and> unat (c_sendPN c) \<le> unat (c_sendPN c')
    \<and> (\<forall>d. r = Ret d \<longrightarrow> carries d (c_sendPN c) \<and> unat (c_sendPN c') = Suc (unat (c_sendPN c))
         \<and> c_sendPN c < rehandshakePacketNumber)"
  using assms transmit_carries pn_succ [of "c_sendPN c"] unfolding Client_sealLocked_transmit
  by (auto simp: not_le hs_err_def split: if_splits)

lemma Client_open_step:
  assumes "Client_openLocked P d c = (c', r)"
  shows "c_sendPN c' = c_sendPN c
    \<and> (c_receiveWindow c' = c_receiveWindow c \<or> (\<exists>n. AcceptAuthenticated (c_receiveWindow c) n = (c_receiveWindow c', Ret ())))
    \<and> (\<forall>frames. r = Ret frames \<longrightarrow> (\<exists>n. carries d n \<and> AcceptAuthenticated (c_receiveWindow c) n = (c_receiveWindow c', Ret ())))"
proof -
  obtain w where w: "receive P (c_s2cKey c) (c_clientCID c) (c_serverCID c) (c_transportMaxSize c) d ''server''
      (c_receiveWindow c) = (w, r)" "c' = c\<lparr>c_receiveWindow := w\<rparr>"
    using assms by (auto simp: Client_openLocked_receive split: prod.splits)
  moreover have "\<exists>n. carries d n \<and> AcceptAuthenticated (c_receiveWindow c) n = (w, Ret ())" if "r = Ret frames" for frames
    using w(1) unfolding that by (elim receive_Ret) (auto simp: carries_def)
  ultimately show ?thesis using receive_window [OF w(1)] by auto
qed

lemma client_do_step:
  assumes "client_do P call c = (c', out, inn)"
  shows "(out = None \<longrightarrow> unat (c_sendPN c) \<le> unat (c_sendPN c'))
    \<and> (\<forall>d. out = Some d \<longrightarrow> carries d (c_sendPN c) \<and> unat (c_sendPN c') = Suc (unat (c_sendPN c)) \<and> c_sendPN c < rehandshakePacketNumber)
    \<and> (inn = None \<longrightarrow> c_receiveWindow c' = c_receiveWindow c \<or> (\<exists>n. AcceptAuthenticated (c_receiveWindow c) n = (c_receiveWindow c', Ret ())))
    \<and> (\<forall>d. inn = Some d \<longrightarrow> (\<exists>n. carries d n \<and> AcceptAuthenticated (c_receiveWindow c) n = (c_receiveWindow c', Ret ())))"
proof (cases call)
  case CallBuildConfirm
  obtain random ch where rd: "ReadFull (co_random (c_options c)) 8 = (random, ch)" by fastforce
  show ?thesis
  proof (cases "c_state c = StatePendingConfirm \<and> (\<exists>challenge. ch = Ret challenge)")
    case True
    then obtain challenge where ch: "ch = Ret challenge" by blast
    obtain c1 r where s: "Client_sealLocked P (confirmFrames (c_th2 c) challenge) (set_random random c) = (c1, r)" by fastforce
    show ?thesis using assms CallBuildConfirm True rd ch Client_seal_step [OF s]
      by (cases r) (auto simp: BuildConfirm_def sent_def s)
  next
    case False
    with assms CallBuildConfirm rd show ?thesis
      by (cases ch) (auto simp: BuildConfirm_def sent_def hs_err_def split: if_splits)
  qed
next
  case CallRetransmit
  then show ?thesis using assms Client_seal_step
    by (auto simp: RetransmitConfirm_def sent_def hs_err_def split: if_splits outcome.splits prod.splits)
next
  case (CallPong d)
  obtain c1 r where o: "Client_openLocked P d c = (c1, r)" by fastforce
  show ?thesis using assms CallPong Client_open_step [OF o] o
    by (auto simp: HandlePong_def got_def hs_err_def or_return_def split: if_splits outcome.splits prod.splits list.splits)
next
  case (CallSeal frames)
  then show ?thesis using assms Client_seal_step
    by (auto simp: Client_Seal_def sent_def hs_err_def split: if_splits outcome.splits prod.splits)
next
  case (CallOpen d)
  then show ?thesis using assms Client_open_step
    by (auto simp: Client_Open_def got_def hs_err_def split: if_splits outcome.splits prod.splits)
next
  case CallClose
  then show ?thesis using assms by (auto simp: Client_Close_def)
qed

interpretation client_end: endpoint "client_do P" "\<lambda>_. True" c_sendPN c_receiveWindow for P
  by unfold_locales (use client_do_step [of P] in \<open>blast+\<close>)


section \<open>A server session as an endpoint\<close>

datatype session_call =
  CallConfirm bytes gotime gotime | CallSessionSeal "Frame list" gotime | CallSessionOpen bytes | CallSessionClose gotime

fun session_do :: "prims \<Rightarrow> nat \<Rightarrow> session_call \<Rightarrow> Server \<Rightarrow> Server \<times> bytes option \<times> bytes option" where
  "session_do P s (CallConfirm d now later) v = (let (v', r) = HandleConfirm P d s now later v in (v', sent r id, got r d))"
| "session_do P s (CallSessionSeal frames now) v = (let (v', r) = Session_Seal P frames s now v in (v', sent r id, None))"
| "session_do P s (CallSessionOpen d) v = (let (v', r) = Session_Open P d s v in (v', None, got r d))"
| "session_do P s (CallSessionClose now) v = (Session_Close s now v, None, None)"

text \<open>The part of the server that the counter and the window of a session are in.\<close>

definition counters :: "nat \<Rightarrow> Server \<Rightarrow> nat \<times> uint64 \<times> ReplayWindow" where
  "counters s v = (length (sv_sessions v), ss_sendPN (session v s), ss_receiveWindow (session v s))"

lemma counters_sessions: "sv_sessions a = sv_sessions b \<Longrightarrow> counters s a = counters s b"
  by (simp add: counters_def session_def)

lemma counters_close [simp]: "counters s (Session_closeLocked st s' t v) = counters s v"
  by (simp add: counters_def Session_closeLocked_def Let_def)

lemma counters_table [simp]:
  "promoteAttempt k s' t v = (v', b) \<Longrightarrow> counters s v' = counters s v"
  "confirmGraceActive k s' t v = (v', b) \<Longrightarrow> counters s v' = counters s v"
  by (auto simp: promoteAttempt_def confirmGraceActive_def Let_def split: option.splits if_splits intro!: counters_sessions)

definition advances :: "nat \<times> uint64 \<times> ReplayWindow \<Rightarrow> nat \<times> uint64 \<times> ReplayWindow \<Rightarrow> bytes hs_result \<Rightarrow> bool" where
  "advances a b r \<longleftrightarrow> fst b = fst a \<and> snd (snd b) = snd (snd a) \<and> unat (fst (snd a)) \<le> unat (fst (snd b))
     \<and> (\<forall>d. r = Ret d \<longrightarrow> carries d (fst (snd a)) \<and> unat (fst (snd b)) = Suc (unat (fst (snd a)))
          \<and> fst (snd a) < rehandshakePacketNumber)"

lemma advances_err [simp]: "advances a a (hs_err k t)" "advances a b (Ret d) \<Longrightarrow> advances a b (Err e)"
  by (simp_all add: advances_def hs_err_def)

lemma Session_seal_step:
  assumes "Session_sealLocked P frames s t v = (v', r)" and "s < length (sv_sessions v)"
  shows "advances (counters s v) (counters s v') r"
  using assms transmit_carries pn_succ [of "ss_sendPN (session v s)"] unfolding Session_sealLocked_transmit [OF refl]
  by (auto simp: not_le split: if_splits) (auto simp: advances_def counters_def)

lemma replyPong_step:
  assumes "replyPong P ch s t v = (v', r)" and "s < length (sv_sessions v)"
  shows "advances (counters s v) (counters s v') r"
proof -
  obtain v1 r1 where seal: "Session_sealLocked P [\<lparr>FType = FramePong, FFlags = 0, FBody = ch\<rparr>] s t v = (v1, r1)" by fastforce
  show ?thesis using assms(1) Session_seal_step [OF seal assms(2)]
    by (cases r1) (auto simp: replyPong_def seal advances_def)
qed

lemma counters_set_session:
  "ss_sendPN x = ss_sendPN (session v s) \<Longrightarrow> ss_receiveWindow x = ss_receiveWindow (session v s)
    \<Longrightarrow> counters s (set_session s x v) = counters s v"
  by (simp add: counters_def)

lemma promoteAttempt_sessions: "promoteAttempt k s t v = (v', b) \<Longrightarrow> sv_sessions v' = sv_sessions v"
  and confirmGraceActive_sessions: "confirmGraceActive k s t v = (v', b) \<Longrightarrow> sv_sessions v' = sv_sessions v"
  by (auto simp: promoteAttempt_def confirmGraceActive_def Let_def split: option.splits if_splits)

lemma confirmOpened_step:
  assumes "confirmOpened P est frames s now later v = (v', r)" and s: "s < length (sv_sessions v)"
  shows "advances (counters s v) (counters s v') r"
proof (cases "\<exists>f0 f1. frames = [f0, f1] \<and> FType f0 = FrameConfirm \<and> FType f1 = FramePing \<and> FBody f0 = ss_th2 (session v s)")
  case False
  then show ?thesis using assms(1)
    by (auto simp: confirmOpened_def Let_def split: list.splits if_splits)
next
  case True
  then obtain f0 f1 where f: "frames = [f0, f1]" "FType f0 = FrameConfirm" "FType f1 = FramePing" "FBody f0 = ss_th2 (session v s)"
    by blast
  let ?x = "session v s"
  show ?thesis
  proof (cases est)
    case True
    obtain v1 b where g: "confirmGraceActive (ss_attemptKey ?x) s now v = (v1, b)" by fastforce
    have "replyPong P (FBody f1) s later v1 = (v', r) \<Longrightarrow> ?thesis"
      using replyPong_step [of P "FBody f1" s later v1] s confirmGraceActive_sessions [OF g] counters_table(2) [OF g] by simp
    then show ?thesis using assms(1) True f g counters_table(2) [OF g]
      by (auto simp: confirmOpened_def Let_def split: if_splits bool.splits)
  next
    case False
    obtain v1 b where g: "promoteAttempt (ss_attemptKey ?x) s now v = (v1, b)" by fastforce
    let ?y = "(session v1 s)\<lparr>ss_confirmChallenge := take 8 (FBody f1) @ drop (length (FBody f1)) (ss_confirmChallenge (session v1 s)),
      ss_haveConfirmChallenge := True, ss_state := StateEstablished\<rparr>"
    have "counters s (set_session s ?y v1) = counters s v1" by (simp add: counters_set_session)
    then have "replyPong P (FBody f1) s later (set_session s ?y v1) = (v', r) \<Longrightarrow> ?thesis"
      using replyPong_step [of P "FBody f1" s later "set_session s ?y v1"] s promoteAttempt_sessions [OF g] counters_table(1) [OF g] by simp
    then show ?thesis using assms(1) False f g counters_table(1) [OF g]
      by (auto simp: confirmOpened_def Let_def split: if_splits bool.splits)
  qed
qed

lemma Session_open_step:
  assumes "Session_openLocked P d s v = (v', r)" and "s < length (sv_sessions v)"
  shows "length (sv_sessions v') = length (sv_sessions v) \<and> ss_sendPN (session v' s) = ss_sendPN (session v s)
    \<and> (ss_receiveWindow (session v' s) = ss_receiveWindow (session v s)
       \<or> (\<exists>n. AcceptAuthenticated (ss_receiveWindow (session v s)) n = (ss_receiveWindow (session v' s), Ret ())))
    \<and> (\<forall>frames. r = Ret frames \<longrightarrow> (\<exists>n. carries d n
         \<and> AcceptAuthenticated (ss_receiveWindow (session v s)) n = (ss_receiveWindow (session v' s), Ret ())))"
proof -
  let ?x = "session v s"
  obtain w where w: "receive P (ss_c2sKey ?x) (ss_serverCID ?x) (ss_clientCID ?x) (ss_maxDatagram ?x) d ''client''
      (ss_receiveWindow ?x) = (w, r)" "v' = set_session s (?x\<lparr>ss_receiveWindow := w\<rparr>) v"
    using assms(1) by (auto simp: Session_openLocked_receive [OF refl] split: prod.splits)
  moreover have "\<exists>n. carries d n \<and> AcceptAuthenticated (ss_receiveWindow ?x) n = (w, Ret ())" if "r = Ret frames" for frames
    using w(1) unfolding that by (elim receive_Ret) (auto simp: carries_def)
  ultimately show ?thesis using receive_window [OF w(1)] assms(2) by auto
qed


lemma session_do_step:
  assumes "session_do P s call v = (v', out, inn)" and s: "s < length (sv_sessions v)"
  shows "s < length (sv_sessions v')
    \<and> (out = None \<longrightarrow> unat (ss_sendPN (session v s)) \<le> unat (ss_sendPN (session v' s)))
    \<and> (\<forall>d. out = Some d \<longrightarrow> carries d (ss_sendPN (session v s)) \<and> unat (ss_sendPN (session v' s)) = Suc (unat (ss_sendPN (session v s)))
         \<and> ss_sendPN (session v s) < rehandshakePacketNumber)
    \<and> (inn = None \<longrightarrow> ss_receiveWindow (session v' s) = ss_receiveWindow (session v s)
         \<or> (\<exists>n. AcceptAuthenticated (ss_receiveWindow (session v s)) n = (ss_receiveWindow (session v' s), Ret ())))
    \<and> (\<forall>d. inn = Some d \<longrightarrow> (\<exists>n. carries d n
         \<and> AcceptAuthenticated (ss_receiveWindow (session v s)) n = (ss_receiveWindow (session v' s), Ret ())))"
proof (cases call)
  case (CallConfirm d now later)
  obtain v1 opened where o: "Session_openLocked P d s v = (v1, opened)" by fastforce
  note os = Session_open_step [OF o s]
  show ?thesis
  proof (cases opened)
    case (Ret frames)
    let ?est = "ss_state (session v s) = StateEstablished"
    obtain v2 r where c: "confirmOpened P ?est frames s now later v1 = (v2, r)" by fastforce
    have s1: "s < length (sv_sessions v1)" using os s by simp
    note cs = confirmOpened_step [OF c s1, unfolded advances_def counters_def fst_conv snd_conv]
    show ?thesis using assms(1) CallConfirm Ret o c os cs s
      by (cases r) (auto simp: HandleConfirm_def Let_def sent_def got_def hs_err_def split: if_splits)
  qed (use assms(1) CallConfirm o os s in
      \<open>auto simp: HandleConfirm_def Let_def sent_def got_def hs_err_def split: if_splits\<close>)
next
  case (CallSessionSeal frames now)
  obtain v1 r where o: "Session_sealLocked P frames s now v = (v1, r)" by fastforce
  show ?thesis using assms CallSessionSeal o Session_seal_step [OF o s, unfolded advances_def counters_def fst_conv snd_conv]
    by (cases r) (auto simp: Session_Seal_def sent_def hs_err_def split: if_splits)
next
  case (CallSessionOpen d)
  obtain v1 r where o: "Session_openLocked P d s v = (v1, r)" by fastforce
  show ?thesis using assms CallSessionOpen o Session_open_step [OF o s]
    by (cases r) (auto simp: Session_Open_def got_def hs_err_def split: if_splits)
next
  case (CallSessionClose now)
  have "counters s (Session_closeLocked StateClosed s now v) = counters s v" by simp
  then show ?thesis using assms CallSessionClose by (auto simp: Session_Close_def counters_def)
qed

interpretation session_end: endpoint "session_do P s" "\<lambda>v. s < length (sv_sessions v)"
    "\<lambda>v. ss_sendPN (session v s)" "\<lambda>v. ss_receiveWindow (session v s)" for P s
  by unfold_locales (use session_do_step [of P s] in \<open>blast+\<close>)

lemma carried_distinct:
  assumes "list_all2 carries ds ns" and "distinct ns"
  shows "distinct ds"
  using assms
proof (induction rule: list_all2_induct)
  case (Cons d ds n ns)
  have "d \<notin> set ds"
  proof
    assume "d \<in> set ds"
    then obtain n' where "n' \<in> set ns" "carries d n'"
      using Cons.hyps(2) by (metis in_set_conv_nth list_all2_conv_all_nth)
    with Cons show False using carries_unique by auto
  qed
  with Cons show ?case by simp
qed simp

section \<open>A sample configuration\<close>

definition sample_client_config :: ClientConfig where
  "sample_client_config =
     \<lparr>cc_DeploymentID = replicate 16 1, cc_StaticPrivate = Some (replicate 32 1),
      cc_ServerStaticPublic = replicate 32 2, cc_Random = Some (replicate 48 3), cc_RetryToken = [],
      cc_Capabilities = 0, cc_AddressFamilies = 0, cc_MaxDatagramSize = 0, cc_MinTunnelMTU = 0, cc_MaxTunnelMTU = 0\<rparr>"

definition sample_server_config :: ServerConfig where
  "sample_server_config =
     \<lparr>sc_DeploymentID = replicate 16 1, sc_StaticPrivate = Some (replicate 32 2),
      sc_RegisteredClients = [replicate 32 1], sc_Random = Some (replicate 40 4), sc_Capabilities = 0,
      sc_AddressFamilies = 0, sc_MaxDatagramSize = 0, sc_TunnelMTU = 0, sc_LeaseSeconds = 0,
      sc_IPv4Lease = [10, 0, 0, 2, 24], sc_IPv6Lease = [], sc_EgressPolicy = 0, sc_DNSParameters = [],
      sc_PendingAttemptTimeout = 0, sc_ConfirmGracePeriod = 0, sc_AttemptReplayRetention = 0,
      sc_MaxPendingAttempts = 0, sc_MaxAttemptRecords = 0\<rparr>"

definition sample_client_options :: clientOptions where
  "sample_client_options = \<lparr>co_random = replicate 48 3, co_addressFamilies = 3, co_maxDatagramSize = 1400,
     co_minTunnelMTU = 576, co_maxTunnelMTU = 1348, co_capabilities = 0, co_retryToken = []\<rparr>"

definition sample_client :: Client where
  "sample_client =
     \<lparr>c_state = StateIdle, c_deploymentID = replicate 16 1, c_staticPrivate = Some (replicate 32 1),
      c_staticPublic = replicate 32 1, c_serverStaticPublic = replicate 32 2, c_options = sample_client_options,
      c_context = Context (replicate 16 1), c_clientCID = 0, c_serverCID = 0, c_ephemeralPrivate = None,
      c_es = zeroKey, c_th1 = zeroKey, c_th2 = zeroKey, c_c2sKey = zeroKey, c_s2cKey = zeroKey, c_sendPN = 0,
      c_receiveWindow = new_ReplayWindow, c_transportMaxSize = 1400, c_pendingChallenge = replicate 8 0,
      c_haveChallenge = False, c_negotiated = noNegotiated\<rparr>"

lemma pad32_32: "length k = 32 \<Longrightarrow> pad32 k = k"
  by (simp add: pad32_def)

lemma sample_client_new: "NewClient sample_prims [] sample_client_config = Ret sample_client"
  by (simp add: NewClient_def normalizeClientConfig_def sample_client_config_def frameOverhead_def go_consts
      PublicBytes_def sample_prims_def pad32_32 sample_client_def sample_client_options_def Let_def)

definition sample_server_options :: serverOptions where
  "sample_server_options =
     \<lparr>so_random = replicate 40 4, so_addressFamilies = 1, so_maxDatagramSize = 1400, so_tunnelMTU = 1348,
      so_leaseSeconds = 600, so_capabilities = 0, so_ipv4Lease = [10, 0, 0, 2, 24], so_ipv6Lease = [],
      so_egressPolicy = 0, so_dnsParameters = [], so_pendingAttemptTimeout = 5000000000,
      so_confirmGracePeriod = 10000000000, so_attemptReplayRetention = 30000000000,
      so_maxPendingAttempts = 1024, so_maxAttemptRecords = 4096\<rparr>"

definition sample_server :: Server where
  "sample_server =
     \<lparr>sv_deploymentID = replicate 16 1, sv_staticPrivate = Some (replicate 32 2),
      sv_registeredClients = [replicate 32 1], sv_options = sample_server_options,
      sv_context = Context (replicate 16 1), sv_activeCIDs = [], sv_attempts = [], sv_activeAttempts = 0,
      sv_entries = [], sv_sessions = []\<rparr>"

lemma sample_server_new: "NewServer [] sample_server_config = Ret sample_server"
  by (simp add: NewServer_def normalizeServerConfig_def sample_server_config_def frameOverhead_def go_consts
      sample_server_def sample_server_options_def Let_def MaxInt_def)

text \<open>The sample server with one open session.\<close>

definition sample_server1 :: Server where
  "sample_server1 = sample_server\<lparr>sv_activeCIDs := [7], sv_sessions :=
     [newSession sample_packet 7 (replicate 32 1) zeroKey zeroKey zeroKey 1400]\<rparr>"

section \<open>Properties\<close>

text \<open>C6. Transport nonces are never reused: whatever calls a client makes, from any state, the
  datagrams it sends carry strictly increasing packet numbers below the rehandshake limit of
  2 to the 32; the same holds for the datagrams of every server session.\<close>

theorem transport_numbers_increase:
  assumes "s < length (sv_sessions v)"
  shows "(\<exists>ns. list_all2 carries (fst (snd (client_end.run P cs c))) ns \<and> sorted_wrt (<) ns
      \<and> list_all (\<lambda>n. unat n < 2 ^ 32) ns)
    \<and> (\<exists>ns. list_all2 carries (fst (snd (session_end.run P s ss v))) ns \<and> sorted_wrt (<) ns
      \<and> list_all (\<lambda>n. unat n < 2 ^ 32) ns)"
proof -
  obtain c' out inn where c: "client_end.run P cs c = (c', out, inn)" by (metis surj_pair)
  obtain v' out' inn' where v: "session_end.run P s ss v = (v', out', inn')" by (metis surj_pair)
  have lim: "n < rehandshakePacketNumber \<longleftrightarrow> unat n < 2 ^ 32" for n
    by (simp add: word_less_nat_alt rehandshake_unat)
  show ?thesis
    using client_end.run_numbers [OF TrueI c] session_end.run_numbers [OF assms v]
    by (auto simp: c v lim list_all_iff)
qed

theorem transport_numbers_increase_witness:
  "0 < length (sv_sessions sample_server1)
   \<and> (\<exists>ns. list_all2 carries (fst (snd (client_end.run sample_prims [CallClose, CallBuildConfirm] sample_client))) ns
      \<and> sorted_wrt (<) ns \<and> list_all (\<lambda>n. unat n < 2 ^ 32) ns)"
proof -
  have s: "0 < length (sv_sessions sample_server1)" by (simp add: sample_server1_def)
  from transport_numbers_increase [OF s, of sample_prims "[CallClose, CallBuildConfirm]" sample_client "[]"] s
  show ?thesis by blast
qed

text \<open>C7. No replay: whatever datagrams reach a client or a server session that starts with a
  fresh window, and however its calls are interleaved, no datagram is delivered twice.\<close>

theorem transport_delivers_once:
  assumes "c_receiveWindow c = new_ReplayWindow" and "s < length (sv_sessions v)"
    and "ss_receiveWindow (session v s) = new_ReplayWindow"
  shows "distinct (snd (snd (client_end.run P cs c))) \<and> distinct (snd (snd (session_end.run P s ss v)))"
proof -
  obtain c' out inn where c: "client_end.run P cs c = (c', out, inn)" by (metis surj_pair)
  obtain v' out' inn' where v: "session_end.run P s ss v = (v', out', inn')" by (metis surj_pair)
  show ?thesis
    using client_end.run_delivered [OF TrueI c, of "{}"] session_end.run_delivered [OF assms(2) v, of "{}"]
      new_ReplayWindow_represents carried_distinct by (auto simp: c v assms)
qed

theorem transport_delivers_once_witness:
  "distinct (snd (snd (session_end.run sample_prims 0 [CallSessionOpen [1, 2], CallSessionOpen [1, 2]] sample_server1)))"
proof -
  have c: "c_receiveWindow sample_client = new_ReplayWindow" by (simp add: sample_client_def)
  have s: "0 < length (sv_sessions sample_server1)" by (simp add: sample_server1_def)
  have w: "ss_receiveWindow (session sample_server1 0) = new_ReplayWindow"
    by (simp add: sample_server1_def session_def newSession_def)
  from transport_delivers_once [OF c s w] show ?thesis by blast
qed

end
