(* ===== verification/Handshake_Liveness.thy ===== *)
theory Handshake_Liveness
  imports Handshake_Completion Handshake_Traffic
begin

text \<open>
  The complete handshake: \<^verbatim>\<open>Start\<close>, \<^verbatim>\<open>HandleInitial\<close>, \<^verbatim>\<open>Finish\<close>, \<^verbatim>\<open>BuildConfirm\<close>,
  \<^verbatim>\<open>HandleConfirm\<close> and \<^verbatim>\<open>HandlePong\<close> between a client and a server whose configurations fit
  together end with both sides Established and with the same keys. The server may have other
  sessions and attempts; it needs room for one more attempt.
\<close>

unbundle bit_operations_syntax

section \<open>Each call succeeds\<close>

text \<open>The random source gives a connection identifier at its first try, and a key after it.\<close>

definition supplies :: "bytes \<Rightarrow> uint64 \<Rightarrow> bytes \<Rightarrow> bool" where
  "supplies random cid key \<longleftrightarrow> 40 \<le> length random \<and> (Uint64 (take 8 random) :: uint64 hs_result) = Ret cid \<and> cid \<noteq> 0
     \<and> key = take 32 (drop 8 random)"

lemma supplies_CID: "supplies random cid key \<Longrightarrow> nextNonZeroCID random = (drop 8 random, Ret cid)"
proof -
  assume "supplies random cid key"
  then have "nonZeroCID_loop (Suc n) random = (drop 8 random, Ret cid)" for n by (auto simp: supplies_def ReadFull_def)
  from this [of 31] show ?thesis by (simp add: nextNonZeroCID_def del: nonZeroCID_loop.simps)
qed

lemma supplies_key:
  "supplies random cid key \<Longrightarrow> GenerateKeyFrom (Some (drop 8 random)) = Ret (key, drop 40 random)"
  by (auto simp: supplies_def GenerateKeyFrom_def)

lemma Start_succeeds:
  assumes "c_state client = StateIdle" and "supplies (co_random (c_options client)) cid eph"
    and "initialMessage P client cid eph = Ret (d, es, th1)"
  shows "Start P client = ((set_random (drop 40 (co_random (c_options client))) client)\<lparr>c_clientCID := cid,
     c_ephemeralPrivate := Some eph, c_es := es, c_th1 := th1, c_state := StateInitialSent\<rparr>, Ret d)"
  using assms supplies_CID [OF assms(2)] supplies_key [OF assms(2)] by (simp add: Start_def)

subsection \<open>A new attempt\<close>

text \<open>The cleanup only makes room: it drops records, and the counter of attempts goes down.\<close>

lemma cleanup_shrinks:
  "cleanup_loop now tab a = (a', ex, ch) \<Longrightarrow> set (sv_attempts a') \<subseteq> set (sv_attempts a)
     \<and> length (sv_attempts a') \<le> length (sv_attempts a) \<and> sv_activeAttempts a' \<le> sv_activeAttempts a
     \<and> sv_activeCIDs a' = sv_activeCIDs a"
proof (induction tab arbitrary: a a' ex ch)
  case Nil
  then show ?case by simp
next
  case (Cons p rest)
  obtain key e where p: "p = (key, e)" by fastforce
  have del: "set (AList.delete key xs) \<subseteq> set xs" "length (AList.delete key xs) \<le> length xs" for xs :: "(bytes \<times> nat) list"
    by (auto simp: AList.delete_eq)
  let ?t = "tombstoneAttemptLocked e (ErrAttemptExpired, '''') now a"
  have t: "sv_attempts ?t = sv_attempts a" "sv_activeCIDs ?t = sv_activeCIDs a"
    "sv_activeAttempts ?t \<le> sv_activeAttempts a"
    by (simp_all add: tombstoneAttemptLocked_def Let_def)
  from Cons.prems obtain b ex' ch' where "cleanup_loop now rest b = (a', ex', ch')"
    and "b \<in> {a, a\<lparr>sv_attempts := AList.delete key (sv_attempts a)\<rparr>, ?t}"
    by (auto simp: p Let_def split: prod.splits if_splits option.splits attemptPhase.splits)
  moreover from this t del [of "sv_attempts a"] have "set (sv_attempts b) \<subseteq> set (sv_attempts a)"
    "length (sv_attempts b) \<le> length (sv_attempts a)" "sv_activeAttempts b \<le> sv_activeAttempts a" "sv_activeCIDs b = sv_activeCIDs a"
    by auto
  ultimately show ?case using Cons.IH [of b a' ex' ch'] by (metis order_trans)
qed

text \<open>Closing sessions leaves an attempt that is being built alone.\<close>

definition building :: "Server \<Rightarrow> bytes \<Rightarrow> nat \<Rightarrow> bool" where
  "building server key e \<longleftrightarrow> map_of (sv_attempts server) key = Some e \<and> e < length (sv_entries server)
     \<and> ae_phase (entry server e) = attemptBuilding \<and> ae_key (entry server e) = key"

lemma removeAttempt_entry:
  "ae_phase (entry server e) = attemptBuilding \<Longrightarrow> entry (removeAttempt k s r t server) e = entry server e"
  by (auto simp: removeAttempt_def tombstoneAttemptLocked_def Let_def split: option.splits) (simp_all add: entry_def)

lemma close_keeps_building:
  assumes "building server key e"
  shows "building (Session_closeLocked st s t server) key e"
    "set (sv_activeCIDs (Session_closeLocked st s t server)) \<subseteq> set (sv_activeCIDs server)"
  using assms removeAttempt_entry [of server e] by (auto simp: building_def Session_closeLocked_def Let_def)

lemma closeExpired_keeps_building:
  "building server key e \<Longrightarrow> building (closeExpiredSessions ss t server) key e
     \<and> set (sv_activeCIDs (closeExpiredSessions ss t server)) \<subseteq> set (sv_activeCIDs server)"
proof (induction ss t server rule: closeExpiredSessions.induct)
  case (2 s rest now server)
  then show ?case using close_keeps_building [of server key e StateClosed s now] by (auto simp: Session_Close_def)
qed simp

definition room :: "Server \<Rightarrow> bool" where
  "room server \<longleftrightarrow> sv_activeAttempts server < so_maxPendingAttempts (sv_options server)
     \<and> int (length (sv_attempts server)) < so_maxAttemptRecords (sv_options server)"

lemma acquire_new:
  assumes "room server" and "map_of (sv_attempts server) key = None"
  obtains server1 e where "acquireAttempt now later key initial server
      = (server1, Lease \<lparr>al_entry = Some e, al_builder = True, al_session = None, al_response = []\<rparr>)"
    and "building server1 key e" and "set (sv_activeCIDs server1) \<subseteq> set (sv_activeCIDs server)"
proof -
  obtain s1 ex ch where c: "cleanupAttemptsLocked now server = (s1, ex, ch)" by (metis surj_pair)
  note cl = c [unfolded cleanupAttemptsLocked_def]
  have opts: "sv_options s1 = sv_options server" using frame_cleanup [OF cl, of server] by (simp add: frame_cache_def)
  note sh = cleanup_shrinks [OF cl]
  have none: "map_of (sv_attempts s1) key = None" using assms(2) sh by (auto simp: map_of_eq_None_iff)
  let ?s2 = "fst (acquireLocked now key initial s1)" and ?e = "length (sv_entries s1)"
  have acq: "snd (acquireLocked now key initial s1)
      = Lease \<lparr>al_entry = Some ?e, al_builder = True, al_session = None, al_response = []\<rparr>"
    and b: "building ?s2 key ?e" and cids: "sv_activeCIDs ?s2 = sv_activeCIDs s1"
    using none sh opts assms(1)
    by (auto simp: acquireLocked_def Let_def room_def building_def entry_def map_add_def split: option.splits)
  show thesis
  proof (rule that)
    show "acquireAttempt now later key initial server
      = (closeExpiredSessions ex later ?s2, Lease \<lparr>al_entry = Some ?e, al_builder = True, al_session = None, al_response = []\<rparr>)"
      using acq by (simp add: acquireAttempt_def c split_beta)
  qed (use closeExpired_keeps_building [OF b, of ex later] cids sh in auto)
qed

lemma reserve_first:
  assumes "supplies (so_random (sv_options server)) cid key" and "cid \<notin> set (sv_activeCIDs server)"
  shows "reserveServerCIDLocked server
    = ((set_server_random (drop 8 (so_random (sv_options server))) server)\<lparr>sv_activeCIDs := cid # sv_activeCIDs server\<rparr>, Ret cid)"
proof -
  have "reserve_loop (Suc n) server
    = ((set_server_random (drop 8 (so_random (sv_options server))) server)\<lparr>sv_activeCIDs := cid # sv_activeCIDs server\<rparr>, Ret cid)" for n
    using assms(2) supplies_CID [OF assms(1)] by (simp add: set_server_random_def)
  from this [of 31] show ?thesis by (simp add: reserveServerCIDLocked_def del: reserve_loop.simps)
qed

text \<open>The attempt is answered: the table has the session under the transcript of the INITIAL.\<close>

definition answered :: "Server \<Rightarrow> bytes \<Rightarrow> nat \<Rightarrow> gotime \<Rightarrow> bool" where
  "answered server key s deadline \<longleftrightarrow> s < length (sv_sessions server) \<and> ss_hasAttempt (session server s)
     \<and> ss_attemptKey (session server s) = key
     \<and> (\<exists>e. map_of (sv_attempts server) key = Some e \<and> e < length (sv_entries server)
          \<and> ae_phase (entry server e) = attemptReady \<and> ae_session (entry server e) = Some s
          \<and> ae_expiresAt (entry server e) = deadline)"

lemma publishSession_building:
  assumes "building server key e"
  shows "\<exists>server'. publishSession e x resp now later server = (server', Ret (Some (length (sv_sessions server)), resp))
    \<and> answered server' key (length (sv_sessions server)) (now + so_pendingAttemptTimeout (sv_options server))
    \<and> session server' (length (sv_sessions server)) = x\<lparr>ss_attemptKey := key, ss_hasAttempt := True\<rparr>"
  using assms unfolding publishSession_def publishAttempt_def Let_def building_def answered_def
  by (auto simp: entry_def session_def nth_append set_entry_def set_session_def)

lemma building_random [simp]:
  "building (set_server_random r (server\<lparr>sv_activeCIDs := l\<rparr>)) key e = building server key e"
  "building (set_server_random r server) key e = building server key e"
  "building (server\<lparr>sv_activeCIDs := l\<rparr>) key e = building server key e"
  by (simp_all add: building_def set_server_random_def entry_def)

lemma buildAttempt_succeeds:
  assumes b: "building server th1 e" and opened: "openInitial P server p i ad = Ret opened"
    and rnd: "supplies (so_random (sv_options server)) cid eph" "cid \<notin> set (sv_activeCIDs server)"
    and resp: "respond P server p i th1 opened cid eph = Ret (resp, th2, c2s, s2c, maxd)"
  shows "\<exists>server'. buildAttempt P p i ad th1 e published later server = (server', Ret (Some (length (sv_sessions server)), resp))
    \<and> answered server' th1 (length (sv_sessions server)) (published + so_pendingAttemptTimeout (sv_options server))
    \<and> session server' (length (sv_sessions server))
      = (newSession p cid (fst (snd opened)) th2 c2s s2c maxd)\<lparr>ss_attemptKey := th1, ss_hasAttempt := True\<rparr>"
proof -
  let ?r = "so_random (sv_options server)"
  let ?s1 = "(set_server_random (drop 8 ?r) server)\<lparr>sv_activeCIDs := cid # sv_activeCIDs server\<rparr>"
  let ?s2 = "set_server_random (drop 40 ?r) ?s1"
  have r1: "so_random (sv_options ?s1) = drop 8 ?r" by (simp add: set_server_random_def)
  have "same_config (?s1) server" by (simp add: same_config_def set_server_random_def) metis
  then have "same_config ?s2 server" unfolding same_config_random .
  then have resp2: "respond P ?s2 p i th1 opened cid eph = Ret (resp, th2, c2s, s2c, maxd)"
    using resp respond_config by simp
  have build: "buildAttempt P p i ad th1 e published later server
    = publishSession e (newSession p cid (fst (snd opened)) th2 c2s s2c maxd) resp published later ?s2"
    unfolding buildAttempt_def opened reserve_first [OF rnd] outcome.case prod.case r1 supplies_key [OF rnd(1)] Let_def resp2 ..
  have eq: "sv_sessions ?s2 = sv_sessions server" "so_pendingAttemptTimeout (sv_options ?s2) = so_pendingAttemptTimeout (sv_options server)"
    by (simp_all add: set_server_random_def)
  have "building ?s2 th1 e" using b by simp
  from publishSession_building [OF this, unfolded eq] show ?thesis unfolding build .
qed

lemma HandleInitial_succeeds:
  assumes parsed: "parseInitialWire P d (uint (so_maxDatagramSize (sv_options server))) (sv_context server) = Ret (p, i, ad, th1)"
    and cids: "DCID (PHeader p) = 0" "SCID (PHeader p) \<noteq> 0"
    and room: "room server" "map_of (sv_attempts server) th1 = None"
    and opened: "openInitial P server p i ad = Ret opened"
    and rnd: "supplies (so_random (sv_options server)) cid eph" "cid \<notin> set (sv_activeCIDs server)"
    and resp: "respond P server p i th1 opened cid eph = Ret (resp, th2, c2s, s2c, maxd)"
  shows "\<exists>server'. HandleInitial P now later published d server = (server', Done (Ret (Some (length (sv_sessions server)), resp)))
    \<and> answered server' th1 (length (sv_sessions server)) (published + so_pendingAttemptTimeout (sv_options server))
    \<and> session server' (length (sv_sessions server))
      = (newSession p cid (fst (snd opened)) th2 c2s s2c maxd)\<lparr>ss_attemptKey := th1, ss_hasAttempt := True\<rparr>"
proof -
  from acquire_new [OF room, of now later d] obtain server1 e where
    a: "acquireAttempt now later th1 d server = (server1, Lease \<lparr>al_entry = Some e, al_builder = True, al_session = None, al_response = []\<rparr>)"
       "building server1 th1 e" "set (sv_activeCIDs server1) \<subseteq> set (sv_activeCIDs server)" .
  note f = frame_acquire [OF a(1)]
  have conf: "same_config server1 server" by (rule frame_same_config [OF f])
  have same: "sv_options server1 = sv_options server" "length (sv_sessions server1) = length (sv_sessions server)"
    using f by (simp_all add: frame_cache_def)
  have o: "openInitial P server1 p i ad = Ret opened" using opened openInitial_config [OF conf] by simp
  have r: "respond P server1 p i th1 opened cid eph = Ret (resp, th2, c2s, s2c, maxd)" using resp respond_config [OF conf] by simp
  have rn: "supplies (so_random (sv_options server1)) cid eph" "cid \<notin> set (sv_activeCIDs server1)" using rnd a(3) same by auto
  from buildAttempt_succeeds [OF a(2) o rn r, of published later] show ?thesis
    unfolding HandleInitial_def parsed outcome.case prod.case using a(1) cids same by auto
qed

section \<open>The confirmation\<close>

lemma transmit_succeeds:
  assumes P: "aead_ok P" and key: "length key = 32" and cids: "dcid \<noteq> 0" "scid \<noteq> 0"
    and f: "frames \<noteq> []" "combination_ok frames" "stream_ok frames"
    and n: "int (length (concat (map encodeFrame frames))) + 48 \<le> m" "m \<le> 65535"
  obtains d where "transmit P key dcid scid pn m frames who = Ret d"
proof -
  let ?pt = "concat (map encodeFrame frames)" and ?h = "transportHeader dcid scid pn" and ?m = "maxPlaintextForDatagram m"
  have pos: "4 \<le> length ?pt" using f(1) by (cases frames) simp_all
  have m: "?m = m - 48" by (simp add: maxPlaintextForDatagram_def go_consts)
  have marshal: "MarshalFrames frames ?m = Ret ?pt"
    using f n pos by (simp add: MarshalFrames_iff plaintext_ok_def frame_limit_ok_def frame_limit_def m)
  have "Header_validate (?h\<lparr>PayloadLength := w\<rparr>) = Ret ()" for w
    using cids by (simp add: Header_validate_def transportHeader_def PacketType_valid_def go_consts)
  then obtain ad where "Header_MarshalBinary (?h\<lparr>PayloadLength := word_of_nat (length ?pt + 16)\<rparr>) = Ret ad"
    by (auto simp: Header_MarshalBinary_def)
  then obtain pkt where pkt: "SealTransportPlaintext P key ?h ?pt = Ret pkt" "length (Payload pkt) = length ?pt + 16"
    using key n unfolding SealTransportPlaintext_Ret_iff
    by (auto simp: seal_length [OF P] transportHeader_def)
  have seal: "SealTransport P key ?h frames ?m = Ret pkt"
    using pkt(1) marshal by (simp add: SealTransport_def transportHeader_def)
  have "normalizeDatagramLimit m = Ret m" using n pos by (simp add: normalizeDatagramLimit_def go_consts)
  from sealed_datagram [OF P seal this] pkt(2) n(1) obtain d where "Packet_MarshalBinary pkt m = Ret d" by auto
  then have "transmit P key dcid scid pn m frames who = Ret d" by (simp add: transmit_def seal)
  then show thesis by (rule that)
qed

lemma confirm_frames_ok:
  assumes "length th = 32" and "length ch = 8"
  shows "combination_ok (confirmFrames th ch)" "stream_ok (confirmFrames th ch)"
    "length (concat (map encodeFrame (confirmFrames th ch))) = 48"
    "combination_ok [\<lparr>FType = FramePong, FFlags = 0, FBody = ch\<rparr>]" "stream_ok [\<lparr>FType = FramePong, FFlags = 0, FBody = ch\<rparr>]"
    "length (concat (map encodeFrame [\<lparr>FType = FramePong, FFlags = 0, FBody = ch\<rparr>])) = 12"
  using assms by (simp_all add: confirmFrames_def combination_ok_def frame_ok_def FrameType_valid_def frame_types)

lemma promote_answered:
  assumes "answered server key s deadline" and "now < deadline"
  shows "\<exists>server'. promoteAttempt key s now server = (server', True) \<and> sv_sessions server' = sv_sessions server"
  using assms by (auto simp: answered_def promoteAttempt_def Let_def)

text \<open>Both ends of a finished key exchange, before the first TRANSPORT datagram.\<close>

definition exchanged :: "Client \<Rightarrow> ServerSession \<Rightarrow> bool" where
  "exchanged client x \<longleftrightarrow> paired client x \<and> c_state client = StatePendingConfirm \<and> ss_state x = StatePendingConfirm
     \<and> length (ss_c2sKey x) = 32 \<and> length (ss_s2cKey x) = 32 \<and> length (ss_th2 x) = 32
     \<and> ss_clientCID x \<noteq> 0 \<and> ss_serverCID x \<noteq> 0 \<and> 96 \<le> ss_maxDatagram x \<and> ss_maxDatagram x \<le> 65535
     \<and> c_sendPN client = 0 \<and> ss_sendPN x = 0
     \<and> c_receiveWindow client = new_ReplayWindow \<and> ss_receiveWindow x = new_ReplayWindow
     \<and> length (ss_confirmChallenge x) = 8"

lemma pn_zero: "(0 :: uint64) < rehandshakePacketNumber"
  by (simp add: word_less_nat_alt rehandshake_unat)

lemma fresh_accepts: "spec_verdict {} n = None"
  by (simp add: spec_verdict_def)

lemma BuildConfirm_succeeds:
  assumes P: "aead_ok P" and x: "exchanged client x" and rnd: "8 \<le> length (co_random (c_options client))"
  obtains client' d ch where "BuildConfirm P client = (client', Ret (d, ch))" and "length ch = 8"
    and "transmit P (ss_c2sKey x) (ss_serverCID x) (ss_clientCID x) 0 (ss_maxDatagram x) (confirmFrames (ss_th2 x) ch) ''client'' = Ret d"
    and "client' = (set_random (drop 8 (co_random (c_options client))) client)\<lparr>c_sendPN := 1, c_pendingChallenge := ch,
      c_haveChallenge := True, c_state := StatePendingPong\<rparr>"
proof -
  let ?r = "co_random (c_options client)"
  let ?ch = "take 8 ?r" and ?c = "set_random (drop 8 ?r) client"
  have ch: "length ?ch = 8" using rnd by simp
  have th: "length (ss_th2 x) = 32" using x by (simp add: exchanged_def)
  have n: "int (length (concat (map encodeFrame (confirmFrames (ss_th2 x) ?ch)))) + 48 \<le> ss_maxDatagram x" "ss_maxDatagram x \<le> 65535"
    "confirmFrames (ss_th2 x) ?ch \<noteq> []"
    using x by (simp_all add: confirm_frames_ok(3) [OF th ch] exchanged_def) (simp add: confirmFrames_def)
  have k: "length (ss_c2sKey x) = 32" "ss_serverCID x \<noteq> 0" "ss_clientCID x \<noteq> 0" using x by (simp_all add: exchanged_def)
  from transmit_succeeds [OF P k n(3) confirm_frames_ok(1,2) [OF th ch] n(1,2), of 0 "''client''"] obtain d where
    d: "transmit P (ss_c2sKey x) (ss_serverCID x) (ss_clientCID x) 0 (ss_maxDatagram x) (confirmFrames (ss_th2 x) ?ch) ''client'' = Ret d" .
  have "Client_sealLocked P (confirmFrames (c_th2 client) ?ch) ?c = (?c\<lparr>c_sendPN := 1\<rparr>, Ret d)"
    using d x pn_zero unfolding Client_sealLocked_transmit by (simp add: exchanged_def paired_def set_random_def not_le)
  moreover have "ReadFull ?r 8 = (drop 8 ?r, Ret ?ch)" using rnd by (simp add: ReadFull_def)
  ultimately have "BuildConfirm P client = (?c\<lparr>c_sendPN := 1, c_pendingChallenge := ?ch, c_haveChallenge := True,
      c_state := StatePendingPong\<rparr>, Ret (d, ?ch))"
    using x by (simp add: BuildConfirm_def exchanged_def)
  from that [OF this ch d refl] show thesis .
qed

lemma HandleConfirm_succeeds:
  assumes P: "aead_ok P" and s: "x = session server s" "s < length (sv_sessions server)" and x: "exchanged client x"
    and ch: "length ch = 8"
    and sent: "transmit P (ss_c2sKey x) (ss_serverCID x) (ss_clientCID x) 0 (ss_maxDatagram x) (confirmFrames (ss_th2 x) ch) ''client'' = Ret d"
    and att: "answered server key s deadline" "now < deadline"
  obtains server' d' where "HandleConfirm P d s now later server = (server', Ret d')"
    and "transmit P (ss_s2cKey x) (ss_clientCID x) (ss_serverCID x) 0 (ss_maxDatagram x) [\<lparr>FType = FramePong, FFlags = 0, FBody = ch\<rparr>] ''server'' = Ret d'"
    and "session server' s = x\<lparr>ss_receiveWindow := fst (AcceptAuthenticated new_ReplayWindow 0), ss_confirmChallenge := ch,
      ss_haveConfirmChallenge := True, ss_state := StateEstablished, ss_sendPN := 1\<rparr>"
proof -
  let ?w = "fst (AcceptAuthenticated new_ReplayWindow 0)"
  let ?v1 = "set_session s (x\<lparr>ss_receiveWindow := ?w\<rparr>) server"
  have "receive P (ss_c2sKey x) (ss_serverCID x) (ss_clientCID x) (ss_maxDatagram x) d ''client'' (ss_receiveWindow x)
      = (?w, Ret (confirmFrames (ss_th2 x) ch))"
    using transmit_receive [OF P sent pn_zero new_ReplayWindow_represents fresh_accepts] x by (simp add: exchanged_def)
  then have opened: "Session_openLocked P d s server = (?v1, Ret (confirmFrames (ss_th2 x) ch))"
    unfolding Session_openLocked_receive [OF s(1)] by simp
  have x1: "session ?v1 s = x\<lparr>ss_receiveWindow := ?w\<rparr>" using s(2) by simp
  have ans: "answered ?v1 key s deadline" using att(1) s unfolding answered_def by simp
  then have k: "ss_hasAttempt x" "ss_attemptKey x = key" unfolding answered_def x1 by simp_all
  from promote_answered [OF ans att(2)] obtain v2 where v2: "promoteAttempt key s now ?v1 = (v2, True)" "sv_sessions v2 = sv_sessions ?v1"
    by blast
  have s2: "session v2 s = x\<lparr>ss_receiveWindow := ?w\<rparr>" "s < length (sv_sessions v2)"
    using v2(2) x1 s(2) by (simp_all add: session_def)
  have th: "length (ss_th2 x) = 32" using x by (simp add: exchanged_def)
  let ?y = "x\<lparr>ss_receiveWindow := ?w, ss_confirmChallenge := ch, ss_haveConfirmChallenge := True, ss_state := StateEstablished\<rparr>"
  let ?v3 = "set_session s ?y v2" and ?pong = "[\<lparr>FType = FramePong, FFlags = 0, FBody = ch\<rparr>]"
  have n: "int (length (concat (map encodeFrame ?pong))) + 48 \<le> ss_maxDatagram x" "ss_maxDatagram x \<le> 65535" "?pong \<noteq> []"
    using x unfolding confirm_frames_ok(6) [OF th ch] by (simp_all add: exchanged_def)
  have key: "length (ss_s2cKey x) = 32" "ss_clientCID x \<noteq> 0" "ss_serverCID x \<noteq> 0" using x by (simp_all add: exchanged_def)
  from transmit_succeeds [OF P key n(3) confirm_frames_ok(4,5) [OF th ch] n(1,2), of 0 "''server''"] obtain d' where
    d': "transmit P (ss_s2cKey x) (ss_clientCID x) (ss_serverCID x) 0 (ss_maxDatagram x) ?pong ''server'' = Ret d'" .
  have y: "?y = session ?v3 s" using s2(2) by simp
  have "ss_sendPN ?y = 0" using x by (simp add: exchanged_def)
  then have "Session_sealLocked P ?pong s later ?v3 = (set_session s (?y\<lparr>ss_sendPN := 1\<rparr>) ?v3, Ret d')"
    unfolding Session_sealLocked_transmit [OF y] using d' pn_zero by (simp add: not_le)
  then have "replyPong P ch s later ?v3 = (set_session s (?y\<lparr>ss_sendPN := 1\<rparr>) ?v3, Ret d')"
    by (simp add: replyPong_def)
  moreover have "take 8 ch @ drop (length ch) (ss_confirmChallenge x) = ch" using ch x by (simp add: exchanged_def)
  ultimately have "confirmOpened P False (confirmFrames (ss_th2 x) ch) s now later ?v1 = (set_session s (?y\<lparr>ss_sendPN := 1\<rparr>) ?v3, Ret d')"
    using x1 v2(1) s2 k by (simp add: confirmOpened_def confirmFrames_def Let_def)
  moreover have "ss_state (session server s) = StatePendingConfirm" using x s(1) by (simp add: exchanged_def)
  ultimately have "HandleConfirm P d s now later server = (set_session s (?y\<lparr>ss_sendPN := 1\<rparr>) ?v3, Ret d')"
    using opened by (simp add: HandleConfirm_def)
  from that [OF this d'] s2(2) show thesis by simp
qed

lemma HandlePong_succeeds:
  assumes P: "aead_ok P" and x: "exchanged client x" and c: "client' = (set_random r client)\<lparr>c_sendPN := 1,
      c_pendingChallenge := ch, c_haveChallenge := True, c_state := StatePendingPong\<rparr>"
    and sent: "transmit P (ss_s2cKey x) (ss_clientCID x) (ss_serverCID x) 0 (ss_maxDatagram x) [\<lparr>FType = FramePong, FFlags = 0, FBody = ch\<rparr>] ''server'' = Ret d"
  shows "HandlePong P d client' = (client'\<lparr>c_receiveWindow := fst (AcceptAuthenticated new_ReplayWindow 0), c_haveChallenge := False,
    c_pendingChallenge := replicate 8 0, c_state := StateEstablished\<rparr>, Ret ())"
proof -
  have "Client_openLocked P d client' = (client'\<lparr>c_receiveWindow := fst (AcceptAuthenticated new_ReplayWindow 0)\<rparr>,
      Ret [\<lparr>FType = FramePong, FFlags = 0, FBody = ch\<rparr>])"
    using transmit_receive [OF P sent pn_zero new_ReplayWindow_represents fresh_accepts] x
    unfolding Client_openLocked_receive by (simp add: exchanged_def paired_def c set_random_def)
  then show ?thesis by (simp add: HandlePong_def c)
qed

section \<open>The whole exchange\<close>

text \<open>A client and a server that fit together. The keys are usable with each other and with the
  ephemeral keys drawn; the client is new and the server takes it, answers it and is accepted;
  the INITIAL fits the datagrams of both; there is room for an attempt.\<close>

definition usable_keys :: "prims \<Rightarrow> bytes \<Rightarrow> bytes \<Rightarrow> bytes \<Rightarrow> bytes \<Rightarrow> bool" where
  "usable_keys P ck sk eph eph' \<longleftrightarrow> dh_pair P eph sk \<and> dh_pair P sk ck \<and> dh_pair P eph' eph \<and> dh_pair P eph' ck"

definition fresh_client :: "prims \<Rightarrow> bytes \<Rightarrow> bytes \<Rightarrow> uint64 \<Rightarrow> bytes \<Rightarrow> Client \<Rightarrow> bool" where
  "fresh_client P ck sk cid eph client \<longleftrightarrow> client_keys P ck sk client \<and> c_state client = StateIdle
     \<and> length (c_deploymentID client) = 16 \<and> c_sendPN client = 0 \<and> c_receiveWindow client = new_ReplayWindow
     \<and> supplies (co_random (c_options client)) cid eph \<and> 48 \<le> length (co_random (c_options client))"

definition ready_server :: "bytes \<Rightarrow> uint64 \<Rightarrow> bytes \<Rightarrow> Server \<Rightarrow> bool" where
  "ready_server sk scid eph' server \<longleftrightarrow> sv_staticPrivate server = Some sk \<and> room server
     \<and> supplies (so_random (sv_options server)) scid eph' \<and> scid \<notin> set (sv_activeCIDs server)"

definition fits :: "Client \<Rightarrow> Server \<Rightarrow> bool" where
  "fits client server \<longleftrightarrow>
    (let fam = co_addressFamilies (c_options client); maxd = co_maxDatagramSize (c_options client) in
     admits server client \<and> answers server fam maxd \<and> accepts client (offered server fam maxd)
     \<and> int (173 + length (co_retryToken (c_options client))) \<le> uint maxd
     \<and> int (173 + length (co_retryToken (c_options client))) \<le> uint (so_maxDatagramSize (sv_options server)))"

lemma respond_lengths:
  assumes "prims_ok P" and "respond P server p i th1 opened cid eph = Ret (resp, th2, c2s, s2c, maxd)"
  shows "length th2 = 32 \<and> length c2s = 32 \<and> length s2c = 32"
proof -
  note Pp = prims_ok_parts [OF assms(1)]
  obtain es cs fam cmax where o: "opened = (es, cs, fam, cmax)" by (metis surj_pair)
  from respond_parts [OF Pp(3) assms(2) [unfolded o]] obtain prk2 m where
    "th2 = p_blake2s P m" "DeriveTraffic P prk2 th2 = Ret (c2s, s2c)" by metis
  with derive_lengths(3) [OF Pp(1), of prk2 th2 c2s s2c] Pp(1) show ?thesis by (simp add: hash_ok_def)
qed

definition started :: "Client \<Rightarrow> uint64 \<Rightarrow> bytes \<Rightarrow> bytes \<Rightarrow> bytes \<Rightarrow> Client" where
  "started client cid eph es th1 = (set_random (drop 40 (co_random (c_options client))) client)\<lparr>c_clientCID := cid,
     c_ephemeralPrivate := Some eph, c_es := es, c_th1 := th1, c_state := StateInitialSent\<rparr>"

text \<open>The flight of the INITIAL: the server answers it with a new session.\<close>

lemma request_answered:
  assumes P: "prims_ok P" and dh: "usable_keys P ck sk eph eph'" and cl: "fresh_client P ck sk cid eph client"
    and sv: "ready_server sk scid eph' server" and fit: "fits client server"
    and new: "map_of (sv_attempts server) (c_th1 (fst (Start P client))) = None"
    and s: "s = length (sv_sessions server)"
    and neg: "neg = offered server (co_addressFamilies (c_options client)) (co_maxDatagramSize (c_options client))"
  obtains d1 es th1 server1 p i d2 th2 c2s s2c where "Start P client = (started client cid eph es th1, Ret d1)"
    and "HandleInitial P now later published d1 server = (server1, Done (Ret (Some s, d2)))"
    and "answered server1 th1 s (published + so_pendingAttemptTimeout (sv_options server))"
    and "session server1 s = (newSession p scid (p_public P ck) th2 c2s s2c (n_MaxDatagramSize neg))\<lparr>ss_attemptKey := th1, ss_hasAttempt := True\<rparr>"
    and "respond P server p i th1 (es, p_public P ck, co_addressFamilies (c_options client), co_maxDatagramSize (c_options client)) scid eph'
      = Ret (d2, th2, c2s, s2c, n_MaxDatagramSize neg)"
    and "SCID (PHeader p) = cid" and "ClientEphemeralPublic i = p_public P eph"
    and "\<forall>m ctx th. uint (n_MaxDatagramSize neg) \<le> m \<and> m \<le> 65535 \<longrightarrow> (\<exists>q j ad t. parseHandshakeWire P d2 m ctx th = Ret (q, j, ad, t))"
proof -
  note Pp = prims_ok_parts [OF P]
  let ?o = "c_options client"
  let ?fam = "co_addressFamilies ?o" and ?maxd = "co_maxDatagramSize ?o" and ?tok = "co_retryToken ?o"
  have key: "c_serverStaticPublic client = p_public P sk" "c_staticPublic client = p_public P ck" "sv_staticPrivate server = Some sk"
    using cl sv by (simp_all add: fresh_client_def client_keys_def ready_server_def)
  have len: "length (c_deploymentID client) = 16" "length (c_staticPublic client) = 32" "cid \<noteq> 0" "scid \<noteq> 0"
    using cl sv public_length [OF Pp(2)] by (simp_all add: fresh_client_def key ready_server_def supplies_def)
  have adm: "admits server client" and ans: "answers server ?fam ?maxd"
    and size: "int (173 + length ?tok) \<le> uint ?maxd" "int (173 + length ?tok) \<le> uint (so_maxDatagramSize (sv_options server))"
    using fit by (simp_all add: fits_def Let_def)
  have dhs: "dh_pair P eph sk" "dh_pair P sk ck" "dh_pair P eph' eph" "dh_pair P eph' ck"
    using dh by (simp_all add: usable_keys_def)
  from initialMessage_succeeds [OF P dhs(1) key(1) len(1-3) size(1)] obtain d1 es th1 where
    m1: "initialMessage P client cid eph = Ret (d1, es, th1)"
    and w1: "\<And>m ctx. int (173 + length ?tok) \<le> m \<Longrightarrow> m \<le> 65535 \<Longrightarrow> \<exists>p i ad th. parseInitialWire P d1 m ctx = Ret (p, i, ad, th)"
    by blast
  have start: "Start P client = (started client cid eph es th1, Ret d1)"
    unfolding started_def by (rule Start_succeeds [OF _ _ m1]) (use cl in \<open>simp_all add: fresh_client_def\<close>)
  from w1 [OF size(2) uint16_bound] obtain p i ad th where
    p1: "parseInitialWire P d1 (uint (so_maxDatagramSize (sv_options server))) (sv_context server) = Ret (p, i, ad, th)" by blast
  from openInitial_succeeds [OF P m1 key(3,1) len(2) adm p1]
  have o: "openInitial P server p i ad = Ret (es, c_staticPublic client, ?fam, ?maxd)" and th: "th = th1"
    and pk: "SCID (PHeader p) = cid" "DCID (PHeader p) = 0" "ClientEphemeralPublic i = p_public P eph" by simp_all
  have es: "DH P (sv_staticPrivate server) (ClientEphemeralPublic i) = Ret es"
    using o by (auto simp: openInitial_def obind_Ret_iff)
  have fam: "?fam AND NOT 0x03 = 0" using adm unfolding admits_def by blast
  from respond_succeeds [OF P dhs(2-4) es key(3) pk(3) _ len(4) fam ans, of p th1] len(3) pk(1) obtain d2 th2 c2s s2c where
    r: "respond P server p i th1 (es, p_public P ck, ?fam, ?maxd) scid eph' = Ret (d2, th2, c2s, s2c, n_MaxDatagramSize neg)"
    and w2: "\<forall>m ctx th. uint (n_MaxDatagramSize neg) \<le> m \<and> m \<le> 65535 \<longrightarrow>
           (\<exists>q j ad t. parseHandshakeWire P d2 m ctx th = Ret (q, j, ad, t))" unfolding neg by auto
  have room: "room server" "map_of (sv_attempts server) th1 = None" using sv new start by (simp_all add: ready_server_def started_def)
  have rnd: "supplies (so_random (sv_options server)) scid eph'" "scid \<notin> set (sv_activeCIDs server)"
    using sv by (simp_all add: ready_server_def)
  have cids: "DCID (PHeader p) = 0" "SCID (PHeader p) \<noteq> 0" using pk len(3) by simp_all
  from HandleInitial_succeeds [OF p1 [unfolded th] cids room o [unfolded key(2)] rnd r, of now later published]
  obtain server1 where h: "HandleInitial P now later published d1 server = (server1, Done (Ret (Some s, d2)))"
    "answered server1 th1 s (published + so_pendingAttemptTimeout (sv_options server))"
    "session server1 s = (newSession p scid (p_public P ck) th2 c2s s2c (n_MaxDatagramSize neg))\<lparr>ss_attemptKey := th1, ss_hasAttempt := True\<rparr>"
    by (auto simp: s)
  from that [OF start h r pk(1,3) w2] show thesis .
qed

text \<open>The flight of the HANDSHAKE: the client accepts the answer.\<close>

lemma answer_accepted:
  assumes P: "prims_ok P" and cl: "fresh_client P ck sk cid eph client" and sv: "ready_server sk scid eph' server"
    and fit: "fits client server"
    and neg: "neg = offered server (co_addressFamilies (c_options client)) (co_maxDatagramSize (c_options client))"
    and r: "respond P server p i th1 (es, p_public P ck, co_addressFamilies (c_options client), co_maxDatagramSize (c_options client)) scid eph'
      = Ret (d2, th2, c2s, s2c, n_MaxDatagramSize neg)"
    and pk: "SCID (PHeader p) = cid" "ClientEphemeralPublic i = p_public P eph"
    and w: "\<forall>m ctx th. uint (n_MaxDatagramSize neg) \<le> m \<and> m \<le> 65535 \<longrightarrow> (\<exists>q j ad t. parseHandshakeWire P d2 m ctx th = Ret (q, j, ad, t))"
    and c1: "client1 = started client cid eph es th1"
  obtains client2 where "Finish P client1 d2 = (client2, Ret ())"
    and "\<And>k. exchanged client2 ((newSession p scid (p_public P ck) th2 c2s s2c (n_MaxDatagramSize neg))\<lparr>ss_attemptKey := k, ss_hasAttempt := True\<rparr>)"
    and "8 \<le> length (co_random (c_options client2))"
proof -
  let ?fam = "co_addressFamilies (c_options client)" and ?maxd = "co_maxDatagramSize (c_options client)"
  have f1: "c_clientCID client1 = cid" "c_ephemeralPrivate client1 = Some eph" "c_es client1 = es" "c_th1 client1 = th1"
    "c_state client1 = StateInitialSent" "c_staticPublic client1 = c_staticPublic client" "c_staticPrivate client1 = c_staticPrivate client"
    "c_serverStaticPublic client1 = c_serverStaticPublic client" "c_context client1 = c_context client"
    "co_addressFamilies (c_options client1) = ?fam" "co_maxDatagramSize (c_options client1) = ?maxd"
    "co_random (c_options client1) = drop 40 (co_random (c_options client))" "c_sendPN client1 = c_sendPN client"
    "c_receiveWindow client1 = c_receiveWindow client" "admits server client1 = admits server client" "accepts client1 = accepts client"
    by (simp_all add: c1 started_def set_random_def admits_def accepts_def fun_eq_iff)
  have key: "c_serverStaticPublic client1 = p_public P sk" "c_staticPublic client1 = p_public P ck" "c_staticPrivate client1 = Some ck"
    "sv_staticPrivate server = Some sk" "scid \<noteq> 0" "cid \<noteq> 0"
    using cl sv by (simp_all add: f1 fresh_client_def client_keys_def ready_server_def supplies_def)
  have fit': "admits server client1" "accepts client1 (offered server (co_addressFamilies (c_options client1)) (co_maxDatagramSize (c_options client1)))"
    "answers server (co_addressFamilies (c_options client1)) (co_maxDatagramSize (c_options client1))"
    using fit by (simp_all add: f1 fits_def Let_def)
  have le: "uint (n_MaxDatagramSize neg) \<le> uint ?maxd"
    using minUint16_le(1) [of ?maxd] by (simp add: neg offered_def Let_def word_le_def)
  with w uint16_bound [of ?maxd] obtain q j ad t where
    p2: "parseHandshakeWire P d2 (uint (co_maxDatagramSize (c_options client1))) (c_context client1) (c_th1 client1) = Ret (q, j, ad, t)"
    unfolding f1 by blast
  have r': "respond P server p i (c_th1 client1) (c_es client1, c_staticPublic client1, co_addressFamilies (c_options client1),
      co_maxDatagramSize (c_options client1)) scid eph' = Ret (d2, th2, c2s, s2c, n_MaxDatagramSize neg)"
    using r by (simp add: f1 key [unfolded f1])
  have scid: "SCID (PHeader p) = c_clientCID client1" by (simp add: f1 pk)
  note f = finish_succeeds [OF P r' pk(2) scid key(5,4,1,3,2) f1(2) fit' p2]
  let ?c2 = "client1\<lparr>c_serverCID := scid, c_th2 := th2, c_c2sKey := c2s, c_s2cKey := s2c, c_negotiated := neg,
    c_transportMaxSize := uint (n_MaxDatagramSize neg), c_ephemeralPrivate := None, c_es := zeroKey, c_state := StatePendingConfirm\<rparr>"
  have "Finish P client1 d2 = (?c2, Ret ())" using f by (simp add: Finish_def f1 neg)
  moreover have "exchanged ?c2 ((newSession p scid (p_public P ck) th2 c2s s2c (n_MaxDatagramSize neg))\<lparr>ss_attemptKey := k, ss_hasAttempt := True\<rparr>)" for k
    using respond_lengths [OF P r] key cl pk(1) uint16_bound [of "n_MaxDatagramSize neg"] fit'(3)
    by (simp add: exchanged_def paired_def newSession_def fresh_client_def f1 answers_def neg)
  moreover have "8 \<le> length (co_random (c_options ?c2))" using cl f1(12) by (auto simp: fresh_client_def)
  ultimately show thesis by (rule that)
qed

section \<open>Properties\<close>

text \<open>C3. Handshake agreement: when a client's INITIAL makes the server create a session and the
  client accepts the response, both ends hold the same connection identifiers, transcript
  hash, traffic keys and datagram limit; the client has exactly the parameters the server
  offered, and the session belongs to the client's static key, which the server has registered.\<close>

theorem handshake_agreement:
  assumes "prims_ok P" and "client_keys P ck sk client" and "sv_staticPrivate server = Some sk"
    and "sv_context server = c_context client" and "cache_ok server"
    and "Start P client = (client1, Ret d1)"
    and "HandleInitial P now later published d1 server = (server', Done (Ret (Some s, d2)))"
    and "length (sv_sessions server) \<le> s"
    and "Finish P client1 d2 = (client2, Ret ())"
  shows "paired client2 (session server' s)
    \<and> c_negotiated client2 = offered server (co_addressFamilies (c_options client)) (co_maxDatagramSize (c_options client))
    \<and> ss_clientStatic (session server' s) = c_staticPublic client \<and> isRegistered server (c_staticPublic client)
    \<and> c_state client2 = StatePendingConfirm \<and> ss_state (session server' s) = StatePendingConfirm"
  by (rule keys_agree [OF assms])

text \<open>C4. Handshake completion: a new client and a server that fit together, with room for an
  attempt, reach Established on both sides in the six calls of the protocol, with the same keys,
  connection identifiers and limits, when the CONFIRM arrives before the attempt expires.\<close>

theorem handshake_completes:
  assumes "prims_ok P" and "usable_keys P ck sk eph eph'" and "fresh_client P ck sk cid eph client"
    and "ready_server sk scid eph' server" and "fits client server"
    and "map_of (sv_attempts server) (c_th1 (fst (Start P client))) = None"
    and "now' < published + so_pendingAttemptTimeout (sv_options server)"
  shows "\<exists>client1 d1 server1 s d2 client2 client3 d3 challenge server2 d4 client4.
    Start P client = (client1, Ret d1)
    \<and> HandleInitial P now later published d1 server = (server1, Done (Ret (Some s, d2)))
    \<and> Finish P client1 d2 = (client2, Ret ())
    \<and> BuildConfirm P client2 = (client3, Ret (d3, challenge))
    \<and> HandleConfirm P d3 s now' later' server1 = (server2, Ret d4)
    \<and> HandlePong P d4 client3 = (client4, Ret ())
    \<and> c_state client4 = StateEstablished \<and> ss_state (session server2 s) = StateEstablished
    \<and> paired client4 (session server2 s)"
proof -
  note aead = prims_ok_parts(3) [OF assms(1)]
  let ?s = "length (sv_sessions server)"
  let ?neg = "offered server (co_addressFamilies (c_options client)) (co_maxDatagramSize (c_options client))"
  from request_answered [OF assms(1-6) refl refl, of now later published] obtain d1 es th1 server1 p i d2 th2 c2s s2c where
    k1: "Start P client = (started client cid eph es th1, Ret d1)"
       "HandleInitial P now later published d1 server = (server1, Done (Ret (Some ?s, d2)))"
       "answered server1 th1 ?s (published + so_pendingAttemptTimeout (sv_options server))"
    and sess: "session server1 ?s = (newSession p scid (p_public P ck) th2 c2s s2c (n_MaxDatagramSize ?neg))\<lparr>ss_attemptKey := th1, ss_hasAttempt := True\<rparr>"
    and r: "respond P server p i th1 (es, p_public P ck, co_addressFamilies (c_options client), co_maxDatagramSize (c_options client)) scid eph'
      = Ret (d2, th2, c2s, s2c, n_MaxDatagramSize ?neg)"
    and pk: "SCID (PHeader p) = cid" "ClientEphemeralPublic i = p_public P eph"
    and w: "\<forall>m ctx th. uint (n_MaxDatagramSize ?neg) \<le> m \<and> m \<le> 65535 \<longrightarrow> (\<exists>q j ad t. parseHandshakeWire P d2 m ctx th = Ret (q, j, ad, t))" .
  from answer_accepted [OF assms(1,3-5) refl r pk w refl] obtain client2 where
    k2: "Finish P (started client cid eph es th1) d2 = (client2, Ret ())" and "exchanged client2 (session server1 ?s)"
    and "8 \<le> length (co_random (c_options client2))" unfolding sess by metis
  note ex = this(2,3)
  from BuildConfirm_succeeds [OF aead ex] obtain client3 d3 ch where
    b: "BuildConfirm P client2 = (client3, Ret (d3, ch))" "length ch = 8"
    and sent: "transmit P (ss_c2sKey (session server1 ?s)) (ss_serverCID (session server1 ?s)) (ss_clientCID (session server1 ?s)) 0
      (ss_maxDatagram (session server1 ?s)) (confirmFrames (ss_th2 (session server1 ?s)) ch) ''client'' = Ret d3"
    and c3: "client3 = (set_random (drop 8 (co_random (c_options client2))) client2)\<lparr>c_sendPN := 1, c_pendingChallenge := ch,
      c_haveChallenge := True, c_state := StatePendingPong\<rparr>" .
  have "?s < length (sv_sessions server1)" using k1(3) by (simp add: answered_def)
  from HandleConfirm_succeeds [OF aead refl this ex(1) b(2) sent k1(3) assms(7), of later'] obtain server2 d4 where
    h: "HandleConfirm P d3 ?s now' later' server1 = (server2, Ret d4)"
    and reply: "transmit P (ss_s2cKey (session server1 ?s)) (ss_clientCID (session server1 ?s)) (ss_serverCID (session server1 ?s)) 0
      (ss_maxDatagram (session server1 ?s)) [\<lparr>FType = FramePong, FFlags = 0, FBody = ch\<rparr>] ''server'' = Ret d4"
    and s2: "session server2 ?s = (session server1 ?s)\<lparr>ss_receiveWindow := fst (AcceptAuthenticated new_ReplayWindow 0),
      ss_confirmChallenge := ch, ss_haveConfirmChallenge := True, ss_state := StateEstablished, ss_sendPN := 1\<rparr>" .
  note pong = HandlePong_succeeds [OF aead ex(1) c3 reply]
  have "paired client2 (session server1 ?s)" using ex(1) by (simp add: exchanged_def)
  then have "paired (fst (HandlePong P d4 client3)) (session server2 ?s)" unfolding pong s2 by (simp add: paired_def c3 set_random_def)
  moreover have "ss_state (session server2 ?s) = StateEstablished" by (simp add: s2)
  ultimately show ?thesis using k1(1,2) k2 b(1) h pong by auto
qed

lemma sample_keys: "usable_keys sample_prims (replicate 32 1) (replicate 32 2) (replicate 32 3) (replicate 32 4)"
proof -
  have "map2 (+) (replicate 32 a) (replicate 32 b) = replicate 32 (a + b)" for a b :: uint8
    by (simp add: zip_replicate)
  then have "dh_pair sample_prims (replicate 32 a) (replicate 32 b)" if "a + b \<noteq> 0" for a b :: uint8
    using that by (auto simp: dh_pair_def DH_Ret_iff sample_prims_def pad32_32 isAllZero_def)
  then show ?thesis by (simp add: usable_keys_def)
qed

lemma sample_cids:
  "(Uint64 (replicate 8 3) :: uint64 hs_result) = Ret 0x0303030303030303"
  "(Uint64 (replicate 8 4) :: uint64 hs_result) = Ret 0x0404040404040404"
proof -
  have r: "replicate 8 a = [a, a, a, a, a, a, a, a]" for a :: uint8 by (simp add: numeral_eq_Suc)
  show "(Uint64 (replicate 8 3) :: uint64 hs_result) = Ret 0x0303030303030303"
    "(Uint64 (replicate 8 4) :: uint64 hs_result) = Ret 0x0404040404040404"
    unfolding r by (simp_all add: Uint64_def)
qed

lemma sample_client_fresh:
  "fresh_client sample_prims (replicate 32 1) (replicate 32 2) 0x0303030303030303 (replicate 32 3) sample_client"
  by (simp add: fresh_client_def client_keys_def sample_client_def sample_client_options_def sample_prims_def pad32_32
      supplies_def sample_cids)

lemma sample_server_ready: "ready_server (replicate 32 2) 0x0404040404040404 (replicate 32 4) sample_server"
  by (simp add: ready_server_def sample_server_def sample_server_options_def room_def supplies_def sample_cids)

lemma sample_fits: "fits sample_client sample_server"
  by (simp add: fits_def admits_def answers_def accepts_def sample_client_def sample_client_options_def
      sample_server_def sample_server_options_def offered_def Let_def
      availableFamilies_def isRegistered_def leases_ok_def frameOverhead_val minUint16_def v4_IsGlobalUnicast_def
      v4_IsLoopback_def v4_IsMulticast_def v4_IsLinkLocalUnicast_def)

lemma sample_cache: "cache_ok sample_server"
  by (simp add: cache_ok_def table_ok_def limits_ok_def active_set_def sample_server_def sample_server_options_def)

theorem handshake_completes_witness:
  "\<exists>client1 d1 server1 s d2 client2 client3 d3 challenge server2 d4 client4.
    Start sample_prims sample_client = (client1, Ret d1)
    \<and> HandleInitial sample_prims 1 1 1 d1 sample_server = (server1, Done (Ret (Some s, d2)))
    \<and> Finish sample_prims client1 d2 = (client2, Ret ())
    \<and> BuildConfirm sample_prims client2 = (client3, Ret (d3, challenge))
    \<and> HandleConfirm sample_prims d3 s 2 2 server1 = (server2, Ret d4)
    \<and> HandlePong sample_prims d4 client3 = (client4, Ret ())
    \<and> c_state client4 = StateEstablished \<and> ss_state (session server2 s) = StateEstablished
    \<and> paired client4 (session server2 s)"
  by (rule handshake_completes [OF sample_prims_ok sample_keys sample_client_fresh sample_server_ready sample_fits])
    (simp_all add: sample_server_def sample_server_options_def)

theorem handshake_agreement_witness:
  "\<exists>client1 d1 server' s d2 client2. Start sample_prims sample_client = (client1, Ret d1)
    \<and> HandleInitial sample_prims 1 1 1 d1 sample_server = (server', Done (Ret (Some s, d2)))
    \<and> Finish sample_prims client1 d2 = (client2, Ret ()) \<and> paired client2 (session server' s)"
proof -
  have none: "map_of (sv_attempts sample_server) k = None" for k by (simp add: sample_server_def)
  from request_answered [OF sample_prims_ok sample_keys sample_client_fresh sample_server_ready sample_fits none refl refl, of 1 1 1]
  obtain es th1 d1 server' p i d2 th2 c2s s2c where
    k: "Start sample_prims sample_client = (started sample_client 0x0303030303030303 (replicate 32 3) es th1, Ret d1)"
       "HandleInitial sample_prims 1 1 1 d1 sample_server = (server', Done (Ret (Some (length (sv_sessions sample_server)), d2)))"
    and r: "respond sample_prims sample_server p i th1 (es, p_public sample_prims (replicate 32 1), co_addressFamilies (c_options sample_client),
        co_maxDatagramSize (c_options sample_client)) 0x0404040404040404 (replicate 32 4) = Ret (d2, th2, c2s, s2c,
          n_MaxDatagramSize (offered sample_server (co_addressFamilies (c_options sample_client)) (co_maxDatagramSize (c_options sample_client))))"
       "SCID (PHeader p) = 0x0303030303030303" "ClientEphemeralPublic i = p_public sample_prims (replicate 32 3)"
       "\<forall>m ctx th. uint (n_MaxDatagramSize (offered sample_server (co_addressFamilies (c_options sample_client))
          (co_maxDatagramSize (c_options sample_client)))) \<le> m \<and> m \<le> 65535 \<longrightarrow> (\<exists>q j ad t. parseHandshakeWire sample_prims d2 m ctx th = Ret (q, j, ad, t))"
    by metis
  from answer_accepted [OF sample_prims_ok sample_client_fresh sample_server_ready sample_fits refl r refl] obtain client2 where
    f: "Finish sample_prims (started sample_client 0x0303030303030303 (replicate 32 3) es th1) d2 = (client2, Ret ())" by metis
  have "client_keys sample_prims (replicate 32 1) (replicate 32 2) sample_client" "sv_staticPrivate sample_server = Some (replicate 32 2)"
    "sv_context sample_server = c_context sample_client"
    using sample_client_fresh sample_server_ready sample_fits by (simp_all add: fresh_client_def ready_server_def fits_def admits_def Let_def)
  from handshake_agreement [OF sample_prims_ok this sample_cache k order_refl f] k f show ?thesis by blast
qed

end
