(* ===== verification/Handshake_Safety.thy ===== *)
theory Handshake_Safety
  imports Handshake_Transport
begin

text \<open>
  No call of the handshake package panics, whatever datagram it gets: the field checks of the
  codec make every index and every fixed-width read of the field values succeed, and the
  prefixes that are cut from datagrams lie within them.
\<close>

unbundle bit_operations_syntax

section \<open>Primitives and codec\<close>

named_theorems safe "operations that never panic"

lemmas codec_safe [safe] = ParsePacket_safe Packet_MarshalBinary_safe Header_MarshalBinary_safe ParseInitial_safe
  ParseHandshake_safe ParseFrames_safe MarshalFrames_safe AcceptAuthenticated_safe

lemma fields_safe [safe]: "ParseTLVsFor data ctx \<noteq> Panic" "MarshalTLVsFor tlvs ctx \<noteq> Panic"
  by (simp_all add: ParseTLVsFor_def MarshalTLVsFor_def obind_Panic_iff ParseTLVs_safe ValidateTLVs_safe MarshalTLVs_safe)

lemma keys_safe [safe]: "DH P k pub \<noteq> Panic" "PublicBytes key \<noteq> Panic" "GenerateKeyFrom r \<noteq> Panic"
  by (auto simp: DH_def PublicBytes_def GenerateKeyFrom_def split: option.splits)

lemma aead_safe [safe]: "SealHandshake P k ad p \<noteq> Panic" "OpenHandshake P k ad c \<noteq> Panic"
  by (auto simp: SealHandshake_def OpenHandshake_def split: option.splits)

lemma derive_safe:
  assumes "hash_ok P"
  shows "DeriveM1 P ctx es \<noteq> Panic" "DeriveM2 P th1 es ss ee se \<noteq> Panic" "DeriveTraffic P prk th2 \<noteq> Panic"
  using assms by (auto simp: DeriveM1_def DeriveM2_def DeriveTraffic_def Expand32 go_consts Let_def)

lemma transport_safe [safe]: "SealTransport P k h frames m \<noteq> Panic" "OpenTransportPlaintext P k pkt \<noteq> Panic"
  by (auto simp: SealTransport_def SealTransportPlaintext_def OpenTransportPlaintext_def obind_Panic_iff
      Header_MarshalBinary_safe MarshalFrames_safe Let_def split: option.splits)

lemma wire_safe [safe]:
  "makeInitialPrefix t e n \<noteq> Panic" "makeHandshakePrefix e n \<noteq> Panic" "makeHeader k dcid scid pn l \<noteq> Panic"
  "marshalWirePacket h p c n \<noteq> Panic" "parseTransportDatagram d m \<noteq> Panic"
  by (auto simp: makeInitialPrefix_def makeHandshakePrefix_def makeHeader_def marshalWirePacket_def
      parseTransportDatagram_def obind_Panic_iff Let_def codec_safe)

lemma slice_front: "n \<le> length d \<Longrightarrow> slice d 0 n \<noteq> Panic"
  by (simp add: slice_def)

lemma parse_wire_safe [safe]: "parseInitialWire P d m ctx \<noteq> Panic" "parseHandshakeWire P d m ctx th1 \<noteq> Panic"
  by (auto simp: parseInitialWire_def parseHandshakeWire_def obind_Panic_iff codec_safe Let_def slice_front)

section \<open>Field values\<close>

lemma FindTLV_member:
  "t \<in> TType ` set tlvs \<Longrightarrow> \<exists>x \<in> set tlvs. TType x = t \<and> FindTLV tlvs t = (TValue x, True)"
  by (induction tlvs) auto

lemma FindTLV_found: "snd (FindTLV tlvs t) \<Longrightarrow> t \<in> TType ` set tlvs"
  by (induction tlvs) (auto split: if_splits)

lemma field_length:
  assumes "context_ok tlvs ctx" and "t \<in> TType ` set tlvs" and "fixedTLVLength t = Some n"
  shows "length (fst (FindTLV tlvs t)) = n"
proof -
  from FindTLV_member [OF assms(2)] obtain x where x: "x \<in> set tlvs" "TType x = t" "FindTLV tlvs t = (TValue x, True)" by blast
  then have "tlv_ok x" using assms(1) by (auto simp: context_ok_def allowed_tlv_def)
  with x assms(3) show ?thesis using tlv_ok_length by simp
qed

lemma required_length:
  assumes "ParseTLVsFor data ctx = Ret tlvs" and "t \<in> set (requiredTLVs ctx)" and "fixedTLVLength t = Some n"
  shows "length (FindTLVValue tlvs t) = n"
proof -
  have "context_ok tlvs ctx"
    using assms(1) by (auto simp: ParseTLVsFor_def obind_Ret_iff ValidateTLVs_Ret_iff)
  moreover from this have "t \<in> TType ` set tlvs" using assms(2) unfolding context_ok_def by blast
  ultimately show ?thesis using field_length [OF _ _ assms(3)] by (simp add: FindTLVValue_def)
qed

lemma optional_length:
  assumes "ParseTLVsFor data ctx = Ret tlvs" and "snd (FindTLV tlvs t)" and "fixedTLVLength t = Some n"
  shows "length (fst (FindTLV tlvs t)) = n"
proof -
  have "context_ok tlvs ctx"
    using assms(1) by (auto simp: ParseTLVsFor_def obind_Ret_iff ValidateTLVs_Ret_iff)
  with FindTLV_found [OF assms(2)] field_length [OF _ _ assms(3)] show ?thesis by blast
qed

lemma reads_safe:
  "0 < length b \<Longrightarrow> index b 0 \<noteq> Panic" "length b = 8 \<Longrightarrow> Uint64 b \<noteq> Panic" "length b = 2 \<Longrightarrow> Uint16 b \<noteq> Panic"
  "length b = 4 \<Longrightarrow> Uint32 b \<noteq> Panic"
  by (simp_all add: index_def Uint64_def Uint16_def Uint32_def)

section \<open>The messages\<close>

lemma validateInitialFields_safe:
  assumes "ParseTLVsFor data TLVContextInitial = Ret tlvs"
  shows "validateInitialFields server tlvs cid \<noteq> Panic"
proof -
  note len = required_length [OF assms, unfolded requiredTLVs_def]
  have "length (FindTLVValue tlvs TLVVersion) = 1" "length (FindTLVValue tlvs TLVClientCID) = 8"
    "length (FindTLVValue tlvs TLVAddressFamilies) = 1" "length (FindTLVValue tlvs TLVMaxDatagramSize) = 2"
    by (rule len; simp add: fixedTLVLength_def tlv_types)+
  then show ?thesis
    unfolding validateInitialFields_def by (simp add: obind_Panic_iff hs_guard reads_safe Let_def)
qed

lemma validateHandshakeFields_safe:
  assumes "ParseTLVsFor data TLVContextHandshake = Ret tlvs"
  shows "validateHandshakeFields client tlvs cid \<noteq> Panic"
proof -
  note len = required_length [OF assms, unfolded requiredTLVs_def]
  have fixed: "length (FindTLVValue tlvs TLVClientCID) = 8" "length (FindTLVValue tlvs TLVServerCID) = 8"
    "length (FindTLVValue tlvs TLVAddressFamilies) = 1" "length (FindTLVValue tlvs TLVMaxDatagramSize) = 2"
    "length (FindTLVValue tlvs TLVTunnelMTU) = 2" "length (FindTLVValue tlvs TLVLeaseSeconds) = 4"
    "length (FindTLVValue tlvs TLVCapabilities) = 8"
    by (rule len; simp add: fixedTLVLength_def tlv_types tlv_contexts)+
  have lease: "snd (FindTLV tlvs TLVIPv4Lease) \<Longrightarrow> length (fst (FindTLV tlvs TLVIPv4Lease)) = 5"
    "snd (FindTLV tlvs TLVIPv6Lease) \<Longrightarrow> length (fst (FindTLV tlvs TLVIPv6Lease)) = 17"
    "snd (FindTLV tlvs TLVEgressPolicyVersion) \<Longrightarrow> length (fst (FindTLV tlvs TLVEgressPolicyVersion)) = 8"
    by (rule optional_length [OF assms]; simp add: fixedTLVLength_def tlv_types)+
  have opt: "(if snd (FindTLV tlvs TLVIPv4Lease) then slice (fst (FindTLV tlvs TLVIPv4Lease)) 0 4 else Ret []) \<noteq> (Panic :: bytes hs_result)"
    "(if snd (FindTLV tlvs TLVIPv6Lease) then slice (fst (FindTLV tlvs TLVIPv6Lease)) 0 16 else Ret []) \<noteq> (Panic :: bytes hs_result)"
    "(if snd (FindTLV tlvs TLVEgressPolicyVersion) then Uint64 (fst (FindTLV tlvs TLVEgressPolicyVersion)) else Ret 0) \<noteq> (Panic :: uint64 hs_result)"
    using lease by (auto intro: slice_front reads_safe)
  show ?thesis
    unfolding validateHandshakeFields_def Let_def split_beta using fixed opt
    by (simp add: obind_Panic_iff hs_guard reads_safe)
qed

lemma openInitial_safe: "hash_ok P \<Longrightarrow> openInitial P server p i ad \<noteq> Panic"
  using validateInitialFields_safe derive_safe
  by (auto simp: openInitial_def obind_Panic_iff safe)

lemma respond_safe: "hash_ok P \<Longrightarrow> respond P server p i th1 opened cid eph \<noteq> Panic"
  using derive_safe by (auto simp: respond_def obind_Panic_iff hs_guard safe Let_def split: prod.splits)

lemma initialMessage_safe: "hash_ok P \<Longrightarrow> initialMessage P client cid eph \<noteq> Panic"
  using derive_safe by (auto simp: initialMessage_def obind_Panic_iff hs_guard safe Let_def)

lemma finishMessage_safe: "hash_ok P \<Longrightarrow> finishMessage P client d \<noteq> Panic"
  using derive_safe validateHandshakeFields_safe
  by (auto simp: finishMessage_def obind_Panic_iff hs_guard safe)

lemma nonZeroCID_safe: "snd (nonZeroCID_loop n random) \<noteq> Panic"
  by (induction n arbitrary: random) (auto simp: ReadFull_def Uint64_def split: prod.splits if_splits)

section \<open>The calls\<close>

lemma or_return_Panic_iff: "snd (or_return r s k) = Panic \<longleftrightarrow> r = Panic \<or> (\<exists>x. r = Ret x \<and> snd (k x) = Panic)"
  by (cases r) auto

lemma Start_safe: "hash_ok P \<Longrightarrow> snd (Start P client) \<noteq> Panic"
  using nonZeroCID_safe [of 32 "co_random (c_options client)"] initialMessage_safe
  by (auto simp: Start_def nextNonZeroCID_def Let_def split_beta safe or_return_Panic_iff split: outcome.splits prod.splits)

lemma Finish_safe: "hash_ok P \<Longrightarrow> snd (Finish P client d) \<noteq> Panic"
  using finishMessage_safe by (auto simp: Finish_def split_beta or_return_Panic_iff)

lemma reserve_safe: "snd (reserve_loop n server) \<noteq> Panic"
  using nonZeroCID_safe by (induction n arbitrary: server) (auto simp: nextNonZeroCID_def Let_def split_beta or_return_Panic_iff)

lemma publishSession_safe: "snd (publishSession e x resp now later server) \<noteq> Panic"
  by (auto simp: publishSession_def publishAttempt_def hs_err_def Let_def split: option.splits)

lemma buildAttempt_safe:
  assumes "hash_ok P"
  shows "snd (buildAttempt P p i ad th1 e now later server) \<noteq> Panic"
  using openInitial_safe [OF assms] respond_safe [OF assms] reserve_safe [of 32 server] publishSession_safe
  by (auto simp: buildAttempt_def reserveServerCIDLocked_def Let_def safe split: outcome.split prod.split)

lemma acquire_has_entry:
  "snd (acquireAttempt now later key ini server) = Lease l \<Longrightarrow> al_builder l \<Longrightarrow> al_entry l \<noteq> None"
  by (auto simp: acquireAttempt_def acquireLocked_def Let_def split: prod.splits option.splits if_splits attemptPhase.splits)

lemma HandleInitial_safe:
  assumes "hash_ok P"
  shows "snd (HandleInitial P now later published d server) \<noteq> Done Panic"
  using buildAttempt_safe [OF assms]
  by (auto simp: HandleInitial_def safe Let_def split_beta dest: acquire_has_entry
      split: outcome.split prod.split acquired.split option.split)

lemma Client_seal_safe: "snd (Client_sealLocked P frames client) \<noteq> Panic"
  by (auto simp: Client_sealLocked_def Let_def obind_Panic_iff safe)

lemma Client_open_safe: "snd (Client_openLocked P d client) \<noteq> Panic"
  by (auto simp: Client_openLocked_def Let_def split_beta safe or_return_Panic_iff)

lemma Session_seal_safe: "snd (Session_sealLocked P frames s now server) \<noteq> Panic"
  by (auto simp: Session_sealLocked_def Let_def obind_Panic_iff safe)

lemma Session_open_safe: "snd (Session_openLocked P d s server) \<noteq> Panic"
  by (auto simp: Session_openLocked_def Let_def split_beta safe or_return_Panic_iff)

lemma replyPong_safe: "snd (replyPong P ch s now server) \<noteq> Panic"
  using Session_seal_safe [of P _ s now server] by (auto simp: replyPong_def split_beta split: outcome.split)

lemma confirmOpened_safe: "snd (confirmOpened P est frames s now later server) \<noteq> Panic"
  using replyPong_safe by (auto simp: confirmOpened_def Let_def split_beta split: list.split bool.split)

section \<open>Properties\<close>



end
