(* ===== verification/Handshake_Interleaving.thy ===== *)
theory Handshake_Interleaving
  imports Handshake_Agreement Handshake_Traffic Handshake_Safety "HOL-Library.Multiset"
begin

text \<open>
  The server under concurrent use. A goroutine in \<^verbatim>\<open>HandleInitial\<close> that won the right to build
  an attempt is a \<open>builder\<close>: the entry it works on and the connection identifier it holds. The
  relation \<open>server_step\<close> has one rule per critical section of the code, so its paths are the
  interleavings of any number of calls: cleanup, acquisition, reservation, publication or
  failure of an attempt, and the calls on sessions, which hold the session's lock. The
  invariant: the attempt table is consistent and within its limits (\<open>cache_ok\<close>), and the active
  connection identifiers are exactly those of the open sessions and of the builders, all
  different (\<open>cid_ok\<close>); every attempt in the building phase has a builder.
\<close>

section \<open>Connection identifiers\<close>

definition open_cids :: "Server \<Rightarrow> uint64 list" where
  "open_cids server = map ss_serverCID (filter (\<lambda>x. \<not> ss_closedCID x) (sv_sessions server))"

definition cid_ok :: "uint64 list \<Rightarrow> Server \<Rightarrow> bool" where
  "cid_ok held server \<longleftrightarrow> distinct (open_cids server @ held) \<and> set (sv_activeCIDs server) = set (open_cids server @ held)"

lemma sessions_at: "s < length (sv_sessions server) \<Longrightarrow>
    sv_sessions server = take s (sv_sessions server) @ session server s # drop (Suc s) (sv_sessions server)"
  by (simp add: session_def id_take_nth_drop)

lemma open_cids_set_session:
  assumes "s < length (sv_sessions server)"
  shows "mset (open_cids (set_session s x server))
      + (if ss_closedCID (session server s) then {#} else {#ss_serverCID (session server s)#})
    = mset (open_cids server) + (if ss_closedCID x then {#} else {#ss_serverCID x#})"
proof -
  let ?a = "take s (sv_sessions server)" and ?b = "drop (Suc s) (sv_sessions server)"
  have "sv_sessions (set_session s x server) = ?a @ x # ?b"
    using assms by (simp add: set_session_def upd_conv_take_nth_drop)
  moreover have "open_cids server = map ss_serverCID (filter (\<lambda>x. \<not> ss_closedCID x) (?a @ session server s # ?b))"
    unfolding open_cids_def by (subst sessions_at [OF assms]) (rule refl)
  ultimately show ?thesis unfolding open_cids_def by simp
qed

lemma cid_ok_cong:
  "cid_ok held a \<Longrightarrow> set (sv_activeCIDs b) = set (sv_activeCIDs a) \<Longrightarrow> mset (open_cids b) = mset (open_cids a) \<Longrightarrow> cid_ok held b"
  unfolding cid_ok_def by (metis distinct_append mset_eq_imp_distinct_iff set_append set_mset_mset)

lemma cid_ok_same: "cid_ok held a \<Longrightarrow> sv_activeCIDs b = sv_activeCIDs a \<Longrightarrow> sv_sessions b = sv_sessions a \<Longrightarrow> cid_ok held b"
  by (erule cid_ok_cong) (simp_all add: open_cids_def)

lemma cid_ok_set_session:
  assumes "cid_ok held server" and "s < length (sv_sessions server)"
    and "ss_serverCID x = ss_serverCID (session server s)" and "ss_closedCID x = ss_closedCID (session server s)"
  shows "cid_ok held (set_session s x server)"
  using open_cids_set_session [OF assms(2), of x] assms(3,4)
  by (intro cid_ok_cong [OF assms(1)]) (simp_all split: if_splits)

lemma cid_ok_close:
  assumes "cid_ok held server" and "s < length (sv_sessions server)"
  shows "cid_ok held (Session_closeLocked st s t server)"
proof -
  let ?x = "session server s" and ?c = "Session_closeLocked st s t server"
  have m: "mset (open_cids ?c) + (if ss_closedCID ?x then {#} else {#ss_serverCID ?x#}) = mset (open_cids server)"
  proof -
    let ?y = "?x\<lparr>ss_state := st, ss_c2sKey := replicate 32 0, ss_s2cKey := replicate 32 0,
          ss_confirmChallenge := replicate 8 0, ss_haveConfirmChallenge := False,
          ss_hasAttempt := False, ss_closedCID := True\<rparr>"
    let ?a = "if ss_hasAttempt ?x then removeAttempt (ss_attemptKey ?x) s
      (if st = StateRejected then (ErrTranscript, '''') else (ErrState, '''')) t server else server"
    let ?b = "if \<not> ss_closedCID ?x then releaseCID (ss_serverCID ?x) ?a else ?a"
    define b where "b = ?b"
    have c: "?c = set_session s ?y b" by (simp add: Session_closeLocked_def Let_def b_def)
    have b: "sv_sessions b = sv_sessions server" by (simp add: b_def)
    then have "session b s = ?x" "open_cids b = open_cids server" by (simp_all add: session_def open_cids_def)
    with open_cids_set_session [of s b ?y] b assms(2) show ?thesis unfolding c by (simp split: if_splits)
  qed
  have cids: "set (sv_activeCIDs ?c) = (if ss_closedCID ?x then set (sv_activeCIDs server) else set (sv_activeCIDs server) - {ss_serverCID ?x})"
    by (simp add: Session_closeLocked_def Let_def)
  show ?thesis
  proof (cases "ss_closedCID ?x")
    case True
    with m cids show ?thesis by (intro cid_ok_cong [OF assms(1)]) simp_all
  next
    case False
    with m have "mset (open_cids server @ held) = mset (ss_serverCID ?x # open_cids ?c @ held)" by simp
    then have "distinct (ss_serverCID ?x # open_cids ?c @ held)" "set (open_cids server @ held) = set (ss_serverCID ?x # open_cids ?c @ held)"
      using assms(1) unfolding cid_ok_def by (metis mset_eq_imp_distinct_iff, metis set_mset_mset)
    with assms(1) cids False show ?thesis unfolding cid_ok_def by auto
  qed
qed

section \<open>Calls on sessions\<close>

text \<open>What the calls on a session are made of. A predicate on servers that these effects keep is
  kept by every call, whatever datagram it gets.\<close>

definition same_owner :: "ServerSession \<Rightarrow> ServerSession \<Rightarrow> bool" where
  "same_owner x y \<longleftrightarrow> ss_serverCID x = ss_serverCID y \<and> ss_closedCID x = ss_closedCID y
     \<and> ss_hasAttempt x = ss_hasAttempt y \<and> ss_attemptKey x = ss_attemptKey y"

locale session_effects =
  fixes I :: "Server \<Rightarrow> bool"
  assumes update: "I v \<Longrightarrow> s < length (sv_sessions v) \<Longrightarrow> same_owner x (session v s) \<Longrightarrow> I (set_session s x v)"
    and close: "I v \<Longrightarrow> s < length (sv_sessions v) \<Longrightarrow> I (Session_closeLocked st s t v)"
    and promote: "I v \<Longrightarrow> I (fst (promoteAttempt k s t v))"
    and grace: "I v \<Longrightarrow> I (fst (confirmGraceActive k s t v))"
begin

lemma seal_keeps:
  assumes "I v" and "s < length (sv_sessions v)"
  shows "I (fst (Session_sealLocked P frames s t v)) \<and> s < length (sv_sessions (fst (Session_sealLocked P frames s t v)))"
  using assms close [OF assms] update [OF assms, of "(session v s)\<lparr>ss_sendPN := ss_sendPN (session v s) + 1\<rparr>"]
  by (simp add: Session_sealLocked_def Let_def same_owner_def) (simp add: Session_closeLocked_def Let_def)

lemma open_keeps:
  assumes "I v" and "s < length (sv_sessions v)" and "Session_openLocked P d s v = (v', r)"
  shows "I v' \<and> s < length (sv_sessions v')"
  using assms update [OF assms(1,2)] unfolding Session_openLocked_def Let_def or_return_def
  by (auto simp: same_owner_def split: outcome.splits if_splits prod.splits)

lemma reply_keeps: "I v \<Longrightarrow> s < length (sv_sessions v) \<Longrightarrow> I (fst (replyPong P ch s t v))"
  using seal_keeps [of v s P "[\<lparr>FType = FramePong, FFlags = 0, FBody = ch\<rparr>]" t] close
  by (auto simp: replyPong_def split: prod.splits outcome.splits)

lemma confirm_keeps:
  assumes "I v" and "s < length (sv_sessions v)"
  shows "I (fst (confirmOpened P est frames s now later v))"
proof -
  have len: "length (sv_sessions (fst (promoteAttempt k s now v))) = length (sv_sessions v)"
    "length (sv_sessions (fst (confirmGraceActive k s now v))) = length (sv_sessions v)" for k
    by (auto simp: promoteAttempt_def confirmGraceActive_def Let_def split: option.splits)
  let ?p = "fst (promoteAttempt (ss_attemptKey (session v s)) s now v)"
  have p: "I ?p" "s < length (sv_sessions ?p)" "I (fst (confirmGraceActive k s now v))" "s < length (sv_sessions (fst (confirmGraceActive k s now v)))" for k
    using promote [OF assms(1)] grace [OF assms(1)] assms(2) len by simp_all
  have "I (set_session s ((session ?p s)\<lparr>ss_confirmChallenge := c, ss_haveConfirmChallenge := h, ss_state := st\<rparr>) ?p)" for c h st
    by (rule update [OF p(1,2)]) (simp add: same_owner_def)
  then show ?thesis
    using assms p close unfolding confirmOpened_def Let_def
    by (auto simp: split_beta intro!: reply_keeps split: list.split bool.split)
qed

lemma HandleConfirm_keeps: "I v \<Longrightarrow> s < length (sv_sessions v) \<Longrightarrow> I (fst (HandleConfirm P d s now later v))"
  using open_keeps [of v s P d] confirm_keeps
  by (auto simp: HandleConfirm_def Let_def or_return_def split: prod.splits outcome.splits)

lemma Session_Open_keeps: "I v \<Longrightarrow> s < length (sv_sessions v) \<Longrightarrow> I (fst (Session_Open P d s v))"
  using open_keeps [of v s P d] by (auto simp: Session_Open_def) (metis prod.collapse)

lemma Session_Seal_keeps: "I v \<Longrightarrow> s < length (sv_sessions v) \<Longrightarrow> I (fst (Session_Seal P frames s t v))"
  using seal_keeps [of v s P frames t] by (simp add: Session_Seal_def)

end

section \<open>The interleavings\<close>

type_synonym builder = "nat \<times> uint64 option"
type_synonym server_state = "Server \<times> builder list"

definition held :: "builder list \<Rightarrow> uint64 list" where
  "held bs = List.map_filter snd bs"

text \<open>A session a builder has made, before it is published.\<close>

definition unpublished :: "uint64 \<Rightarrow> ServerSession \<Rightarrow> bool" where
  "unpublished cid x \<longleftrightarrow> ss_serverCID x = cid \<and> \<not> ss_closedCID x \<and> \<not> ss_hasAttempt x"

inductive server_step :: "server_state \<Rightarrow> server_state \<Rightarrow> bool" where
  cleanup: "cleanupAttemptsLocked now v = (v', expired, changed) \<Longrightarrow> server_step (v, bs) (v', bs)"
| acquire_builder: "acquireLocked now key initial v = (v', Lease l) \<Longrightarrow> al_builder l \<Longrightarrow> al_entry l = Some e \<Longrightarrow>
    server_step (v, bs) (v', (e, None) # bs)"
| reserve: "reserveServerCIDLocked v = (v', Ret cid) \<Longrightarrow>
    server_step (v, as @ (e, None) # bs) (v', as @ (e, Some cid) # bs)"
| reserve_fails: "reserveServerCIDLocked v = (v', Err err) \<Longrightarrow> server_step (v, bs) (v', bs)"
| random: "server_step (v, bs) (set_server_random r v, bs)"
| release: "server_step (v, as @ (e, Some cid) # bs) (releaseCID cid v, as @ (e, None) # bs)"
| publish: "unpublished cid x \<Longrightarrow> publishSession e x response now later v = (v', r) \<Longrightarrow>
    server_step (v, as @ (e, Some cid) # bs) (v', as @ bs)"
| fail: "server_step (v, as @ (e, None) # bs) (failAttempt e err v, as @ bs)"
| close_session: "s < length (sv_sessions v) \<Longrightarrow> server_step (v, bs) (Session_closeLocked st s now v, bs)"
| confirm: "s < length (sv_sessions v) \<Longrightarrow> server_step (v, bs) (fst (HandleConfirm P d s now later v), bs)"
| open_data: "s < length (sv_sessions v) \<Longrightarrow> server_step (v, bs) (fst (Session_Open P d s v), bs)"
| seal_data: "s < length (sv_sessions v) \<Longrightarrow> server_step (v, bs) (fst (Session_Seal P frames s now v), bs)"

text \<open>Every attempt being built has exactly one builder, and every builder its own attempt.\<close>

definition builders_ok :: "builder list \<Rightarrow> Server \<Rightarrow> bool" where
  "builders_ok bs v \<longleftrightarrow> distinct (map fst bs) \<and> (\<forall>e \<in> fst ` set bs. e < length (sv_entries v))
     \<and> (\<forall>e < length (sv_entries v). ae_phase (entry v e) = attemptBuilding \<longrightarrow> e \<in> fst ` set bs)"

fun server_ok :: "server_state \<Rightarrow> bool" where
  "server_ok (v, bs) \<longleftrightarrow> cache_ok v \<and> cid_ok (held bs) v \<and> builders_ok bs v"

lemma held_simps [simp]:
  "held [] = []" "held ((e, None) # bs) = held bs" "held ((e, Some c) # bs) = c # held bs" "held (as @ bs) = held as @ held bs"
  by (simp_all add: held_def map_filter_def)

text \<open>The phase of an entry only moves away from building.\<close>

definition settles :: "Server \<Rightarrow> Server \<Rightarrow> bool" where
  "settles v v' \<longleftrightarrow> length (sv_entries v') = length (sv_entries v)
     \<and> (\<forall>e < length (sv_entries v). ae_phase (entry v' e) = attemptBuilding \<longrightarrow> ae_phase (entry v e) = attemptBuilding)"

lemma settles_builders: "settles v v' \<Longrightarrow> builders_ok bs v \<Longrightarrow> builders_ok bs v'"
  by (auto simp: settles_def builders_ok_def)

lemma settles_trans: "settles a b \<Longrightarrow> settles b c \<Longrightarrow> settles a c"
  by (auto simp: settles_def)

lemma settles_same: "sv_entries v' = sv_entries v \<Longrightarrow> settles v v'"
  by (simp add: settles_def entry_def)

lemma settles_tombstone: "settles v (tombstoneAttemptLocked e r t v)"
proof -
  have "ae_phase (entry (tombstoneAttemptLocked e r t v) e') = attemptBuilding \<Longrightarrow> e' < length (sv_entries v)
    \<Longrightarrow> ae_phase (entry v e') = attemptBuilding" for e'
    by (cases "e' = e") simp_all
  then show ?thesis by (auto simp: settles_def)
qed

lemma settles_simps [simp]:
  "settles v (set_session s x a) = settles v a" "settles v (releaseCID c a) = settles v a"
  by (simp_all add: settles_def)

lemma settles_close: "settles v (Session_closeLocked st s t v)"
proof -
  have "settles v (removeAttempt k s r t v)" for k r
    by (auto simp: removeAttempt_def settles_same settles_tombstone split: option.splits)
  then show ?thesis unfolding Session_closeLocked_def Let_def by (simp add: settles_same)
qed

lemma settles_promote: "settles v (fst (promoteAttempt k s t v))" "settles v (fst (confirmGraceActive k s t v))"
  by (auto simp: promoteAttempt_def confirmGraceActive_def Let_def settles_same settles_tombstone split: option.splits)
    (simp add: settles_def)

lemma settles_cleanup: "cleanup_loop now tab v = (v', ex, ch) \<Longrightarrow> settles v v'"
proof (induction tab arbitrary: v v' ex ch)
  case Nil
  then show ?case by (simp add: settles_same)
next
  case (Cons p rest)
  obtain key e where p: "p = (key, e)" by fastforce
  from Cons.prems obtain b ex' ch' where "cleanup_loop now rest b = (v', ex', ch')"
    and "b \<in> {v, v\<lparr>sv_attempts := AList.delete key (sv_attempts v)\<rparr>, tombstoneAttemptLocked e (ErrAttemptExpired, '''') now v}"
    by (auto simp: p Let_def split: prod.splits if_splits option.splits attemptPhase.splits)
  moreover from this have "settles v b" using settles_tombstone by (auto simp: settles_same)
  ultimately show ?case using Cons.IH settles_trans by blast
qed

section \<open>Every step keeps the invariant\<close>

definition keeps :: "builder list \<Rightarrow> Server \<Rightarrow> bool" where
  "keeps bs v \<longleftrightarrow> server_ok (v, bs)"

lemma owner_same_cache:
  "s < length (sv_sessions v) \<Longrightarrow> same_owner x (session v s) \<Longrightarrow> same_cache (set_session s x v) v"
  by (auto simp: same_cache_def same_owner_def)

interpretation sessions: session_effects "keeps bs" for bs
proof
  fix v s x
  assume v: "keeps bs v" "s < length (sv_sessions v)" and x: "same_owner x (session v s)"
  show "keeps bs (set_session s x v)"
    using v x same_cache_ok [OF owner_same_cache [OF v(2) x]] cid_ok_set_session [of "held bs" v s x]
      settles_builders [of v "set_session s x v" bs]
    by (simp add: keeps_def same_owner_def settles_same)
next
  fix v s st t
  assume "keeps bs v" "s < length (sv_sessions v)"
  then show "keeps bs (Session_closeLocked st s t v)"
    using Session_closeLocked_ok cid_ok_close settles_builders [OF settles_close] by (simp add: keeps_def)
next
  fix v k s t
  assume v: "keeps bs v"
  have same: "sv_sessions (fst (promoteAttempt k s t v)) = sv_sessions v" "sv_activeCIDs (fst (promoteAttempt k s t v)) = sv_activeCIDs v"
    "sv_sessions (fst (confirmGraceActive k s t v)) = sv_sessions v" "sv_activeCIDs (fst (confirmGraceActive k s t v)) = sv_activeCIDs v"
    by (auto simp: promoteAttempt_def confirmGraceActive_def Let_def split: option.splits)
  show "keeps bs (fst (promoteAttempt k s t v))" "keeps bs (fst (confirmGraceActive k s t v))"
    using v promoteAttempt_ok confirmGraceActive_ok settles_builders [OF settles_promote(1)] settles_builders [OF settles_promote(2)]
      cid_ok_same [of "held bs" v, OF _ same(2,1)] cid_ok_same [of "held bs" v, OF _ same(4,3)]
    by (simp_all add: keeps_def)
qed

lemma acquire_step:
  assumes "server_ok (v, bs)" and "acquireLocked now key initial v = (v', Lease l)" and "al_builder l" and "al_entry l = Some e"
  shows "server_ok (v', (e, None) # bs)"
proof -
  have e: "e = length (sv_entries v)" and v': "sv_sessions v' = sv_sessions v" "sv_activeCIDs v' = sv_activeCIDs v"
      "\<exists>x. sv_entries v' = sv_entries v @ [x]"
    using assms(2-4) by (auto simp: acquireLocked_def Let_def split: option.splits if_splits attemptPhase.splits)
  have "cache_ok v'" using acquireLocked_ok [of v now key initial] assms by simp
  moreover have "cid_ok (held ((e, None) # bs)) v'" using assms(1) cid_ok_same [OF _ v'(2,1)] by simp
  moreover have "builders_ok ((e, None) # bs) v'"
    using assms(1) v'(3) by (auto simp: builders_ok_def e entry_def nth_append less_Suc_eq)
  ultimately show ?thesis by simp
qed

text \<open>A builder whose entry has left the building phase may go.\<close>

lemma drop_builder:
  assumes "builders_ok (as @ (e, h) # bs) v" and "settles v v'" and "ae_phase (entry v' e) \<noteq> attemptBuilding"
  shows "builders_ok (as @ bs) v'"
  using settles_builders [OF assms(2,1)] assms(3) unfolding builders_ok_def by auto

lemma building_filed:
  assumes "cache_ok v" and "e < length (sv_entries v)" and "ae_phase (entry v e) = attemptBuilding"
  shows "map_of (sv_attempts v) (ae_key (entry v e)) = Some e"
proof -
  have "e \<in> active_set v" using assms by (simp add: active_set_def active_entry_def)
  then show ?thesis using assms(1) by (auto simp: cache_ok_def table_ok_def)
qed

lemma failAttempt_facts:
  assumes "cache_ok v" and "e < length (sv_entries v)"
  shows "settles v (failAttempt e err v)" "ae_phase (entry (failAttempt e err v) e) \<noteq> attemptBuilding"
    "sv_sessions (failAttempt e err v) = sv_sessions v" "sv_activeCIDs (failAttempt e err v) = sv_activeCIDs v"
  using building_filed [OF assms] assms(2) by (auto simp: failAttempt_def Let_def settles_def) (simp_all add: entry_def)

lemma fail_step:
  assumes "server_ok (v, as @ (e, None) # bs)"
  shows "server_ok (failAttempt e err v, as @ bs)"
proof -
  have ok: "cache_ok v" and e: "e < length (sv_entries v)" using assms by (auto simp: builders_ok_def)
  note f = failAttempt_facts [OF ok e, of err]
  show ?thesis
    using assms failAttempt_ok [OF ok e] drop_builder [of as e None bs, OF _ f(1,2)] cid_ok_same [OF _ f(4,3)] by simp
qed

lemma reserve_step:
  assumes "server_ok (v, as @ (e, None) # bs)" and "reserveServerCIDLocked v = (v', Ret cid)"
  shows "server_ok (v', as @ (e, Some cid) # bs)"
proof -
  note r = reserve_Ret [OF assms(2) [unfolded reserveServerCIDLocked_def]]
  from r have "same_cache v' v" by (auto simp: same_cache_def same_config_def session_def)
  then have "cache_ok v'" using same_cache_ok assms(1) by simp
  moreover have "open_cids v' = open_cids v" using r by (simp add: open_cids_def)
  then have "cid_ok (held (as @ (e, Some cid) # bs)) v'" using assms(1) r by (auto simp: cid_ok_def)
  moreover have "settles v v'" using r by (simp add: settles_same)
  have "builders_ok (as @ (e, None) # bs) v'" by (rule settles_builders [OF \<open>settles v v'\<close>]) (use assms(1) in simp)
  then have "builders_ok (as @ (e, Some cid) # bs) v'" by (simp add: builders_ok_def)
  ultimately show ?thesis by simp
qed

lemma reserve_fails_step:
  "reserve_loop n v = (v', Err err) \<Longrightarrow> \<exists>r. v' = set_server_random r v"
proof (induction n arbitrary: v)
  case 0
  then show ?case by (auto simp: set_server_random_def intro!: exI [of _ "so_random (sv_options v)"])
next
  case (Suc n)
  obtain r c where c: "nextNonZeroCID (so_random (sv_options v)) = (r, c)" by fastforce
  have twice: "set_server_random a (set_server_random r v) = set_server_random a v" for a by (simp add: set_server_random_def)
  from Suc.prems show ?case
    using Suc.IH [of "set_server_random r v"] by (auto simp: c twice Let_def or_return_def split: if_splits outcome.splits)
qed

lemma random_step: "server_ok (v, bs) \<Longrightarrow> server_ok (set_server_random r v, bs)"
  using same_cache_ok [of "set_server_random r v" v] cid_ok_same [of "held bs" v "set_server_random r v"]
    settles_builders [OF settles_same, of "set_server_random r v" v bs]
  by (simp add: set_server_random_def same_cache_def session_def)

lemma release_step:
  assumes "server_ok (v, as @ (e, Some cid) # bs)"
  shows "server_ok (releaseCID cid v, as @ (e, None) # bs)"
proof -
  have "open_cids (releaseCID cid v) = open_cids v" by (simp add: open_cids_def)
  then have "cid_ok (held (as @ (e, None) # bs)) (releaseCID cid v)" using assms by (auto simp: cid_ok_def)
  moreover have "builders_ok (as @ (e, None) # bs) (releaseCID cid v)"
    using assms by (simp add: builders_ok_def)
  ultimately show ?thesis using assms releaseCID_ok by simp
qed

lemma publish_step:
  assumes ok: "server_ok (v, as @ (e, Some cid) # bs)" and x: "unpublished cid x"
    and pub: "publishSession e x response now later v = (v', r)"
  shows "server_ok (v', as @ bs)"
proof -
  let ?s = "length (sv_sessions v)" and ?v1 = "v\<lparr>sv_sessions := sv_sessions v @ [x]\<rparr>"
  have old: "session ?v1 t = session v t" if "t < ?s" for t using that by (simp add: session_def nth_append)
  have s: "session ?v1 ?s = x" "?s < length (sv_sessions ?v1)" by (simp_all add: session_def)
  have "same_cache ?v1 v" using old by (simp add: same_cache_def)
  then have c1: "cache_ok ?v1" using same_cache_ok ok by simp
  have cid1: "cid_ok (held (as @ bs)) ?v1"
    using ok x by (auto simp: cid_ok_def open_cids_def unpublished_def)
  have e: "e < length (sv_entries ?v1)" and b: "builders_ok (as @ (e, Some cid) # bs) v" using ok by (auto simp: builders_ok_def)
  obtain v2 r2 where p: "publishAttempt e ?s response now ?v1 = (v2, r2)" by fastforce
  have c2: "cache_ok v2" using publishAttempt_ok [OF c1 e s(2), of response now] x s(1) p by (simp add: unpublished_def)
  show ?thesis
  proof (cases "ae_phase (entry ?v1 e) = attemptBuilding")
    case True
    then have v2: "v2 = set_session ?s ((session ?v1 ?s)\<lparr>ss_attemptKey := ae_key (entry ?v1 e), ss_hasAttempt := True\<rparr>)
        (set_entry e ((entry ?v1 e)\<lparr>ae_phase := attemptReady, ae_session := Some ?s, ae_response := response,
           ae_expiresAt := now + so_pendingAttemptTimeout (sv_options ?v1), ae_done := True\<rparr>) ?v1)" "r2 = Ret ()"
      using p building_filed [OF c1 e True] by (simp_all add: publishAttempt_def Let_def)
    have "settles v v2" "ae_phase (entry v2 e) \<noteq> attemptBuilding"
      unfolding v2(1) using e by (auto simp: settles_def) (simp_all add: entry_def)
    from drop_builder [OF b this] have "builders_ok (as @ bs) v2" .
    moreover have "cid_ok (held (as @ bs)) v2"
      unfolding v2(1) using cid1 by (intro cid_ok_set_session) (auto elim: cid_ok_same simp: session_def)
    moreover have "v' = v2" using pub p v2(2) by (simp add: publishSession_def Let_def)
    ultimately show ?thesis using c2 by simp
  next
    case False
    then obtain err where v2: "v2 = ?v1" "r2 = Err err"
      using p by (auto simp: publishAttempt_def Let_def hs_err_def split: option.splits)
    let ?v3 = "Session_Close ?s later ?v1"
    have v': "v' = failAttempt e err ?v3" using pub p v2 by (simp add: publishSession_def Let_def)
    have c3: "cache_ok ?v3" "cid_ok (held (as @ bs)) ?v3"
      unfolding Session_Close_def using Session_closeLocked_ok [OF c1] cid_ok_close [OF cid1 s(2)] by simp_all
    have st: "settles v ?v3" using settles_trans [OF settles_same settles_close, of ?v1 v] by (simp add: Session_Close_def)
    then have e3: "e < length (sv_entries ?v3)" using e by (simp add: settles_def)
    note f = failAttempt_facts [OF c3(1) e3, of err]
    have "builders_ok (as @ bs) v'" unfolding v' by (rule drop_builder [OF b settles_trans [OF st f(1)] f(2)])
    moreover have "cache_ok v'" "cid_ok (held (as @ bs)) v'"
      unfolding v' using failAttempt_ok [OF c3(1) e3] cid_ok_same [OF c3(2) f(4,3)] by simp_all
    ultimately show ?thesis by simp
  qed
qed

lemma cleanup_cids: "cleanup_loop now tab v = (v', ex, ch) \<Longrightarrow> sv_activeCIDs v' = sv_activeCIDs v \<and> sv_sessions v' = sv_sessions v"
proof (induction tab arbitrary: v v' ex ch)
  case (Cons p rest)
  obtain key e where p: "p = (key, e)" by fastforce
  from Cons.prems obtain b ex' ch' where "cleanup_loop now rest b = (v', ex', ch')"
    and "b \<in> {v, v\<lparr>sv_attempts := AList.delete key (sv_attempts v)\<rparr>, tombstoneAttemptLocked e (ErrAttemptExpired, '''') now v}"
    by (auto simp: p Let_def split: prod.splits if_splits option.splits attemptPhase.splits)
  with Cons.IH [of b v' ex' ch'] show ?case by auto
qed simp

lemma step_ok: "server_step a b \<Longrightarrow> server_ok a \<Longrightarrow> server_ok b"
proof (induction rule: server_step.induct)
  case (cleanup now v v' expired changed bs)
  have same: "frame_cache v' v" "sv_activeCIDs v' = sv_activeCIDs v" "sv_sessions v' = sv_sessions v" "settles v v'"
    using cleanup(1) frame_cleanup [of now "sv_attempts v" v v' expired changed v] cleanup_cids settles_cleanup
    unfolding cleanupAttemptsLocked_def by auto
  with cleanup cleanup_ok cid_ok_same [OF _ same(2,3)] settles_builders [OF same(4)] show ?case by auto
next
  case (acquire_builder now key initial v v' l e bs)
  show ?case by (rule acquire_step [OF acquire_builder(4,1,2,3)])
next
  case (reserve v v' cid as e bs)
  show ?case by (rule reserve_step [OF reserve(2,1)])
next
  case (reserve_fails v v' err bs)
  then show ?case using reserve_fails_step random_step unfolding reserveServerCIDLocked_def by blast
next
  case (random v bs r)
  then show ?case by (rule random_step)
next
  case (release v as e cid bs)
  then show ?case by (rule release_step)
next
  case (publish cid x e response now later v v' r as bs)
  show ?case by (rule publish_step [OF publish(3,1,2)])
next
  case (fail v as e bs err)
  then show ?case by (rule fail_step)
next
  case (close_session s v bs st now)
  then show ?case using sessions.close [unfolded keeps_def] by blast
next
  case (confirm s v bs P d now later)
  then show ?case using sessions.HandleConfirm_keeps [unfolded keeps_def] by blast
next
  case (open_data s v bs P d)
  then show ?case using sessions.Session_Open_keeps [unfolded keeps_def] by blast
next
  case (seal_data s v bs P frames now)
  then show ?case using sessions.Session_Seal_keeps [unfolded keeps_def] by blast
qed

lemma steps_ok: "server_step\<^sup>*\<^sup>* a b \<Longrightarrow> server_ok a \<Longrightarrow> server_ok b"
  by (induction rule: rtranclp_induct) (auto intro: step_ok)

lemma normalizeServerConfig_limits:
  assumes "normalizeServerConfig rnd config = Ret opts"
  shows "0 \<le> so_maxPendingAttempts opts \<and> so_maxPendingAttempts opts \<le> so_maxAttemptRecords opts"
proof -
  note g = assms [unfolded normalizeServerConfig_def Let_def hs_guard outcome.inject]
  from g have "0 \<le> (if sc_MaxPendingAttempts config = 0 then 1024 else sc_MaxPendingAttempts config)" by (simp only: not_less)
  with g show ?thesis by (elim conjE, hypsubst) (simp only: serverOptions.simps not_less)
qed

lemma NewServer_ok:
  assumes "NewServer rnd config = Ret v"
  shows "server_ok (v, [])"
proof -
  from assms obtain opts where o: "normalizeServerConfig rnd config = Ret opts" and v: "sv_options v = opts" "sv_activeCIDs v = []"
    "sv_attempts v = []" "sv_activeAttempts v = 0" "sv_entries v = []" "sv_sessions v = []"
    by (auto simp: NewServer_def obind_Ret_iff)
  from normalizeServerConfig_limits [OF o] show ?thesis
    by (simp add: v cache_ok_def table_ok_def limits_ok_def active_set_def cid_ok_def open_cids_def builders_ok_def)
qed

section \<open>The calls are paths\<close>

lemma rtranclp_two: "r a b \<Longrightarrow> r\<^sup>*\<^sup>* b c \<Longrightarrow> r\<^sup>*\<^sup>* a c"
  by (rule converse_rtranclp_into_rtranclp)

lemma closeExpired_steps:
  "\<forall>s \<in> set ss. s < length (sv_sessions v) \<Longrightarrow> server_step\<^sup>*\<^sup>* (v, bs) (closeExpiredSessions ss t v, bs)"
proof (induction ss t v rule: closeExpiredSessions.induct)
  case (2 s rest now v)
  have "length (sv_sessions (Session_Close s now v)) = length (sv_sessions v)"
    by (simp add: Session_Close_def Session_closeLocked_def Let_def)
  with 2 have "server_step\<^sup>*\<^sup>* (Session_Close s now v, bs) (closeExpiredSessions rest now (Session_Close s now v), bs)" by simp
  moreover have "server_step (v, bs) (Session_Close s now v, bs)"
    unfolding Session_Close_def using 2 by (intro close_session) simp
  ultimately show ?case by (simp add: rtranclp_two)
qed simp

text \<open>The sessions the cleanup hands over for closing exist.\<close>

lemma cleanup_expired:
  assumes "cleanup_loop now tab v = (v', ex, ch)" and "\<forall>(k, e) \<in> set tab. e < length (sv_entries v)"
    and "\<forall>e < length (sv_entries v). ae_phase (entry v e) = attemptReady \<longrightarrow> (\<forall>s. ae_session (entry v e) = Some s \<longrightarrow> s < n)"
  shows "\<forall>s \<in> set ex. s < n"
  using assms
proof (induction tab arbitrary: v ex ch)
  case Nil
  then show ?case by simp
next
  case (Cons p rest)
  obtain key e where p: "p = (key, e)" by fastforce
  have e: "e < length (sv_entries v)" using Cons.prems(2) p by simp
  let ?t = "tombstoneAttemptLocked e (ErrAttemptExpired, '''') now v"
  from Cons.prems(1) obtain b ex' ch' where b: "cleanup_loop now rest b = (v', ex', ch')"
    "b \<in> {v, v\<lparr>sv_attempts := AList.delete key (sv_attempts v)\<rparr>, ?t}"
    "set ex \<subseteq> set ex' \<union> {s. ae_phase (entry v e) = attemptReady \<and> ae_session (entry v e) = Some s}"
    by (auto simp: p Let_def split: prod.splits if_splits option.splits attemptPhase.splits) (blast+)
  have "ae_phase (entry ?t e') = attemptReady \<Longrightarrow> ae_phase (entry v e') = attemptReady \<and> ae_session (entry ?t e') = ae_session (entry v e')" for e'
    using e by (cases "e' = e") simp_all
  moreover have "entry (v\<lparr>sv_attempts := l\<rparr>) = entry v" for l by (simp add: entry_def fun_eq_iff)
  ultimately have "\<forall>s \<in> set ex'. s < n"
    using Cons.prems(2,3) b(2) by (intro Cons.IH [OF b(1)]) auto
  with b(3) e Cons.prems(3) show ?case by auto
qed

lemma acquireLocked_path:
  assumes "acquireLocked now key initial v = (v', a)" and "\<nexists>l. a = Lease l \<and> al_builder l"
  shows "v' = v"
  using assms by (auto simp: acquireLocked_def Let_def split: option.splits if_splits attemptPhase.splits)

lemma acquireLocked_builder:
  assumes "acquireLocked now key initial v = (v', Lease l)" and "al_builder l"
  shows "\<exists>e. al_entry l = Some e"
  using assms by (auto simp: acquireLocked_def Let_def split: option.splits if_splits attemptPhase.splits)

text \<open>\<open>after_acquire\<close>: the builders once \<^verbatim>\<open>acquireAttempt\<close> has returned.\<close>

fun after_acquire :: "acquired \<Rightarrow> builder list \<Rightarrow> builder list" where
  "after_acquire (Lease l) bs = (if al_builder l then (the (al_entry l), None) # bs else bs)"
| "after_acquire a bs = bs"

lemma acquireAttempt_path:
  assumes "cache_ok v" and "acquireAttempt now later key initial v = (v', a)"
  shows "server_step\<^sup>*\<^sup>* (v, bs) (v', after_acquire a bs)"
proof -
  obtain v1 ex ch where c: "cleanupAttemptsLocked now v = (v1, ex, ch)" by (metis surj_pair)
  obtain v2 a' where a: "acquireLocked now key initial v1 = (v2, a')" by fastforce
  have v': "v' = closeExpiredSessions ex later v2" "a' = a" using assms(2) by (simp_all add: acquireAttempt_def c a)
  have "server_step (v, bs) (v1, bs)" by (rule cleanup [OF c])
  also have "server_step\<^sup>*\<^sup>* (v1, bs) (v2, after_acquire a bs)"
  proof (cases "\<exists>l. a = Lease l \<and> al_builder l")
    case True
    then obtain l where l: "a = Lease l" "al_builder l" by blast
    with acquireLocked_builder [of now key initial v1 v2 l] a v'(2) obtain e where "al_entry l = Some e" by blast
    with acquire_builder [of now key initial v1 v2 l e bs] a l v'(2) show ?thesis by auto
  next
    case False
    then have "after_acquire a bs = bs" by (cases a) auto
    with acquireLocked_path [OF a] False v'(2) show ?thesis by auto
  qed
  finally have path: "server_step\<^sup>*\<^sup>* (v, bs) (v2, after_acquire a bs)" .
  have "\<forall>s \<in> set ex. s < length (sv_sessions v)"
    using assms(1) by (intro cleanup_expired [OF c [unfolded cleanupAttemptsLocked_def]])
      (auto simp: cache_ok_def table_ok_def all_entries entry_ok_def)
  moreover have "length (sv_sessions v2) = length (sv_sessions v)"
    using frame_acquireLocked [OF a] frame_cleanup [OF c [unfolded cleanupAttemptsLocked_def], of v] by (simp add: frame_cache_def)
  ultimately show ?thesis
    unfolding v'(1) using rtranclp_trans [OF path closeExpired_steps] by simp
qed

lemma path2: "r a b \<Longrightarrow> r b c \<Longrightarrow> r\<^sup>*\<^sup>* a c"
  by (meson converse_rtranclp_into_rtranclp r_into_rtranclp)

lemma abandon: "server_step\<^sup>*\<^sup>* (v, (e, Some cid) # bs) (failAttempt e err (releaseCID cid v), bs)"
  by (rule path2 [of server_step, OF release [of v "[]" e cid bs, simplified] fail [of "releaseCID cid v" "[]" e bs err, simplified]])

lemma unpublished_new: "unpublished cid (newSession p cid cs th2 c2s s2c maxd)"
  by (simp add: unpublished_def newSession_def)

lemma buildAttempt_path:
  assumes "buildAttempt P p i ad th1 e now later v = (v', r)" and "r \<noteq> Panic"
  shows "server_step\<^sup>*\<^sup>* (v, (e, None) # bs) (v', bs)"
proof -
  note fails = fail [of _ "[]" e bs, simplified]
  consider (opened) err where "v' = failAttempt e err v"
    | (reserved) v1 err err' where "reserveServerCIDLocked v = (v1, Err err')" "v' = failAttempt e err v1"
    | (keyed) v1 cid rnd err where "reserveServerCIDLocked v = (v1, Ret cid)" "v' = failAttempt e err (releaseCID cid (set_server_random rnd v1))"
    | (built) v1 cid rnd x resp where "reserveServerCIDLocked v = (v1, Ret cid)" "unpublished cid x"
        "publishSession e x resp now later (set_server_random rnd v1) = (v', r)"
    using assms unfolding buildAttempt_def Let_def
    by (auto split: outcome.splits prod.splits) (metis unpublished_new)
  then show ?thesis
  proof cases
    case opened
    then show ?thesis using fails [of v err] by (simp add: r_into_rtranclp)
  next
    case reserved
    then show ?thesis using path2 [of server_step, OF reserve_fails fails] by blast
  next
    case keyed
    have "server_step\<^sup>*\<^sup>* (v, (e, None) # bs) (set_server_random rnd v1, (e, Some cid) # bs)"
      by (rule path2 [of server_step, OF reserve [of v v1 cid "[]", simplified, OF keyed(1)] random])
    also note abandon [of "set_server_random rnd v1" e cid bs err]
    finally show ?thesis by (simp add: keyed(2))
  next
    case built
    have "server_step\<^sup>*\<^sup>* (v, (e, None) # bs) (set_server_random rnd v1, (e, Some cid) # bs)"
      by (rule path2 [of server_step, OF reserve [of v v1 cid "[]", simplified, OF built(1)] random])
    also have "server_step (set_server_random rnd v1, (e, Some cid) # bs) (v', bs)"
      by (rule publish [of cid x e resp now later _ v' r "[]", simplified, OF built(2,3)])
    finally show ?thesis .
  qed
qed

lemma HandleInitial_steps:
  assumes "cache_ok v" and "HandleInitial P now later published d v = (v', h)" and "h \<noteq> Done Panic"
  shows "server_step\<^sup>*\<^sup>* (v, bs) (v', bs)"
proof (cases "parseInitialWire P d (uint (so_maxDatagramSize (sv_options v))) (sv_context v)")
  case (Ret wire)
  obtain p i ad th1 where wire: "wire = (p, i, ad, th1)" by (metis surj_pair)
  obtain v1 a where a: "acquireAttempt now later th1 d v = (v1, a)" by fastforce
  note path = acquireAttempt_path [OF assms(1) a, of bs]
  note eq = assms(2) [unfolded HandleInitial_def Ret wire outcome.case prod.case a]
  show ?thesis
  proof (cases "DCID (PHeader p) \<noteq> 0 \<or> SCID (PHeader p) = 0 \<or> (\<nexists>l e. a = Lease l \<and> al_builder l \<and> al_entry l = Some e)")
    case True
    then have "v' = v \<or> v' = v1 \<and> after_acquire a bs = bs"
      using eq assms(3) by (cases a) (auto split: if_splits option.splits prod.splits)
    then show ?thesis using path by auto
  next
    case False
    then obtain l e r where l: "a = Lease l" "al_builder l" "al_entry l = Some e"
      and b: "buildAttempt P p i ad th1 e published later v1 = (v', r)" "h = Done r"
      using eq by (auto split: prod.splits)
    with path buildAttempt_path [OF b(1), of bs] assms(3) show ?thesis by auto
  qed
qed (use assms in \<open>auto simp: HandleInitial_def\<close>)

section \<open>Properties\<close>



text \<open>C9. Every \<^verbatim>\<open>HandleInitial\<close> call is a sequence of these steps: whatever its datagram, it leads from the server it finds to the server it leaves, and the goroutines that
  build attempts are afterwards the same as before.\<close>

theorem HandleInitial_refines_steps:
  assumes "hash_ok P" and "cache_ok v" and "HandleInitial P now later published d v = (v', h)"
  shows "server_step\<^sup>*\<^sup>* (v, bs) (v', bs)"
  using HandleInitial_steps [OF assms(2,3)] HandleInitial_safe [OF assms(1), of now later published d v] assms(3) by simp

theorem HandleInitial_refines_steps_witness:
  "server_step\<^sup>*\<^sup>* (sample_server, [(3, None)]) (fst (HandleInitial sample_prims 1 2 3 [7] sample_server), [(3, None)])"
proof -
  have ok: "cache_ok sample_server" using NewServer_ok [OF sample_server_new] by simp
  have d: "HandleInitial sample_prims 1 2 3 [7] sample_server
    = (fst (HandleInitial sample_prims 1 2 3 [7] sample_server), snd (HandleInitial sample_prims 1 2 3 [7] sample_server))" by simp
  from HandleInitial_refines_steps [OF prims_ok_parts(1) [OF sample_prims_ok] ok d] show ?thesis .
qed

end
