(* ===== verification/Net_IP.thy ===== *)
theory Net_IP
  imports Go_Strings
begin

text \<open>
  What the code uses of Go's \<^verbatim>\<open>net/netip\<close> and \<^verbatim>\<open>net\<close> packages: addresses, prefixes, endpoints and
  their text forms. An address is invalid, four bytes, or sixteen bytes with a zone, which is
  empty for most. Errors of the parsers are only ever tested for nil by the code, so a parser
  here returns an option.
\<close>

unbundle bit_operations_syntax

section \<open>Addresses\<close>

datatype Addr = NoAddr | Addr4 bytes | Addr6 bytes string

fun addr_ok :: "Addr \<Rightarrow> bool" where
  "addr_ok NoAddr = False"
| "addr_ok (Addr4 b) = (length b = 4)"
| "addr_ok (Addr6 b zone) = (length b = 16)"

fun Is4 :: "Addr \<Rightarrow> bool" where
  "Is4 (Addr4 b) = True"
| "Is4 _ = False"

fun Is6 :: "Addr \<Rightarrow> bool" where
  "Is6 (Addr6 b zone) = True"
| "Is6 _ = False"

fun hasZone :: "Addr \<Rightarrow> bool" where
  "hasZone (Addr6 b zone) = (zone \<noteq> [])"
| "hasZone _ = False"

definition mapped :: "bytes \<Rightarrow> bool" where
  "mapped b \<longleftrightarrow> take 12 b = replicate 10 0 @ [0xFF, 0xFF]"

fun Addr_Is4In6 :: "Addr \<Rightarrow> bool" where
  "Addr_Is4In6 (Addr6 b zone) = mapped b"
| "Addr_Is4In6 _ = False"

fun Unmap :: "Addr \<Rightarrow> Addr" where
  "Unmap (Addr6 b zone) = (if mapped b then Addr4 (drop 12 b) else Addr6 b zone)"
| "Unmap a = a"

text \<open>The classes of addresses; those of a mapped address are those of the address inside, but
  \<^verbatim>\<open>IsUnspecified\<close> compares the whole value.\<close>

fun IsLoopback :: "Addr \<Rightarrow> bool" where
  "IsLoopback (Addr6 b zone) = (if mapped b then b ! 12 = 127 else b = replicate 15 0 @ [1])"
| "IsLoopback (Addr4 b) = (b ! 0 = 127)"
| "IsLoopback NoAddr = False"

fun IsMulticast :: "Addr \<Rightarrow> bool" where
  "IsMulticast (Addr6 b zone) = (if mapped b then b ! 12 AND 0xF0 = 0xE0 else b ! 0 = 0xFF)"
| "IsMulticast (Addr4 b) = (b ! 0 AND 0xF0 = 0xE0)"
| "IsMulticast NoAddr = False"

fun IsLinkLocalUnicast :: "Addr \<Rightarrow> bool" where
  "IsLinkLocalUnicast (Addr6 b zone) =
     (if mapped b then b ! 12 = 169 \<and> b ! 13 = 254 else b ! 0 = 0xFE \<and> b ! 1 AND 0xC0 = 0x80)"
| "IsLinkLocalUnicast (Addr4 b) = (b ! 0 = 169 \<and> b ! 1 = 254)"
| "IsLinkLocalUnicast NoAddr = False"

definition private4 :: "bytes \<Rightarrow> bool" where
  "private4 b \<longleftrightarrow> b ! 0 = 10 \<or> b ! 0 = 172 \<and> b ! 1 AND 0xF0 = 16 \<or> b ! 0 = 192 \<and> b ! 1 = 168"

fun IsPrivate :: "Addr \<Rightarrow> bool" where
  "IsPrivate (Addr6 b zone) = (if mapped b then private4 (drop 12 b) else b ! 0 AND 0xFE = 0xFC)"
| "IsPrivate (Addr4 b) = private4 b"
| "IsPrivate NoAddr = False"

fun IsUnspecified :: "Addr \<Rightarrow> bool" where
  "IsUnspecified (Addr4 b) = (b = replicate 4 0)"
| "IsUnspecified (Addr6 b zone) = (b = replicate 16 0 \<and> zone = [])"
| "IsUnspecified NoAddr = False"

section \<open>Text forms\<close>

text \<open>\<^verbatim>\<open>parseIPv4Fields\<close>: the fields so far, the value and the number of digits of the current one.\<close>

fun parseIPv4_loop :: "bytes \<Rightarrow> nat \<Rightarrow> nat \<Rightarrow> string \<Rightarrow> bytes option" where
  "parseIPv4_loop ip val digLen [] = (if length ip < 3 then None else Some (ip @ [word_of_nat val]))"
| "parseIPv4_loop ip val digLen (c # s) =
    (if is_digit c then
       (if digLen = 1 \<and> val = 0 then None
        else
          let val' = val * 10 + (of_char c - 48) in
          if val' > 255 then None else parseIPv4_loop ip val' (digLen + 1) s)
     else if c = CHR ''.'' then
       (if digLen = 0 \<or> s = [] then None
        else if length ip = 3 then None
        else parseIPv4_loop (ip @ [word_of_nat val]) 0 0 s)
     else None)"

definition parseIPv4 :: "string \<Rightarrow> Addr option" where
  "parseIPv4 s = map_option Addr4 (parseIPv4_loop [] 0 0 s)"

definition hex_val :: "char \<Rightarrow> nat option" where
  "hex_val c =
    (let n = (of_char c :: nat) in
     if 48 \<le> n \<and> n \<le> 57 then Some (n - 48)
     else if 97 \<le> n \<and> n \<le> 102 then Some (n - 97 + 10)
     else if 65 \<le> n \<and> n \<le> 70 then Some (n - 65 + 10) else None)"

text \<open>The digits of one group: their value, their number and what follows; \<open>None\<close> for more than
  four digits.\<close>

fun hex_group :: "nat \<Rightarrow> nat \<Rightarrow> string \<Rightarrow> (nat \<times> nat \<times> string) option" where
  "hex_group acc off [] = Some (acc, off, [])"
| "hex_group acc off (c # s) =
    (case hex_val c of
       None \<Rightarrow> Some (acc, off, c # s)
     | Some d \<Rightarrow>
         if off > 3 then None
         else if acc * 16 + d > 65535 then None
         else hex_group (acc * 16 + d) (off + 1) s)"

lemma hex_group_length: "hex_group acc off s = Some (acc', off', r) \<Longrightarrow> length r + off' = length s + off"
  by (induction acc off s rule: hex_group.induct) (auto split: option.splits if_splits)

text \<open>The loop of \<^verbatim>\<open>parseIPv6\<close>: the bytes so far (\<^verbatim>\<open>i\<close> is their number) and the place of the
  ellipsis. It ends with the bytes, the ellipsis and the rest of the string.\<close>

function parseIPv6_loop :: "bytes \<Rightarrow> nat option \<Rightarrow> string \<Rightarrow> (bytes \<times> nat option \<times> string) option" where
  "parseIPv6_loop ip ellipsis s =
    (if length ip \<ge> 16 then Some (ip, ellipsis, s)
     else case hex_group 0 0 s of
       None \<Rightarrow> None
     | Some (acc, off, r) \<Rightarrow>
         if off = 0 then None
         else if r \<noteq> [] \<and> hd r = CHR ''.'' then
           (if ellipsis = None \<and> length ip \<noteq> 12 then None
            else if length ip + 4 > 16 then None
            else (case parseIPv4_loop [] 0 0 s of None \<Rightarrow> None | Some b \<Rightarrow> Some (ip @ b, ellipsis, [])))
         else
           let ip' = ip @ be16 (word_of_nat acc) in
           (case r of
              [] \<Rightarrow> Some (ip', ellipsis, [])
            | [c] \<Rightarrow> None
            | c # d # t \<Rightarrow>
                if c \<noteq> CHR '':'' then None
                else if d = CHR '':'' then
                  (if ellipsis \<noteq> None then None
                   else if t = [] then Some (ip', Some (length ip'), [])
                   else parseIPv6_loop ip' (Some (length ip')) t)
                else parseIPv6_loop ip' ellipsis (d # t)))"
  by auto
termination
proof (relation "measure (\<lambda>(ip, e, s). length s)", goal_cases)
  case 1
  then show ?case by simp
next
  case (2 ip ellipsis s x acc y off r ip' c a d t)
  then show ?case using hex_group_length [of 0 0 s acc off r] by auto
next
  case (3 ip ellipsis s x acc y off r ip' c a d t)
  then show ?case using hex_group_length [of 0 0 s acc off r] by auto
qed

declare parseIPv6_loop.simps [simp del]

definition expandEllipsis :: "bytes \<times> nat option \<times> string \<Rightarrow> bytes option" where
  "expandEllipsis parsed =
    (case parsed of (ip, ellipsis, s) \<Rightarrow>
       if s \<noteq> [] then None
       else if length ip < 16 then
         (case ellipsis of
            None \<Rightarrow> None
          | Some e \<Rightarrow> Some (take e ip @ replicate (16 - length ip) 0 @ drop e ip))
       else if ellipsis \<noteq> None then None else Some ip)"

text \<open>The text before the zone, and the whole.\<close>

definition parseIPv6_bytes :: "string \<Rightarrow> bytes option" where
  "parseIPv6_bytes s =
    (if length s \<ge> 2 \<and> take 2 s = ''::'' then
       (if drop 2 s = [] then Some (replicate 16 0)
        else case parseIPv6_loop [] (Some 0) (drop 2 s) of None \<Rightarrow> None | Some p \<Rightarrow> expandEllipsis p)
     else (case parseIPv6_loop [] None s of None \<Rightarrow> None | Some p \<Rightarrow> expandEllipsis p))"

definition parseIPv6 :: "string \<Rightarrow> Addr option" where
  "parseIPv6 txt =
    (let (s, zone) = (case IndexByte txt (CHR ''%'') of
           None \<Rightarrow> (txt, None) | Some i \<Rightarrow> (take i txt, Some (drop (i + 1) txt))) in
     if zone = Some [] then None
     else map_option (\<lambda>b. Addr6 b (case zone of None \<Rightarrow> [] | Some z \<Rightarrow> z)) (parseIPv6_bytes s))"

fun ParseAddr_scan :: "string \<Rightarrow> string \<Rightarrow> Addr option" where
  "ParseAddr_scan txt [] = None"
| "ParseAddr_scan txt (c # s) =
    (if c = CHR ''.'' then parseIPv4 txt
     else if c = CHR '':'' then parseIPv6 txt
     else if c = CHR ''%'' then None
     else ParseAddr_scan txt s)"

definition ParseAddr :: "string \<Rightarrow> Addr option" where
  "ParseAddr s = ParseAddr_scan s s"

definition string4 :: "bytes \<Rightarrow> string" where
  "string4 b = show_nat (unat (b ! 0)) @ ''.'' @ show_nat (unat (b ! 1)) @ ''.'' @ show_nat (unat (b ! 2)) @ ''.''
     @ show_nat (unat (b ! 3))"

text \<open>\<^verbatim>\<open>appendHex\<close>: a group without leading zeros.\<close>

definition appendHex :: "nat \<Rightarrow> string" where
  "appendHex x =
     (if x \<ge> 0x1000 then [digit_char (x div 4096)] else []) @
     (if x \<ge> 0x100 then [digit_char (x div 256 mod 16)] else []) @
     (if x \<ge> 0x10 then [digit_char (x div 16 mod 16)] else []) @ [digit_char (x mod 16)]"

definition v6u16 :: "bytes \<Rightarrow> nat \<Rightarrow> nat" where
  "v6u16 b i = be_val (take 2 (drop (2 * i) b))"

text \<open>The first longest run of at least two zero groups: \<open>zero_run_end b i\<close> is the end of the run
  at \<open>i\<close>, and the loop keeps the best start and end so far.\<close>

definition zero_run_end :: "bytes \<Rightarrow> nat \<Rightarrow> nat" where
  "zero_run_end b i = i + length (takeWhile (\<lambda>j. v6u16 b j = 0) [i..<8])"

fun zero_run_loop :: "bytes \<Rightarrow> nat list \<Rightarrow> nat \<times> nat \<Rightarrow> nat \<times> nat" where
  "zero_run_loop b [] best = best"
| "zero_run_loop b (i # is) (zs, ze) =
    (let j = zero_run_end b i in
     zero_run_loop b is (if j - i \<ge> 2 \<and> j - i > ze - zs then (i, j) else (zs, ze)))"

definition zero_run :: "bytes \<Rightarrow> nat \<times> nat" where
  "zero_run b = zero_run_loop b [0..<8] (255, 255)"

text \<open>The groups from \<open>i\<close> on, each after a colon.\<close>

definition colon_groups :: "bytes \<Rightarrow> nat list \<Rightarrow> string" where
  "colon_groups b is = concat (map (\<lambda>i. CHR '':'' # appendHex (v6u16 b i)) is)"

definition string6 :: "bytes \<Rightarrow> string" where
  "string6 b =
    (let (zs, ze) = zero_run b in
     if zs < 8 then
       (if zs = 0 then [] else tl (colon_groups b [0..<zs])) @ ''::''
         @ (if ze < 8 then tl (colon_groups b [ze..<8]) else [])
     else tl (colon_groups b [0..<8]))"

fun Addr_String :: "Addr \<Rightarrow> string" where
  "Addr_String NoAddr = ''invalid IP''"
| "Addr_String (Addr4 b) = string4 b"
| "Addr_String (Addr6 b zone) =
     (if mapped b then ''::ffff:'' @ string4 (drop 12 b) else string6 b)
     @ (if zone = [] then [] else ''%'' @ zone)"

section \<open>Prefixes\<close>

text \<open>A prefix without valid bits has \<open>-1\<close> of them, and the zero prefix has no address either.\<close>

record Prefix =
  Prefix_Addr :: Addr
  Prefix_Bits :: int

definition zeroPrefix :: Prefix where
  "zeroPrefix = \<lparr> Prefix_Addr = NoAddr, Prefix_Bits = -1 \<rparr>"

fun BitLen :: "Addr \<Rightarrow> nat" where
  "BitLen NoAddr = 0"
| "BitLen (Addr4 b) = 32"
| "BitLen (Addr6 b zone) = 128"

fun withoutZone :: "Addr \<Rightarrow> Addr" where
  "withoutZone (Addr6 b zone) = Addr6 b []"
| "withoutZone a = a"

definition PrefixFrom :: "Addr \<Rightarrow> int \<Rightarrow> Prefix" where
  "PrefixFrom ip bits =
    \<lparr> Prefix_Addr = withoutZone ip,
      Prefix_Bits = (if ip \<noteq> NoAddr \<and> 0 \<le> bits \<and> bits \<le> int (BitLen ip) then bits else -1) \<rparr>"

text \<open>The address without its low \<open>k\<close> bits.\<close>

definition mask_bytes :: "nat \<Rightarrow> bytes \<Rightarrow> bytes" where
  "mask_bytes k b = be_enc (length b) (be_val b div 2 ^ k * 2 ^ k)"

fun mask_addr :: "nat \<Rightarrow> Addr \<Rightarrow> Addr" where
  "mask_addr bits (Addr4 b) = Addr4 (mask_bytes (32 - bits) b)"
| "mask_addr bits (Addr6 b zone) = Addr6 (mask_bytes (128 - bits) b) zone"
| "mask_addr bits NoAddr = NoAddr"

definition Masked :: "Prefix \<Rightarrow> Prefix" where
  "Masked p =
    (if Prefix_Bits p < 0 \<or> Prefix_Addr p = NoAddr then zeroPrefix
     else PrefixFrom (mask_addr (nat (Prefix_Bits p)) (Prefix_Addr p)) (Prefix_Bits p))"

text \<open>\<^verbatim>\<open>Prefix.Contains\<close>: the same family, no zone, and the same leading bits.\<close>

definition Prefix_Contains :: "Prefix \<Rightarrow> Addr \<Rightarrow> bool" where
  "Prefix_Contains p ip \<longleftrightarrow>
    Prefix_Bits p \<ge> 0 \<and> \<not> hasZone ip \<and>
    (case (Prefix_Addr p, ip) of
       (Addr4 a, Addr4 b) \<Rightarrow> be_val a div 2 ^ (32 - nat (Prefix_Bits p)) = be_val b div 2 ^ (32 - nat (Prefix_Bits p))
     | (Addr6 a _, Addr6 b _) \<Rightarrow> be_val a div 2 ^ (128 - nat (Prefix_Bits p)) = be_val b div 2 ^ (128 - nat (Prefix_Bits p))
     | _ \<Rightarrow> False)"

definition ParsePrefix :: "string \<Rightarrow> Prefix option" where
  "ParsePrefix s =
    (case LastIndexByte s (CHR ''/'') of
       None \<Rightarrow> None
     | Some i \<Rightarrow>
       (case ParseAddr (take i s) of
          None \<Rightarrow> None
        | Some ip \<Rightarrow>
            if hasZone ip then None
            else
              let bitsStr = drop (i + 1) s in
              if length bitsStr > 1 \<and> (\<not> is_digit (hd bitsStr) \<or> hd bitsStr = CHR ''0'') then None
              else
                (case strconv_Atoi bitsStr of
                   None \<Rightarrow> None
                 | Some bits \<Rightarrow>
                     if bits < 0 \<or> bits > int (BitLen ip) then None else Some (PrefixFrom ip bits))))"

definition Prefix_String :: "Prefix \<Rightarrow> string" where
  "Prefix_String p =
    (if Prefix_Bits p < 0 then ''invalid Prefix''
     else Addr_String (Prefix_Addr p) @ ''/'' @ show_int (Prefix_Bits p))"

section \<open>Hosts and ports\<close>

text \<open>\<^verbatim>\<open>net.SplitHostPort\<close>: at the last colon, with the host in brackets or free of colons.\<close>

definition SplitHostPort :: "string \<Rightarrow> (string \<times> string) option" where
  "SplitHostPort hostport =
    (case LastIndexByte hostport (CHR '':'') of
       None \<Rightarrow> None
     | Some i \<Rightarrow>
         if hd hostport = CHR ''['' then
           (case IndexByte hostport (CHR '']'') of
              None \<Rightarrow> None
            | Some e \<Rightarrow>
                if e + 1 = length hostport then None
                else if e + 1 \<noteq> i then None
                else
                  let host = take (e - 1) (drop 1 hostport) in
                  if IndexByte (drop 1 hostport) (CHR ''['') \<noteq> None then None
                  else if IndexByte (drop (e + 1) hostport) (CHR '']'') \<noteq> None then None
                  else Some (host, drop (i + 1) hostport))
         else
           let host = take i hostport in
           if IndexByte host (CHR '':'') \<noteq> None then None
           else if IndexByte hostport (CHR ''['') \<noteq> None then None
           else if IndexByte hostport (CHR '']'') \<noteq> None then None
           else Some (host, drop (i + 1) hostport))"

definition JoinHostPort :: "string \<Rightarrow> string \<Rightarrow> string" where
  "JoinHostPort host port =
    (if IndexByte host (CHR '':'') \<noteq> None then ''['' @ host @ '']:'' @ port else host @ '':'' @ port)"

text \<open>\<^verbatim>\<open>netip.ParseAddrPort\<close>: brackets are for IPv6 addresses, and IPv6 addresses for brackets.\<close>

definition splitAddrPort :: "string \<Rightarrow> (string \<times> string \<times> bool) option" where
  "splitAddrPort s =
    (case LastIndexByte s (CHR '':'') of
       None \<Rightarrow> None
     | Some i \<Rightarrow>
         let ip = take i s; port = drop (i + 1) s in
         if ip = [] then None
         else if port = [] then None
         else if hd ip = CHR ''['' then
           (if length ip < 2 \<or> last ip \<noteq> CHR '']'' then None else Some (butlast (tl ip), port, True))
         else Some (ip, port, False))"

definition ParseAddrPort :: "string \<Rightarrow> (Addr \<times> uint16) option" where
  "ParseAddrPort s =
    (case splitAddrPort s of
       None \<Rightarrow> None
     | Some (ip, port, v6) \<Rightarrow>
       (case strconv_ParseUint port 16 of
          None \<Rightarrow> None
        | Some port16 \<Rightarrow>
          (case ParseAddr ip of
             None \<Rightarrow> None
           | Some a \<Rightarrow>
               if v6 \<and> Is4 a then None else if \<not> v6 \<and> Is6 a then None
               else Some (a, word_of_nat port16))))"

fun AddrPort_String :: "Addr \<Rightarrow> uint16 \<Rightarrow> string" where
  "AddrPort_String NoAddr port = ''invalid AddrPort''"
| "AddrPort_String (Addr4 b) port = string4 b @ '':'' @ show_nat (unat port)"
| "AddrPort_String (Addr6 b zone) port = ''['' @ Addr_String (Addr6 b zone) @ '']:'' @ show_nat (unat port)"

section \<open>Printing and parsing addresses\<close>

lemma ne_digit: "is_digit c \<Longrightarrow> c \<noteq> CHR ''.'' \<and> c \<noteq> CHR '':'' \<and> c \<noteq> CHR ''%'' \<and> c \<noteq> CHR ''/'' \<and> c \<noteq> CHR ''[''
    \<and> c \<noteq> CHR '']'' \<and> c \<noteq> CHR ''-'' \<and> c \<noteq> CHR ''+'' \<and> \<not> ascii_space c"
  by (auto simp: is_digit_def ascii_space_def)

lemma show_nat_small:
  "n < 10 \<Longrightarrow> show_nat n = [digit_char n]"
  "10 \<le> n \<Longrightarrow> n < 100 \<Longrightarrow> show_nat n = [digit_char (n div 10), digit_char (n mod 10)]"
  "100 \<le> n \<Longrightarrow> n < 1000 \<Longrightarrow>
     show_nat n = [digit_char (n div 100), digit_char (n div 10 mod 10), digit_char (n mod 10)]"
proof -
  assume "100 \<le> n" "n < 1000"
  moreover then have "\<not> n div 10 < 10" "n div 100 < 10" by linarith+
  moreover have "n div 10 div 10 = n div 100" by (simp add: div_mult2_eq [of n 10 10, simplified])
  ultimately show "show_nat n = [digit_char (n div 100), digit_char (n div 10 mod 10), digit_char (n mod 10)]"
    by (simp add: show_nat.simps [of n] show_nat.simps [of "n div 10"] show_nat.simps [of "n div 100"])
qed (simp_all add: show_nat.simps [of n] show_nat.simps [of "n div 10"])

lemma parseIPv4_three:
  assumes "a < 10" "a \<noteq> 0" "b < 10" "c < 10" "(a * 10 + b) * 10 + c \<le> 255"
  shows "parseIPv4_loop ip 0 0 ([digit_char a, digit_char b, digit_char c] @ r) = parseIPv4_loop ip ((a * 10 + b) * 10 + c) (Suc (Suc (Suc 0))) r"
  using assms digit_char_digit [of a] digit_char_digit [of b] digit_char_digit [of c] by (simp add: Let_def)

lemma parseIPv4_digits:
  assumes "n \<le> 255"
  shows "parseIPv4_loop ip 0 0 (show_nat n @ r) = parseIPv4_loop ip n (length (show_nat n)) r"
proof -
  note d = digit_char_digit [of "n div 100"] digit_char_digit [of "n div 10 mod 10"] digit_char_digit [of "n div 10"]
    digit_char_digit [of "n mod 10"] digit_char_digit [of n]
  consider "n < 10" | "10 \<le> n" "n < 100" | "100 \<le> n" "n < 1000" using assms by linarith
  then show ?thesis
  proof cases
    case 1
    with d show ?thesis by (simp add: show_nat_small)
  next
    case 2
    then have "n div 10 < 10" "n div 10 \<le> 255" "n div 10 \<noteq> 0" "n div 10 * 10 + n mod 10 = n" by auto
    with 2 d assms show ?thesis by (auto simp: show_nat_small(2) Let_def)
  next
    case 3
    have e: "(n div 100 * 10 + n div 10 mod 10) * 10 + n mod 10 = n"
      using div_mult2_eq [of n 10 10] by simp
    have "n div 100 < 10" "n div 100 \<noteq> 0" using 3 by linarith+
    then show ?thesis
      using parseIPv4_three [of "n div 100" "n div 10 mod 10" "n mod 10" ip r] e assms
      unfolding show_nat_small(3) [OF 3] by (simp del: parseIPv4_loop.simps)
  qed
qed

lemma parseIPv4_dot:
  assumes "n \<le> 255" "length ip < 3" "r \<noteq> []"
  shows "parseIPv4_loop ip 0 0 (show_nat n @ CHR ''.'' # r) = parseIPv4_loop (ip @ [word_of_nat n]) 0 0 r"
  using assms by (simp add: parseIPv4_digits is_digit_def)

lemma list4: "length b = 4 \<Longrightarrow> b = [b ! 0, b ! 1, b ! 2, b ! 3]"
  by (rule nth_equalityI) (auto simp: less_Suc_eq numeral_eq_Suc)

lemma byte_le: "unat (w :: byte) \<le> 255"
  using unat_less_pow [of w] by simp

lemma parseIPv4_string4: "length b = 4 \<Longrightarrow> parseIPv4_loop [] 0 0 (string4 b) = Some b"
proof -
  assume l: "length b = 4"
  have "parseIPv4_loop [] 0 0 (string4 b) =
    parseIPv4_loop [b ! 0, b ! 1, b ! 2] 0 0 (show_nat (unat (b ! 3)) @ [])"
    by (simp add: string4_def parseIPv4_dot byte_le)
  also have "\<dots> = Some b"
    by (subst parseIPv4_digits) (use list4 [OF l] in \<open>simp_all add: byte_le\<close>)
  finally show ?thesis .
qed

lemma scan_skip:
  "\<forall>c \<in> set p. c \<noteq> CHR ''.'' \<and> c \<noteq> CHR '':'' \<and> c \<noteq> CHR ''%'' \<Longrightarrow> ParseAddr_scan txt (p @ r) = ParseAddr_scan txt r"
  by (induction p) auto

lemma ParseAddr_string4: "length b = 4 \<Longrightarrow> ParseAddr (string4 b) = Some (Addr4 b)"
proof -
  assume l: "length b = 4"
  obtain r where s: "string4 b = show_nat (unat (b ! 0)) @ CHR ''.'' # r" by (simp add: string4_def)
  have "ParseAddr (string4 b) = ParseAddr_scan (string4 b) (CHR ''.'' # r)"
    unfolding ParseAddr_def by (subst (2) s, rule scan_skip) (use show_nat_digits ne_digit in blast)
  also have "\<dots> = Some (Addr4 b)" by (simp add: parseIPv4_def parseIPv4_string4 l)
  finally show ?thesis .
qed

subsection \<open>IPv6\<close>

lemma hex_val_char: "n < 16 \<Longrightarrow> hex_val (digit_char n) = Some n"
  by (auto simp: hex_val_def digit_char_def Let_def)

lemma appendHex_digits: "x < 65536 \<Longrightarrow> c \<in> set (appendHex x) \<Longrightarrow> \<exists>n < 16. c = digit_char n"
proof -
  assume x: "x < 65536" and c: "c \<in> set (appendHex x)"
  from c have "c \<in> digit_char ` {x div 4096, x div 256 mod 16, x div 16 mod 16, x mod 16}"
    by (auto simp: appendHex_def split: if_splits)
  moreover have "x div 4096 < 16" using x by linarith
  ultimately show ?thesis by (elim imageE) (rule exI, auto)
qed

lemma hex_val_None: "hex_val (CHR '':'') = None" "hex_val (CHR ''.'') = None" "hex_val (CHR ''%'') = None"
    "hex_val (CHR ''/'') = None" "hex_val (CHR ''['') = None" "hex_val (CHR '']'') = None"
  by (simp_all add: hex_val_def)

lemma ne_hex:
  assumes "x < 65536" "c \<in> set (appendHex x)"
  shows "c \<noteq> CHR ''.'' \<and> c \<noteq> CHR '':'' \<and> c \<noteq> CHR ''%'' \<and> c \<noteq> CHR ''/'' \<and> c \<noteq> CHR ''['' \<and> c \<noteq> CHR '']''"
proof -
  obtain n where "n < 16" "c = digit_char n" using appendHex_digits assms by blast
  then have "hex_val c = Some n" by (simp add: hex_val_char)
  then show ?thesis using hex_val_None by force
qed

lemma hex_group_appendHex:
  assumes "x < 65536" "r = [] \<or> hex_val (hd r) = None"
  shows "\<exists>off > 0. hex_group 0 0 (appendHex x @ r) = Some (x, off, r)"
proof -
  have stop: "hex_group a off r = Some (a, off, r)" for a off using assms(2) by (cases r) auto
  have e: "x div 16 * 16 + x mod 16 = x" "x div 256 * 16 + x div 16 mod 16 = x div 16"
    "x div 4096 * 16 + x div 256 mod 16 = x div 256"
    using div_mult2_eq [of x 16 16] div_mult2_eq [of x 256 16] by simp_all
  have b: "x div 16 \<le> 65535" "x div 256 \<le> 65535" "x div 4096 < 16" using assms(1) by auto
  consider "x < 16" | "16 \<le> x" "x < 256" | "256 \<le> x" "x < 4096" | "4096 \<le> x" by linarith
  then show ?thesis
  proof cases
    case 1
    then show ?thesis by (auto simp: appendHex_def hex_val_char stop)
  next
    case 2
    then have "x div 16 < 16" by auto
    with 2 have "x div 16 mod 16 = x div 16" by simp
    with 2 e b assms(1) \<open>x div 16 < 16\<close> show ?thesis by (auto simp: appendHex_def hex_val_char stop)
  next
    case 3
    then have "x div 256 < 16" by auto
    with 3 have "x div 256 mod 16 = x div 256" by simp
    with 3 e b assms(1) \<open>x div 256 < 16\<close> show ?thesis by (auto simp: appendHex_def hex_val_char stop)
  next
    case 4
    with e b assms(1) show ?thesis by (auto simp: appendHex_def hex_val_char stop)
  qed
qed

text \<open>The text of a list of groups, each after a colon, and their bytes.\<close>

definition group_text :: "nat list \<Rightarrow> string" where
  "group_text gs = concat (map (\<lambda>x. CHR '':'' # appendHex x) gs)"

definition group_bytes :: "nat list \<Rightarrow> bytes" where
  "group_bytes gs = concat (map (\<lambda>x. be16 (word_of_nat x)) gs)"

lemma group_text_simps [simp]:
  "group_text [] = []"
  "group_text (x # gs) = CHR '':'' # appendHex x @ group_text gs"
  by (simp_all add: group_text_def)

lemma group_bytes_simps [simp]:
  "group_bytes [] = []"
  "group_bytes (x # gs) = be16 (word_of_nat x) @ group_bytes gs"
  by (simp_all add: group_bytes_def)

lemma length_group_bytes [simp]: "length (group_bytes gs) = 2 * length gs"
  by (induction gs) simp_all

lemma colon_groups_text: "colon_groups b is = group_text (map (v6u16 b) is)"
  by (simp add: colon_groups_def group_text_def comp_def)

lemma appendHex_nonempty [simp]: "appendHex x \<noteq> []"
  by (simp add: appendHex_def)

lemma appendHex_hd: "x < 65536 \<Longrightarrow> hd (appendHex x) \<noteq> CHR '':''"
  using ne_hex [of x "hd (appendHex x)"] by simp

lemma loop_group_end:
  assumes "x < 65536" "length ip < 16"
  shows "parseIPv6_loop ip e (appendHex x) = Some (ip @ be16 (word_of_nat x), e, [])"
proof -
  obtain off where "off > 0" "hex_group 0 0 (appendHex x) = Some (x, off, [])"
    using hex_group_appendHex [of x "[]"] assms by auto
  with assms show ?thesis by (simp add: parseIPv6_loop.simps [of ip e "appendHex x"])
qed

lemma loop_group_next:
  assumes "x < 65536" "length ip < 16" "r \<noteq> []" "hd r \<noteq> CHR '':''"
  shows "parseIPv6_loop ip e (appendHex x @ CHR '':'' # r) = parseIPv6_loop (ip @ be16 (word_of_nat x)) e r"
proof -
  obtain off where "off > 0" "hex_group 0 0 (appendHex x @ CHR '':'' # r) = Some (x, off, CHR '':'' # r)"
    using hex_group_appendHex [of x "CHR '':'' # r"] assms hex_val_None by auto
  with assms show ?thesis
    by (cases r, simp) (subst parseIPv6_loop.simps, simp add: Let_def)
qed

lemma loop_group_ellipsis:
  assumes "x < 65536" "length ip < 16"
  shows "parseIPv6_loop ip None (appendHex x @ CHR '':'' # CHR '':'' # r) =
    (let ip' = ip @ be16 (word_of_nat x) in
     if r = [] then Some (ip', Some (length ip'), []) else parseIPv6_loop ip' (Some (length ip')) r)"
proof -
  obtain off where "off > 0" "hex_group 0 0 (appendHex x @ ''::'' @ r) = Some (x, off, ''::'' @ r)"
    using hex_group_appendHex [of x "''::'' @ r"] assms hex_val_None by auto
  with assms show ?thesis
    by (subst parseIPv6_loop.simps) (simp add: Let_def)
qed

lemma loop_groups:
  assumes "gs \<noteq> []" "\<forall>x \<in> set gs. x < 65536" "length ip + 2 * length gs \<le> 16"
  shows "parseIPv6_loop ip e (tl (group_text gs)) = Some (ip @ group_bytes gs, e, [])"
  using assms
proof (induction gs arbitrary: ip)
  case (Cons x gs)
  show ?case
  proof (cases gs)
    case Nil
    with Cons.prems show ?thesis by (simp add: loop_group_end)
  next
    case (Cons y hs)
    have "parseIPv6_loop ip e (appendHex x @ CHR '':'' # tl (group_text gs)) =
        parseIPv6_loop (ip @ be16 (word_of_nat x)) e (tl (group_text gs))"
      using Cons.prems Cons by (intro loop_group_next) (simp_all add: appendHex_hd)
    also have "\<dots> = Some ((ip @ be16 (word_of_nat x)) @ group_bytes gs, e, [])"
      using Cons.prems Cons by (intro Cons.IH) simp_all
    finally show ?thesis using Cons by simp
  qed
qed simp

lemma loop_ellipsis:
  assumes "gs \<noteq> []" "\<forall>x \<in> set gs \<union> set hs. x < 65536" "length ip + 2 * length gs + 2 * length hs \<le> 16"
  shows "parseIPv6_loop ip None (tl (group_text gs) @ ''::'' @ tl (group_text hs)) =
    Some (ip @ group_bytes gs @ group_bytes hs, Some (length ip + 2 * length gs), [])"
  using assms
proof (induction gs arbitrary: ip)
  case (Cons x gs)
  show ?case
  proof (cases gs)
    case Nil
    with Cons.prems show ?thesis
      using loop_groups [of hs "ip @ be16 (word_of_nat x)" "Some (length ip + 2)"]
      by (cases hs) (simp_all add: loop_group_ellipsis Let_def)
  next
    case (Cons y gs')
    have "parseIPv6_loop ip None (appendHex x @ CHR '':'' # (tl (group_text gs) @ ''::'' @ tl (group_text hs))) =
        parseIPv6_loop (ip @ be16 (word_of_nat x)) None (tl (group_text gs) @ ''::'' @ tl (group_text hs))"
      using Cons.prems Cons by (intro loop_group_next) (simp_all add: appendHex_hd)
    also have "\<dots> = Some ((ip @ be16 (word_of_nat x)) @ group_bytes gs @ group_bytes hs,
        Some (length (ip @ be16 (word_of_nat x)) + 2 * length gs), [])"
      using Cons.prems Cons by (intro Cons.IH) simp_all
    finally show ?thesis using Cons by simp
  qed
qed simp

lemma group_bytes_append: "group_bytes (gs @ hs) = group_bytes gs @ group_bytes hs"
  by (simp add: group_bytes_def)

lemma group_bytes_zero: "group_bytes (replicate n 0) = replicate (2 * n) 0"
proof (induction n)
  case (Suc n)
  have "be16 0 = [0, 0]" using be16_val [of "[0, 0]"] by simp
  with Suc show ?case by simp
qed simp

lemma v6u16_less: "v6u16 b i < 65536"
  using be_val_bound [of "take 2 (drop (2 * i) b)"] power_increasing [of "length (take 2 (drop (2 * i) b))" 2 "256 :: nat"]
  by (simp add: v6u16_def)

lemma group_bytes_v6: "length b = 2 * n \<Longrightarrow> group_bytes (map (v6u16 b) [0..<n]) = b"
proof (induction n arbitrary: b)
  case (Suc n)
  have "map (v6u16 b) [0..<Suc n] = v6u16 b 0 # map (v6u16 (drop 2 b)) [0..<n]"
    unfolding upt_conv_Cons [OF zero_less_Suc] map_Suc_upt [symmetric] by (simp add: v6u16_def)
  moreover have "group_bytes (map (v6u16 (drop 2 b)) [0..<n]) = drop 2 b" using Suc.prems by (intro Suc.IH) simp
  moreover have "be16 (word_of_nat (v6u16 b 0)) = take 2 b" using Suc.prems by (simp add: v6u16_def be16_val)
  ultimately show ?case by simp
qed simp

text \<open>The run that is left out is one of zeros, and not empty.\<close>

definition zero_run_ok :: "bytes \<Rightarrow> nat \<times> nat \<Rightarrow> bool" where
  "zero_run_ok b run = (case run of (zs, ze) \<Rightarrow>
     (zs, ze) = (255, 255) \<or> zs < ze \<and> ze \<le> 8 \<and> (\<forall>i. zs \<le> i \<and> i < ze \<longrightarrow> v6u16 b i = 0))"

lemma zero_run_end_ok: "i < 8 \<Longrightarrow> zero_run_end b i \<le> 8 \<and> (\<forall>k. i \<le> k \<and> k < zero_run_end b i \<longrightarrow> v6u16 b k = 0)"
proof -
  assume i: "i < 8"
  let ?w = "takeWhile (\<lambda>j. v6u16 b j = 0) [i..<8]"
  have "length ?w \<le> 8 - i" using length_takeWhile_le [of "\<lambda>j. v6u16 b j = 0" "[i..<8]"] by simp
  moreover have "v6u16 b k = 0" if "i \<le> k" "k < i + length ?w" for k
  proof -
    from that have "?w ! (k - i) \<in> set ?w" by (intro nth_mem) simp
    moreover have "?w ! (k - i) = k" using that \<open>length ?w \<le> 8 - i\<close> i
      by (subst takeWhile_nth) simp_all
    ultimately show ?thesis using set_takeWhileD [of k "\<lambda>j. v6u16 b j = 0"] by metis
  qed
  ultimately show ?thesis using i by (simp add: zero_run_end_def)
qed

lemma zero_run_loop_ok: "zero_run_ok b best \<Longrightarrow> \<forall>i \<in> set is. i < 8 \<Longrightarrow> zero_run_ok b (zero_run_loop b is best)"
proof (induction b "is" best rule: zero_run_loop.induct)
  case (2 b i "is" zs ze)
  have "zero_run_ok b (i, zero_run_end b i)" if "2 \<le> zero_run_end b i - i"
    using zero_run_end_ok [of i b] 2(3) that by (auto simp: zero_run_ok_def)
  with 2 show ?case by (simp add: Let_def)
qed simp

lemma zero_run_ok: "zero_run_ok b (zero_run b)"
  unfolding zero_run_def by (rule zero_run_loop_ok) (simp_all add: zero_run_ok_def)

lemma IndexByte_append: "c \<notin> set s \<Longrightarrow> IndexByte (s @ c # t) c = Some (length s)"
  by (induction s) auto

lemma IndexByte_None: "IndexByte s c = None \<longleftrightarrow> c \<notin> set s"
  by (induction s) auto

lemma group_text_chars:
  "\<forall>x \<in> set gs. x < 65536 \<Longrightarrow> c \<in> set (group_text gs) \<Longrightarrow>
    c \<noteq> CHR ''.'' \<and> c \<noteq> CHR ''%'' \<and> c \<noteq> CHR ''/'' \<and> c \<noteq> CHR ''['' \<and> c \<noteq> CHR '']''"
  by (induction gs) (use ne_hex in auto)

lemma string6_cases:
  assumes "length b = 16"
  obtains gs where "\<forall>x \<in> set gs. x < 65536" "length gs = 8" "string6 b = tl (group_text gs)" "group_bytes gs = b"
  | gs hs where "\<forall>x \<in> set gs \<union> set hs. x < 65536" "length gs + length hs < 8"
      "string6 b = tl (group_text gs) @ ''::'' @ tl (group_text hs)"
      "b = group_bytes gs @ replicate (16 - 2 * (length gs + length hs)) 0 @ group_bytes hs"
proof -
  obtain zs ze where run: "zero_run b = (zs, ze)" by (cases "zero_run b")
  let ?g = "map (v6u16 b)"
  have all: "group_bytes (?g [0..<8]) = b" using assms by (intro group_bytes_v6) simp
  show thesis
  proof (cases "zs < 8")
    case False
    with run have "string6 b = tl (group_text (?g [0..<8]))" by (simp add: string6_def colon_groups_text)
    with that(1) [of "?g [0..<8]"] all show thesis by (simp add: v6u16_less)
  next
    case True
    with zero_run_ok [of b] run have ok: "zs < ze" "ze \<le> 8" "\<And>i. zs \<le> i \<Longrightarrow> i < ze \<Longrightarrow> v6u16 b i = 0"
      by (auto simp: zero_run_ok_def)
    have "[0..<8] = [0..<zs] @ [zs..<ze] @ [ze..<8]"
      using ok upt_add_eq_append [of 0 zs "8 - zs"] upt_add_eq_append [of zs ze "8 - ze"] by simp
    moreover have "?g [zs..<ze] = replicate (ze - zs) 0"
      by (rule nth_equalityI) (use ok(3) in auto)
    ultimately have "b = group_bytes (?g [0..<zs]) @ replicate (2 * (ze - zs)) 0 @ group_bytes (?g [ze..<8])"
      using all by (metis group_bytes_append group_bytes_zero map_append)
    moreover have "string6 b = tl (group_text (?g [0..<zs])) @ ''::'' @ tl (group_text (?g [ze..<8]))"
      using True run ok by (auto simp: string6_def colon_groups_text)
    moreover have "length (?g [0..<zs]) + length (?g [ze..<8]) = 8 - (ze - zs)" using ok by simp
    moreover have "16 - 2 * (8 - (ze - zs)) = 2 * (ze - zs)" "8 - (ze - zs) < 8" using ok by simp_all
    moreover have "\<forall>x \<in> set (?g [0..<zs]) \<union> set (?g [ze..<8]). x < 65536" by (auto simp: v6u16_less)
    ultimately show thesis using that(2) [of "?g [0..<zs]" "?g [ze..<8]"] by metis
  qed
qed

lemma group_text_hd: "\<forall>x \<in> set gs. x < 65536 \<Longrightarrow> gs \<noteq> [] \<Longrightarrow> tl (group_text gs) \<noteq> [] \<and> hd (tl (group_text gs)) \<noteq> CHR '':''"
  by (cases gs) (simp_all add: appendHex_hd)

lemma not_colons: "s \<noteq> [] \<Longrightarrow> hd s \<noteq> CHR '':'' \<Longrightarrow> take 2 (s @ t) \<noteq> ''::''"
  by (cases s) simp_all

lemma parseIPv6_string6: "length b = 16 \<Longrightarrow> parseIPv6_bytes (string6 b) = Some b"
proof -
  assume l: "length b = 16"
  from l show ?thesis
  proof (cases b rule: string6_cases)
    case (1 gs)
    then have "gs \<noteq> []" by auto
    with 1 loop_groups [of gs "[]" None] group_text_hd [of gs] not_colons [of "tl (group_text gs)" "[]"]
    show ?thesis using l by (simp add: parseIPv6_bytes_def expandEllipsis_def)
  next
    case (2 gs hs)
    show ?thesis
    proof (cases "gs = []")
      case True
      with 2 loop_groups [of hs "[]" "Some 0"] show ?thesis
        by (cases "hs = []") (simp_all add: parseIPv6_bytes_def expandEllipsis_def group_text_hd)
    next
      case False
      with 2 have "take 2 (string6 b) \<noteq> ''::''"
        using group_text_hd [of gs] not_colons [of "tl (group_text gs)"] by simp
      with False 2 loop_ellipsis [of gs hs "[]"] show ?thesis
        by (simp add: parseIPv6_bytes_def expandEllipsis_def)
    qed
  qed
qed

lemma in_set_tlD: "c \<in> set (tl s) \<Longrightarrow> c \<in> set s"
  by (cases s) simp_all

lemma string6_chars:
  assumes "length b = 16" "c \<in> set (string6 b)"
  shows "c \<noteq> CHR ''.'' \<and> c \<noteq> CHR ''%'' \<and> c \<noteq> CHR ''/'' \<and> c \<noteq> CHR ''['' \<and> c \<noteq> CHR '']''"
  using assms(1)
proof (cases b rule: string6_cases)
  case (1 gs)
  with assms group_text_chars [of gs c] show ?thesis by (metis list.set_sel(2) tl_Nil)
next
  case (2 gs hs)
  from 2(3) assms(2) have "c \<in> set (group_text gs) \<or> c = CHR '':'' \<or> c \<in> set (group_text hs)"
    using in_set_tlD by (auto dest: in_set_tlD)
  with 2(1) group_text_chars [of gs c] group_text_chars [of hs c] show ?thesis by auto
qed

lemma string6_colon:
  assumes "length b = 16"
  obtains p r where "string6 b = p @ CHR '':'' # r"
    "\<forall>c \<in> set p. c \<noteq> CHR ''.'' \<and> c \<noteq> CHR '':'' \<and> c \<noteq> CHR ''%''"
  using assms
proof (cases b rule: string6_cases)
  case (1 gs)
  then obtain x y hs where gs: "gs = x # y # hs" by (cases gs rule: remdups_adj.cases) auto
  with 1 that [of "appendHex x" "appendHex y @ group_text hs"] ne_hex [of x] show thesis by simp
next
  case (2 gs hs)
  show thesis
  proof (cases gs)
    case Nil
    with 2 that [of "[]"] show thesis by simp
  next
    case (Cons x gs')
    with 2 have x: "\<forall>c \<in> set (appendHex x). c \<noteq> CHR ''.'' \<and> c \<noteq> CHR '':'' \<and> c \<noteq> CHR ''%''"
      using ne_hex [of x] by simp
    show thesis
    proof (cases gs')
      case Nil
      with Cons 2 that [of "appendHex x"] x show thesis by simp
    next
      case (Cons y gs'')
      with \<open>gs = x # gs'\<close> 2 that [of "appendHex x"] x show thesis by simp
    qed
  qed
qed

lemma parseIPv6_zone:
  assumes "CHR ''%'' \<notin> set s"
  shows "parseIPv6 (s @ (if zone = [] then [] else ''%'' @ zone)) = map_option (\<lambda>b. Addr6 b zone) (parseIPv6_bytes s)"
  using assms IndexByte_append [OF assms, of zone] IndexByte_None [of s "CHR ''%''"]
  by (cases "zone = []") (simp_all add: parseIPv6_def)

text \<open>Every address but a mapped one, which the program unmaps before it prints it, is read back.\<close>

theorem ParseAddr_String:
  assumes "addr_ok a" "\<not> Addr_Is4In6 a"
  shows "ParseAddr (Addr_String a) = Some a"
proof (cases a)
  case (Addr6 b zone)
  with assms have l: "length b = 16" and m: "\<not> mapped b" by simp_all
  from l obtain p r where s: "string6 b = p @ CHR '':'' # r"
    and p: "\<forall>c \<in> set p. c \<noteq> CHR ''.'' \<and> c \<noteq> CHR '':'' \<and> c \<noteq> CHR ''%''" by (rule string6_colon)
  let ?z = "if zone = [] then [] else ''%'' @ zone"
  have "ParseAddr (Addr_String a) = ParseAddr_scan (string6 b @ ?z) (p @ CHR '':'' # r @ ?z)"
    using Addr6 m s by (simp add: ParseAddr_def)
  also have "\<dots> = parseIPv6 (string6 b @ ?z)" by (subst scan_skip [OF p]) simp
  also have "\<dots> = Some a"
    by (subst parseIPv6_zone) (use string6_chars [OF l] parseIPv6_string6 [OF l] Addr6 in auto)
  finally show ?thesis .
qed (use assms in \<open>simp_all add: ParseAddr_string4\<close>)

text \<open>What the parser returns is an address.\<close>

lemma parseIPv4_length: "parseIPv4_loop ip v d s = Some b \<Longrightarrow> length ip \<le> 3 \<Longrightarrow> length b = 4"
  by (induction ip v d s rule: parseIPv4_loop.induct) (auto split: if_splits simp: Let_def)

definition loop_ok :: "bytes \<Rightarrow> nat option \<Rightarrow> bool" where
  "loop_ok ip e \<longleftrightarrow> even (length ip) \<and> length ip \<le> 16 \<and> (\<forall>k. e = Some k \<longrightarrow> k \<le> length ip)"

lemma loop_ok_step:
  "loop_ok ip e \<Longrightarrow> \<not> 16 \<le> length ip \<Longrightarrow>
    loop_ok (ip @ be16 w) e \<and> loop_ok (ip @ be16 w) (Some (Suc (Suc (length ip))))"
  by (auto simp: loop_ok_def)

lemma parseIPv6_length: "parseIPv6_loop ip e s = Some (ip', e', r) \<Longrightarrow> loop_ok ip e \<Longrightarrow> loop_ok ip' e'"
proof (induction ip e s rule: parseIPv6_loop.induct)
  case (1 ip e s)
  show ?case
  proof (cases "16 \<le> length ip")
    case True
    with 1 show ?thesis by (auto simp: parseIPv6_loop.simps [of ip e s])
  next
    case False
    note ok = loop_ok_step [OF 1(4) False]
    from 1(3) False obtain acc off q where g: "hex_group 0 0 s = Some (acc, off, q)" "off \<noteq> 0"
      by (auto simp: parseIPv6_loop.simps [of ip e s] split: option.splits if_splits)
    note IH = 1(1,2) [OF False g(1) refl refl g(2)]
    show ?thesis
    proof (cases "q \<noteq> [] \<and> hd q = CHR ''.''")
      case True
      with 1(3,4) g False show ?thesis using parseIPv4_length [of "[]" 0 0 s]
        by (auto simp: parseIPv6_loop.simps [of ip e s] loop_ok_def split: option.splits if_splits)
    next
      case False
      note dot = this
      show ?thesis
      proof (cases q rule: remdups_adj.cases)
        case (3 c d t)
        with 1(3,4) g False \<open>\<not> 16 \<le> length ip\<close> ok IH [OF dot refl 3] show ?thesis
          by (auto simp: parseIPv6_loop.simps [of ip e s] Let_def split: if_splits)
      qed (use 1(3,4) g False \<open>\<not> 16 \<le> length ip\<close> ok in \<open>auto simp: parseIPv6_loop.simps [of ip e s] Let_def split: if_splits\<close>)
    qed
  qed
qed

lemma parseIPv6_bytes_length: "parseIPv6_bytes s = Some b \<Longrightarrow> length b = 16"
proof -
  have e: "loop_ok ip e \<Longrightarrow> expandEllipsis (ip, e, r) = Some b \<Longrightarrow> length b = 16" for ip e r
    by (auto simp: expandEllipsis_def loop_ok_def split: if_splits option.splits)
  have "loop_ok [] None" "loop_ok [] (Some 0)" by (simp_all add: loop_ok_def)
  then show "parseIPv6_bytes s = Some b \<Longrightarrow> length b = 16"
    using e [OF parseIPv6_length] by (auto simp: parseIPv6_bytes_def split: if_splits option.splits)
qed

lemma ParseAddr_ok: "ParseAddr s = Some a \<Longrightarrow> addr_ok a"
proof -
  have "ParseAddr_scan t s = Some a \<Longrightarrow> parseIPv4 t = Some a \<or> parseIPv6 t = Some a" for t
    by (induction s) (auto split: if_splits)
  moreover have "parseIPv4 t = Some a \<Longrightarrow> addr_ok a" for t
    using parseIPv4_length [of "[]"] by (auto simp: parseIPv4_def)
  moreover have "parseIPv6 t = Some a \<Longrightarrow> addr_ok a" for t
    using parseIPv6_bytes_length by (auto simp: parseIPv6_def Let_def split: if_splits option.splits prod.splits)
  ultimately show "ParseAddr s = Some a \<Longrightarrow> addr_ok a" unfolding ParseAddr_def by blast
qed

section \<open>Masks\<close>

lemma be_val_append: "be_val (xs @ ys) = be_val xs * 256 ^ length ys + be_val ys"
  by (induction xs) (simp_all add: power_add algebra_simps)

lemma be_val_zeros: "be_val (replicate n 0) = 0"
  by (induction n) simp_all

lemma be_val_inj: "length xs = length ys \<Longrightarrow> be_val xs = be_val ys \<Longrightarrow> xs = ys"
  by (metis be_enc_val)

lemma length_mask_bytes [simp]: "length (mask_bytes k b) = length b"
  by (simp add: mask_bytes_def)

lemma mask_bytes_val: "be_val (mask_bytes k b) = be_val b div 2 ^ k * 2 ^ k"
proof -
  have "be_val b div 2 ^ k * 2 ^ k \<le> be_val b" by simp
  also have "\<dots> < 256 ^ length b" by (rule be_val_bound)
  finally show ?thesis by (simp add: mask_bytes_def be_val_enc)
qed

lemma mask_bytes_idem [simp]: "mask_bytes k (mask_bytes k b) = mask_bytes k b"
  by (rule be_val_inj) (simp_all add: mask_bytes_val)

lemma mask_bytes_div: "be_val (mask_bytes k b) div 2 ^ k = be_val b div 2 ^ k"
  by (simp add: mask_bytes_val)

lemma mapped_val: "length b = 16 \<Longrightarrow> mapped b \<longleftrightarrow> be_val b div 2 ^ 32 = 0xFFFF"
proof -
  assume l: "length b = 16"
  have "be_val b = be_val (take 12 b) * 256 ^ length (drop 12 b) + be_val (drop 12 b)"
    using be_val_append [of "take 12 b" "drop 12 b"] by simp
  moreover have "be_val (drop 12 b) < 2 ^ 32" using be_val_bound [of "drop 12 b"] l by simp
  ultimately have "be_val b div 2 ^ 32 = be_val (take 12 b)" using l by simp
  moreover have "be_val (replicate 10 0 @ [0xFF, 0xFF]) = 0xFFFF" by (simp add: be_val_append be_val_zeros)
  moreover have "length (take 12 b) = length (replicate 10 (0 :: byte) @ [0xFF, 0xFF])" using l by simp
  ultimately show "mapped b \<longleftrightarrow> be_val b div 2 ^ 32 = 0xFFFF" unfolding mapped_def using be_val_inj by metis
qed

lemma mask_not_mapped:
  assumes "length b = 16" "\<not> mapped b"
  shows "\<not> mapped (mask_bytes k b)"
proof (cases "k \<le> 32")
  case True
  have "be_val (mask_bytes k b) div 2 ^ 32 = be_val (mask_bytes k b) div 2 ^ k div 2 ^ (32 - k)"
    using True by (simp add: div_mult2_eq [symmetric] power_add [symmetric])
  also have "\<dots> = be_val b div 2 ^ 32"
    unfolding mask_bytes_div using True by (simp add: div_mult2_eq [symmetric] power_add [symmetric])
  finally show ?thesis using assms by (simp add: mapped_val)
next
  case False
  then obtain j where "k = j + 33" using le_Suc_ex [of 33 k] by (auto simp: add.commute)
  then have k: "(2 :: nat) ^ k = 2 ^ (k - 33) * 2 * 2 ^ 32" by (simp add: power_add)
  have "be_val (mask_bytes k b) div 2 ^ 32 = be_val b div 2 ^ k * 2 ^ (k - 33) * 2"
    unfolding mask_bytes_val by (subst (2) k) (simp add: mult.assoc [symmetric])
  then have "even (be_val (mask_bytes k b) div 2 ^ 32)" by simp
  then show ?thesis using assms(1) by (auto simp: mapped_val)
qed

text \<open>A prefix with an address of its family and no host bits outside it.\<close>

definition prefix_ok :: "Prefix \<Rightarrow> bool" where
  "prefix_ok p \<longleftrightarrow> addr_ok (Prefix_Addr p) \<and> \<not> hasZone (Prefix_Addr p) \<and>
     0 \<le> Prefix_Bits p \<and> Prefix_Bits p \<le> int (BitLen (Prefix_Addr p))"

lemma ParsePrefix_ok: "ParsePrefix s = Some p \<Longrightarrow> prefix_ok p"
proof -
  assume "ParsePrefix s = Some p"
  then obtain a bits t where a: "ParseAddr t = Some a" "\<not> hasZone a" "p = PrefixFrom a bits" "0 \<le> bits" "bits \<le> int (BitLen a)"
    by (auto simp: ParsePrefix_def Let_def split: option.splits if_splits)
  from ParseAddr_ok [OF a(1)] a show ?thesis by (cases a) (simp_all add: prefix_ok_def PrefixFrom_def)
qed

lemma mask_addr_simps [simp]:
  "addr_ok (mask_addr n a) = addr_ok a" "hasZone (mask_addr n a) = hasZone a"
  "BitLen (mask_addr n a) = BitLen a" "mask_addr n (mask_addr n a) = mask_addr n a"
  "mask_addr n a = NoAddr \<longleftrightarrow> a = NoAddr" "mask_addr n (withoutZone a) = withoutZone (mask_addr n a)"
  by (cases a; simp)+

lemma withoutZone_id: "\<not> hasZone a \<Longrightarrow> withoutZone a = a"
  by (cases a) simp_all

lemma Masked_eq:
  assumes "prefix_ok p"
  shows "Masked p = \<lparr> Prefix_Addr = mask_addr (nat (Prefix_Bits p)) (Prefix_Addr p), Prefix_Bits = Prefix_Bits p \<rparr>"
proof -
  have "Prefix_Addr p \<noteq> NoAddr" using assms by (auto simp: prefix_ok_def)
  with assms show ?thesis by (simp add: Masked_def PrefixFrom_def prefix_ok_def withoutZone_id)
qed

lemma Masked_ok: "prefix_ok p \<Longrightarrow> prefix_ok (Masked p)"
  by (simp add: Masked_eq) (simp add: prefix_ok_def)

lemma Masked_idem: "prefix_ok p \<Longrightarrow> Masked (Masked p) = Masked p"
  using Masked_ok [of p] by (simp add: Masked_eq)

lemma Masked_not_mapped: "prefix_ok p \<Longrightarrow> \<not> Addr_Is4In6 (Prefix_Addr p) \<Longrightarrow> \<not> Addr_Is4In6 (Prefix_Addr (Masked p))"
  by (cases "Prefix_Addr p") (simp_all add: Masked_eq prefix_ok_def mask_not_mapped)

text \<open>Masking does not change what a prefix contains.\<close>

lemma Contains_Masked: "prefix_ok p \<Longrightarrow> Prefix_Contains (Masked p) a = Prefix_Contains p a"
  by (cases "Prefix_Addr p"; cases a) (simp_all add: Masked_eq Prefix_Contains_def mask_bytes_div)

lemma LastIndexByte_append: "c \<notin> set t \<Longrightarrow> LastIndexByte (s @ c # t) c = Some (length s)"
  using IndexByte_append [of c "rev t" "rev s"] by (simp add: LastIndexByte_def)

lemma LastIndexByte_None: "LastIndexByte s c = None \<longleftrightarrow> c \<notin> set s"
  by (simp add: LastIndexByte_def IndexByte_None)

lemma show_nat_Atoi: "n < 2 ^ 63 \<Longrightarrow> strconv_Atoi (show_nat n) = Some (int n)"
proof -
  obtain c r where d: "show_nat n = c # r" by (cases "show_nat n") simp_all
  then have "is_digit c" using show_nat_digits [of n] by simp
  then have "c \<noteq> CHR ''-''" "c \<noteq> CHR ''+''" using ne_digit by blast+
  then show "n < 2 ^ 63 \<Longrightarrow> strconv_Atoi (show_nat n) = Some (int n)"
    using show_nat_value [of n] unfolding strconv_Atoi_def d by simp
qed

lemma show_nat_no_leading_zero: "length (show_nat n) > 1 \<Longrightarrow> is_digit (hd (show_nat n)) \<and> hd (show_nat n) \<noteq> CHR ''0''"
  using show_nat_hd [of n] show_nat_digits [of n] show_nat_small(1) [of n] by (cases "n < 10") auto

text \<open>Every prefix but one of a mapped address is read back.\<close>

theorem ParsePrefix_String:
  assumes "prefix_ok p" "\<not> Addr_Is4In6 (Prefix_Addr p)"
  shows "ParsePrefix (Prefix_String p) = Some p"
proof -
  let ?a = "Prefix_Addr p" and ?n = "nat (Prefix_Bits p)"
  have s: "Prefix_String p = Addr_String ?a @ CHR ''/'' # show_nat ?n"
    using assms by (simp add: Prefix_String_def show_int_def prefix_ok_def)
  have i: "LastIndexByte (Prefix_String p) (CHR ''/'') = Some (length (Addr_String ?a))"
    unfolding s by (rule LastIndexByte_append) (use show_nat_digits ne_digit in blast)
  have "?n \<le> 128" using assms(1) by (cases ?a) (auto simp: prefix_ok_def)
  then have "strconv_Atoi (show_nat ?n) = Some (Prefix_Bits p)" using assms(1) show_nat_Atoi [of ?n] by (simp add: prefix_ok_def)
  moreover have "ParseAddr (Addr_String ?a) = Some ?a" using assms by (intro ParseAddr_String) (simp_all add: prefix_ok_def)
  moreover have "PrefixFrom ?a (Prefix_Bits p) = p" "?a \<noteq> NoAddr"
    using assms by (auto simp: PrefixFrom_def prefix_ok_def withoutZone_id)
  ultimately show ?thesis unfolding ParsePrefix_def i using assms(1) show_nat_no_leading_zero [of ?n]
    by (auto simp: s prefix_ok_def Let_def)
qed

text \<open>The parser of IPv4 addresses accepts the canonical text only.\<close>

definition dotted :: "bytes \<Rightarrow> string" where
  "dotted ip = concat (map (\<lambda>x. show_nat (unat x) @ ''.'') ip)"

lemma show_nat_extend:
  assumes "is_digit c" "\<not> (length p = 1 \<and> val = 0)" "p = [] \<and> val = 0 \<or> p = show_nat val"
  shows "show_nat (val * 10 + (of_char c - 48)) = p @ [c]"
proof -
  let ?d = "of_char c - 48 :: nat"
  have d: "?d < 10" "digit_char ?d = c" using assms(1) by (auto simp: is_digit_def digit_char_def)
  show ?thesis
  proof (cases "val = 0")
    case True
    with assms(2,3) have "p = []" by (auto simp: show_nat.simps [of 0])
    with True d show ?thesis by (simp add: show_nat.simps)
  next
    case False
    with assms(3) have "p = show_nat val" by simp
    moreover have "(val * 10 + ?d) div 10 = val" "(val * 10 + ?d) mod 10 = ?d" "\<not> val * 10 + ?d < 10" using d False by auto
    ultimately show ?thesis using d(2) by (subst show_nat.simps) simp
  qed
qed

lemma parseIPv4_loop_text:
  "parseIPv4_loop ip val digLen s = Some b \<Longrightarrow> digLen = length p \<Longrightarrow> val \<le> 255 \<Longrightarrow>
   p = [] \<and> val = 0 \<or> p = show_nat val \<Longrightarrow> p \<noteq> [] \<or> s \<noteq> [] \<or> ip = [] \<Longrightarrow>
   dotted ip @ p @ s @ ''.'' = dotted b"
proof (induction ip val digLen s arbitrary: p rule: parseIPv4_loop.induct)
  case (1 ip val digLen)
  then have b: "b = ip @ [word_of_nat val]" "\<not> length ip < 3" by (auto split: if_splits)
  with 1(5) have "p = show_nat val" using 1(4) by auto
  moreover have "unat (word_of_nat val :: byte) = val" using 1(3) by (simp add: unat_of_nat)
  ultimately show ?case using b by (simp add: dotted_def)
next
  case (2 ip val digLen c s)
  show ?case
  proof (cases "is_digit c")
    case True
    let ?v = "val * 10 + (of_char c - 48)"
    from 2(3) True have v: "\<not> (digLen = 1 \<and> val = 0)" "\<not> ?v > 255" "parseIPv4_loop ip ?v (digLen + 1) s = Some b"
      by (auto simp: Let_def split: if_splits)
    have "show_nat ?v = p @ [c]" using show_nat_extend [OF True, of p val] 2(4,6) v(1) by simp
    with 2(1) [OF True v(1) refl v(2,3), of "p @ [c]"] v 2(4) show ?thesis by simp
  next
    case False
    with 2(3) have c: "c = CHR ''.''" "\<not> (digLen = 0 \<or> s = [])" "length ip \<noteq> 3"
      "parseIPv4_loop (ip @ [word_of_nat val]) 0 0 s = Some b"
      by (auto split: if_splits)
    with 2(4,6) have "p = show_nat val" by auto
    moreover have "unat (word_of_nat val :: byte) = val" using 2(5) by (simp add: unat_of_nat)
    ultimately show ?thesis using 2(2) [OF False c(1-4), of "[]"] c by (simp add: dotted_def)
  qed
qed

lemma parseIPv4_text: "parseIPv4 s = Some a \<Longrightarrow> Is4 a \<and> addr_ok a \<and> Addr_String a = s"
proof -
  assume "parseIPv4 s = Some a"
  then obtain b where b: "a = Addr4 b" "parseIPv4_loop [] 0 0 s = Some b" by (auto simp: parseIPv4_def)
  have l: "length b = 4" using parseIPv4_length [OF b(2)] by simp
  have "s @ ''.'' = dotted b" using parseIPv4_loop_text [OF b(2), of "[]"] by (simp add: dotted_def)
  also have "\<dots> = string4 b @ ''.''" by (subst list4 [OF l]) (simp add: dotted_def string4_def)
  finally show ?thesis using b l by simp
qed

lemma IndexByte_Some: "IndexByte s c = Some i \<Longrightarrow> s = take i s @ c # drop (Suc i) s"
  by (induction s arbitrary: i) (auto split: if_splits)

lemma scan_cases: "ParseAddr_scan txt s = Some a \<Longrightarrow>
   parseIPv4 txt = Some a \<and> CHR ''.'' \<in> set s \<or> parseIPv6 txt = Some a \<and> CHR '':'' \<in> set s"
  by (induction s) (auto split: if_splits)

lemma ParseAddr_zone: "ParseAddr s = Some a \<Longrightarrow> hasZone a \<Longrightarrow> \<exists>b z p. a = Addr6 b z \<and> s = p @ CHR ''%'' # z"
proof -
  assume "ParseAddr s = Some a" "hasZone a"
  then obtain b z where a: "a = Addr6 b z" "z \<noteq> []" by (cases a) auto
  with \<open>ParseAddr s = Some a\<close> have "parseIPv6 s = Some a" using parseIPv4_text scan_cases unfolding ParseAddr_def by fastforce
  with a show ?thesis using IndexByte_Some [of s "CHR ''%''"]
    by (auto simp: parseIPv6_def Let_def split: option.splits if_splits prod.splits)
qed

end
