(* ===== verification/Routing.thy ===== *)
theory Routing
  imports Net_IP "HOL-Library.AList" "HOL-Library.List_Lexorder" "HOL-Library.Char_ord"
    "HOL-Library.Product_Lexorder" "HOL-Library.Code_Target_Nat"
begin

text \<open>
  \<^verbatim>\<open>internal/routing/routing.go\<close>: the policy engine. A target is a domain, an address or a
  prefix; a manual rule overrides the automatic classifier for it. The map of rules is an
  association list with distinct keys in the order a \<^verbatim>\<open>range\<close> loop happens to visit it, which
  is any; \<^verbatim>\<open>e.now()\<close> is an argument. Text is ASCII (\<open>Go_Strings\<close>).
\<close>

section \<open>Actions and targets\<close>

type_synonym Action = string
type_synonym TargetKind = string
type_synonym Source = string

definition ActionTunnel :: Action where "ActionTunnel = ''TUNNEL''"

definition ActionDirect :: Action where "ActionDirect = ''DIRECT''"

definition ActionBlock :: Action where "ActionBlock = ''BLOCK''"

definition ActionAuto :: Action where "ActionAuto = ''AUTO''"

text \<open>The errors, with the reason that follows in the text of \<^verbatim>\<open>ErrInvalidTarget\<close>.\<close>

datatype target_reason =
  EmptyValue | MalformedCIDR string | InvalidMappedPrefix | MalformedDomain | NotIDNA
  | MalformedLabel | MalformedCharacter

datatype routing_error = ErrInvalidAction string | ErrInvalidTarget target_reason | ErrAutoRule

type_synonym 'a routing_result = "(routing_error, 'a) outcome"

definition Action_valid :: "Action \<Rightarrow> bool" where
  "Action_valid a \<longleftrightarrow> a = ActionTunnel \<or> a = ActionDirect \<or> a = ActionBlock \<or> a = ActionAuto"

definition Action_effective :: "Action \<Rightarrow> bool" where
  "Action_effective a \<longleftrightarrow> a = ActionTunnel \<or> a = ActionDirect \<or> a = ActionBlock"

definition ParseAction :: "string \<Rightarrow> Action routing_result" where
  "ParseAction value =
    (let action = strings_ToUpper (strings_TrimSpace value) in
     if \<not> Action_valid action then Err (ErrInvalidAction value) else Ret action)"

definition TargetDomain :: TargetKind where "TargetDomain = ''DOMAIN''"

definition TargetIP :: TargetKind where "TargetIP = ''IP''"

definition TargetCIDR :: TargetKind where "TargetCIDR = ''CIDR''"

record Target =
  Kind :: TargetKind
  Value :: string
  addr :: Addr
  prefix :: Prefix

definition canonicalPrefix :: "Prefix \<Rightarrow> Prefix routing_result" where
  "canonicalPrefix p =
    (if Addr_Is4In6 (Prefix_Addr p) then
       let bits = Prefix_Bits p - 96 in
       if bits < 0 \<or> bits > 32 then Err (ErrInvalidTarget InvalidMappedPrefix)
       else Ret (Masked (PrefixFrom (Unmap (Prefix_Addr p)) bits))
     else Ret (Masked p))"

definition domain_char :: "char \<Rightarrow> bool" where
  "domain_char c \<longleftrightarrow> 97 \<le> (of_char c :: nat) \<and> (of_char c :: nat) \<le> 122 \<or> is_digit c \<or> c = CHR ''-''"

text \<open>The loop over the labels: the first error ends it.\<close>

fun check_labels :: "string list \<Rightarrow> unit routing_result" where
  "check_labels [] = Ret ()"
| "check_labels (label # rest) =
    (if length label = 0 \<or> length label > 63 \<or> hd label = CHR ''-'' \<or> last label = CHR ''-''
     then Err (ErrInvalidTarget MalformedLabel)
     else if \<exists>c \<in> set label. \<not> domain_char c then Err (ErrInvalidTarget MalformedCharacter)
     else check_labels rest)"

definition normalizeDomain :: "string \<Rightarrow> string routing_result" where
  "normalizeDomain value0 =
    (let value1 = strings_ToLower (strings_TrimSpace value0);
         value = (if strings_HasSuffix value1 ''.'' then strings_TrimSuffix value1 ''.'' else value1) in
     if value = [] \<or> length value > 253 \<or> strings_HasSuffix value ''.'' then Err (ErrInvalidTarget MalformedDomain)
     else if \<not> ascii value then Err (ErrInvalidTarget NotIDNA)
     else obind (check_labels (strings_Split value (CHR ''.''))) (\<lambda>_. Ret value))"

definition ParseTarget :: "string \<Rightarrow> Target routing_result" where
  "ParseTarget value0 =
    (let value = strings_TrimSpace value0 in
     if value = [] then Err (ErrInvalidTarget EmptyValue)
     else if strings_Contains value ''/'' then
       (case ParsePrefix value of
          None \<Rightarrow> Err (ErrInvalidTarget (MalformedCIDR value))
        | Some p0 \<Rightarrow>
            obind (canonicalPrefix p0) (\<lambda>p.
            Ret \<lparr> Kind = TargetCIDR, Value = Prefix_String p, addr = NoAddr, prefix = p \<rparr>))
     else
       (case ParseAddr value of
          Some a0 \<Rightarrow>
            let a = Unmap a0 in
            Ret \<lparr> Kind = TargetIP, Value = Addr_String a, addr = a, prefix = zeroPrefix \<rparr>
        | None \<Rightarrow>
            obind (normalizeDomain value) (\<lambda>domain.
            Ret \<lparr> Kind = TargetDomain, Value = domain, addr = NoAddr, prefix = zeroPrefix \<rparr>)))"

section \<open>The engine\<close>

definition SourceManual :: Source where "SourceManual = ''MANUAL''"

definition SourceAutomatic :: Source where "SourceAutomatic = ''AUTOMATIC''"

record Rule =
  RuleID :: uint64
  RTarget :: Target
  RAction :: Action
  RSource :: Source
  CreatedAt :: gotime
  UpdatedAt :: gotime

record Decision =
  DTarget :: Target
  DAction :: Action
  EffectiveAction :: Action
  DSource :: Source
  Reason :: string
  MatchedRule :: "Rule option"
  DGeneration :: uint64

type_synonym AutoDecider = "Target \<Rightarrow> Action \<times> string"

record Engine =
  rules :: "(string \<times> Rule) list"
  nextID :: uint64
  generation :: uint64
  defaultAction :: Action
  decider :: "AutoDecider option"

type_synonym Option = "Engine \<Rightarrow> Engine"

definition WithAutoDecider :: "AutoDecider option \<Rightarrow> Option" where
  "WithAutoDecider d e = (if d \<noteq> None then e\<lparr>decider := d\<rparr> else e)"

definition WithDefaultAction :: "Action \<Rightarrow> Option" where
  "WithDefaultAction action e = (if Action_effective action then e\<lparr>defaultAction := action\<rparr> else e)"

definition NewEngine :: "Option option list \<Rightarrow> Engine" where
  "NewEngine options =
    foldl (\<lambda>e option. case option of None \<Rightarrow> e | Some f \<Rightarrow> f e)
      \<lparr> rules = [], nextID = 0, generation = 0, defaultAction = ActionTunnel, decider = None \<rparr> options"

definition targetKey :: "Target \<Rightarrow> string" where
  "targetKey t = Kind t @ [CHR 0x00] @ Value t"

definition SetRule :: "Engine \<Rightarrow> string \<Rightarrow> Action \<Rightarrow> gotime \<Rightarrow> Engine \<times> Rule routing_result" where
  "SetRule e targetValue action now =
    (if \<not> Action_valid action then (e, Err (ErrInvalidAction action))
     else if action = ActionAuto then (e, Err ErrAutoRule)
     else or_return (ParseTarget targetValue) e (\<lambda>target.
       let key = targetKey target in
       case map_of (rules e) key of
         Some existing \<Rightarrow>
           if RAction existing = action then (e, Ret existing)
           else
             let existing' = existing\<lparr>RAction := action, UpdatedAt := now\<rparr> in
             (e\<lparr>rules := AList.update key existing' (rules e), generation := generation e + 1\<rparr>, Ret existing')
       | None \<Rightarrow>
           let rule = \<lparr> RuleID = nextID e + 1, RTarget = target, RAction = action, RSource = SourceManual,
                        CreatedAt = now, UpdatedAt = now \<rparr> in
           (e\<lparr>nextID := nextID e + 1, rules := AList.update key rule (rules e), generation := generation e + 1\<rparr>,
            Ret rule)))"

text \<open>\<^verbatim>\<open>List\<close>: the order of \<^verbatim>\<open>sort.Slice\<close> is by kind and value, as byte strings.\<close>

definition rule_order :: "Rule \<Rightarrow> string \<times> string" where
  "rule_order r = (Kind (RTarget r), Value (RTarget r))"

definition List_rules :: "Engine \<Rightarrow> Rule list" where
  "List_rules e = sort_key rule_order (map snd (rules e))"

definition Engine_Generation :: "Engine \<Rightarrow> uint64" where
  "Engine_Generation e = generation e"

text \<open>The loop over the rules: the best rule so far and its number of bits.\<close>

fun best_match :: "Addr \<Rightarrow> (string \<times> Rule) list \<Rightarrow> Rule option \<times> int \<Rightarrow> Rule option \<times> int" where
  "best_match a [] best = best"
| "best_match a ((key, rule) # rest) (best, bestBits) =
    (if Kind (RTarget rule) \<noteq> TargetCIDR \<or> \<not> Prefix_Contains (prefix (RTarget rule)) a
     then best_match a rest (best, bestBits)
     else
       let bits = Prefix_Bits (prefix (RTarget rule)) in
       if bits > bestBits then best_match a rest (Some rule, bits) else best_match a rest (best, bestBits))"

definition matchLocked :: "Engine \<Rightarrow> Target \<Rightarrow> Rule option" where
  "matchLocked e target =
    (case map_of (rules e) (targetKey target) of
       Some rule \<Rightarrow> Some rule
     | None \<Rightarrow>
         if Kind target \<noteq> TargetIP then None
         else let (best, bestBits) = best_match (addr target) (rules e) (None, -1) in
              if bestBits \<ge> 0 then best else None)"

definition manualReason :: "Rule \<Rightarrow> Target \<Rightarrow> string" where
  "manualReason rule target =
    (if Kind (RTarget rule) = TargetCIDR \<and> Kind target = TargetIP
     then ''manual CIDR override '' @ Value (RTarget rule) @ '' matched by longest prefix''
     else ''manual '' @ strings_ToLower (Kind (RTarget rule)) @ '' override matched exactly'')"

text \<open>What the engine decides without a rule: the action and the reason.\<close>

definition automatic :: "Engine \<Rightarrow> Target \<Rightarrow> Action \<times> string" where
  "automatic e target =
    (case decider e of
       Some d \<Rightarrow>
         let (classified, classifiedReason) = d target in
         if Action_effective classified then
           (classified, if strings_TrimSpace classifiedReason \<noteq> [] then classifiedReason
                        else ''automatic classifier selected '' @ classified)
         else (defaultAction e, ''automatic classifier returned an invalid action; safe default applied'')
     | None \<Rightarrow>
         (defaultAction e,
          if defaultAction e \<noteq> ActionTunnel then ''no manual override matched; configured automatic default applied''
          else ''no manual override matched; unclassified targets default to TUNNEL''))"

definition Explain :: "Engine \<Rightarrow> string \<Rightarrow> Decision routing_result" where
  "Explain e targetValue =
    obind (ParseTarget targetValue) (\<lambda>target.
    case matchLocked e target of
      Some rule \<Rightarrow>
        Ret \<lparr> DTarget = target, DAction = RAction rule, EffectiveAction = RAction rule, DSource = SourceManual,
              Reason = manualReason rule target, MatchedRule = Some rule, DGeneration = generation e \<rparr>
    | None \<Rightarrow>
        let (action, reason) = automatic e target in
        Ret \<lparr> DTarget = target, DAction = ActionAuto, EffectiveAction = action, DSource = SourceAutomatic,
              Reason = reason, MatchedRule = None, DGeneration = generation e \<rparr>)"

definition DeleteRule :: "Engine \<Rightarrow> string \<Rightarrow> Engine \<times> Decision routing_result" where
  "DeleteRule e targetValue =
    or_return (ParseTarget targetValue) e (\<lambda>target.
      let key = targetKey target;
          e' = (if map_of (rules e) key \<noteq> None
                then e\<lparr>rules := AList.delete key (rules e), generation := generation e + 1\<rparr> else e) in
      (e', Explain e' (Value target)))"

section \<open>Targets are canonical\<close>

definition canonical :: "Target \<Rightarrow> bool" where
  "canonical t \<longleftrightarrow>
    Kind t = TargetCIDR \<and> prefix_ok (prefix t) \<and> Masked (prefix t) = prefix t \<and>
      \<not> Addr_Is4In6 (Prefix_Addr (prefix t)) \<and> Value t = Prefix_String (prefix t) \<and> addr t = NoAddr
  \<or> Kind t = TargetIP \<and> addr_ok (addr t) \<and> \<not> Addr_Is4In6 (addr t) \<and> Value t = Addr_String (addr t) \<and>
      strings_TrimSpace (Value t) = Value t \<and> CHR ''/'' \<notin> set (Value t) \<and> prefix t = zeroPrefix
  \<or> Kind t = TargetDomain \<and> normalizeDomain (Value t) = Ret (Value t) \<and> addr t = NoAddr \<and> prefix t = zeroPrefix"

named_theorems kinds

lemmas [kinds] = TargetCIDR_def TargetIP_def TargetDomain_def

lemma Contains_char: "strings_Contains s [c] \<longleftrightarrow> c \<in> set s"
  by (induction s) (auto simp: strings_HasPrefix_def)

lemma Unmap_ok: "addr_ok a \<Longrightarrow> addr_ok (Unmap a) \<and> (Addr_Is4In6 a \<longrightarrow> Is4 (Unmap a)) \<and> \<not> Addr_Is4In6 (Unmap a)"
  by (cases a) auto

lemma Unmap_fixed: "\<not> Addr_Is4In6 a \<Longrightarrow> Unmap a = a"
  by (cases a) auto

lemma canonicalPrefix_ok:
  assumes "prefix_ok p" "canonicalPrefix p = Ret q"
  shows "prefix_ok q \<and> Masked q = q \<and> \<not> Addr_Is4In6 (Prefix_Addr q)"
proof (cases "Addr_Is4In6 (Prefix_Addr p)")
  case False
  with assms show ?thesis by (auto simp: canonicalPrefix_def Masked_ok Masked_idem Masked_not_mapped)
next
  case True
  then obtain b z where b: "Prefix_Addr p = Addr6 b z" "mapped b" by (cases "Prefix_Addr p") auto
  with assms obtain bits where "q = Masked (PrefixFrom (Addr4 (drop 12 b)) bits)" "0 \<le> bits" "bits \<le> 32"
    by (auto simp: canonicalPrefix_def Let_def split: if_splits)
  moreover from this have "prefix_ok (PrefixFrom (Addr4 (drop 12 b)) bits)"
    using assms(1) b by (simp add: prefix_ok_def PrefixFrom_def)
  moreover have "\<not> Addr_Is4In6 (Prefix_Addr (PrefixFrom (Addr4 (drop 12 b)) bits))"
    by (simp add: PrefixFrom_def)
  ultimately show ?thesis by (auto simp: Masked_ok Masked_idem Masked_not_mapped)
qed

subsection \<open>Domains\<close>

lemma Split_chars: "c \<in> set s \<Longrightarrow> c \<noteq> sep \<Longrightarrow> \<exists>w \<in> set (strings_Split s sep). c \<in> set w"
proof (induction s)
  case (Cons d s)
  then show ?case by (cases "strings_Split s sep") auto
qed simp

lemma check_labels_chars: "check_labels ls = Ret () \<Longrightarrow> w \<in> set ls \<Longrightarrow> c \<in> set w \<Longrightarrow> domain_char c"
  by (induction ls) (auto split: if_splits)

lemma domain_char_lower: "domain_char c \<Longrightarrow> lower_char c = c \<and> \<not> ascii_space c \<and> c \<noteq> CHR ''/'' \<and> c \<noteq> CHR '':'' \<and> c \<noteq> CHR ''%''"
  by (auto simp: domain_char_def is_digit_def lower_char_def ascii_space_def Let_def)

lemma normalizeDomain_chars:
  assumes "normalizeDomain s = Ret d" "c \<in> set d"
  shows "domain_char c \<or> c = CHR ''.''"
proof (cases "c = CHR ''.''")
  case False
  from assms(1) have "check_labels (strings_Split d (CHR ''.'')) = Ret ()"
    by (auto simp: normalizeDomain_def Let_def split: if_splits)
  with False show ?thesis using Split_chars [OF assms(2) False] check_labels_chars by blast
qed simp

lemma domain_or_dot: "domain_char c \<or> c = CHR ''.'' \<Longrightarrow> lower_char c = c \<and> \<not> ascii_space c \<and> c \<noteq> CHR ''/''"
proof (elim disjE)
  assume "c = CHR ''.''"
  then show ?thesis by (simp add: lower_char_def ascii_space_def)
qed (use domain_char_lower in blast)

lemma plain_lower: "\<forall>c \<in> set d. domain_char c \<or> c = CHR ''.'' \<Longrightarrow> strings_ToLower d = d"
  unfolding strings_ToLower_def by (rule map_idI) (use domain_or_dot in blast)

lemma plain_trim: "\<forall>c \<in> set d. domain_char c \<or> c = CHR ''.'' \<Longrightarrow> strings_TrimSpace d = d"
  by (rule trim_fixed) (metis domain_or_dot hd_in_set last_in_set)

lemma normalizeDomain_stable:
  assumes "normalizeDomain s = Ret d"
  shows "normalizeDomain d = Ret d" "strings_TrimSpace d = d" "d \<noteq> []" "CHR ''/'' \<notin> set d"
proof -
  have c: "\<forall>c \<in> set d. domain_char c \<or> c = CHR ''.''" using assms normalizeDomain_chars by blast
  show t: "strings_TrimSpace d = d" using c by (rule plain_trim)
  have l: "strings_ToLower d = d" using c by (rule plain_lower)
  from assms have "d \<noteq> []" "\<not> length d > 253" "\<not> strings_HasSuffix d ''.''" "ascii d"
    "check_labels (strings_Split d (CHR ''.'')) = Ret ()"
    by (auto simp: normalizeDomain_def Let_def split: if_splits)
  then show "normalizeDomain d = Ret d" "d \<noteq> []" by (simp_all add: normalizeDomain_def t l)
  show "CHR ''/'' \<notin> set d" using c domain_or_dot by blast
qed

text \<open>The text of a prefix or an address has no space at its ends and no slash but the prefix's.\<close>

lemma show_nat_ends: "\<not> ascii_space (hd (show_nat n)) \<and> \<not> ascii_space (last (show_nat n))"
  using show_nat_digits [of n] ne_digit by (metis hd_in_set last_in_set show_nat_nonempty)

lemma string4_chars: "c \<in> set (string4 b) \<Longrightarrow> is_digit c \<or> c = CHR ''.''"
  using show_nat_digits by (auto simp: string4_def)

lemma digit_char_plain: "n < 16 \<Longrightarrow> \<not> ascii_space (digit_char n)"
  by (auto simp: digit_char_def ascii_space_def)

lemma group_text_plain: "\<forall>x \<in> set gs. x < 65536 \<Longrightarrow> c \<in> set (group_text gs) \<Longrightarrow> \<not> ascii_space c"
  by (induction gs) (auto simp: ascii_space_def [of "CHR '':''"] dest!: appendHex_digits digit_char_plain)

lemma string6_plain:
  assumes "length b = 16" "c \<in> set (string6 b)"
  shows "\<not> ascii_space c"
  using assms(1)
proof (cases b rule: string6_cases)
  case (1 gs)
  with assms group_text_plain [of gs c] in_set_tlD show ?thesis by metis
next
  case (2 gs hs)
  from 2(3) assms(2) have "c \<in> set (group_text gs) \<or> c = CHR '':'' \<or> c \<in> set (group_text hs)"
    by (auto dest: in_set_tlD)
  with 2(1) group_text_plain [of gs c] group_text_plain [of hs c] show ?thesis by (auto simp: ascii_space_def)
qed

lemma string6_nonempty: "length b = 16 \<Longrightarrow> string6 b \<noteq> []"
  by (metis Nil_is_append_conv list.distinct(1) string6_colon)

lemma Addr_String_chars:
  assumes "addr_ok a" "\<not> Addr_Is4In6 a" "\<not> hasZone a" "c \<in> set (Addr_String a)"
  shows "\<not> ascii_space c \<and> c \<noteq> CHR ''/''"
proof (cases a)
  case (Addr4 b)
  with assms(4) have "is_digit c \<or> c = CHR ''.''" by (simp add: string4_chars)
  then show ?thesis using ne_digit [of c] by (auto simp: ascii_space_def)
next
  case (Addr6 b z)
  with assms show ?thesis using string6_plain [of b c] string6_chars [of b c] by auto
qed (use assms in simp)

lemma Addr_String_nonempty: "addr_ok a \<Longrightarrow> \<not> Addr_Is4In6 a \<Longrightarrow> Addr_String a \<noteq> []"
  by (cases a) (simp_all add: string6_nonempty, simp add: string4_def)

lemma Addr_String_clean:
  assumes "ParseAddr s = Some a0" "strings_TrimSpace s = s" "CHR ''/'' \<notin> set s"
  defines "a \<equiv> Unmap a0"
  shows "strings_TrimSpace (Addr_String a) = Addr_String a \<and> CHR ''/'' \<notin> set (Addr_String a)"
proof -
  have a: "addr_ok a" "\<not> Addr_Is4In6 a" using Unmap_ok ParseAddr_ok [OF assms(1)] by (auto simp: a_def)
  show ?thesis
  proof (cases "hasZone a")
    case False
    with a Addr_String_chars [of a] Addr_String_nonempty [of a] show ?thesis
      by (metis hd_in_set last_in_set trim_fixed)
  next
    case True
    then have a0: "a0 = a" "hasZone a0" unfolding a_def by (cases a0; auto split: if_splits)+
    with ParseAddr_zone [OF assms(1)] obtain b z p where b: "a = Addr6 b z" "s = p @ CHR ''%'' # z" by auto
    with True have z: "z \<noteq> []" by simp
    have s6: "Addr_String a = string6 b @ CHR ''%'' # z" "length b = 16" using a b z by simp_all
    have "s \<noteq> []" "last s = last z" using b z by auto
    then have "\<not> ascii_space (last z)" using trim_ends [of s] assms(2) by metis
    moreover have "\<not> ascii_space (hd (Addr_String a))" "Addr_String a \<noteq> []"
      using s6 string6_nonempty [of b] string6_plain [of b] by auto
    ultimately have "strings_TrimSpace (Addr_String a) = Addr_String a"
      using s6(1) z by (intro trim_fixed) simp
    moreover have "CHR ''/'' \<notin> set (Addr_String a)" using s6 b assms(3) string6_chars [of b] by auto
    ultimately show ?thesis by simp
  qed
qed

lemma Prefix_String_clean:
  assumes "prefix_ok p" "\<not> Addr_Is4In6 (Prefix_Addr p)"
  shows "strings_TrimSpace (Prefix_String p) = Prefix_String p \<and> Prefix_String p \<noteq> [] \<and> CHR ''/'' \<in> set (Prefix_String p)"
proof -
  let ?a = "Addr_String (Prefix_Addr p)"
  have s: "Prefix_String p = ?a @ CHR ''/'' # show_nat (nat (Prefix_Bits p))"
    using assms(1) by (simp add: Prefix_String_def show_int_def prefix_ok_def)
  have "\<not> ascii_space (hd ?a)" "?a \<noteq> []"
    using assms Addr_String_chars [of "Prefix_Addr p" "hd ?a"] Addr_String_nonempty by (auto simp: prefix_ok_def)
  then show ?thesis unfolding s using show_nat_ends
    by (intro conjI trim_fixed) (simp_all add: last_ConsR)
qed

text \<open>The parser's results, and what the parser makes of their text.\<close>

lemma ParseTarget_canonical: "ParseTarget v = Ret t \<Longrightarrow> canonical t"
proof -
  let ?v = "strings_TrimSpace v"
  assume a: "ParseTarget v = Ret t"
  show ?thesis
  proof (cases "CHR ''/'' \<in> set ?v")
    case True
    with a obtain p q where "ParsePrefix ?v = Some p" "canonicalPrefix p = Ret q"
      "t = \<lparr> Kind = TargetCIDR, Value = Prefix_String q, addr = NoAddr, prefix = q \<rparr>"
      by (auto simp: ParseTarget_def Contains_char Let_def split: option.splits if_splits)
    then show ?thesis using canonicalPrefix_ok [OF ParsePrefix_ok] by (simp add: canonical_def)
  next
    case False
    show ?thesis
    proof (cases "ParseAddr ?v")
      case None
      with a False obtain d where "normalizeDomain ?v = Ret d"
        "t = \<lparr> Kind = TargetDomain, Value = d, addr = NoAddr, prefix = zeroPrefix \<rparr>"
        by (auto simp: ParseTarget_def Contains_char Let_def split: if_splits)
      then show ?thesis using normalizeDomain_stable by (simp add: canonical_def)
    next
      case (Some a0)
      with a False have "t = \<lparr> Kind = TargetIP, Value = Addr_String (Unmap a0), addr = Unmap a0, prefix = zeroPrefix \<rparr>"
        by (auto simp: ParseTarget_def Contains_char Let_def split: if_splits)
      then show ?thesis using Addr_String_clean [OF Some trim_idem False] Unmap_ok [OF ParseAddr_ok [OF Some]]
        by (simp add: canonical_def)
    qed
  qed
qed

lemma canonical_CIDR: "canonical t \<Longrightarrow> Kind t = TargetCIDR \<Longrightarrow> ParseTarget (Value t) = Ret t"
proof -
  assume a: "canonical t" "Kind t = TargetCIDR"
  then have c: "prefix_ok (prefix t)" "Masked (prefix t) = prefix t" "\<not> Addr_Is4In6 (Prefix_Addr (prefix t))"
    "Value t = Prefix_String (prefix t)" "addr t = NoAddr"
    by (auto simp: canonical_def kinds)
  then show ?thesis using Prefix_String_clean [of "prefix t"] ParsePrefix_String [of "prefix t"] a(2)
    by (simp add: ParseTarget_def Contains_char canonicalPrefix_def)
qed

lemma canonical_IP: "canonical t \<Longrightarrow> Kind t = TargetIP \<Longrightarrow> ParseTarget (Value t) = Ret t"
proof -
  assume a: "canonical t" "Kind t = TargetIP"
  then have c: "addr_ok (addr t)" "\<not> Addr_Is4In6 (addr t)" "Value t = Addr_String (addr t)"
    "strings_TrimSpace (Value t) = Value t" "CHR ''/'' \<notin> set (Value t)" "prefix t = zeroPrefix"
    by (auto simp: canonical_def kinds)
  then show ?thesis using ParseAddr_String [of "addr t"] Addr_String_nonempty [of "addr t"] a(2) Unmap_fixed [of "addr t"]
    by (simp add: ParseTarget_def Contains_char Let_def)
qed

lemma canonical_domain:
  assumes "canonical t" "Kind t = TargetDomain"
  shows "ParseTarget (Value t) =
    (case ParseAddr (Value t) of
       None \<Rightarrow> Ret t
     | Some a \<Rightarrow> Ret \<lparr> Kind = TargetIP, Value = Value t, addr = a, prefix = zeroPrefix \<rparr>)"
proof -
  from assms have n: "normalizeDomain (Value t) = Ret (Value t)" and t: "addr t = NoAddr" "prefix t = zeroPrefix"
    by (auto simp: canonical_def kinds)
  note s = normalizeDomain_stable [OF n]
  have "Unmap a = a \<and> Addr_String a = Value t" if a: "ParseAddr (Value t) = Some a" for a
  proof -
    have "CHR '':'' \<notin> set (Value t)"
      using normalizeDomain_chars [OF n] domain_char_lower by fastforce
    then have "parseIPv4 (Value t) = Some a" using scan_cases a unfolding ParseAddr_def by blast
    with parseIPv4_text show ?thesis by (cases a) force+
  qed
  with n s t assms(2) show ?thesis by (auto simp: ParseTarget_def Contains_char split: option.split)
qed

lemma canonical_cases:
  assumes "canonical t"
  obtains "Kind t = TargetCIDR" | "Kind t = TargetIP" | "Kind t = TargetDomain"
  using assms by (auto simp: canonical_def)

section \<open>Matching\<close>

lemma targetKey_inj:
  assumes "canonical t" "canonical u" "targetKey t = targetKey u"
  shows "t = u"
proof -
  have k: "Kind t = Kind u \<and> Value t = Value u"
    using assms(1)
  proof (cases rule: canonical_cases)
    case 1
    show ?thesis using assms(2) by (cases rule: canonical_cases) (use 1 assms(3) in \<open>simp_all add: targetKey_def kinds\<close>)
  next
    case 2
    show ?thesis using assms(2) by (cases rule: canonical_cases) (use 2 assms(3) in \<open>simp_all add: targetKey_def kinds\<close>)
  next
    case 3
    show ?thesis using assms(2) by (cases rule: canonical_cases) (use 3 assms(3) in \<open>simp_all add: targetKey_def kinds\<close>)
  qed
  show ?thesis using assms(1)
  proof (cases rule: canonical_cases)
    case 1
    then show ?thesis using canonical_CIDR assms(1,2) k by (metis outcome.inject(1))
  next
    case 2
    then show ?thesis using canonical_IP assms(1,2) k by (metis outcome.inject(1))
  next
    case 3
    have "addr t = NoAddr" "prefix t = zeroPrefix" "addr u = NoAddr" "prefix u = zeroPrefix"
      using 3 k assms(1,2) by (auto simp: canonical_def kinds)
    with k show ?thesis by simp
  qed
qed

text \<open>The invariant of the engine.\<close>

definition rule_ok :: "Engine \<Rightarrow> string \<times> Rule \<Rightarrow> bool" where
  "rule_ok e = (\<lambda>(key, r). key = targetKey (RTarget r) \<and> canonical (RTarget r) \<and> Action_effective (RAction r) \<and>
     RSource r = SourceManual \<and> 0 < unat (RuleID r) \<and> unat (RuleID r) \<le> unat (nextID e))"

definition engine_ok :: "Engine \<Rightarrow> bool" where
  "engine_ok e \<longleftrightarrow> distinct (map fst (rules e)) \<and> list_all (rule_ok e) (rules e) \<and>
     distinct (map (RuleID \<circ> snd) (rules e)) \<and> Action_effective (defaultAction e)"

lemma engine_okD:
  assumes "engine_ok e" "(key, r) \<in> set (rules e)"
  shows "key = targetKey (RTarget r)" "canonical (RTarget r)" "Action_effective (RAction r)" "RSource r = SourceManual"
    "map_of (rules e) key = Some r"
  using assms by (auto simp: engine_ok_def list_all_iff rule_ok_def)

text \<open>The rules, and the rules that could decide a target: an exact one, or for an address the prefixes around it.\<close>

definition rule_set :: "Engine \<Rightarrow> Rule set" where
  "rule_set e = snd ` set (rules e)"

definition covers :: "Rule \<Rightarrow> Target \<Rightarrow> bool" where
  "covers r t \<longleftrightarrow> Kind t = TargetIP \<and> Kind (RTarget r) = TargetCIDR \<and> Prefix_Contains (prefix (RTarget r)) (addr t)"

definition rule_bits :: "Rule \<Rightarrow> int" where
  "rule_bits r = Prefix_Bits (prefix (RTarget r))"

text \<open>The rule that governs a target: the exact one, else the longest prefix around it.\<close>

definition governs :: "Engine \<Rightarrow> Target \<Rightarrow> Rule \<Rightarrow> bool" where
  "governs e t r \<longleftrightarrow> r \<in> rule_set e \<and>
     (RTarget r = t \<or>
      covers r t \<and> (\<forall>r' \<in> rule_set e. RTarget r' \<noteq> t \<and> (covers r' t \<longrightarrow> rule_bits r' \<le> rule_bits r)))"

lemma best_match_spec:
  assumes "Kind t = TargetIP" "best_match (addr t) rs (b0, n0) = (b, n)"
  shows "((b, n) = (b0, n0) \<or> (\<exists>r \<in> snd ` set rs. covers r t \<and> b = Some r \<and> n = rule_bits r \<and> n > n0)) \<and>
    n0 \<le> n \<and> (\<forall>r \<in> snd ` set rs. covers r t \<longrightarrow> rule_bits r \<le> n)"
  using assms(2)
proof (induction "addr t" rs "(b0, n0)" arbitrary: b0 n0 rule: best_match.induct)
  case (2 key rule rest best bestBits)
  have c: "covers rule t \<longleftrightarrow> \<not> (Kind (RTarget rule) \<noteq> TargetCIDR \<or> \<not> Prefix_Contains (prefix (RTarget rule)) (addr t))"
    using assms(1) by (simp add: covers_def)
  show ?case
  proof (cases "covers rule t")
    case False
    with 2(1) 2(4) c show ?thesis by auto
  next
    case True
    with c have nc: "\<not> (Kind (RTarget rule) \<noteq> TargetCIDR \<or> \<not> Prefix_Contains (prefix (RTarget rule)) (addr t))" by simp
    show ?thesis
    proof (cases "rule_bits rule > bestBits")
      case bits: True
      with 2(2) [OF nc refl] 2(4) nc True show ?thesis by (fastforce simp: rule_bits_def Let_def)
    next
      case bits: False
      with 2(3) [OF nc refl] 2(4) nc True show ?thesis by (fastforce simp: rule_bits_def Let_def)
    qed
  qed
qed simp

lemma div_cong_mask: "length a = length b \<Longrightarrow> be_val a div 2 ^ k = be_val b div 2 ^ k \<Longrightarrow> mask_bytes k a = mask_bytes k b"
  by (rule be_val_inj) (simp_all add: mask_bytes_val)

text \<open>Two prefixes of one length around one address are the same.\<close>

lemma same_prefix:
  assumes "prefix_ok p" "Masked p = p" "prefix_ok q" "Masked q = q"
    "Prefix_Contains p a" "Prefix_Contains q a" "Prefix_Bits p = Prefix_Bits q"
  shows "p = q"
proof -
  let ?n = "nat (Prefix_Bits p)"
  have p: "mask_addr ?n (Prefix_Addr p) = Prefix_Addr p" "mask_addr ?n (Prefix_Addr q) = Prefix_Addr q"
    using Masked_eq [OF assms(1)] Masked_eq [OF assms(3)] assms(2,4,7) by (metis Prefix.select_convs(1))+
  have "Prefix_Addr p = Prefix_Addr q"
  proof (cases "Prefix_Addr p"; cases "Prefix_Addr q")
    fix x y assume x: "Prefix_Addr p = Addr4 x" and y: "Prefix_Addr q = Addr4 y"
    then have "be_val x div 2 ^ (32 - ?n) = be_val y div 2 ^ (32 - ?n)"
      using assms(5-7) by (cases a) (simp_all add: Prefix_Contains_def)
    then have "mask_bytes (32 - ?n) x = mask_bytes (32 - ?n) y"
      using x y assms(1,3) by (intro div_cong_mask) (simp_all add: prefix_ok_def)
    with p x y show ?thesis by simp
  next
    fix x zx y zy assume x: "Prefix_Addr p = Addr6 x zx" and y: "Prefix_Addr q = Addr6 y zy"
    then have "be_val x div 2 ^ (128 - ?n) = be_val y div 2 ^ (128 - ?n)"
      using assms(5-7) by (cases a) (simp_all add: Prefix_Contains_def)
    then have "mask_bytes (128 - ?n) x = mask_bytes (128 - ?n) y"
      using x y assms(1,3) by (intro div_cong_mask) (simp_all add: prefix_ok_def)
    with p x y assms(1,3) show ?thesis by (simp add: prefix_ok_def)
  qed (use assms(5,6) in \<open>cases a; simp add: Prefix_Contains_def\<close>)+
  with assms(7) show ?thesis by simp
qed

lemma rule_setD:
  assumes "engine_ok e" "r \<in> rule_set e"
  shows "map_of (rules e) (targetKey (RTarget r)) = Some r" "canonical (RTarget r)" "Action_effective (RAction r)"
  using assms engine_okD [of e] by (auto simp: rule_set_def)

lemma rule_set_lookup:
  assumes "engine_ok e" "canonical t"
  shows "map_of (rules e) (targetKey t) = Some r \<longleftrightarrow> r \<in> rule_set e \<and> RTarget r = t"
proof
  assume m: "map_of (rules e) (targetKey t) = Some r"
  then have i: "(targetKey t, r) \<in> set (rules e)" by (rule map_of_SomeD)
  then have "targetKey t = targetKey (RTarget r)" "canonical (RTarget r)" using engine_okD assms(1) by blast+
  then have "RTarget r = t" using targetKey_inj assms(2) by metis
  with i show "r \<in> rule_set e \<and> RTarget r = t" by (force simp: rule_set_def)
qed (use rule_setD assms in auto)

lemma canonical_prefix: "canonical t \<Longrightarrow> Kind t = TargetCIDR \<Longrightarrow> prefix_ok (prefix t) \<and> Masked (prefix t) = prefix t"
  by (auto simp: canonical_def kinds)

lemma same_cover:
  assumes "engine_ok e" "r \<in> rule_set e" "r' \<in> rule_set e" "covers r t" "covers r' t" "rule_bits r = rule_bits r'"
  shows "r = r'"
proof -
  have c: "canonical (RTarget r)" "canonical (RTarget r')" using rule_setD assms by blast+
  have "prefix (RTarget r) = prefix (RTarget r')"
    using same_prefix canonical_prefix c assms(4-6) unfolding covers_def rule_bits_def by blast
  moreover have "Value (RTarget r) = Prefix_String (prefix (RTarget r))" "Value (RTarget r') = Prefix_String (prefix (RTarget r'))"
    using c assms(4,5) by (auto simp: canonical_def covers_def kinds)
  ultimately have "targetKey (RTarget r) = targetKey (RTarget r')" using assms(4,5) by (simp add: targetKey_def covers_def)
  then show ?thesis using rule_setD(1) assms(1-3) by (metis option.inject)
qed

lemma matchLocked_governs:
  assumes "engine_ok e" "canonical t"
  shows "matchLocked e t = Some r \<longleftrightarrow> governs e t r"
proof (cases "map_of (rules e) (targetKey t)")
  case (Some r0)
  then have r0: "r0 \<in> rule_set e" "RTarget r0 = t" using rule_set_lookup [OF assms] by blast+
  have "governs e t r \<longleftrightarrow> r = r0"
    using r0 rule_set_lookup [OF assms, of r] Some by (auto simp: governs_def)
  with Some show ?thesis by (auto simp: matchLocked_def)
next
  case None
  then have no: "RTarget r' \<noteq> t" if "r' \<in> rule_set e" for r' using rule_set_lookup [OF assms, of r'] that by simp
  show ?thesis
  proof (cases "Kind t = TargetIP")
    case False
    with None no show ?thesis by (auto simp: matchLocked_def governs_def covers_def)
  next
    case True
    obtain b n where b: "best_match (addr t) (rules e) (None, -1) = (b, n)" by force
    note s = best_match_spec [OF True b, folded rule_set_def]
    have nonneg: "rule_bits r' \<ge> 0" if "covers r' t" for r' using that by (simp add: covers_def rule_bits_def Prefix_Contains_def)
    have m: "matchLocked e t = (if n \<ge> 0 then b else None)" using None True b by (simp add: matchLocked_def)
    show ?thesis
    proof
      assume "matchLocked e t = Some r"
      with m s no show "governs e t r" by (auto simp: governs_def split: if_splits)
    next
      assume g: "governs e t r"
      then have r: "r \<in> rule_set e" "covers r t" "\<forall>r' \<in> rule_set e. covers r' t \<longrightarrow> rule_bits r' \<le> rule_bits r"
        using no by (auto simp: governs_def)
      with s nonneg obtain r0 where r0: "r0 \<in> rule_set e" "covers r0 t" "b = Some r0" "n = rule_bits r0" by fastforce
      moreover from r r0 s have "rule_bits r0 = rule_bits r" by force
      ultimately show "matchLocked e t = Some r" using m nonneg same_cover [OF assms(1) r0(1) r(1)] r(2) by auto
    qed
  qed
qed

section \<open>The operations on the rules\<close>

text \<open>The abstract state of the engine: the manual action of each target that has one.\<close>

definition policy :: "Engine \<Rightarrow> Target \<Rightarrow> Action option" where
  "policy e t = map_option RAction (map_of (rules e) (targetKey t))"

datatype engine_call = SetCall string Action gotime | DeleteCall string

fun engine_invoke :: "Engine \<Rightarrow> engine_call \<Rightarrow> Engine" where
  "engine_invoke e (SetCall v a now) = fst (SetRule e v a now)"
| "engine_invoke e (DeleteCall v) = fst (DeleteRule e v)"

fun policy_call :: "(Target \<Rightarrow> Action option) \<Rightarrow> engine_call \<Rightarrow> Target \<Rightarrow> Action option" where
  "policy_call p (SetCall v a now) =
     (case ParseTarget v of Ret t \<Rightarrow> if Action_effective a then p(t \<mapsto> a) else p | _ \<Rightarrow> p)"
| "policy_call p (DeleteCall v) = (case ParseTarget v of Ret t \<Rightarrow> p(t := None) | _ \<Rightarrow> p)"

text \<open>The invariant, with room for the identifiers of the calls to come.\<close>

definition engine_room :: "nat \<Rightarrow> Engine \<Rightarrow> bool" where
  "engine_room n e \<longleftrightarrow> engine_ok e \<and> unat (nextID e) \<le> n"

lemma ParseTarget_no_panic: "ParseTarget v \<noteq> Panic"
proof -
  have "check_labels ls \<noteq> Panic" for ls by (induction ls) auto
  then have "normalizeDomain d \<noteq> Panic" for d by (auto simp: normalizeDomain_def Let_def obind_Panic_iff)
  then show ?thesis
    by (auto simp: ParseTarget_def canonicalPrefix_def Let_def obind_Panic_iff split: option.splits)
qed

lemma Action_cases: "Action_valid a \<and> a \<noteq> ActionAuto \<longleftrightarrow> Action_effective a"
  by (auto simp: Action_valid_def Action_effective_def ActionTunnel_def ActionDirect_def ActionBlock_def ActionAuto_def)

lemma SetRule_rejected: "\<not> Action_effective a \<Longrightarrow> fst (SetRule e v a now) = e \<and> (\<forall>r. snd (SetRule e v a now) \<noteq> Ret r)"
  using Action_cases [of a] by (auto simp: SetRule_def)

lemma SetRule_malformed: "ParseTarget v = Err err \<Longrightarrow> fst (SetRule e v a now) = e \<and> (\<forall>r. snd (SetRule e v a now) \<noteq> Ret r)"
  by (auto simp: SetRule_def)

text \<open>The rule that a call stores.\<close>

definition stored_rule :: "Engine \<Rightarrow> Target \<Rightarrow> Action \<Rightarrow> gotime \<Rightarrow> Rule" where
  "stored_rule e t a now =
    (case map_of (rules e) (targetKey t) of
       Some old \<Rightarrow> if RAction old = a then old else old\<lparr>RAction := a, UpdatedAt := now\<rparr>
     | None \<Rightarrow> \<lparr> RuleID = nextID e + 1, RTarget = t, RAction = a, RSource = SourceManual, CreatedAt = now, UpdatedAt = now \<rparr>)"

lemma SetRule_eq:
  assumes "Action_effective a" "ParseTarget v = Ret t"
  shows "SetRule e v a now =
    ((if policy e t = Some a then e
      else e\<lparr>nextID := (if policy e t = None then nextID e + 1 else nextID e),
             rules := AList.update (targetKey t) (stored_rule e t a now) (rules e), generation := generation e + 1\<rparr>),
     Ret (stored_rule e t a now))"
  using assms Action_cases [of a]
  by (auto simp: SetRule_def stored_rule_def policy_def Let_def split: option.splits)

lemma DeleteRule_eq:
  assumes "ParseTarget v = Ret t"
  shows "fst (DeleteRule e v) =
    (if policy e t = None then e
     else e\<lparr>rules := AList.delete (targetKey t) (rules e), generation := generation e + 1\<rparr>)"
  using assms by (simp add: DeleteRule_def policy_def Let_def)

lemma DeleteRule_malformed: "ParseTarget v = Err err \<Longrightarrow> DeleteRule e v = (e, Err err)"
  by (simp add: DeleteRule_def)

lemma set_update_distinct:
  "distinct (map fst xs) \<Longrightarrow> set (AList.update k v xs) = insert (k, v) {(k', v') \<in> set xs. k' \<noteq> k}"
  by (induction xs) (auto simp: image_iff)

lemma distinct_update_ids:
  assumes "distinct (map fst xs)" "distinct (map (f \<circ> snd) xs)"
    "\<And>k' v'. (k', v') \<in> set xs \<Longrightarrow> k' \<noteq> k \<Longrightarrow> f v' \<noteq> f v"
  shows "distinct (map (f \<circ> snd) (AList.update k v xs))"
  using assms
proof (induction xs)
  case (Cons p xs)
  obtain k1 v1 where p: "p = (k1, v1)" by (cases p)
  show ?case
  proof (cases "k1 = k")
    case True
    with Cons.prems p have "k' \<noteq> k" if "(k', v') \<in> set xs" for k' v' using that by (force simp: image_iff)
    with Cons.prems p True show ?thesis by (force simp: image_iff)
  next
    case False
    have d: "distinct (map (f \<circ> snd) (AList.update k v xs))" using Cons.prems by (intro Cons.IH) auto
    have "f v1 \<noteq> f v" using Cons.prems(3) [of k1 v1] p False by simp
    with Cons.prems(1,2) p have "f v1 \<notin> (f \<circ> snd) ` set (AList.update k v xs)"
      by (subst set_update_distinct) (auto simp: image_iff)
    with d p False show ?thesis by (simp add: comp_def)
  qed
qed simp

lemma engine_ok_rules: "engine_ok e \<Longrightarrow> distinct (map fst (rules e))"
  by (simp add: engine_ok_def)

lemma rule_set_update:
  assumes "engine_ok e" "canonical t"
  shows "snd ` set (AList.update (targetKey t) r (rules e)) = insert r {r' \<in> rule_set e. RTarget r' \<noteq> t}"
proof -
  have "(k', r') \<in> set (rules e) \<Longrightarrow> k' \<noteq> targetKey t \<longleftrightarrow> RTarget r' \<noteq> t" for k' r'
    using engine_okD [OF assms(1)] targetKey_inj assms(2) by metis
  then show ?thesis unfolding set_update_distinct [OF engine_ok_rules [OF assms(1)]]
    by (force simp: rule_set_def)
qed

lemma rule_set_delete:
  assumes "engine_ok e" "canonical t"
  shows "snd ` set (AList.delete (targetKey t) (rules e)) = {r' \<in> rule_set e. RTarget r' \<noteq> t}"
proof -
  have "(k', r') \<in> set (rules e) \<Longrightarrow> k' \<noteq> targetKey t \<longleftrightarrow> RTarget r' \<noteq> t" for k' r'
    using engine_okD [OF assms(1)] targetKey_inj assms(2) by metis
  then show ?thesis by (force simp: rule_set_def AList.delete_eq)
qed

lemma stored_rule_props:
  assumes "engine_ok e" "canonical t" "Action_effective a"
  shows "RTarget (stored_rule e t a now) = t" "RAction (stored_rule e t a now) = a" "RSource (stored_rule e t a now) = SourceManual"
    "policy e t = None \<Longrightarrow> RuleID (stored_rule e t a now) = nextID e + 1"
    "r \<in> rule_set e \<Longrightarrow> RTarget r = t \<Longrightarrow> RuleID (stored_rule e t a now) = RuleID r"
proof -
  have old: "RTarget old = t \<and> RSource old = SourceManual" if "map_of (rules e) (targetKey t) = Some old" for old
    using rule_set_lookup [OF assms(1,2), of old] engine_okD(4) [OF assms(1) map_of_SomeD] that by blast
  show "RTarget (stored_rule e t a now) = t" "RAction (stored_rule e t a now) = a" "RSource (stored_rule e t a now) = SourceManual"
    by (cases "map_of (rules e) (targetKey t)"; use old in \<open>simp add: stored_rule_def\<close>)+
  show "policy e t = None \<Longrightarrow> RuleID (stored_rule e t a now) = nextID e + 1"
    by (auto simp: policy_def stored_rule_def)
  show "r \<in> rule_set e \<Longrightarrow> RTarget r = t \<Longrightarrow> RuleID (stored_rule e t a now) = RuleID r"
    using rule_set_lookup [OF assms(1,2), of r] by (simp add: stored_rule_def)
qed

lemma policy_None_iff: "engine_ok e \<Longrightarrow> canonical t \<Longrightarrow> policy e t = None \<longleftrightarrow> (\<forall>r \<in> rule_set e. RTarget r \<noteq> t)"
  using rule_set_lookup [of e t] by (cases "map_of (rules e) (targetKey t)") (auto simp: policy_def)

lemma ids_differ:
  assumes "engine_ok e" "r \<in> rule_set e" "r' \<in> rule_set e" "RuleID r = RuleID r'"
  shows "r = r'"
proof -
  have "inj_on (RuleID \<circ> snd) (set (rules e))" using assms(1) by (simp add: engine_ok_def distinct_map)
  with assms show ?thesis by (force simp: rule_set_def inj_on_def)
qed

lemma engine_ok_iff:
  "engine_ok e \<longleftrightarrow> distinct (map fst (rules e)) \<and> (\<forall>p \<in> set (rules e). rule_ok e p) \<and>
     distinct (map (RuleID \<circ> snd) (rules e)) \<and> Action_effective (defaultAction e)"
  by (simp add: engine_ok_def list_all_iff)

lemma unat_next: "unat (nextID e) \<le> n \<Longrightarrow> n < 2 ^ 64 - 1 \<Longrightarrow> unat (nextID e + 1) = unat (nextID e) + 1"
  by (simp add: unat_word_ariths)

lemma SetRule_room:
  assumes "engine_room n e" "n < 2 ^ 64 - 1" "Action_effective a" "ParseTarget v = Ret t"
  shows "engine_room (Suc n) (fst (SetRule e v a now))"
proof (cases "policy e t = Some a")
  case True
  with assms show ?thesis by (simp add: SetRule_eq engine_room_def)
next
  case False
  define r where "r = stored_rule e t a now"
  define e' where "e' = fst (SetRule e v a now)"
  have ok: "engine_ok e" and n: "unat (nextID e) \<le> n" using assms(1) by (auto simp: engine_room_def)
  have c: "canonical t" using ParseTarget_canonical assms(4) .
  note p = stored_rule_props [OF ok c assms(3), where now = now, folded r_def]
  have e': "rules e' = AList.update (targetKey t) r (rules e)" "defaultAction e' = defaultAction e"
    "nextID e' = (if policy e t = None then nextID e + 1 else nextID e)"
    using False assms(3,4) by (simp_all add: e'_def SetRule_eq r_def)
  have next': "unat (nextID e) \<le> unat (nextID e')" "unat (nextID e') \<le> Suc n"
    using e'(3) n unat_next [OF n assms(2)] by auto
  have old: "rule_ok e' (k, r')" if "(k, r') \<in> set (rules e)" for k r'
    using ok that next'(1) by (force simp: engine_ok_iff rule_ok_def)
  have "rule_ok e' (targetKey t, r)"
  proof (cases "policy e t = None")
    case True
    with p c assms(3) e'(3) unat_next [OF n assms(2)] show ?thesis by (simp add: rule_ok_def)
  next
    case False
    then obtain r0 where r0: "r0 \<in> rule_set e" "RTarget r0 = t" using policy_None_iff [OF ok c] by auto
    then have "rule_ok e' (targetKey t, r0)" using old rule_setD(1) [OF ok r0(1)] by (metis map_of_SomeD)
    with p(5) [OF r0] p(1-3) c assms(3) show ?thesis by (simp add: rule_ok_def)
  qed
  moreover have "distinct (map (RuleID \<circ> snd) (rules e'))"
    unfolding e' 
  proof (rule distinct_update_ids)
    fix k' r' assume r': "(k', r') \<in> set (rules e)" "k' \<noteq> targetKey t"
    then have s: "r' \<in> rule_set e" "RTarget r' \<noteq> t" using engine_okD(1) [OF ok r'(1)] by (force simp: rule_set_def)+
    show "RuleID r' \<noteq> RuleID r"
    proof (cases "policy e t = None")
      case True
      have "unat (RuleID r') \<le> unat (nextID e)" using ok r'(1) by (auto simp: engine_ok_iff rule_ok_def)
      with True p(4) unat_next [OF n assms(2)] show ?thesis by auto
    next
      case False
      then obtain r0 where r0: "r0 \<in> rule_set e" "RTarget r0 = t" using policy_None_iff [OF ok c] by auto
      with p(5) [OF r0] ids_differ [OF ok s(1) r0(1)] s(2) show ?thesis by auto
    qed
  qed (use ok in \<open>simp_all add: engine_ok_def\<close>)
  ultimately have "engine_ok e'" using ok e'(1,2) old
    by (auto simp: engine_ok_iff set_update_distinct [OF engine_ok_rules] distinct_update)
  with next' show ?thesis by (simp add: engine_room_def e'_def)
qed

lemma DeleteRule_room:
  assumes "engine_room n e"
  shows "engine_room n (fst (DeleteRule e v))"
proof (cases "ParseTarget v")
  case (Ret t)
  have "distinct (map (RuleID \<circ> snd) (filter P (rules e)))" for P
    using assms by (simp add: engine_room_def engine_ok_def distinct_map_filter)
  with Ret assms show ?thesis
    by (auto simp: DeleteRule_eq engine_room_def engine_ok_iff rule_ok_def AList.delete_eq distinct_map_filter)
qed (use assms ParseTarget_no_panic DeleteRule_malformed in auto)

section \<open>The contract of a policy store\<close>

text \<open>
  What a client of the engine relies on: a call changes the manual action of its own target and
  of no other, and keeps the invariant. \<open>ok n\<close> says that at most \<open>n\<close> identifiers are in use.
\<close>

locale policy_store =
  fixes ok :: "nat \<Rightarrow> 'e \<Rightarrow> bool"
    and view :: "'e \<Rightarrow> Target \<Rightarrow> Action option"
    and invoke :: "'e \<Rightarrow> engine_call \<Rightarrow> 'e"
  assumes ok_mono: "ok n e \<Longrightarrow> n \<le> m \<Longrightarrow> ok m e"
    and invoke_ok: "ok n e \<Longrightarrow> n < 2 ^ 64 - 1 \<Longrightarrow> ok (Suc n) (invoke e c)"
    and invoke_view: "ok n e \<Longrightarrow> n < 2 ^ 64 - 1 \<Longrightarrow> view (invoke e c) = policy_call (view e) c"
begin

lemma run_ok: "ok n e \<Longrightarrow> n + length cs < 2 ^ 64 \<Longrightarrow> ok (n + length cs) (foldl invoke e cs)"
proof (induction cs rule: rev_induct)
  case (snoc c cs)
  then show ?case using invoke_ok [of "n + length cs"] by simp
qed simp

lemma run_view:
  "ok n e \<Longrightarrow> n + length cs < 2 ^ 64 \<Longrightarrow> view (foldl invoke e cs) = foldl policy_call (view e) cs"
proof (induction cs rule: rev_induct)
  case (snoc c cs)
  then show ?case using invoke_view [of "n + length cs"] run_ok [of n e cs] by simp
qed simp

text \<open>A deletion undoes everything done to its target, and nothing else.\<close>

lemma delete_view:
  assumes "ok n e" "n + length cs < 2 ^ 64 - 1" "ParseTarget v = Ret t"
  shows "view (foldl invoke e (cs @ [DeleteCall v])) = (view (foldl invoke e cs))(t := None)"
  using invoke_view [OF run_ok, of n e cs "DeleteCall v"] assms by simp

end

text \<open>Targets with the key of a canonical one that are not it are not the program's; the abstract state
  ignores them.\<close>

definition manual :: "Engine \<Rightarrow> Target \<Rightarrow> Action option" where
  "manual e t = (if canonical t then policy e t else None)"

lemma manual_SetRule:
  assumes "engine_ok e" "Action_effective a" "ParseTarget v = Ret t"
  shows "manual (fst (SetRule e v a now)) = (manual e)(t \<mapsto> a)"
proof
  fix u
  have c: "canonical t" using ParseTarget_canonical assms(3) .
  note p = stored_rule_props(2) [OF assms(1) c assms(2)]
  show "manual (fst (SetRule e v a now)) u = ((manual e)(t \<mapsto> a)) u"
  proof (cases "canonical u \<and> policy e t \<noteq> Some a")
    case True
    then have "targetKey u = targetKey t \<longleftrightarrow> u = t" using targetKey_inj c by auto
    with True p show ?thesis by (simp add: manual_def SetRule_eq [OF assms(2,3)] policy_def update_conv')
  next
    case False
    with c show ?thesis by (auto simp: manual_def SetRule_eq [OF assms(2,3)])
  qed
qed

lemma manual_DeleteRule:
  assumes "engine_ok e" "ParseTarget v = Ret t"
  shows "manual (fst (DeleteRule e v)) = (manual e)(t := None)"
proof
  fix u
  have c: "canonical t" using ParseTarget_canonical assms(2) .
  have "canonical u \<Longrightarrow> targetKey u = targetKey t \<longleftrightarrow> u = t" using targetKey_inj c by auto
  with c show "manual (fst (DeleteRule e v)) u = ((manual e)(t := None)) u"
    by (auto simp: manual_def DeleteRule_eq [OF assms(2)] policy_def delete_conv')
qed

lemma engine_invoke_view:
  assumes "engine_room n e"
  shows "manual (engine_invoke e c) = policy_call (manual e) c"
proof (cases c)
  case (SetCall v a now)
  show ?thesis
  proof (cases "ParseTarget v")
    case (Ret t)
    with SetCall assms show ?thesis
      using manual_SetRule [of e a v t now] SetRule_rejected [of a e v now] by (simp add: engine_room_def)
  next
    case (Err err)
    with SetCall SetRule_malformed [OF Err] show ?thesis by simp
  qed (use ParseTarget_no_panic in simp)
next
  case (DeleteCall v)
  show ?thesis
  proof (cases "ParseTarget v")
    case (Ret t)
    with DeleteCall assms show ?thesis by (simp add: manual_DeleteRule engine_room_def)
  next
    case (Err err)
    with DeleteCall DeleteRule_malformed [OF Err] show ?thesis by simp
  qed (use ParseTarget_no_panic in simp)
qed

lemma engine_invoke_room:
  assumes "engine_room n e" "n < 2 ^ 64 - 1"
  shows "engine_room (Suc n) (engine_invoke e c)"
proof -
  have mono: "engine_room n e' \<Longrightarrow> engine_room (Suc n) e'" for e' by (simp add: engine_room_def)
  show ?thesis
  proof (cases c)
    case (SetCall v a now)
    show ?thesis
    proof (cases "Action_effective a \<and> (\<exists>t. ParseTarget v = Ret t)")
      case True
      with SetCall assms SetRule_room show ?thesis by auto
    next
      case False
      then have "fst (SetRule e v a now) = e"
        using SetRule_rejected SetRule_malformed ParseTarget_no_panic by (cases "ParseTarget v") auto
      with SetCall mono assms show ?thesis by simp
    qed
  next
    case (DeleteCall v)
    then show ?thesis using DeleteRule_room [OF assms(1)] mono by simp
  qed
qed

interpretation engine: policy_store engine_room manual engine_invoke
  by unfold_locales (simp add: engine_room_def, simp add: engine_invoke_room, simp add: engine_invoke_view)

section \<open>What a client sees of the rules\<close>

lemma rule_set_SetRule:
  assumes "engine_ok e" "Action_effective a" "ParseTarget v = Ret t"
  shows "rule_set (fst (SetRule e v a now)) = insert (stored_rule e t a now) {r \<in> rule_set e. RTarget r \<noteq> t}"
proof (cases "policy e t = Some a")
  case False
  with rule_set_update [OF assms(1) ParseTarget_canonical [OF assms(3)]] show ?thesis
    by (simp add: SetRule_eq [OF assms(2,3)] rule_set_def)
next
  case True
  then obtain old where old: "map_of (rules e) (targetKey t) = Some old" "RAction old = a" by (auto simp: policy_def)
  then have s: "stored_rule e t a now = old" by (simp add: stored_rule_def)
  have old_in: "old \<in> rule_set e"
    using rule_set_lookup [OF assms(1) ParseTarget_canonical [OF assms(3)], of old] old by blast
  have uniq: "r = old" if "RTarget r = t" "r \<in> rule_set e" for r
    using rule_set_lookup [OF assms(1) ParseTarget_canonical [OF assms(3)], of r] old that by simp
  have "fst (SetRule e v a now) = e" using True by (simp add: SetRule_eq [OF assms(2,3)])
  moreover have "rule_set e = insert old {r \<in> rule_set e. RTarget r \<noteq> t}"
  proof (rule set_eqI)
    fix r show "r \<in> rule_set e \<longleftrightarrow> r \<in> insert old {r \<in> rule_set e. RTarget r \<noteq> t}"
      using uniq [of r] old_in by (cases "RTarget r = t") auto
  qed
  ultimately show ?thesis using s by (simp only: )
qed

lemma rule_set_DeleteRule:
  assumes "engine_ok e" "ParseTarget v = Ret t"
  shows "rule_set (fst (DeleteRule e v)) = {r \<in> rule_set e. RTarget r \<noteq> t}"
proof (cases "policy e t = None")
  case True
  with policy_None_iff [OF assms(1) ParseTarget_canonical [OF assms(2)]] show ?thesis
    by (auto simp: DeleteRule_eq [OF assms(2)])
next
  case False
  then have "rules (fst (DeleteRule e v)) = AList.delete (targetKey t) (rules e)"
    unfolding DeleteRule_eq [OF assms(2)] by (simp only: if_False) simp
  with rule_set_delete [OF assms(1) ParseTarget_canonical [OF assms(2)]] show ?thesis
    by (simp add: rule_set_def)
qed

lemma set_List_rules: "set (List_rules e) = rule_set e"
  by (simp add: List_rules_def rule_set_def)

text \<open>The text of a parsed target is parsed to a target with the same text.\<close>

lemma value_stable:
  assumes "ParseTarget v = Ret t"
  shows "\<exists>u. ParseTarget (Value t) = Ret u \<and> Value u = Value t"
  using ParseTarget_canonical [OF assms]
proof (cases rule: canonical_cases)
  case 3
  with canonical_domain [OF ParseTarget_canonical [OF assms] 3] show ?thesis by (cases "ParseAddr (Value t)") auto
qed (use canonical_CIDR canonical_IP ParseTarget_canonical [OF assms] in blast)+

text \<open>A client that passes canonical text keeps every rule under a text that parses to its target.\<close>

definition stable :: "Engine \<Rightarrow> bool" where
  "stable e \<longleftrightarrow> (\<forall>r \<in> rule_set e. ParseTarget (Value (RTarget r)) = Ret (RTarget r))"

definition rule_values :: "Engine \<Rightarrow> string set" where
  "rule_values e = (\<lambda>r. Value (RTarget r)) ` rule_set e"

lemma stable_value:
  assumes "stable e" "r \<in> rule_set e" "ParseTarget v = Ret t" "Value t = v"
  shows "RTarget r = t \<longleftrightarrow> Value (RTarget r) = v"
proof
  assume "Value (RTarget r) = v"
  then have "ParseTarget v = Ret (RTarget r)" using assms(1,2) unfolding stable_def by metis
  with assms(3) show "RTarget r = t" by simp
qed (use assms(4) in simp)

lemma stable_SetRule:
  assumes "engine_ok e" "stable e" "Action_effective a" "ParseTarget v = Ret t" "Value t = v"
  shows "stable (fst (SetRule e v a now))" "rule_values (fst (SetRule e v a now)) = insert v (rule_values e)"
proof -
  have t: "RTarget (stored_rule e t a now) = t"
    using stored_rule_props(1) [OF assms(1) ParseTarget_canonical [OF assms(4)] assms(3)] .
  note rs = rule_set_SetRule [OF assms(1,3,4), of now]
  show "stable (fst (SetRule e v a now))" using assms(2,4,5) t unfolding stable_def rs by auto
  show "rule_values (fst (SetRule e v a now)) = insert v (rule_values e)"
    using stable_value [OF assms(2) _ assms(4,5)] t assms(5) unfolding rule_values_def rs by auto
qed

lemma stable_DeleteRule:
  assumes "engine_ok e" "stable e" "ParseTarget v = Ret t" "Value t = v"
  shows "stable (fst (DeleteRule e v))" "rule_values (fst (DeleteRule e v)) = rule_values e - {v}"
    "rule_set (fst (DeleteRule e v)) = {r \<in> rule_set e. Value (RTarget r) \<noteq> v}"
proof -
  note rs = rule_set_DeleteRule [OF assms(1,3)]
  show "stable (fst (DeleteRule e v))" using assms(2) unfolding stable_def rs by simp
  show eq: "rule_set (fst (DeleteRule e v)) = {r \<in> rule_set e. Value (RTarget r) \<noteq> v}"
    using stable_value [OF assms(2) _ assms(3,4)] unfolding rs by blast
  show "rule_values (fst (DeleteRule e v)) = rule_values e - {v}" unfolding rule_values_def eq by auto
qed

lemma DeleteRule_returns: "ParseTarget v = Ret t \<Longrightarrow> \<exists>d. snd (DeleteRule e v) = Ret d"
proof -
  assume a: "ParseTarget v = Ret t"
  obtain u where "ParseTarget (Value t) = Ret u" using value_stable [OF a] by blast
  then have "\<exists>d. Explain e' (Value t) = Ret d" for e'
    by (cases "matchLocked e' u") (auto simp: Explain_def split: prod.split)
  with a show ?thesis by (simp add: DeleteRule_def Let_def)
qed

section \<open>Properties\<close>

text \<open>C32. The text of a parsed target is canonical: parsing it again gives the same target, so rules can be
  stored, listed and deleted by their text. The one exception is a domain that spells an IPv4
  address (\<open>ParseTarget\<close> strips one trailing dot): its text is read back as that address.\<close>

theorem target_roundtrip:
  assumes "ParseTarget v = Ret t"
  shows "ParseTarget (Value t) = Ret t \<or>
    Kind t = TargetDomain \<and> (\<exists>a. ParseAddr (Value t) = Some a \<and>
      ParseTarget (Value t) = Ret \<lparr> Kind = TargetIP, Value = Value t, addr = a, prefix = zeroPrefix \<rparr>)"
  using ParseTarget_canonical [OF assms]
proof (cases rule: canonical_cases)
  case 3
  with canonical_domain [OF ParseTarget_canonical [OF assms] 3] show ?thesis by (cases "ParseAddr (Value t)") auto
qed (use canonical_CIDR canonical_IP ParseTarget_canonical [OF assms] in blast)+

definition sample_cidr :: Target where
  "sample_cidr = \<lparr> Kind = TargetCIDR, Value = ''10.1.0.0/16'', addr = NoAddr,
     prefix = \<lparr> Prefix_Addr = Addr4 [10, 1, 0, 0], Prefix_Bits = 16 \<rparr> \<rparr>"

lemma sample_cidr_parses: "ParseTarget '' 10.1.2.3/16 '' = Ret sample_cidr"
  by code_simp

theorem target_roundtrip_witness: "ParseTarget ''10.1.0.0/16'' = Ret sample_cidr"
  using target_roundtrip [OF sample_cidr_parses] by (simp add: sample_cidr_def kinds)

text \<open>The exception is real: the dotted text of an address is a domain, and reads back as an address.\<close>

lemma dotted_address_is_a_domain:
  "map_option Kind (case ParseTarget ''192.0.2.1.'' of Ret t \<Rightarrow> Some t | _ \<Rightarrow> None) = Some TargetDomain \<and>
   (case ParseTarget ''192.0.2.1.'' of Ret t \<Rightarrow> Value t = ''192.0.2.1'' | _ \<Rightarrow> False) \<and>
   map_option Kind (case ParseTarget ''192.0.2.1'' of Ret t \<Rightarrow> Some t | _ \<Rightarrow> None) = Some TargetIP"
  by code_simp

lemma explain_match:
  assumes "engine_ok e" "ParseTarget v = Ret t" "Explain e v = Ret d"
  shows "MatchedRule d = Some r \<longleftrightarrow> governs e t r"
  using assms(2,3) matchLocked_governs [OF assms(1) ParseTarget_canonical [OF assms(2)], of r]
  by (auto simp: Explain_def split: option.splits prod.splits)


definition sample_engine :: Engine where
  "sample_engine = foldl engine_invoke (NewEngine [])
     [SetCall ''10.0.0.0/8'' ''DIRECT'' 1, SetCall ''10.1.0.0/16'' ''BLOCK'' 2]"

lemma sample_engine_ok: "engine_ok sample_engine"
  by code_simp

definition sample_host :: Target where
  "sample_host = \<lparr> Kind = TargetIP, Value = ''10.1.2.3'', addr = Addr4 [10, 1, 2, 3], prefix = zeroPrefix \<rparr>"

lemma sample_host_parses: "ParseTarget ''10.1.2.3'' = Ret sample_host"
  by code_simp

lemma sample_match: "map_option RAction (matchLocked sample_engine sample_host) = Some ''BLOCK''"
  by code_simp


text \<open>The engine as its caller builds it.\<close>

definition engine_options :: "Option option list \<Rightarrow> bool" where
  "engine_options options \<longleftrightarrow>
    (\<forall>option \<in> set options. option = None \<or> (\<exists>d. option = Some (WithAutoDecider d)) \<or> (\<exists>a. option = Some (WithDefaultAction a)))"

lemma NewEngine_room:
  assumes "engine_options options"
  shows "engine_room 0 (NewEngine options) \<and> rules (NewEngine options) = []"
  using assms
proof (induction options rule: rev_induct)
  case Nil
  show ?case by (simp add: NewEngine_def engine_room_def engine_ok_def Action_effective_def)
next
  case (snoc option options)
  then have "engine_room 0 (NewEngine options) \<and> rules (NewEngine options) = []" by (simp add: engine_options_def)
  with snoc.prems show ?case
    by (auto simp: NewEngine_def engine_options_def WithAutoDecider_def WithDefaultAction_def engine_room_def engine_ok_def)
qed

text \<open>C31. The engine implements a map from targets to actions: after any calls, with any clock, the action of
  each target is that of the last successful call on it, and the invariant holds: one rule per
  target, canonical targets, concrete actions, distinct identifiers.\<close>

theorem engine_refines_policy:
  assumes "engine_options options" "length calls < 2 ^ 64"
  defines "e \<equiv> foldl engine_invoke (NewEngine options) calls"
  shows "engine_ok e \<and> manual e = foldl policy_call Map.empty calls"
proof -
  have "engine_room 0 (NewEngine options)" "manual (NewEngine options) = Map.empty"
    using NewEngine_room [OF assms(1)] by (auto simp: manual_def policy_def)
  then show ?thesis using engine.run_ok [of 0 _ calls] engine.run_view [of 0 _ calls] assms(2)
    by (simp add: e_def engine_room_def)
qed

theorem engine_refines_policy_witness:
  "let calls = [SetCall ''10.1.2.3'' ''DIRECT'' 1, SetCall '' 10.1.2.3'' ''BLOCK'' 2, SetCall ''a..b'' ''BLOCK'' 3];
       e = foldl engine_invoke (NewEngine [Some (WithAutoDecider None)]) calls in
   engine_ok e \<and> manual e sample_host = Some ''BLOCK'' \<and> policy e sample_host = Some ''BLOCK''"
proof -
  let ?calls = "[SetCall ''10.1.2.3'' ''DIRECT'' 1, SetCall '' 10.1.2.3'' ''BLOCK'' 2, SetCall ''a..b'' ''BLOCK'' 3]"
  let ?e = "foldl engine_invoke (NewEngine [Some (WithAutoDecider None)]) ?calls"
  have r: "engine_ok ?e \<and> manual ?e = foldl policy_call Map.empty ?calls"
    by (rule engine_refines_policy) (auto simp: engine_options_def)
  moreover have "policy ?e sample_host = Some ''BLOCK''" by code_simp
  moreover have "canonical sample_host" using ParseTarget_canonical sample_host_parses .
  ultimately show ?thesis unfolding Let_def manual_def by simp
qed

text \<open>The generation of the engine changes exactly when the manual rules do, by one, and a call that does not
  change them leaves the engine as it was.\<close>

theorem generation_tracks_rules:
  fixes call :: engine_call
  assumes "engine_ok e"
  defines "e' \<equiv> engine_invoke e call"
  shows "(if manual e' = manual e then e' = e else generation e' = generation e + 1)"
proof (cases "\<exists>v t. (\<exists>a now. call = SetCall v a now \<and> Action_effective a) \<and> ParseTarget v = Ret t \<or> call = DeleteCall v \<and> ParseTarget v = Ret t")
  case False
  then have "e' = e"
    using SetRule_rejected SetRule_malformed DeleteRule_malformed ParseTarget_no_panic unfolding e'_def
    by (cases call) (metis engine_invoke.simps fst_conv outcome.exhaust)+
  then show ?thesis by simp
next
  case True
  then obtain v t where t: "ParseTarget v = Ret t" "(\<exists>a now. call = SetCall v a now \<and> Action_effective a) \<or> call = DeleteCall v"
    by blast
  have c: "canonical t" using ParseTarget_canonical t(1) .
  from t(2) show ?thesis
  proof (elim disjE exE conjE)
    fix a now assume call: "call = SetCall v a now" and a: "Action_effective a"
    then have "manual e' = (manual e)(t \<mapsto> a)" by (simp add: e'_def manual_SetRule [OF assms(1) a t(1)])
    then have "manual e' t = Some a" by simp
    moreover have "manual e t = policy e t" using c by (simp add: manual_def)
    ultimately show ?thesis using call SetRule_eq [OF a t(1)]
      by (cases "policy e t = Some a") (auto simp: e'_def dest: fun_cong [of _ _ t])
  next
    assume call: "call = DeleteCall v"
    then have "manual e' = (manual e)(t := None)" by (simp add: e'_def manual_DeleteRule [OF assms(1) t(1)])
    then have "manual e' t = None" by simp
    moreover have "manual e t = policy e t" using c by (simp add: manual_def)
    ultimately show ?thesis using call DeleteRule_eq [OF t(1)]
      by (cases "policy e t = None") (auto simp: e'_def dest: fun_cong [of _ _ t])
  qed
qed

theorem generation_tracks_rules_witness:
  "generation (engine_invoke sample_engine (DeleteCall ''10.1.0.0/16'')) = 3 \<and>
   engine_invoke sample_engine (DeleteCall ''192.0.2.0/24'') = sample_engine"
proof -
  have "policy sample_engine sample_cidr = Some ''BLOCK''" by code_simp
  moreover have "ParseTarget ''10.1.0.0/16'' = Ret sample_cidr" by code_simp
  ultimately have "manual (engine_invoke sample_engine (DeleteCall ''10.1.0.0/16'')) \<noteq> manual sample_engine"
    using manual_DeleteRule [OF sample_engine_ok] ParseTarget_canonical by (auto simp: manual_def dest: fun_cong [of _ _ sample_cidr])
  then have a: "generation (engine_invoke sample_engine (DeleteCall ''10.1.0.0/16'')) = generation sample_engine + 1"
    using generation_tracks_rules [OF sample_engine_ok, of "DeleteCall ''10.1.0.0/16''"] by simp
  have "generation sample_engine = 2" by code_simp
  moreover have "rules (engine_invoke sample_engine (DeleteCall ''192.0.2.0/24'')) = rules sample_engine" by code_simp
  then have "manual (engine_invoke sample_engine (DeleteCall ''192.0.2.0/24'')) = manual sample_engine"
    by (auto simp: manual_def policy_def)
  ultimately show ?thesis using a generation_tracks_rules [OF sample_engine_ok, of "DeleteCall ''192.0.2.0/24''"] by simp
qed

end
