(* ===== verification/Control_API.thy ===== *)
theory Control_API
  imports Go_Strings Routing
begin

text \<open>
  \<^verbatim>\<open>internal/controlapi/types.go\<close> and the errors of \<^verbatim>\<open>server.go\<close>: the requests and responses of the
  local control interface, as records whose fields carry a prefix of their record's name, and
  the classes of errors with the HTTP status each becomes. An optional pointer is an option. The
  hit rate, a floating-point quotient, is the pair of its numerator and denominator.
\<close>

definition API_Version :: string where "API_Version = ''v1''"

record Versions =
  Bundle :: string
  UI :: string
  Core :: string
  Scripts :: string

record ConnectionStatus =
  cs_State :: string
  cs_Endpoint :: string
  cs_ConnectedAt :: "gotime option"
  cs_UptimeSeconds :: int
  cs_UploadBytes :: uint64
  cs_DownloadBytes :: uint64
  cs_LastError :: string

record RoutingSummary =
  rs_Mode :: string
  rs_Generation :: uint64
  rs_ManualRuleCount :: nat
  rs_RecentAutoCount :: nat
  rs_DefaultUnmatched :: string

record DNSUpstream =
  du_Address :: string
  du_Interface :: string
  du_Scope :: string

record DNSStatus =
  ds_State :: string
  ds_SystemDNSUnchanged :: bool
  ds_Generation :: uint64
  ds_SnapshotID :: string
  ds_Source :: string
  ds_GeneratedAt :: gotime
  ds_LastSyncedAt :: gotime
  ds_Upstreams :: "DNSUpstream list"
  ds_InterfaceScopes :: nat
  ds_CacheEntries :: int
  ds_CacheHits :: uint64
  ds_CacheMisses :: uint64
  ds_CacheHitRate :: "uint64 \<times> uint64"
  ds_MinTTLSeconds :: int
  ds_DegradedReasons :: "string list"

record StatusResponse =
  sr_APIVersion :: string
  sr_Revision :: uint64
  sr_Mode :: string
  sr_BackendAvailable :: bool
  sr_Connection :: ConnectionStatus
  sr_Routing :: RoutingSummary
  sr_DNS :: DNSStatus
  sr_Versions :: Versions

record OperationRequest =
  or_OperationID :: string

record OperationResponse =
  op_OperationID :: string
  op_Accepted :: bool
  op_State :: string
  op_Revision :: uint64
  op_Message :: string

record APIRule =
  ar_ID :: string
  ar_Target :: string
  ar_TargetType :: string
  ar_Result :: string
  ar_Source :: string
  ar_Reason :: string
  ar_ExpiresAt :: "gotime option"
  ar_Note :: string
  ar_Revision :: uint64
  ar_CreatedAt :: gotime

record RuleFilter =
  rf_Query :: string
  rf_Result :: string
  rf_Source :: string
  rf_TargetType :: string
  rf_Limit :: int

record RuleListResponse =
  rl_Rules :: "APIRule list"
  rl_Generation :: uint64
  rl_Total :: nat

record SetRuleRequest =
  st_OperationID :: string
  st_ID :: string
  st_Target :: string
  st_TargetType :: string
  st_Result :: string
  st_ExpiresAt :: "gotime option"
  st_Note :: string
  st_ExpectedRevision :: "uint64 option"

record DeleteRuleRequest =
  dr_OperationID :: string
  dr_Target :: string
  dr_ExpectedRevision :: "uint64 option"

record RuleMutationResponse =
  rm_OperationID :: string
  rm_Rule :: APIRule
  rm_Generation :: uint64
  rm_State :: string

record RuleExplanation =
  rx_Target :: string
  rx_FinalResult :: string
  rx_ManagedState :: string
  rx_PrimarySource :: string
  rx_Reason :: string
  rx_Sources :: "string list"
  rx_Generation :: uint64

record DiagnosticCheck =
  dc_Name :: string
  dc_State :: string
  dc_Summary :: string

record DiagnosticReport =
  dg_GeneratedAt :: gotime
  dg_Redacted :: bool
  dg_Overall :: string
  dg_Checks :: "DiagnosticCheck list"
  dg_Summary :: string

record UpdateStatus =
  us_State :: string
  us_CurrentVersion :: string
  us_AvailableVersion :: string
  us_Compatible :: bool
  us_ManifestVerified :: bool
  us_CheckedAt :: gotime
  us_Message :: string

record PairingValidationRequest =
  pq_ServerIP :: string
  pq_FileName :: string
  pq_Fingerprint :: string

record PairingValidation =
  pv_Valid :: bool
  pv_ValidationID :: string
  pv_ServerIP :: string
  pv_Port :: int
  pv_FileName :: string
  pv_Fingerprint :: string
  pv_ExpiresAt :: gotime
  pv_Message :: string

record EnrollRequest =
  en_OperationID :: string
  en_ValidationID :: string
  en_ServerIP :: string
  en_FileName :: string
  en_Fingerprint :: string
  en_FingerprintConfirmed :: bool
  en_AuthorizationConfirmed :: bool

record APIError =
  ae_Code :: string
  ae_Message :: string

text \<open>
  An error is one of the sentinels, wrapped with the text that follows it and, where the code
  prints the error of the routing engine into that text, with that error; or another error.
\<close>

datatype api_error =
  ErrInvalidInput string "routing_error option"
| ErrNotFound string
| ErrConflict string
| ErrUnsupported string
| RoutingError routing_error
| OtherError string

type_synonym 'a api_result = "(api_error, 'a) outcome"

text \<open>\<^verbatim>\<open>statusFor\<close>: the status and the code of an error.\<close>

fun statusFor :: "api_error \<Rightarrow> nat \<times> string" where
  "statusFor (ErrInvalidInput m c) = (400, ''invalid_input'')"
| "statusFor (ErrNotFound m) = (404, ''not_found'')"
| "statusFor (ErrConflict m) = (409, ''conflict'')"
| "statusFor (ErrUnsupported m) = (501, ''unsupported'')"
| "statusFor (RoutingError e) = (500, ''internal_error'')"
| "statusFor (OtherError m) = (500, ''internal_error'')"

end
