(* ===== verification/App_Service.thy ===== *)
theory App_Service
  imports Control_API Private_DNS
begin

text \<open>
  \<^verbatim>\<open>internal/app/service.go\<close>: the service behind the control interface. Its state is the record
  \<open>Service\<close>; the maps are association lists, in the order a \<^verbatim>\<open>range\<close> loop happens to visit them.
  The readings of the clock, the random bytes and what the resolver source returns are arguments.
  A method whose critical sections are separate is composed of one definition per section, so
  that interleavings of concurrent calls are sequences of sections. Text is ASCII.
\<close>

section \<open>State\<close>

definition demoFingerprint :: string where
  "demoFingerprint = ''wgs-q4zm-7n2k-p6tx-b5rv-j8cd-f3wa-h9yu-m2es''"

record Config =
  cfg_Mode :: string
  cfg_Endpoint :: string
  cfg_Versions :: Versions
  cfg_DNSSource :: bool
  cfg_InitialDNS :: Snapshot

record ruleMetadata =
  meta_note :: string
  meta_expiresAt :: "gotime option"
  meta_revision :: uint64

definition zeroMetadata :: ruleMetadata where
  "zeroMetadata = \<lparr> meta_note = [], meta_expiresAt = None, meta_revision = 0 \<rparr>"

record pairingValidationState =
  val_serverIP :: string
  val_fileName :: string
  val_fingerprint :: string
  val_expiresAt :: gotime

record Service =
  mode :: string
  endpoint :: string
  versions :: Versions
  revision :: uint64
  state :: string
  connected :: "gotime option"
  upload :: uint64
  download :: uint64
  sv_lastError :: string
  routes :: Engine
  dns :: Manager
  dnsSource :: bool
  ruleMeta :: "(string \<times> ruleMetadata) list"
  recentAuto :: "APIRule list"
  operations :: "(string \<times> OperationResponse) list"
  ruleOps :: "(string \<times> RuleMutationResponse) list"
  pairingValidations :: "(string \<times> pairingValidationState) list"

definition autoDecision :: AutoDecider where
  "autoDecision target =
    (if Kind target = TargetDomain \<and> (strings_HasSuffix (Value target) ''.cn'' \<or> Value target = ''cn'')
     then (ActionDirect, ''signed regional classifier selected DIRECT'')
     else if Kind target = TargetIP \<and>
        (case ParseAddr (Value target) of
           None \<Rightarrow> False
         | Some address \<Rightarrow> IsPrivate address \<or> IsLoopback address \<or> IsLinkLocalUnicast address)
     then (ActionDirect, ''local and protected address classifier selected DIRECT'')
     else (ActionTunnel, ''unclassified target uses the fail-closed TUNNEL default''))"

text \<open>The loop of \<^verbatim>\<open>seedRecentAuto\<close>, from index \<open>i\<close> on.\<close>

fun seed_rows :: "Engine \<Rightarrow> gotime \<Rightarrow> nat \<Rightarrow> string list \<Rightarrow> APIRule list" where
  "seed_rows e now i [] = []"
| "seed_rows e now i (target # rest) =
    (case Explain e target of
       Ret d \<Rightarrow>
         \<lparr> ar_ID = ''auto-'' @ show_nat (i + 1), ar_Target = Value (DTarget d), ar_TargetType = Kind (DTarget d),
           ar_Result = EffectiveAction d, ar_Source = ''AUTOMATIC'', ar_Reason = Reason d, ar_ExpiresAt = None,
           ar_Note = [], ar_Revision = DGeneration d, ar_CreatedAt = now \<rparr> # seed_rows e now (i + 1) rest
     | _ \<Rightarrow> seed_rows e now (i + 1) rest)"

definition seedRecentAuto :: "Service \<Rightarrow> gotime \<Rightarrow> Service" where
  "seedRecentAuto s now =
    s\<lparr>recentAuto := recentAuto s @ seed_rows (routes s) now 0 [''docs.example.cn'', ''github.com'', ''192.168.50.20'']\<rparr>"

definition NewService :: "Config \<Rightarrow> gotime \<Rightarrow> gotime \<Rightarrow> Service" where
  "NewService config dnsNow now =
    (let m = strings_ToLower (strings_TrimSpace (cfg_Mode config));
         m' = (if m \<noteq> ''server'' then ''client'' else m);
         v = (if Bundle (cfg_Versions config) = []
              then \<lparr> Bundle = ''0.1.0-dev'', UI = ''0.1.0-dev'', Core = ''0.1.0-dev'', Scripts = ''0.1.0-dev'' \<rparr>
              else cfg_Versions config) in
     seedRecentAuto
       \<lparr> mode = m', endpoint = cfg_Endpoint config, versions = v, revision = 0, state = ''DISCONNECTED'',
         connected = None, upload = 0, download = 0, sv_lastError = [],
         routes = NewEngine [Some (WithAutoDecider (Some autoDecision))],
         dns = newManager (cfg_InitialDNS config) dnsNow, dnsSource = cfg_DNSSource config, ruleMeta = [],
         recentAuto = [], operations = [], ruleOps = [], pairingValidations = [] \<rparr> now)"

section \<open>Helpers\<close>

definition opid_char :: "char \<Rightarrow> bool" where
  "opid_char c \<longleftrightarrow> c = CHR ''-'' \<or> c = CHR ''_'' \<or> c = CHR ''.'' \<or> is_digit c \<or>
     65 \<le> (of_char c :: nat) \<and> (of_char c :: nat) \<le> 90 \<or> 97 \<le> (of_char c :: nat) \<and> (of_char c :: nat) \<le> 122"

definition validateOperationID :: "string \<Rightarrow> unit api_result" where
  "validateOperationID value0 =
    (let value = strings_TrimSpace value0 in
     if value = [] \<or> length value > 128
     then Err (ErrInvalidInput ''operation_id is required and must be at most 128 bytes'' None)
     else if \<exists>c \<in> set value. \<not> opid_char c
     then Err (ErrInvalidInput ''operation_id contains unsupported characters'' None)
     else Ret ())"

definition removeRecentAutoLocked :: "Service \<Rightarrow> string \<Rightarrow> Service" where
  "removeRecentAutoLocked s target = s\<lparr>recentAuto := filter (\<lambda>row. ar_Target row \<noteq> target) (recentAuto s)\<rparr>"

definition lookupMeta :: "Service \<Rightarrow> string \<Rightarrow> ruleMetadata" where
  "lookupMeta s target = (case map_of (ruleMeta s) target of Some m \<Rightarrow> m | None \<Rightarrow> zeroMetadata)"

definition ruleName :: "Rule \<Rightarrow> string" where
  "ruleName r = ''rule-'' @ show_nat (unat (RuleID r))"

definition apiRule :: "Rule \<Rightarrow> ruleMetadata \<Rightarrow> APIRule" where
  "apiRule rule meta =
    \<lparr> ar_ID = ruleName rule, ar_Target = Value (RTarget rule), ar_TargetType = Kind (RTarget rule),
      ar_Result = RAction rule, ar_Source = RSource rule, ar_Reason = ''manual override'',
      ar_ExpiresAt = meta_expiresAt meta, ar_Note = meta_note meta, ar_Revision = meta_revision meta,
      ar_CreatedAt = CreatedAt rule \<rparr>"

definition manualRules :: "Service \<Rightarrow> APIRule list" where
  "manualRules s = map (\<lambda>rule. apiRule rule (lookupMeta s (Value (RTarget rule)))) (List_rules (routes s))"

definition cloneRules :: "APIRule list \<Rightarrow> APIRule list" where
  "cloneRules rs = rs"

definition autoCount :: "Service \<Rightarrow> nat" where
  "autoCount s = length (recentAuto s)"

text \<open>One turn of the loop of \<^verbatim>\<open>pruneExpiredRules\<close>, and the loop over the entries as they were.\<close>

definition meta_expired :: "ruleMetadata \<Rightarrow> gotime \<Rightarrow> bool" where
  "meta_expired meta now = (case meta_expiresAt meta of None \<Rightarrow> False | Some expiry \<Rightarrow> \<not> expiry > now)"

definition pruneOne :: "gotime \<Rightarrow> Service \<Rightarrow> string \<times> ruleMetadata \<Rightarrow> Service" where
  "pruneOne now s entry =
    (case entry of (target, meta) \<Rightarrow>
       if \<not> meta_expired meta now then s
       else
         let (e', result) = DeleteRule (routes s) target;
             s1 = s\<lparr>routes := e'\<rparr>;
             s2 = (case result of Ret d \<Rightarrow> s1\<lparr>revision := revision s1 + 1\<rparr> | _ \<Rightarrow> s1);
             s3 = s2\<lparr>ruleMeta := AList.delete target (ruleMeta s2)\<rparr>
         in removeRecentAutoLocked s3 target)"

definition pruneExpiredRules :: "Service \<Rightarrow> gotime \<Rightarrow> Service" where
  "pruneExpiredRules s now = foldl (pruneOne now) s (ruleMeta s)"

definition uniqueInterfaceCount :: "Upstream list \<Rightarrow> nat" where
  "uniqueInterfaceCount upstreams =
    length (remdups (map (\<lambda>u. InterfaceName u @ [CHR 0x00] @ Scope u) upstreams))"

definition upstream_row :: "Upstream \<Rightarrow> DNSUpstream" where
  "upstream_row u =
    \<lparr> du_Address = (if Port u \<noteq> 0 \<and> Port u \<noteq> 53 then Address u @ '':'' @ show_nat (unat (Port u)) else Address u),
      du_Interface = InterfaceName u, du_Scope = Scope u \<rparr>"

text \<open>\<^verbatim>\<open>%06d\<close>.\<close>

definition pad6 :: "nat \<Rightarrow> string" where
  "pad6 n = replicate (6 - length (show_nat n)) (CHR ''0'') @ show_nat n"

definition dnsResponse :: "Service \<Rightarrow> DNSStatus" where
  "dnsResponse s =
    (let status = Manager_Status (dns s); snap = Manager_Snapshot (dns s);
         total = Hits (Cache status) + Misses (Cache status);
         source = (case map_of (Metadata snap) ''source'' of Some v \<Rightarrow> v | None \<Rightarrow> []) in
     \<lparr> ds_State = (if Degraded status then ''DEGRADED'' else ''HEALTHY''), ds_SystemDNSUnchanged = True,
       ds_Generation = SGeneration status, ds_SnapshotID = ''dns-'' @ pad6 (unat (SGeneration status)),
       ds_Source = (if source = [] then ''read-only development snapshot'' else source),
       ds_GeneratedAt = CapturedAt snap, ds_LastSyncedAt = RefreshedAt status,
       ds_Upstreams = map upstream_row (Upstreams snap), ds_InterfaceScopes = uniqueInterfaceCount (Upstreams snap),
       ds_CacheEntries = sint (Entries (Cache status)), ds_CacheHits = Hits (Cache status),
       ds_CacheMisses = Misses (Cache status),
       ds_CacheHitRate = (if total > 0 then (Hits (Cache status), total) else (0, 1)), ds_MinTTLSeconds = 0,
       ds_DegradedReasons = (if Degraded status \<and> LastError status \<noteq> [] then [LastError status] else []) \<rparr>)"

section \<open>Status and connection\<close>

text \<open>The difference of two times saturates at the ends of a \<^verbatim>\<open>Duration\<close>.\<close>

definition time_Sub :: "gotime \<Rightarrow> gotime \<Rightarrow> duration" where
  "time_Sub t u = max (- (2 ^ 63)) (min (2 ^ 63 - 1) (t - u))"

definition Service_Status :: "Service \<Rightarrow> gotime \<Rightarrow> gotime \<Rightarrow> Service \<times> StatusResponse api_result" where
  "Service_Status s0 pruneNow now =
    (let s = pruneExpiredRules s0 pruneNow;
         uptime = (case connected s of
                     Some t \<Rightarrow> if state s = ''CONNECTED'' then max 0 (time_Sub now t div 1000000000) else 0
                   | None \<Rightarrow> 0);
         connection = \<lparr> cs_State = state s, cs_Endpoint = endpoint s, cs_ConnectedAt = connected s,
                        cs_UptimeSeconds = uptime, cs_UploadBytes = upload s, cs_DownloadBytes = download s,
                        cs_LastError = sv_lastError s \<rparr> in
     (s, Ret \<lparr> sr_APIVersion = API_Version, sr_Revision = revision s, sr_Mode = mode s, sr_BackendAvailable = True,
               sr_Connection = connection,
               sr_Routing = \<lparr> rs_Mode = ''AUTO'', rs_Generation = Engine_Generation (routes s),
                              rs_ManualRuleCount = length (List_rules (routes s)), rs_RecentAutoCount = autoCount s,
                              rs_DefaultUnmatched = ''TUNNEL'' \<rparr>,
               sr_DNS = dnsResponse s, sr_Versions = versions s \<rparr>))"

text \<open>The \<^verbatim>\<open>switch\<close> on the action.\<close>

definition connection_switch :: "Service \<Rightarrow> string \<Rightarrow> gotime \<Rightarrow> Service api_result" where
  "connection_switch s action now =
    (if action = ''connect'' then
       if endpoint s = [] then Err (ErrInvalidInput ''server endpoint is not configured'' None)
       else Ret (if state s \<noteq> ''CONNECTED''
                 then s\<lparr>state := ''CONNECTED'', connected := Some now, upload := 0, download := 0\<rparr> else s)
     else if action = ''disconnect'' then Ret (s\<lparr>state := ''DISCONNECTED'', connected := None\<rparr>)
     else if action = ''reconnect'' then
       if endpoint s = [] then Err (ErrInvalidInput ''server endpoint is not configured'' None)
       else Ret (s\<lparr>state := ''CONNECTED'', connected := Some now\<rparr>)
     else Err (ErrInvalidInput ''unknown connection action'' None))"

definition ConnectionAction :: "Service \<Rightarrow> string \<Rightarrow> OperationRequest \<Rightarrow> gotime \<Rightarrow> Service \<times> OperationResponse api_result" where
  "ConnectionAction s action request now =
    (if mode s = ''server''
     then (s, Err (ErrUnsupported ''connection UI methods are unavailable in server mode''))
     else or_return (validateOperationID (or_OperationID request)) s (\<lambda>_.
       let key = ''connection:'' @ or_OperationID request in
       case map_of (operations s) key of
         Some completed \<Rightarrow> (s, Ret completed)
       | None \<Rightarrow>
           or_return (connection_switch s action now) s (\<lambda>s1.
           let s2 = s1\<lparr>revision := revision s1 + 1\<rparr>;
               response = \<lparr> op_OperationID = or_OperationID request, op_Accepted = True, op_State = state s2,
                            op_Revision = revision s2,
                            op_Message = ''development simulator updated; no host network state was changed'' \<rparr>
           in (s2\<lparr>operations := AList.update key response (operations s2)\<rparr>, Ret response))))"

section \<open>Rules\<close>

definition filter_row :: "RuleFilter \<Rightarrow> APIRule \<Rightarrow> bool" where
  "filter_row f rule \<longleftrightarrow>
    (let query = strings_ToLower (strings_TrimSpace (rf_Query f)) in
     \<not> (query \<noteq> [] \<and> \<not> strings_Contains (strings_ToLower (ar_Target rule)) query) \<and>
     \<not> (rf_Result f \<noteq> [] \<and> \<not> strings_EqualFold (rf_Result f) (ar_Result rule)) \<and>
     \<not> (rf_Source f \<noteq> [] \<and> \<not> strings_EqualFold (rf_Source f) (ar_Source rule)) \<and>
     \<not> (rf_TargetType f \<noteq> [] \<and> \<not> strings_EqualFold (rf_TargetType f) (ar_TargetType rule)))"

definition ListRules :: "Service \<Rightarrow> RuleFilter \<Rightarrow> gotime \<Rightarrow> Service \<times> RuleListResponse api_result" where
  "ListRules s0 f pruneNow =
    (let s = pruneExpiredRules s0 pruneNow;
         filtered = filter (filter_row f) (manualRules s @ cloneRules (recentAuto s));
         limit = (if rf_Limit f \<le> 0 \<or> rf_Limit f > 200 then 200 else rf_Limit f) in
     (s, Ret \<lparr> rl_Rules = (if int (length filtered) > limit then take (nat limit) filtered else filtered),
               rl_Generation = Engine_Generation (routes s), rl_Total = length filtered \<rparr>))"

definition find_rule :: "Service \<Rightarrow> string \<Rightarrow> Rule option" where
  "find_rule s name = find (\<lambda>candidate. ruleName candidate = name) (List_rules (routes s))"

text \<open>The critical section of \<^verbatim>\<open>SetRule\<close>, with the parsed action, target and expiry.\<close>

definition SetRule_locked ::
  "Service \<Rightarrow> SetRuleRequest \<Rightarrow> Action \<Rightarrow> Target \<Rightarrow> gotime option \<Rightarrow> gotime \<Rightarrow> Service \<times> RuleMutationResponse api_result" where
  "SetRule_locked s request action target expiresAt engineNow =
    (let key = ''rule-set:'' @ st_OperationID request in
     case map_of (ruleOps s) key of
       Some completed \<Rightarrow> (s, Ret completed)
     | None \<Rightarrow>
       let meta = lookupMeta s (Value target) in
       or_return
         (if st_ID request \<noteq> [] then
            case find_rule s (st_ID request) of
              None \<Rightarrow> Err (ErrNotFound ''rule to edit was not found'')
            | Some existing \<Rightarrow>
                if Value (RTarget existing) \<noteq> Value target
                then Err (ErrInvalidInput ''editing a rule cannot change its target; delete and create a new override'' None)
                else Ret ()
          else Ret ()) s (\<lambda>_.
       if st_ExpectedRevision request \<noteq> None \<and> st_ExpectedRevision request \<noteq> Some (meta_revision meta)
       then (s, Err (ErrConflict ''rule revision changed''))
       else
         let (e', result) = SetRule (routes s) (Value target) action engineNow; s1 = s\<lparr>routes := e'\<rparr> in
         or_return (omap_err (\<lambda>err. ErrInvalidInput [] (Some err)) result) s1 (\<lambda>rule.
         let s2 = s1\<lparr>revision := revision s1 + 1\<rparr>;
             meta' = \<lparr> meta_note = strings_TrimSpace (st_Note request), meta_expiresAt = expiresAt, meta_revision = revision s2 \<rparr>;
             s3 = s2\<lparr>ruleMeta := AList.update (Value target) meta' (ruleMeta s2)\<rparr>;
             s4 = removeRecentAutoLocked s3 (Value target);
             response = \<lparr> rm_OperationID = st_OperationID request, rm_Rule = apiRule rule meta',
                          rm_Generation = Engine_Generation (routes s4), rm_State = ''ACTIVE'' \<rparr>
         in (s4\<lparr>ruleOps := AList.update key response (ruleOps s4)\<rparr>, Ret response))))"

text \<open>The checks of the request before the critical section.\<close>

definition SetRule_checks :: "SetRuleRequest \<Rightarrow> gotime \<Rightarrow> (Action \<times> Target \<times> gotime option) api_result" where
  "SetRule_checks request now =
    obind (case ParseAction (st_Result request) of
             Ret action \<Rightarrow> if action = ActionAuto then Err (ErrInvalidInput ''result must be TUNNEL, DIRECT, or BLOCK'' None)
                           else Ret action
           | _ \<Rightarrow> Err (ErrInvalidInput ''result must be TUNNEL, DIRECT, or BLOCK'' None)) (\<lambda>action.
    obind (omap_err (\<lambda>err. ErrInvalidInput [] (Some err)) (ParseTarget (st_Target request))) (\<lambda>target.
    case st_ExpiresAt request of
      None \<Rightarrow> Ret (action, target, None)
    | Some expiry \<Rightarrow>
        if \<not> expiry > now then Err (ErrInvalidInput ''expires_at must be in the future'' None)
        else Ret (action, target, Some expiry)))"

definition Service_SetRule ::
  "Service \<Rightarrow> SetRuleRequest \<Rightarrow> gotime \<Rightarrow> gotime \<Rightarrow> gotime \<Rightarrow> Service \<times> RuleMutationResponse api_result" where
  "Service_SetRule s0 request pruneNow now engineNow =
    (if mode s0 = ''server''
     then (s0, Err (ErrUnsupported ''client routing methods are unavailable in server mode''))
     else or_return (validateOperationID (st_OperationID request)) s0 (\<lambda>_.
       let s = pruneExpiredRules s0 pruneNow in
       or_return (SetRule_checks request now) s (\<lambda>(action, target, expiresAt).
       SetRule_locked s request action target expiresAt engineNow)))"

text \<open>The first automatic row of a name, and the rows without it.\<close>

fun remove_row :: "string \<Rightarrow> APIRule list \<Rightarrow> (APIRule \<times> APIRule list) option" where
  "remove_row name [] = None"
| "remove_row name (row # rest) =
    (if ar_ID row = name then Some (row, rest)
     else map_option (\<lambda>(r, rs). (r, row # rs)) (remove_row name rest))"

text \<open>The name of what a request without an identifier means.\<close>

definition target_name :: "Service \<Rightarrow> string \<Rightarrow> string" where
  "target_name s value =
    (case find (\<lambda>candidate. Value (RTarget candidate) = value) (List_rules (routes s)) of
       Some candidate \<Rightarrow> ruleName candidate
     | None \<Rightarrow> (case find (\<lambda>row. ar_Target row = value) (recentAuto s) of Some row \<Rightarrow> ar_ID row | None \<Rightarrow> []))"

definition DeleteRule_locked ::
  "Service \<Rightarrow> string \<Rightarrow> DeleteRuleRequest \<Rightarrow> gotime \<Rightarrow> Service \<times> RuleMutationResponse api_result" where
  "DeleteRule_locked s id0 request now =
    (let key = ''rule-delete:'' @ dr_OperationID request in
     case map_of (ruleOps s) key of
       Some completed \<Rightarrow> (s, Ret completed)
     | None \<Rightarrow>
       or_return
         (if id0 = [] then
            obind (omap_err (\<lambda>err. ErrInvalidInput ''target is required for target-based deletion'' (Some err))
                     (ParseTarget (dr_Target request)))
              (\<lambda>parsedTarget. Ret (target_name s (Value parsedTarget)))
          else Ret id0) s (\<lambda>name.
       if strings_HasPrefix name ''auto-'' then
         (case remove_row name (recentAuto s) of
            None \<Rightarrow> (s, Err (ErrNotFound ''automatic decision not found''))
          | Some (row, rest) \<Rightarrow>
              let s1 = s\<lparr>recentAuto := rest, revision := revision s + 1\<rparr>;
                  row' = row\<lparr>ar_Result := ''AUTO'', ar_Source := ''AUTOMATIC'',
                             ar_Reason := ''automatic cache removed; the next flow will be classified again'',
                             ar_Revision := revision s1\<rparr>;
                  response = \<lparr> rm_OperationID = dr_OperationID request, rm_Rule = row',
                               rm_Generation = Engine_Generation (routes s1), rm_State = ''AUTO'' \<rparr>
              in (s1\<lparr>ruleOps := AList.update key response (ruleOps s1)\<rparr>, Ret response))
       else
         case find_rule s name of
           None \<Rightarrow> (s, Err (ErrNotFound ''rule not found''))
         | Some matched \<Rightarrow>
             let value = Value (RTarget matched); meta = lookupMeta s value in
             if dr_ExpectedRevision request \<noteq> None \<and> dr_ExpectedRevision request \<noteq> Some (meta_revision meta)
             then (s, Err (ErrConflict ''rule revision changed''))
             else
               let (e', result) = DeleteRule (routes s) value; s1 = s\<lparr>routes := e'\<rparr> in
               or_return (omap_err RoutingError result) s1 (\<lambda>decision.
               let s2 = removeRecentAutoLocked (s1\<lparr>ruleMeta := AList.delete value (ruleMeta s1)\<rparr>) value;
                   s3 = s2\<lparr>revision := revision s2 + 1\<rparr>;
                   row = \<lparr> ar_ID = name, ar_Target = Value (DTarget decision), ar_TargetType = Kind (DTarget decision),
                           ar_Result = ''AUTO'', ar_Source = DSource decision, ar_Reason = Reason decision,
                           ar_ExpiresAt = None, ar_Note = [], ar_Revision = revision s3, ar_CreatedAt = now \<rparr>;
                   response = \<lparr> rm_OperationID = dr_OperationID request, rm_Rule = row,
                                rm_Generation = DGeneration decision, rm_State = ''AUTO'' \<rparr>
               in (s3\<lparr>ruleOps := AList.update key response (ruleOps s3)\<rparr>, Ret response))))"

definition Service_DeleteRule ::
  "Service \<Rightarrow> string \<Rightarrow> DeleteRuleRequest \<Rightarrow> gotime \<Rightarrow> gotime \<Rightarrow> Service \<times> RuleMutationResponse api_result" where
  "Service_DeleteRule s0 name request pruneNow now =
    (if mode s0 = ''server''
     then (s0, Err (ErrUnsupported ''client routing methods are unavailable in server mode''))
     else or_return (validateOperationID (dr_OperationID request)) s0 (\<lambda>_.
       DeleteRule_locked (pruneExpiredRules s0 pruneNow) name request now))"

definition ExplainRule :: "Service \<Rightarrow> string \<Rightarrow> gotime \<Rightarrow> Service \<times> RuleExplanation api_result" where
  "ExplainRule s0 target pruneNow =
    (let s = pruneExpiredRules s0 pruneNow in
     or_return (omap_err (\<lambda>err. ErrInvalidInput [] (Some err)) (Explain (routes s) target)) s (\<lambda>d.
     (s, Ret \<lparr> rx_Target = Value (DTarget d), rx_FinalResult = EffectiveAction d, rx_ManagedState = DAction d,
               rx_PrimarySource = DSource d, rx_Reason = Reason d, rx_Sources = [DSource d],
               rx_Generation = DGeneration d \<rparr>)))"

section \<open>DNS, diagnostics and updates\<close>

definition Service_DNSStatus :: "Service \<Rightarrow> DNSStatus api_result" where
  "Service_DNSStatus s = Ret (dnsResponse s)"

text \<open>The answer is the DNS status also when there is an error. \<open>source\<close> is what the source returns.\<close>

definition RefreshDNS ::
  "Service \<Rightarrow> OperationRequest \<Rightarrow> Snapshot dns_result \<Rightarrow> gotime \<Rightarrow> Service \<times> DNSStatus option \<times> unit api_result" where
  "RefreshDNS s request source now =
    (if mode s = ''server'' then (s, None, Err (ErrUnsupported ''private DNS is a client-only method''))
     else
       case validateOperationID (or_OperationID request) of
         Err err \<Rightarrow> (s, None, Err err)
       | Panic \<Rightarrow> (s, None, Panic)
       | Ret _ \<Rightarrow>
           if \<not> dnsSource s
           then (s, Some (dnsResponse s), Err (ErrUnsupported ''no read-only resolver source is configured''))
           else
             let (m', _, result) = RefreshFrom (dns s) (Some source) now;
                 s1 = s\<lparr>dns := m', revision := revision s + 1\<rparr> in
             (s1, Some (dnsResponse s1),
              omap_err (\<lambda>err. OtherError (''refresh read-only resolver snapshot: '' @ err)) result))"

definition RunDoctor :: "Service \<Rightarrow> gotime \<Rightarrow> gotime \<Rightarrow> gotime \<Rightarrow> Service \<times> DiagnosticReport api_result" where
  "RunDoctor s0 pruneNow statusNow now =
    (let (s, result) = Service_Status s0 pruneNow statusNow in
     or_return result s (\<lambda>status.
     let dnsState = ds_State (sr_DNS status);
         checks =
           [\<lparr> dc_Name = ''Tunnel connection'', dc_State = cs_State (sr_Connection status),
              dc_Summary = ''development transport simulator; no TUN device is created'' \<rparr>,
            \<lparr> dc_Name = ''Smart routing'', dc_State = ''HEALTHY'',
              dc_Summary = ''generation '' @ show_nat (unat (rs_Generation (sr_Routing status))) @ '', '' @
                show_nat (rs_ManualRuleCount (sr_Routing status)) @ '' manual rules'' \<rparr>,
            \<lparr> dc_Name = ''Private DNS'', dc_State = dnsState,
              dc_Summary = ''read-only generation '' @ show_nat (unat (ds_Generation (sr_DNS status))) @ ''; system DNS unchanged'' \<rparr>,
            \<lparr> dc_Name = ''Script environment'', dc_State = ''HEALTHY'',
              dc_Summary = ''client and server orchestration scripts are available'' \<rparr>,
            \<lparr> dc_Name = ''System privileges'', dc_State = ''NOT_REQUESTED'',
              dc_Summary = ''safe development mode has not requested TUN, route, firewall, service, or DNS privileges'' \<rparr>] in
     (s, Ret \<lparr> dg_GeneratedAt = now, dg_Redacted = True,
               dg_Overall = (if dnsState = ''DEGRADED'' then ''DEGRADED'' else ''HEALTHY''), dg_Checks = checks,
               dg_Summary = ''Redacted development diagnostic; no keys, tokens, domains, or DNS responses included.'' \<rparr>)))"

definition CheckUpdate :: "Service \<Rightarrow> gotime \<Rightarrow> UpdateStatus api_result" where
  "CheckUpdate s now =
    Ret \<lparr> us_State = ''IDLE'', us_CurrentVersion = Bundle (versions s), us_AvailableVersion = [], us_Compatible = True,
          us_ManifestVerified = False, us_CheckedAt = now,
          us_Message = ''no signed update feed is configured for this development build'' \<rparr>"

definition UpdateAction :: "Service \<Rightarrow> string \<Rightarrow> OperationRequest \<Rightarrow> UpdateStatus api_result" where
  "UpdateAction s action request = Err (ErrUnsupported (action @ '' requires the future signed release helper''))"

section \<open>Pairing\<close>

definition hex_EncodeToString :: "bytes \<Rightarrow> string" where
  "hex_EncodeToString b = concat (map (\<lambda>x. [digit_char (unat x div 16), digit_char (unat x mod 16)]) b)"

definition hex_decodes :: "string \<Rightarrow> bool" where
  "hex_decodes s \<longleftrightarrow> even (length s) \<and> (\<forall>c \<in> set s. hex_val c \<noteq> None)"

definition pairing_window :: duration where
  "pairing_window = 10 * 60 * 1000000000"

text \<open>The critical section of \<^verbatim>\<open>ValidatePairing\<close>: the expired validations go, and the new one is
  stored if there is room.\<close>

definition ValidatePairing_locked ::
  "Service \<Rightarrow> string \<Rightarrow> pairingValidationState \<Rightarrow> gotime \<Rightarrow> Service \<times> unit api_result" where
  "ValidatePairing_locked s validationID validation now =
    (let s1 = s\<lparr>pairingValidations := filter (\<lambda>(name, v). val_expiresAt v > now) (pairingValidations s)\<rparr> in
     if length (pairingValidations s1) \<ge> 128
     then (s1, Err (ErrConflict ''too many pending pairing validations''))
     else (s1\<lparr>pairingValidations := AList.update validationID validation (pairingValidations s1)\<rparr>, Ret ()))"

definition ValidatePairing ::
  "Service \<Rightarrow> PairingValidationRequest \<Rightarrow> bytes option \<Rightarrow> gotime \<Rightarrow> gotime \<Rightarrow> Service \<times> PairingValidation api_result" where
  "ValidatePairing s request random now sweepNow =
    (if mode s = ''server'' then (s, Err (ErrUnsupported ''pairing UI is unavailable in server mode''))
     else
       case ParseAddr (strings_TrimSpace (pq_ServerIP request)) of
         None \<Rightarrow> (s, Err (ErrInvalidInput ''server IP must be a literal IPv4 or IPv6 address'' None))
       | Some address \<Rightarrow>
           if pq_FileName request \<noteq> ''wg-pairing.wgp''
           then (s, Err (ErrInvalidInput ''pairing file must be named wg-pairing.wgp'' None))
           else if pq_Fingerprint request \<noteq> [] \<and> pq_Fingerprint request \<noteq> demoFingerprint
           then (s, Err (ErrInvalidInput ''supplied fingerprint does not match the validated pairing material'' None))
           else
             case random of
               None \<Rightarrow> (s, Err (OtherError ''create pairing validation state''))
             | Some b \<Rightarrow>
                 let validationID = hex_EncodeToString b; expiresAt = now + pairing_window;
                     normalizedIP = Addr_String address;
                     validation = \<lparr> val_serverIP = normalizedIP, val_fileName = pq_FileName request,
                                    val_fingerprint = demoFingerprint, val_expiresAt = expiresAt \<rparr>;
                     (s1, result) = ValidatePairing_locked s validationID validation sweepNow in
                 or_return result s1 (\<lambda>_.
                 (s1, Ret \<lparr> pv_Valid = True, pv_ValidationID = validationID, pv_ServerIP = normalizedIP, pv_Port = 9518,
                            pv_FileName = pq_FileName request, pv_Fingerprint = demoFingerprint, pv_ExpiresAt = expiresAt,
                            pv_Message = ''development validation only; production must inspect the 0600 file and verify its signed fields'' \<rparr>)))"

definition Enroll_locked :: "Service \<Rightarrow> EnrollRequest \<Rightarrow> Addr \<Rightarrow> gotime \<Rightarrow> Service \<times> OperationResponse api_result" where
  "Enroll_locked s request address now =
    (let operationKey = ''enroll:'' @ en_OperationID request in
     case map_of (operations s) operationKey of
       Some completed \<Rightarrow> (s, Ret completed)
     | None \<Rightarrow>
       (case map_of (pairingValidations s) (en_ValidationID request) of
          None \<Rightarrow> (s, Err (ErrInvalidInput ''pairing validation is missing or was already used'' None))
        | Some validation \<Rightarrow>
            let s1 = s\<lparr>pairingValidations := AList.delete (en_ValidationID request) (pairingValidations s)\<rparr> in
            if \<not> val_expiresAt validation > now
            then (s1, Err (ErrInvalidInput ''pairing validation expired'' None))
            else if val_serverIP validation \<noteq> Addr_String address \<or> val_fileName validation \<noteq> en_FileName request
               \<or> val_fingerprint validation \<noteq> en_Fingerprint request
            then (s, Err (ErrInvalidInput ''pairing inputs changed after validation'' None))
            else
              let s2 = s1\<lparr>endpoint := AddrPort_String address 9518, revision := revision s1 + 1\<rparr>;
                  response = \<lparr> op_OperationID = en_OperationID request, op_Accepted = True, op_State = ''COMPLETE'',
                               op_Revision = revision s2,
                               op_Message = ''development enrollment completed without consuming a real token or changing host networking'' \<rparr>
              in (s2\<lparr>operations := AList.update operationKey response (operations s2)\<rparr>, Ret response)))"

definition Enroll :: "Service \<Rightarrow> EnrollRequest \<Rightarrow> gotime \<Rightarrow> Service \<times> OperationResponse api_result" where
  "Enroll s request now =
    or_return (validateOperationID (en_OperationID request)) s (\<lambda>_.
    if \<not> en_FingerprintConfirmed request \<or> \<not> en_AuthorizationConfirmed request
    then (s, Err (ErrInvalidInput ''independent fingerprint confirmation and explicit authorization are required'' None))
    else if en_FileName request \<noteq> ''wg-pairing.wgp''
    then (s, Err (ErrInvalidInput ''pairing file must be named wg-pairing.wgp'' None))
    else
      case ParseAddr (strings_TrimSpace (en_ServerIP request)) of
        None \<Rightarrow> (s, Err (ErrInvalidInput ''invalid server IP'' None))
      | Some address \<Rightarrow>
          if length (en_ValidationID request) \<noteq> 32
          then (s, Err (ErrInvalidInput ''a current pairing validation is required'' None))
          else if \<not> hex_decodes (en_ValidationID request)
          then (s, Err (ErrInvalidInput ''invalid pairing validation identifier'' None))
          else Enroll_locked s request address now)"

end
