(* ===== verification/App_Invariant.thy ===== *)
theory App_Invariant
  imports App_Service
begin

text \<open>
  The service under concurrent calls. Each method takes the lock for one or more critical
  sections; \<open>critical_section\<close> names them and \<open>run_section\<close> runs one, so a concurrent execution is a list
  of sections. \<open>service_ok\<close> is kept by every section: the metadata and the rules of the engine are
  about the same targets, no target is both manual and recently automatic, and the connection,
  the validations and the recorded answers are consistent. The methods are sequences of sections.
\<close>

section \<open>Critical sections\<close>

datatype critical_section =
  PruneSection gotime
| ConnectionSection string OperationRequest gotime
| SetSection SetRuleRequest gotime gotime
| DeleteSection string DeleteRuleRequest gotime
| DNSSection "Snapshot dns_result" gotime
| RevisionSection
| ValidateSection string pairingValidationState gotime
| EnrollSection EnrollRequest Addr gotime

fun run_section :: "Service \<Rightarrow> critical_section \<Rightarrow> Service" where
  "run_section s (PruneSection now) = pruneExpiredRules s now"
| "run_section s (ConnectionSection action request now) = fst (ConnectionAction s action request now)"
| "run_section s (SetSection request now engineNow) =
     (case SetRule_checks request now of
        Ret (action, target, expiresAt) \<Rightarrow> fst (SetRule_locked s request action target expiresAt engineNow)
      | _ \<Rightarrow> s)"
| "run_section s (DeleteSection name request now) = fst (DeleteRule_locked s name request now)"
| "run_section s (DNSSection source now) = s\<lparr>dns := fst (RefreshFrom (dns s) (Some source) now)\<rparr>"
| "run_section s RevisionSection = s\<lparr>revision := revision s + 1\<rparr>"
| "run_section s (ValidateSection name validation now) = fst (ValidatePairing_locked s name validation now)"
| "run_section s (EnrollSection request address now) = fst (Enroll_locked s request address now)"

section \<open>The invariant\<close>

definition rules_ok :: "nat \<Rightarrow> Service \<Rightarrow> bool" where
  "rules_ok n s \<longleftrightarrow> engine_room n (routes s) \<and> stable (routes s) \<and> distinct (map fst (ruleMeta s)) \<and>
     fst ` set (ruleMeta s) = rule_values (routes s)"

definition recent_ok :: "Service \<Rightarrow> bool" where
  "recent_ok s \<longleftrightarrow> (\<forall>row \<in> set (recentAuto s). ar_Target row \<notin> fst ` set (ruleMeta s))"

definition pairing_ok :: "Service \<Rightarrow> bool" where
  "pairing_ok s \<longleftrightarrow> distinct (map fst (pairingValidations s)) \<and> length (pairingValidations s) \<le> 128"

definition connection_ok :: "Service \<Rightarrow> bool" where
  "connection_ok s \<longleftrightarrow> state s = ''CONNECTED'' \<and> connected s \<noteq> None \<or> state s = ''DISCONNECTED'' \<and> connected s = None"

definition op_answer :: "string \<times> OperationResponse \<Rightarrow> bool" where
  "op_answer = (\<lambda>(key, response). op_Accepted response \<and>
     (key = ''connection:'' @ op_OperationID response \<or> key = ''enroll:'' @ op_OperationID response))"

definition rule_answer :: "string \<times> RuleMutationResponse \<Rightarrow> bool" where
  "rule_answer = (\<lambda>(key, response).
     key = ''rule-set:'' @ rm_OperationID response \<and> rm_State response = ''ACTIVE'' \<or>
     key = ''rule-delete:'' @ rm_OperationID response \<and> rm_State response = ''AUTO'')"

definition answers_ok :: "Service \<Rightarrow> bool" where
  "answers_ok s \<longleftrightarrow> list_all op_answer (operations s) \<and> list_all rule_answer (ruleOps s)"

definition service_ok :: "nat \<Rightarrow> Service \<Rightarrow> bool" where
  "service_ok n s \<longleftrightarrow> rules_ok n s \<and> recent_ok s \<and> pairing_ok s \<and> connection_ok s \<and> answers_ok s"

named_theorems service_simps

lemmas [service_simps] = recent_ok_def pairing_ok_def connection_ok_def answers_ok_def

lemma rules_ok_cong: "routes s' = routes s \<Longrightarrow> ruleMeta s' = ruleMeta s \<Longrightarrow> rules_ok n s' = rules_ok n s"
  by (simp add: rules_ok_def)

lemma service_ok_frame:
  assumes "service_ok n s" "routes s' = routes s" "ruleMeta s' = ruleMeta s" "recentAuto s' = recentAuto s"
    "pairing_ok s'" "connection_ok s'" "answers_ok s'"
  shows "service_ok n s'"
proof -
  have "recent_ok s' = recent_ok s" using assms by (simp add: recent_ok_def)
  with assms rules_ok_cong [of s' s n] show ?thesis by (simp add: service_ok_def)
qed

lemma rules_ok_mono: "rules_ok n s \<Longrightarrow> rules_ok (Suc n) s"
  by (simp add: rules_ok_def engine_room_def)

text \<open>The targets of the metadata are texts that parse to themselves.\<close>

lemma meta_parses:
  assumes "rules_ok n s" "target \<in> fst ` set (ruleMeta s)"
  obtains t where "ParseTarget target = Ret t" "Value t = target"
proof -
  from assms obtain r where "r \<in> rule_set (routes s)" "Value (RTarget r) = target"
    by (auto simp: rules_ok_def rule_values_def)
  with assms(1) that show thesis by (auto simp: rules_ok_def stable_def)
qed

lemma removeRecentAuto_simps [simp]:
  "routes (removeRecentAutoLocked s t) = routes s" "ruleMeta (removeRecentAutoLocked s t) = ruleMeta s"
  "pairingValidations (removeRecentAutoLocked s t) = pairingValidations s" "state (removeRecentAutoLocked s t) = state s"
  "connected (removeRecentAutoLocked s t) = connected s" "operations (removeRecentAutoLocked s t) = operations s"
  "ruleOps (removeRecentAutoLocked s t) = ruleOps s" "revision (removeRecentAutoLocked s t) = revision s"
  "mode (removeRecentAutoLocked s t) = mode s" "endpoint (removeRecentAutoLocked s t) = endpoint s"
  "recentAuto (removeRecentAutoLocked s t) = filter (\<lambda>row. ar_Target row \<noteq> t) (recentAuto s)"
  by (simp_all add: removeRecentAutoLocked_def)

subsection \<open>Pruning\<close>

lemma pruneOne_alive: "\<not> meta_expired m now \<Longrightarrow> pruneOne now s (target, m) = s"
  by (simp add: pruneOne_def)

lemma pruneOne_fields:
  assumes "meta_expired m now"
  shows "routes (pruneOne now s (target, m)) = fst (DeleteRule (routes s) target)"
    "ruleMeta (pruneOne now s (target, m)) = AList.delete target (ruleMeta s)"
    "recentAuto (pruneOne now s (target, m)) = filter (\<lambda>row. ar_Target row \<noteq> target) (recentAuto s)"
  using assms by (simp_all add: pruneOne_def Let_def split: prod.split outcome.split)

text \<open>What pruning does not touch.\<close>

lemma pruneOne_frame:
  "pairingValidations (pruneOne now s p) = pairingValidations s \<and> state (pruneOne now s p) = state s \<and>
   connected (pruneOne now s p) = connected s \<and> operations (pruneOne now s p) = operations s \<and>
   ruleOps (pruneOne now s p) = ruleOps s \<and> mode (pruneOne now s p) = mode s \<and> endpoint (pruneOne now s p) = endpoint s"
  by (cases p) (simp add: pruneOne_def Let_def split: prod.split outcome.split)

lemma prune_frame:
  "pairingValidations (pruneExpiredRules s now) = pairingValidations s \<and> state (pruneExpiredRules s now) = state s \<and>
   connected (pruneExpiredRules s now) = connected s \<and> operations (pruneExpiredRules s now) = operations s \<and>
   ruleOps (pruneExpiredRules s now) = ruleOps s \<and> mode (pruneExpiredRules s now) = mode s \<and>
   endpoint (pruneExpiredRules s now) = endpoint s"
proof -
  have "pairingValidations (foldl (pruneOne now) s es) = pairingValidations s \<and> state (foldl (pruneOne now) s es) = state s \<and>
    connected (foldl (pruneOne now) s es) = connected s \<and> operations (foldl (pruneOne now) s es) = operations s \<and>
    ruleOps (foldl (pruneOne now) s es) = ruleOps s \<and> mode (foldl (pruneOne now) s es) = mode s \<and>
    endpoint (foldl (pruneOne now) s es) = endpoint s" for es
    using pruneOne_frame by (induction es arbitrary: s) simp_all
  then show ?thesis by (simp add: pruneExpiredRules_def)
qed

lemma pruneOne_ok:
  assumes "rules_ok n s" "recent_ok s" "target \<in> fst ` set (ruleMeta s)"
  shows "rules_ok n (pruneOne now s (target, m))" "recent_ok (pruneOne now s (target, m))"
proof -
  obtain t where t: "ParseTarget target = Ret t" "Value t = target" using meta_parses assms(1,3) .
  have e: "engine_room n (routes s)" "engine_ok (routes s)" "stable (routes s)" using assms(1) by (auto simp: rules_ok_def engine_room_def)
  have "fst ` set (AList.delete target (ruleMeta s)) = fst ` set (ruleMeta s) - {target}"
    by (force simp: AList.delete_eq)
  then show "rules_ok n (pruneOne now s (target, m))"
    using assms(1) DeleteRule_room [OF e(1)] stable_DeleteRule [OF e(2,3) t]
    by (cases "meta_expired m now") (simp_all add: rules_ok_def pruneOne_fields pruneOne_alive distinct_delete)
  show "recent_ok (pruneOne now s (target, m))"
    using assms(2) by (cases "meta_expired m now") (auto simp: recent_ok_def pruneOne_fields pruneOne_alive AList.delete_eq)
qed

lemma delete_filter: "AList.delete k xs = filter (\<lambda>(k', v). k' \<noteq> k) xs"
  by (auto simp: AList.delete_eq intro!: filter_cong)

definition dead_keys :: "gotime \<Rightarrow> (string \<times> ruleMetadata) list \<Rightarrow> string set" where
  "dead_keys now es = {k. \<exists>m. (k, m) \<in> set es \<and> meta_expired m now}"

lemma prune_fold:
  assumes "rules_ok n s" "recent_ok s" "distinct (map fst es)" "fst ` set es \<subseteq> fst ` set (ruleMeta s)"
  shows "rules_ok n (foldl (pruneOne now) s es) \<and> recent_ok (foldl (pruneOne now) s es) \<and>
    ruleMeta (foldl (pruneOne now) s es) = filter (\<lambda>(k, m). k \<notin> dead_keys now es) (ruleMeta s) \<and>
    rule_set (routes (foldl (pruneOne now) s es)) = {r \<in> rule_set (routes s). Value (RTarget r) \<notin> dead_keys now es}"
  using assms
proof (induction es arbitrary: s)
  case Nil
  then show ?case by (auto simp: dead_keys_def)
next
  case (Cons p es)
  obtain target m where p: "p = (target, m)" by (cases p)
  let ?s1 = "pruneOne now s (target, m)"
  have inkeys: "target \<in> fst ` set (ruleMeta s)" using Cons.prems(4) p by auto
  note ok1 = pruneOne_ok [OF Cons.prems(1,2) inkeys, of now m]
  show ?case
  proof (cases "meta_expired m now")
    case False
    then have "dead_keys now (p # es) = dead_keys now es" by (auto simp: dead_keys_def p)
    with Cons False p show ?thesis by (simp add: pruneOne_alive)
  next
    case True
    have dk: "dead_keys now (p # es) = insert target (dead_keys now es)" using True by (auto simp: dead_keys_def p)
    obtain t where t: "ParseTarget target = Ret t" "Value t = target" using meta_parses Cons.prems(1) inkeys .
    have e: "engine_ok (routes s)" "stable (routes s)" using Cons.prems(1) by (auto simp: rules_ok_def engine_room_def)
    have rs: "rule_set (routes ?s1) = {r \<in> rule_set (routes s). Value (RTarget r) \<noteq> target}"
      using stable_DeleteRule(3) [OF e t] True by (simp add: pruneOne_fields)
    have rm: "ruleMeta ?s1 = filter (\<lambda>(k, m). k \<noteq> target) (ruleMeta s)"
      using True by (simp add: pruneOne_fields delete_filter)
    have "fst ` set es \<subseteq> fst ` set (ruleMeta ?s1)"
    proof
      fix k assume k: "k \<in> fst ` set es"
      moreover have "target \<notin> fst ` set es" using Cons.prems(3) p by simp
      ultimately have "k \<noteq> target" "k \<in> fst ` set (ruleMeta s)" using Cons.prems(4) by auto
      then show "k \<in> fst ` set (ruleMeta ?s1)" unfolding rm by force
    qed
    with Cons.IH [OF ok1] Cons.prems(3) show ?thesis
      unfolding p foldl_Cons by (auto simp: dk [unfolded p] rs rm filter_filter intro!: filter_cong)
  qed
qed

text \<open>Pruning removes exactly the expired rules, with their metadata.\<close>

lemma dead_keys_meta:
  assumes "distinct (map fst (ruleMeta s))" "(k, m) \<in> set (ruleMeta s)"
  shows "k \<in> dead_keys now (ruleMeta s) \<longleftrightarrow> meta_expired m now"
  using assms by (auto simp: dead_keys_def dest: eq_key_imp_eq_value)

lemma prune_exact:
  fixes now :: gotime
  assumes "rules_ok n s" "recent_ok s"
  defines "s' \<equiv> pruneExpiredRules s now"
  shows "rules_ok n s' \<and> recent_ok s' \<and> ruleMeta s' = filter (\<lambda>(k, m). \<not> meta_expired m now) (ruleMeta s) \<and>
    rule_set (routes s') = {r \<in> rule_set (routes s). \<not> meta_expired (lookupMeta s (Value (RTarget r))) now}"
proof -
  have d: "distinct (map fst (ruleMeta s))" using assms(1) by (simp add: rules_ok_def)
  note f = prune_fold [OF assms(1,2) d order_refl, where now = now, folded pruneExpiredRules_def, folded s'_def]
  have "filter (\<lambda>(k, m). k \<notin> dead_keys now (ruleMeta s)) (ruleMeta s) = filter (\<lambda>(k, m). \<not> meta_expired m now) (ruleMeta s)"
    using dead_keys_meta [OF d] by (auto intro!: filter_cong)
  moreover have "Value (RTarget r) \<in> dead_keys now (ruleMeta s) \<longleftrightarrow> meta_expired (lookupMeta s (Value (RTarget r))) now"
    if "r \<in> rule_set (routes s)" for r
  proof -
    from that assms(1) have "Value (RTarget r) \<in> fst ` set (ruleMeta s)" by (auto simp: rules_ok_def rule_values_def)
    then obtain m where m: "(Value (RTarget r), m) \<in> set (ruleMeta s)" by auto
    then have "lookupMeta s (Value (RTarget r)) = m" using d by (simp add: lookupMeta_def)
    with dead_keys_meta [OF d m] show ?thesis by simp
  qed
  ultimately show ?thesis using f by auto
qed

subsection \<open>The other sections\<close>

lemma update_keys: "fst ` set (AList.update k v xs) = insert k (fst ` set xs)"
  by (induction xs) auto

lemma list_all_update: "list_all P xs \<Longrightarrow> P (k, v) \<Longrightarrow> list_all P (AList.update k v xs)"
  by (induction xs) auto

lemma length_alist_update: "length (AList.update k v xs) \<le> Suc (length xs)"
  by (induction xs) auto

lemma connection_switch_frame:
  assumes "connection_switch s action now = Ret s1"
  shows "routes s1 = routes s" "ruleMeta s1 = ruleMeta s" "recentAuto s1 = recentAuto s" "ruleOps s1 = ruleOps s"
    "pairingValidations s1 = pairingValidations s" "operations s1 = operations s" "connection_ok s \<Longrightarrow> connection_ok s1"
  using assms by (auto simp: connection_switch_def connection_ok_def split: if_splits)

lemma ConnectionAction_ok:
  assumes "service_ok n s"
  shows "service_ok n (fst (ConnectionAction s action request now))"
proof (cases "snd (ConnectionAction s action request now)")
  case (Ret r)
  show ?thesis
  proof (cases "map_of (operations s) (''connection:'' @ or_OperationID request)")
    case None
    with Ret obtain s1 where s1: "connection_switch s action now = Ret s1"
      and s': "fst (ConnectionAction s action request now) =
        s1\<lparr>revision := revision s1 + 1, operations := AList.update (''connection:'' @ or_OperationID request) r (operations s1)\<rparr>"
      and r: "op_OperationID r = or_OperationID request" "op_Accepted r"
      by (auto simp: ConnectionAction_def Let_def or_return_def split: if_splits outcome.splits)
    have a: "op_answer (''connection:'' @ or_OperationID request, r)" using r by (simp add: op_answer_def)
    note f = connection_switch_frame [OF s1]
    show ?thesis
    proof (rule service_ok_frame [OF assms])
      show "connection_ok (fst (ConnectionAction s action request now))"
        using f(7) assms unfolding s' by (simp add: service_ok_def connection_ok_def)
      show "answers_ok (fst (ConnectionAction s action request now))"
        using a assms unfolding s' by (simp add: service_ok_def answers_ok_def f(4,6) list_all_update)
    qed (use assms f(1-6) s' in \<open>simp_all add: service_ok_def pairing_ok_def\<close>)
  qed (use Ret assms in \<open>auto simp: ConnectionAction_def Let_def or_return_def split: if_splits outcome.splits\<close>)
qed (use assms in \<open>auto simp: ConnectionAction_def Let_def or_return_def split: if_splits outcome.splits option.splits\<close>)

lemma SetRule_checks_props:
  assumes "SetRule_checks request now = Ret (action, target, expiresAt)"
  shows "Action_effective action" "\<exists>u. ParseTarget (Value target) = Ret u \<and> Value u = Value target"
    "expiresAt = st_ExpiresAt request" "\<forall>x. expiresAt = Some x \<longrightarrow> now < x"
proof -
  from assms have a: "ParseAction (st_Result request) = Ret action" "action \<noteq> ActionAuto"
    and t: "ParseTarget (st_Target request) = Ret target"
    and x: "expiresAt = st_ExpiresAt request" "\<forall>x. expiresAt = Some x \<longrightarrow> now < x"
    by (cases "st_ExpiresAt request"; auto simp: SetRule_checks_def obind_Ret_iff split: outcome.splits if_splits)+
  from a have "Action_valid action" by (auto simp: ParseAction_def Let_def split: if_splits)
  with a(2) show "Action_effective action" using Action_cases by blast
  show "\<exists>u. ParseTarget (Value target) = Ret u \<and> Value u = Value target" using value_stable [OF t] .
  show "expiresAt = st_ExpiresAt request" "\<forall>x. expiresAt = Some x \<longrightarrow> now < x" using x .
qed

lemma SetRule_locked_cases:
  assumes "Action_effective action" "ParseTarget (Value target) = Ret u"
    and run: "SetRule_locked s request action target expiresAt engineNow = (s', result)"
  obtains "s' = s"
  | m r where "map_of (ruleOps s) (''rule-set:'' @ st_OperationID request) = None"
    "result = Ret r"
    "routes s' = fst (SetRule (routes s) (Value target) action engineNow)"
    "ruleMeta s' = AList.update (Value target) m (ruleMeta s)" "meta_expiresAt m = expiresAt"
    "recentAuto s' = filter (\<lambda>row. ar_Target row \<noteq> Value target) (recentAuto s)"
    "ruleOps s' = AList.update (''rule-set:'' @ st_OperationID request) r (ruleOps s)"
    "rm_OperationID r = st_OperationID request" "rm_State r = ''ACTIVE''"
    "operations s' = operations s" "pairingValidations s' = pairingValidations s" "state s' = state s" "connected s' = connected s"
    "mode s' = mode s" "endpoint s' = endpoint s"
proof (cases "map_of (ruleOps s) (''rule-set:'' @ st_OperationID request)")
  case (Some completed)
  then show thesis using that(1) run by (simp add: SetRule_locked_def)
next
  case None
  note eq = SetRule_eq [OF assms(1,2), of "routes s" engineNow]
  let ?edit = "if st_ID request \<noteq> [] then
            case find_rule s (st_ID request) of
              None \<Rightarrow> Err (ErrNotFound ''rule to edit was not found'')
            | Some existing \<Rightarrow>
                if Value (RTarget existing) \<noteq> Value target
                then Err (ErrInvalidInput ''editing a rule cannot change its target; delete and create a new override'' None)
                else Ret ()
          else Ret ()"
  show thesis
  proof (cases "?edit = Ret () \<and> \<not> (st_ExpectedRevision request \<noteq> None \<and>
      st_ExpectedRevision request \<noteq> Some (meta_revision (lookupMeta s (Value target))))")
    case False
    then have "s' = s"
      using run unfolding SetRule_locked_def Let_def None by (cases ?edit) (simp_all add: or_return_def)
    with that(1) show thesis .
  next
    case True
    let ?m = "\<lparr> meta_note = strings_TrimSpace (st_Note request), meta_expiresAt = expiresAt, meta_revision = revision s + 1 \<rparr>"
    have "SetRule_locked s request action target expiresAt engineNow =
      (let (e', res) = SetRule (routes s) (Value target) action engineNow;
           s4 = removeRecentAutoLocked (s\<lparr>routes := e', revision := revision s + 1,
             ruleMeta := AList.update (Value target) ?m (ruleMeta s)\<rparr>) (Value target);
           r = \<lparr> rm_OperationID = st_OperationID request, rm_Rule = apiRule (stored_rule (routes s) u action engineNow) ?m,
             rm_Generation = Engine_Generation e', rm_State = ''ACTIVE'' \<rparr>
       in (s4\<lparr>ruleOps := AList.update (''rule-set:'' @ st_OperationID request) r (ruleOps s4)\<rparr>, Ret r))"
      using True None eq by (simp add: SetRule_locked_def Let_def)
    with run None show thesis by (intro that(2) [of "case result of Ret r \<Rightarrow> r" ?m]) (auto simp: Let_def split: prod.splits)
  qed
qed

lemma rules_ok_set:
  assumes "rules_ok n s" "n < 2 ^ 64 - 1" "Action_effective a" "ParseTarget v = Ret u" "Value u = v"
    "routes s' = fst (SetRule (routes s) v a now)" "ruleMeta s' = AList.update v m (ruleMeta s)"
  shows "rules_ok (Suc n) s'"
proof -
  have e: "engine_room n (routes s)" "engine_ok (routes s)" "stable (routes s)"
    using assms(1) by (auto simp: rules_ok_def engine_room_def)
  have "engine_room (Suc n) (routes s')" using SetRule_room [OF e(1) assms(2-4)] assms(6) by simp
  moreover have "stable (routes s')" "rule_values (routes s') = insert v (rule_values (routes s))"
    using stable_SetRule [OF e(2,3) assms(3-5)] assms(6) by simp_all
  ultimately show ?thesis using assms(1,7) by (simp add: rules_ok_def update_keys distinct_update)
qed

lemma rules_ok_delete:
  assumes "rules_ok n s" "v \<in> fst ` set (ruleMeta s)"
    "routes s' = fst (DeleteRule (routes s) v)" "ruleMeta s' = AList.delete v (ruleMeta s)"
  shows "rules_ok n s'"
proof -
  obtain t where t: "ParseTarget v = Ret t" "Value t = v" using meta_parses assms(1,2) .
  have e: "engine_room n (routes s)" "engine_ok (routes s)" "stable (routes s)"
    using assms(1) by (auto simp: rules_ok_def engine_room_def)
  have "fst ` set (AList.delete v (ruleMeta s)) = fst ` set (ruleMeta s) - {v}" by (force simp: AList.delete_eq)
  with assms DeleteRule_room [OF e(1)] stable_DeleteRule [OF e(2,3) t] show ?thesis
    by (simp add: rules_ok_def distinct_delete)
qed

lemma SetSection_ok:
  assumes "service_ok n s" "n < 2 ^ 64 - 1"
  shows "service_ok (Suc n) (run_section s (SetSection request now engineNow))"
proof (cases "SetRule_checks request now")
  case (Ret x)
  obtain action target expiresAt where x: "x = (action, target, expiresAt)" by (cases x)
  note c = SetRule_checks_props [OF Ret [unfolded x]]
  obtain u where u: "ParseTarget (Value target) = Ret u" "Value u = Value target" using c(2) by blast
  obtain s' res where run: "SetRule_locked s request action target expiresAt engineNow = (s', res)" by fastforce
  have ok: "rules_ok n s" "recent_ok s" "pairing_ok s" "connection_ok s" "answers_ok s" using assms(1) by (simp_all add: service_ok_def)
  have "service_ok (Suc n) s'"
    using c(1) u(1) run
  proof (cases rule: SetRule_locked_cases)
    case 1
    with assms(1) rules_ok_mono show ?thesis by (simp add: service_ok_def)
  next
    case (2 m r)
    have "rules_ok (Suc n) s'" using rules_ok_set [OF ok(1) assms(2) c(1) u 2(3,4)] .
    moreover have "recent_ok s'" using ok(2) by (auto simp: recent_ok_def 2 update_keys)
    moreover have "rule_answer (''rule-set:'' @ st_OperationID request, r)" using 2(8,9) by (simp add: rule_answer_def)
    then have "answers_ok s'" using ok(5) by (simp add: answers_ok_def 2 list_all_update)
    moreover have "pairing_ok s'" "connection_ok s'" using ok(3,4) by (simp_all add: pairing_ok_def connection_ok_def 2)
    ultimately show ?thesis by (simp add: service_ok_def)
  qed
  with Ret x run show ?thesis by simp
qed (use assms rules_ok_mono in \<open>auto simp: service_ok_def\<close>)

lemma remove_row_some: "remove_row name rows = Some (row, rest) \<Longrightarrow>
    ar_ID row = name \<and> row \<in> set rows \<and> set rest \<subseteq> set rows"
  by (induction rows arbitrary: row rest) (auto split: if_splits)

lemma find_rule_some: "find_rule s name = Some r \<Longrightarrow> r \<in> rule_set (routes s) \<and> ruleName r = name"
  unfolding find_rule_def set_List_rules [symmetric] by (auto simp: find_Some_iff)

definition delete_key :: "DeleteRuleRequest \<Rightarrow> string" where
  "delete_key request = ''rule-delete:'' @ dr_OperationID request"

lemma DeleteRule_locked_cases:
  assumes "stable (routes s)" and run: "DeleteRule_locked s name0 request now = (s', result)"
  obtains "s' = s"
  | r row rest where "map_of (ruleOps s) (delete_key request) = None" "result = Ret r" "row \<in> set (recentAuto s)"
    "set rest \<subseteq> set (recentAuto s)" "rm_OperationID r = dr_OperationID request" "rm_State r = ''AUTO''"
    "s' = s\<lparr>recentAuto := rest, revision := revision s + 1, ruleOps := AList.update (delete_key request) r (ruleOps s)\<rparr>"
  | r matched where "map_of (ruleOps s) (delete_key request) = None" "result = Ret r" "matched \<in> rule_set (routes s)"
    "rm_OperationID r = dr_OperationID request" "rm_State r = ''AUTO''"
    "s' = (removeRecentAutoLocked (s\<lparr>routes := fst (DeleteRule (routes s) (Value (RTarget matched))),
             ruleMeta := AList.delete (Value (RTarget matched)) (ruleMeta s)\<rparr>) (Value (RTarget matched)))
           \<lparr>revision := revision s + 1, ruleOps := AList.update (delete_key request) r (ruleOps s)\<rparr>"
proof (cases "map_of (ruleOps s) (delete_key request)")
  case (Some completed)
  then show thesis using that(1) run by (simp add: DeleteRule_locked_def delete_key_def)
next
  case None
  define named :: "string api_result" where "named =
    (if name0 = [] then
       obind (omap_err (\<lambda>err. ErrInvalidInput ''target is required for target-based deletion'' (Some err)) (ParseTarget (dr_Target request)))
         (\<lambda>parsedTarget. Ret (target_name s (Value parsedTarget)))
     else Ret name0)"
  note unf = run [unfolded DeleteRule_locked_def Let_def, folded delete_key_def, unfolded None option.case, folded named_def]
  show thesis
  proof (cases named)
    case (Ret name)
    note unf1 = unf [unfolded Ret or_return_simps]
    show thesis
    proof (cases "strings_HasPrefix name ''auto-''")
      case True
      show thesis
      proof (cases "remove_row name (recentAuto s)")
        case (Some p)
        obtain row rest where p: "p = (row, rest)" by (cases p)
        with unf1 True Some None remove_row_some [OF Some [unfolded p]] show thesis
          by (intro that(2) [of "case result of Ret r \<Rightarrow> r" row rest]) auto
      qed (use unf1 True that(1) in simp)
    next
      case False
      show thesis
      proof (cases "find_rule s name")
        case (Some matched)
        let ?v = "Value (RTarget matched)"
        have m: "matched \<in> rule_set (routes s)" using find_rule_some [OF Some] by simp
        then have "ParseTarget ?v = Ret (RTarget matched)" using assms(1) by (simp add: stable_def)
        then obtain d where "snd (DeleteRule (routes s) ?v) = Ret d" using DeleteRule_returns by blast
        then obtain e' where d: "DeleteRule (routes s) ?v = (e', Ret d)" by (metis prod.collapse)
        show thesis
        proof (cases "dr_ExpectedRevision request \<noteq> None \<and> dr_ExpectedRevision request \<noteq> Some (meta_revision (lookupMeta s ?v))")
          case True
          with unf1 False Some that(1) show thesis by simp
        next
          case rev: False
          have "s' = (removeRecentAutoLocked (s\<lparr>routes := e', ruleMeta := AList.delete ?v (ruleMeta s)\<rparr>) ?v)
              \<lparr>revision := revision s + 1, ruleOps := AList.update (delete_key request) (case result of Ret r \<Rightarrow> r) (ruleOps s)\<rparr> \<and>
            (\<exists>r. result = Ret r \<and> rm_OperationID r = dr_OperationID request \<and> rm_State r = ''AUTO'')"
            using unf1 unfolding if_not_P [OF False] Some option.case if_not_P [OF rev] d by auto
          with None m d show thesis by (intro that(3) [of "case result of Ret r \<Rightarrow> r" matched]) auto
        qed
      qed (use unf1 False that(1) in simp)
    qed
  qed (use unf that(1) in simp_all)
qed

lemma DeleteSection_ok:
  assumes "service_ok n s"
  shows "service_ok n (run_section s (DeleteSection name request now))"
proof -
  obtain s' res where run: "DeleteRule_locked s name request now = (s', res)" by fastforce
  have ok: "rules_ok n s" "recent_ok s" "pairing_ok s" "connection_ok s" "answers_ok s" using assms by (simp_all add: service_ok_def)
  have st: "stable (routes s)" using ok(1) by (simp add: rules_ok_def)
  have "service_ok n s'"
    using st run
  proof (cases rule: DeleteRule_locked_cases)
    case 1
    with assms show ?thesis by simp
  next
    case (2 r row rest)
    have "rule_answer (delete_key request, r)" using 2(5,6) by (simp add: rule_answer_def delete_key_def)
    then have "answers_ok s'" using ok(5) by (simp add: answers_ok_def 2(7) list_all_update)
    moreover have "recent_ok s'" using ok(2) 2(4) by (auto simp: recent_ok_def 2(7))
    moreover have "rules_ok n s'" "pairing_ok s'" "connection_ok s'" using ok(1,3,4)
      by (simp_all add: pairing_ok_def connection_ok_def rules_ok_def 2(7))
    ultimately show ?thesis by (simp add: service_ok_def)
  next
    case (3 r matched)
    let ?v = "Value (RTarget matched)"
    have "?v \<in> fst ` set (ruleMeta s)" using ok(1) 3(3) by (auto simp: rules_ok_def rule_values_def)
    then have "rules_ok n s'" by (rule rules_ok_delete [OF ok(1)]) (simp_all add: 3(6))
    moreover have "recent_ok s'" using ok(2) by (auto simp: recent_ok_def 3(6) AList.delete_eq)
    moreover have "rule_answer (delete_key request, r)" using 3(4,5) by (simp add: rule_answer_def delete_key_def)
    then have "answers_ok s'" using ok(5) by (simp add: answers_ok_def 3(6) list_all_update)
    moreover have "pairing_ok s'" "connection_ok s'" using ok(3,4) by (simp_all add: pairing_ok_def connection_ok_def 3(6))
    ultimately show ?thesis by (simp add: service_ok_def)
  qed
  with run show ?thesis by simp
qed

lemma PruneSection_ok: "service_ok n s \<Longrightarrow> service_ok n (run_section s (PruneSection now))"
  using prune_exact [of n s now] prune_frame [of s now]
  by (simp add: service_ok_def pairing_ok_def connection_ok_def answers_ok_def)

lemma ValidateSection_ok:
  assumes "service_ok n s"
  shows "service_ok n (run_section s (ValidateSection name validation now))"
proof -
  let ?s' = "fst (ValidatePairing_locked s name validation now)"
  let ?live = "filter (\<lambda>(name, v). now < val_expiresAt v) (pairingValidations s)"
  have "distinct (map fst ?live)" "length ?live \<le> 128"
    using assms le_trans [OF length_filter_le] by (auto simp: service_ok_def pairing_ok_def distinct_map_filter)
  moreover have "length (AList.update name validation ?live) \<le> Suc (length ?live)" by (rule length_alist_update)
  ultimately have "pairing_ok ?s'"
    by (auto simp: ValidatePairing_locked_def pairing_ok_def Let_def distinct_update not_le)
  then show ?thesis using assms
    by (intro service_ok_frame [OF assms])
       (auto simp: ValidatePairing_locked_def Let_def service_ok_def connection_ok_def answers_ok_def)
qed

lemma EnrollSection_ok:
  assumes "service_ok n s"
  shows "service_ok n (run_section s (EnrollSection request address now))"
proof -
  let ?s' = "fst (Enroll_locked s request address now)"
  have p: "pairing_ok s" "connection_ok s" "answers_ok s" using assms by (simp_all add: service_ok_def)
  have "length (AList.delete (en_ValidationID request) (pairingValidations s)) \<le> 128"
    using p(1) by (auto simp: AList.delete_eq pairing_ok_def intro!: le_trans [OF length_filter_le])
  then have "pairing_ok ?s'"
    using p(1) by (auto simp: Enroll_locked_def pairing_ok_def Let_def distinct_delete split: option.split)
  moreover have "answers_ok ?s'"
    using p(3) by (auto simp: Enroll_locked_def answers_ok_def op_answer_def Let_def list_all_update split: option.split)
  moreover have "connection_ok ?s'"
    using p(2) by (auto simp: Enroll_locked_def connection_ok_def Let_def split: option.split)
  moreover have "routes ?s' = routes s" "ruleMeta ?s' = ruleMeta s" "recentAuto ?s' = recentAuto s"
    by (simp_all add: Enroll_locked_def Let_def split: option.split)
  ultimately show ?thesis using service_ok_frame [OF assms] by simp
qed

lemma service_ok_mono: "service_ok n s \<Longrightarrow> service_ok (Suc n) s"
  using rules_ok_mono by (simp add: service_ok_def)

lemma run_section_ok:
  assumes "service_ok n s" "n < 2 ^ 64 - 1"
  shows "service_ok (Suc n) (run_section s c)"
proof (cases c)
  case (ConnectionSection action request now)
  then show ?thesis using ConnectionAction_ok [OF assms(1)] service_ok_mono by simp
next
  case (SetSection request now engineNow)
  then show ?thesis using SetSection_ok [OF assms] by simp
next
  case (DNSSection source now)
  then show ?thesis
    using service_ok_mono [OF assms(1)] by (auto simp: service_ok_def rules_ok_def service_simps)
next
  case RevisionSection
  then show ?thesis
    using service_ok_mono [OF assms(1)] by (auto simp: service_ok_def rules_ok_def service_simps)
qed (use assms(1) service_ok_mono PruneSection_ok DeleteSection_ok ValidateSection_ok EnrollSection_ok in blast)+

lemma NewService_ok: "service_ok 0 (NewService config dnsNow now)"
proof -
  have "engine_options [Some (WithAutoDecider (Some autoDecision))]" by (auto simp: engine_options_def)
  from NewEngine_room [OF this] show ?thesis
    by (simp add: service_ok_def NewService_def seedRecentAuto_def Let_def rules_ok_def service_simps stable_def
        rule_values_def rule_set_def)
qed

definition service_run :: "Config \<Rightarrow> gotime \<Rightarrow> gotime \<Rightarrow> critical_section list \<Rightarrow> Service" where
  "service_run config dnsNow now sections = foldl run_section (NewService config dnsNow now) sections"

lemma service_run_ok: "length sections < 2 ^ 64 \<Longrightarrow> service_ok (length sections) (service_run config dnsNow now sections)"
proof (induction sections rule: rev_induct)
  case Nil
  then show ?case by (simp add: service_run_def NewService_ok)
next
  case (snoc c sections)
  then show ?case using run_section_ok [of "length sections" "service_run config dnsNow now sections" c]
    by (simp add: service_run_def)
qed

end
