(* ===== verification/App_Properties.thy ===== *)
theory App_Properties
  imports App_Invariant
begin

text \<open>
  What the service promises its callers: the invariant over every interleaving of critical
  sections, that an expired override never decides, that a repeated operation returns its first
  answer and has no second effect (locale \<open>idempotent\<close>), that a pairing validation is used at
  most once and only for what was validated, and that a service in server mode never changes.
\<close>

section \<open>Recorded answers\<close>

lemma update_new_keeps: "map_of xs k = None \<Longrightarrow> map_of xs x = Some r \<Longrightarrow> map_of (AList.update k v xs) x = Some r"
  by (auto simp: update_conv')

definition answers_kept :: "Service \<Rightarrow> Service \<Rightarrow> bool" where
  "answers_kept s s' \<longleftrightarrow> map_of (operations s) \<subseteq>\<^sub>m map_of (operations s') \<and> map_of (ruleOps s) \<subseteq>\<^sub>m map_of (ruleOps s') \<and>
     mode s' = mode s"

lemma answers_kept_same: "operations s' = operations s \<Longrightarrow> ruleOps s' = ruleOps s \<Longrightarrow> mode s' = mode s \<Longrightarrow> answers_kept s s'"
  by (simp add: answers_kept_def)

lemma answers_kept_refl [simp]: "answers_kept s s"
  by (simp add: answers_kept_def)

lemma answers_kept_trans: "answers_kept s s1 \<Longrightarrow> answers_kept s1 s2 \<Longrightarrow> answers_kept s s2"
  by (auto simp: answers_kept_def intro: map_le_trans)

lemma map_le_update: "map_of xs k = None \<Longrightarrow> map_of xs \<subseteq>\<^sub>m map_of (AList.update k v xs)"
  by (auto simp: map_le_def update_conv')

lemma connection_switch_mode: "connection_switch s action now = Ret s1 \<Longrightarrow> mode s1 = mode s"
  by (auto simp: connection_switch_def split: if_splits)

lemma ConnectionAction_kept: "answers_kept s (fst (ConnectionAction s action request now))"
proof (cases "\<exists>s1. mode s \<noteq> ''server'' \<and> validateOperationID (or_OperationID request) = Ret () \<and>
    map_of (operations s) (''connection:'' @ or_OperationID request) = None \<and> connection_switch s action now = Ret s1")
  case True
  then obtain s1 where s1: "mode s \<noteq> ''server''" "validateOperationID (or_OperationID request) = Ret ()"
    "map_of (operations s) (''connection:'' @ or_OperationID request) = None" "connection_switch s action now = Ret s1" by blast
  note f = connection_switch_frame [OF s1(4)] connection_switch_mode [OF s1(4)]
  show ?thesis using s1 f map_le_update [OF s1(3)] by (simp add: ConnectionAction_def answers_kept_def Let_def)
next
  case False
  then have "fst (ConnectionAction s action request now) = s"
    by (auto simp: ConnectionAction_def Let_def or_return_def split: outcome.split option.split)
  then show ?thesis by simp
qed

lemma SetSection_kept: "answers_kept s (run_section s (SetSection request now engineNow))"
proof (cases "SetRule_checks request now")
  case (Ret x)
  obtain action target expiresAt where x: "x = (action, target, expiresAt)" by (cases x)
  note c = SetRule_checks_props [OF Ret [unfolded x]]
  obtain u where u: "ParseTarget (Value target) = Ret u" using c(2) by blast
  obtain s' res where run: "SetRule_locked s request action target expiresAt engineNow = (s', res)" by fastforce
  have "answers_kept s s'" using c(1) u run
  proof (cases rule: SetRule_locked_cases)
    case (2 m r)
    then show ?thesis using map_le_update [OF 2(1)] by (simp add: answers_kept_def)
  qed simp
  with Ret x run show ?thesis by simp
qed simp_all

lemma DeleteSection_kept:
  assumes "stable (routes s)"
  shows "answers_kept s (run_section s (DeleteSection name request now))"
proof -
  obtain s' res where run: "DeleteRule_locked s name request now = (s', res)" by fastforce
  have "answers_kept s s'" using assms run
  proof (cases rule: DeleteRule_locked_cases)
    case (2 r row rest)
    then show ?thesis using map_le_update [OF 2(1)] by (simp add: answers_kept_def)
  next
    case (3 r matched)
    then show ?thesis using map_le_update [OF 3(1)] by (simp add: answers_kept_def)
  qed simp
  with run show ?thesis by simp
qed

lemma EnrollSection_kept: "answers_kept s (run_section s (EnrollSection request address now))"
  using map_le_update [of "operations s" "''enroll:'' @ en_OperationID request"]
  by (auto simp: Enroll_locked_def answers_kept_def Let_def split: option.split)

lemma run_section_kept:
  assumes "service_ok n s"
  shows "answers_kept s (run_section s c)"
proof (cases c)
  case (PruneSection now)
  then show ?thesis using prune_frame [of s now] by (simp add: answers_kept_def)
next
  case (DeleteSection name request now)
  then show ?thesis using DeleteSection_kept assms by (simp add: service_ok_def rules_ok_def)
next
  case (ValidateSection name validation now)
  then show ?thesis by (auto simp: answers_kept_def ValidatePairing_locked_def Let_def)
qed (use ConnectionAction_kept SetSection_kept EnrollSection_kept in \<open>simp_all add: answers_kept_def\<close>)

lemma run_kept:
  assumes "service_ok n s" "n + length cs < 2 ^ 64"
  shows "answers_kept s (foldl run_section s cs) \<and> service_ok (n + length cs) (foldl run_section s cs)"
  using assms
proof (induction cs rule: rev_induct)
  case (snoc c cs)
  then have IH: "answers_kept s (foldl run_section s cs)" "service_ok (n + length cs) (foldl run_section s cs)" by auto
  with snoc.prems show ?case
    using run_section_kept [OF IH(2)] run_section_ok [OF IH(2)] answers_kept_trans by fastforce
qed simp

section \<open>Idempotent operations\<close>

text \<open>
  The contract of an operation with an identifier: a successful execution is recorded, a recorded
  one is returned without any effect, and records are kept. \<open>execute s k a\<close> runs the operation
  with identifier \<open>k\<close> and the other arguments \<open>a\<close>.
\<close>

locale idempotent =
  fixes recorded :: "Service \<Rightarrow> string \<Rightarrow> 'r option"
    and execute :: "Service \<Rightarrow> string \<Rightarrow> 'a \<Rightarrow> Service \<times> 'r api_result"
  assumes success_recorded: "execute s k a = (s', Ret r) \<Longrightarrow> recorded s' k = Some r"
    and recorded_returned: "recorded s k = Some r \<Longrightarrow> execute s k a = (s, Ret r)"
    and kept: "recorded s k = Some r \<Longrightarrow> answers_kept s s' \<Longrightarrow> recorded s' k = Some r"
begin

lemma retry: "execute s k a = (s1, Ret r) \<Longrightarrow> answers_kept s1 s2 \<Longrightarrow> execute s2 k b = (s2, Ret r)"
  using success_recorded kept recorded_returned by blast

end

lemma or_return_Ret: "or_return r s k = (s', Ret y) \<Longrightarrow> \<exists>x. r = Ret x \<and> k x = (s', Ret y)"
  by (simp add: or_return_Ret_iff)

definition connection_recorded :: "Service \<Rightarrow> string \<Rightarrow> OperationResponse option" where
  "connection_recorded s k =
    (if mode s = ''server'' \<or> validateOperationID k \<noteq> Ret () then None else map_of (operations s) (''connection:'' @ k))"

definition connection_execute :: "Service \<Rightarrow> string \<Rightarrow> string \<times> gotime \<Rightarrow> Service \<times> OperationResponse api_result" where
  "connection_execute s k = (\<lambda>(action, now). ConnectionAction s action \<lparr> or_OperationID = k \<rparr> now)"

interpretation connections: idempotent connection_recorded connection_execute
proof unfold_locales
  fix s k and a :: "string \<times> gotime" and s' r
  assume run: "connection_execute s k a = (s', Ret r)"
  obtain action now where a: "a = (action, now)" by (cases a)
  note run' = run [unfolded connection_execute_def a prod.case ConnectionAction_def Let_def]
  from run' have v: "mode s \<noteq> ''server''" "validateOperationID k = Ret ()" by (auto split: if_splits dest: or_return_Ret)
  show "connection_recorded s' k = Some r"
  proof (cases "map_of (operations s) (''connection:'' @ k)")
    case None
    with run' v obtain s1 where s1: "connection_switch s action now = Ret s1" "mode s' = mode s1"
      "operations s' = AList.update (''connection:'' @ k) r (operations s1)"
      by (auto dest!: or_return_Ret)
    with v connection_switch_mode [OF s1(1)] show ?thesis by (simp add: connection_recorded_def update_conv')
  qed (use run' v in \<open>auto simp: connection_recorded_def\<close>)
next
  fix s k r and a :: "string \<times> gotime" assume "connection_recorded s k = Some r"
  then show "connection_execute s k a = (s, Ret r)"
    by (cases a) (auto simp: connection_recorded_def connection_execute_def ConnectionAction_def split: if_splits)
qed (auto simp: connection_recorded_def answers_kept_def map_le_def dom_def split: if_splits)

definition set_execute ::
  "Service \<Rightarrow> string \<Rightarrow> SetRuleRequest \<times> Action \<times> Target \<times> gotime option \<times> gotime \<Rightarrow> Service \<times> RuleMutationResponse api_result" where
  "set_execute s k = (\<lambda>(request, action, target, expiresAt, now).
     SetRule_locked s (request\<lparr>st_OperationID := k\<rparr>) action target expiresAt now)"

interpretation settings: idempotent "\<lambda>s k. map_of (ruleOps s) (''rule-set:'' @ k)" set_execute
proof unfold_locales
  fix s k a s' r assume run: "set_execute s k a = (s', Ret r)"
  show "map_of (ruleOps s') (''rule-set:'' @ k) = Some r"
  proof (cases "map_of (ruleOps s) (''rule-set:'' @ k)")
    case None
    with run show ?thesis
      by (auto simp: set_execute_def SetRule_locked_def Let_def update_conv' split: prod.splits if_splits dest!: or_return_Ret)
  qed (use run in \<open>auto simp: set_execute_def SetRule_locked_def Let_def split: prod.splits\<close>)
next
  fix s :: Service and k r a assume "map_of (ruleOps s) (''rule-set:'' @ k) = Some r"
  then show "set_execute s k a = (s, Ret r)"
    by (cases a) (simp add: set_execute_def SetRule_locked_def)
qed (auto simp: answers_kept_def map_le_def dom_def)

definition delete_execute ::
  "Service \<Rightarrow> string \<Rightarrow> string \<times> DeleteRuleRequest \<times> gotime \<Rightarrow> Service \<times> RuleMutationResponse api_result" where
  "delete_execute s k = (\<lambda>(name, request, now). DeleteRule_locked s name (request\<lparr>dr_OperationID := k\<rparr>) now)"

interpretation deletions: idempotent "\<lambda>s k. map_of (ruleOps s) (''rule-delete:'' @ k)" delete_execute
proof unfold_locales
  fix s k a s' r assume run: "delete_execute s k a = (s', Ret r)"
  show "map_of (ruleOps s') (''rule-delete:'' @ k) = Some r"
  proof (cases "map_of (ruleOps s) (''rule-delete:'' @ k)")
    case None
    with run show ?thesis
      by (auto simp: delete_execute_def DeleteRule_locked_def Let_def update_conv' split: prod.splits if_splits option.splits dest!: or_return_Ret)
  qed (use run in \<open>auto simp: delete_execute_def DeleteRule_locked_def Let_def split: prod.splits\<close>)
next
  fix s :: Service and k r a assume "map_of (ruleOps s) (''rule-delete:'' @ k) = Some r"
  then show "delete_execute s k a = (s, Ret r)"
    by (cases a) (simp add: delete_execute_def DeleteRule_locked_def)
qed (auto simp: answers_kept_def map_le_def dom_def)

definition enroll_execute :: "Service \<Rightarrow> string \<Rightarrow> EnrollRequest \<times> Addr \<times> gotime \<Rightarrow> Service \<times> OperationResponse api_result" where
  "enroll_execute s k = (\<lambda>(request, address, now). Enroll_locked s (request\<lparr>en_OperationID := k\<rparr>) address now)"

interpretation enrollments: idempotent "\<lambda>s k. map_of (operations s) (''enroll:'' @ k)" enroll_execute
proof unfold_locales
  fix s k a s' r assume run: "enroll_execute s k a = (s', Ret r)"
  show "map_of (operations s') (''enroll:'' @ k) = Some r"
    using run by (auto simp: enroll_execute_def Enroll_locked_def Let_def update_conv' split: prod.splits if_splits option.splits)
next
  fix s :: Service and k r a assume "map_of (operations s) (''enroll:'' @ k) = Some r"
  then show "enroll_execute s k a = (s, Ret r)"
    by (cases a) (simp add: enroll_execute_def Enroll_locked_def)
qed (auto simp: answers_kept_def map_le_def dom_def)

section \<open>Properties\<close>


definition sample_config :: Config where
  "sample_config = \<lparr> cfg_Mode = ''client'', cfg_Endpoint = ''203.0.113.10:9518'',
     cfg_Versions = \<lparr> Bundle = [], UI = [], Core = [], Scripts = [] \<rparr>, cfg_DNSSource = False,
     cfg_InitialDNS = \<lparr> CapturedAt = 0, NetworkGeneration = 0, Upstreams = [], SearchDomains = [], RoutingDomains = [], Metadata = [] \<rparr> \<rparr>"

definition sample_service :: Service where
  "sample_service = NewService sample_config 0 0"

definition sample_connected :: Service where
  "sample_connected = fst (connection_execute sample_service ''op-1'' (''connect'', 5))"

lemma sample_connects:
  "\<exists>r. connection_execute sample_service ''op-1'' (''connect'', 5) = (sample_connected, Ret r) \<and> op_State r = ''CONNECTED''"
proof -
  have "case snd (connection_execute sample_service ''op-1'' (''connect'', 5)) of Ret r \<Rightarrow> op_State r = ''CONNECTED'' | _ \<Rightarrow> False"
    by code_simp
  then show ?thesis unfolding sample_connected_def
    by (cases "connection_execute sample_service ''op-1'' (''connect'', 5)") (auto split: outcome.splits)
qed

lemma sample_connected_ok: "service_ok 1 sample_connected"
  using ConnectionAction_ok [OF NewService_ok [of sample_config 0 0], THEN service_ok_mono]
  by (simp add: sample_connected_def sample_service_def connection_execute_def)


text \<open>C27. Whatever the interleaving of requests, every manual rule has metadata under the text of its target and
  nothing else has, no target is both manual and recently automatic, the connection time is there
  exactly when connected, at most 128 validations are pending and every recorded answer is one
  of its operation.\<close>

theorem service_invariant:
  fixes config :: Config and dnsNow now :: gotime
  assumes "length sections < 2 ^ 64"
  defines "s \<equiv> service_run config dnsNow now sections"
  shows "engine_ok (routes s) \<and> (\<lambda>r. Value (RTarget r)) ` rule_set (routes s) = fst ` set (ruleMeta s) \<and>
    (\<forall>row \<in> set (recentAuto s). ar_Target row \<notin> fst ` set (ruleMeta s)) \<and>
    (connected s \<noteq> None \<longleftrightarrow> state s = ''CONNECTED'') \<and> (state s = ''CONNECTED'' \<or> state s = ''DISCONNECTED'') \<and>
    length (pairingValidations s) \<le> 128 \<and> list_all op_answer (operations s) \<and> list_all rule_answer (ruleOps s)"
proof -
  have "service_ok (length sections) s" unfolding s_def by (rule service_run_ok [OF assms(1)])
  then show ?thesis
    by (auto simp: service_ok_def rules_ok_def engine_room_def rule_values_def recent_ok_def connection_ok_def pairing_ok_def answers_ok_def)
qed

theorem service_invariant_witness:
  "let s = service_run sample_config 0 0 [ConnectionSection ''connect'' \<lparr> or_OperationID = ''op-1'' \<rparr> 5] in
   (connected s \<noteq> None \<longleftrightarrow> state s = ''CONNECTED'') \<and> state s = ''CONNECTED'' \<and>
   (\<lambda>r. Value (RTarget r)) ` rule_set (routes s) = fst ` set (ruleMeta s)"
proof -
  let ?cs = "[ConnectionSection ''connect'' \<lparr> or_OperationID = ''op-1'' \<rparr> 5]"
  have "state (service_run sample_config 0 0 ?cs) = ''CONNECTED''" by code_simp
  then show ?thesis using service_invariant [of ?cs sample_config 0 0] unfolding Let_def by simp
qed

lemma not_meta_expired: "(\<forall>e. meta_expiresAt m = Some e \<longrightarrow> now < e) \<longleftrightarrow> \<not> meta_expired m now"
  by (auto simp: meta_expired_def split: option.split)

text \<open>An expired override never decides: explaining a target at a time first removes exactly the rules whose
  expiry has come, and the decision is that of the rules that are left.\<close>

theorem expired_override_never_decides:
  assumes "length sections < 2 ^ 64" and s: "s = service_run config dnsNow start sections"
    and run: "ExplainRule s target now = (s', result)"
  shows "rule_set (routes s') = {r \<in> rule_set (routes s). \<forall>e. meta_expiresAt (lookupMeta s (Value (RTarget r))) = Some e \<longrightarrow> now < e} \<and>
    (\<forall>x. result = Ret x \<longrightarrow> (\<exists>t d. ParseTarget target = Ret t \<and> Explain (routes s') target = Ret d \<and>
       rx_FinalResult x = EffectiveAction d \<and> rx_PrimarySource x = DSource d \<and>
       (\<forall>r. MatchedRule d = Some r \<longleftrightarrow> governs (routes s') t r) \<and>
       (\<forall>r. MatchedRule d = Some r \<longrightarrow> (\<forall>e. meta_expiresAt (lookupMeta s (Value (RTarget r))) = Some e \<longrightarrow> now < e))))"
proof -
  have ok: "rules_ok (length sections) s" "recent_ok s" using service_run_ok [OF assms(1)] s by (auto simp: service_ok_def)
  note p = prune_exact [OF ok, of now]
  have s': "s' = pruneExpiredRules s now" using run by (auto simp: ExplainRule_def Let_def or_return_def split: outcome.splits)
  have rs: "rule_set (routes s') = {r \<in> rule_set (routes s). \<not> meta_expired (lookupMeta s (Value (RTarget r))) now}"
    using p s' by simp
  moreover have "\<exists>t d. ParseTarget target = Ret t \<and> Explain (routes s') target = Ret d \<and>
      rx_FinalResult x = EffectiveAction d \<and> rx_PrimarySource x = DSource d \<and> (\<forall>r. MatchedRule d = Some r \<longleftrightarrow> governs (routes s') t r) \<and>
      (\<forall>r. MatchedRule d = Some r \<longrightarrow> \<not> meta_expired (lookupMeta s (Value (RTarget r))) now)" if x: "result = Ret x" for x
  proof -
    from run x s' obtain d where d: "Explain (routes s') target = Ret d" "rx_FinalResult x = EffectiveAction d" "rx_PrimarySource x = DSource d"
      by (auto simp: ExplainRule_def Let_def dest!: or_return_Ret)
    then obtain t where t: "ParseTarget target = Ret t" by (auto simp: Explain_def)
    have "engine_ok (routes s')" using p s' by (simp add: rules_ok_def engine_room_def)
    from explain_match [OF this t d(1)] have g: "MatchedRule d = Some r \<longleftrightarrow> governs (routes s') t r" for r by simp
    have "\<not> meta_expired (lookupMeta s (Value (RTarget r))) now" if "MatchedRule d = Some r" for r
      using g [of r] that rs by (auto simp: governs_def)
    with t d g show ?thesis by blast
  qed
  ultimately show ?thesis unfolding not_meta_expired by blast
qed

definition sample_override :: SetRuleRequest where
  "sample_override = \<lparr> st_OperationID = ''op-3'', st_ID = [], st_Target = ''10.0.0.0/8'', st_TargetType = [], st_Result = ''block'',
     st_ExpiresAt = Some 100, st_Note = [], st_ExpectedRevision = None \<rparr>"

definition sample_overridden :: Service where
  "sample_overridden = service_run sample_config 0 0 [SetSection sample_override 1 1]"

theorem expired_override_never_decides_witness:
  "rule_set (routes sample_overridden) \<noteq> {} \<and> rule_set (routes (fst (ExplainRule sample_overridden ''10.1.2.3'' 200))) = {} \<and>
   rule_set (routes (fst (ExplainRule sample_overridden ''10.1.2.3'' 99))) = rule_set (routes sample_overridden)"
proof -
  let ?s = sample_overridden
  have "rules (routes ?s) \<noteq> []" by code_simp
  moreover have "list_all (\<lambda>r. meta_expired (lookupMeta ?s (Value (RTarget r))) 200) (map snd (rules (routes ?s)))" by code_simp
  moreover have "list_all (\<lambda>r. \<not> meta_expired (lookupMeta ?s (Value (RTarget r))) 99) (map snd (rules (routes ?s)))" by code_simp
  moreover have "rule_set (routes (fst (ExplainRule ?s ''10.1.2.3'' now))) =
      {r \<in> rule_set (routes ?s). \<not> meta_expired (lookupMeta ?s (Value (RTarget r))) now}" for now
    unfolding not_meta_expired [symmetric]
    by (rule expired_override_never_decides [OF _ sample_overridden_def surjective_pairing, THEN conjunct1]) simp
  ultimately show ?thesis by (auto simp: rule_set_def list_all_iff)
qed

section \<open>Methods and sections\<close>

text \<open>The methods of the interface, with their readings of the clock.\<close>

datatype api_call =
  StatusCall gotime gotime
| ConnectionCall string OperationRequest gotime
| ListCall RuleFilter gotime
| SetCall SetRuleRequest gotime gotime gotime
| DeleteCall string DeleteRuleRequest gotime gotime
| ExplainCall string gotime
| RefreshCall OperationRequest "Snapshot dns_result" gotime
| DoctorCall gotime gotime gotime
| ValidateCall PairingValidationRequest "bytes option" gotime gotime
| EnrollCall EnrollRequest gotime

fun api_state :: "Service \<Rightarrow> api_call \<Rightarrow> Service" where
  "api_state s (StatusCall t u) = fst (Service_Status s t u)"
| "api_state s (ConnectionCall action request t) = fst (ConnectionAction s action request t)"
| "api_state s (ListCall f t) = fst (ListRules s f t)"
| "api_state s (SetCall request t u v) = fst (Service_SetRule s request t u v)"
| "api_state s (DeleteCall name request t u) = fst (Service_DeleteRule s name request t u)"
| "api_state s (ExplainCall target t) = fst (ExplainRule s target t)"
| "api_state s (RefreshCall request source t) = fst (RefreshDNS s request source t)"
| "api_state s (DoctorCall t u v) = fst (RunDoctor s t u v)"
| "api_state s (ValidateCall request random t u) = fst (ValidatePairing s request random t u)"
| "api_state s (EnrollCall request t) = fst (Enroll s request t)"

lemma Service_SetRule_sections:
  "\<exists>cs. length cs \<le> 2 \<and> fst (Service_SetRule s request t u v) = foldl run_section s cs"
proof (cases "mode s = ''server'' \<or> validateOperationID (st_OperationID request) \<noteq> Ret ()")
  case True
  then have "fst (Service_SetRule s request t u v) = s"
    by (cases "validateOperationID (st_OperationID request)") (auto simp: Service_SetRule_def)
  then show ?thesis by (intro exI [of _ "[]"]) simp
next
  case False
  show ?thesis
  proof (cases "SetRule_checks request u")
    case (Ret x)
    with False show ?thesis by (intro exI [of _ "[PruneSection t, SetSection request u v]"]) (cases x, simp add: Service_SetRule_def)
  qed (use False in \<open>auto simp: Service_SetRule_def intro!: exI [of _ "[PruneSection t]"]\<close>)
qed

lemma Service_DeleteRule_sections:
  "\<exists>cs. length cs \<le> 2 \<and> fst (Service_DeleteRule s name request t u) = foldl run_section s cs"
proof (cases "mode s = ''server'' \<or> validateOperationID (dr_OperationID request) \<noteq> Ret ()")
  case True
  then have "fst (Service_DeleteRule s name request t u) = s"
    by (cases "validateOperationID (dr_OperationID request)") (auto simp: Service_DeleteRule_def)
  then show ?thesis by (intro exI [of _ "[]"]) simp
qed (auto simp: Service_DeleteRule_def intro!: exI [of _ "[PruneSection t, DeleteSection name request u]"])

lemma RefreshDNS_sections: "\<exists>cs. length cs \<le> 2 \<and> fst (RefreshDNS s request source t) = foldl run_section s cs"
proof (cases "mode s = ''server'' \<or> validateOperationID (or_OperationID request) \<noteq> Ret () \<or> \<not> dnsSource s")
  case True
  then have "fst (RefreshDNS s request source t) = s"
    by (cases "validateOperationID (or_OperationID request)") (auto simp: RefreshDNS_def)
  then show ?thesis by (intro exI [of _ "[]"]) simp
qed (auto simp: RefreshDNS_def Let_def split: prod.split intro!: exI [of _ "[DNSSection source t, RevisionSection]"])

lemma ValidatePairing_sections: "\<exists>cs. length cs \<le> 2 \<and> fst (ValidatePairing s request random t u) = foldl run_section s cs"
proof (cases "\<exists>a b. mode s \<noteq> ''server'' \<and> ParseAddr (strings_TrimSpace (pq_ServerIP request)) = Some a \<and>
    pq_FileName request = ''wg-pairing.wgp'' \<and> (pq_Fingerprint request = [] \<or> pq_Fingerprint request = demoFingerprint) \<and> random = Some b")
  case False
  then have "fst (ValidatePairing s request random t u) = s"
    by (auto simp: ValidatePairing_def split: option.split)
  then show ?thesis by (intro exI [of _ "[]"]) simp
next
  case True
  then obtain a b where v: "mode s \<noteq> ''server''" "ParseAddr (strings_TrimSpace (pq_ServerIP request)) = Some a"
    "pq_FileName request = ''wg-pairing.wgp''" "pq_Fingerprint request = [] \<or> pq_Fingerprint request = demoFingerprint" "random = Some b" by blast
  let ?val = "\<lparr> val_serverIP = Addr_String a, val_fileName = pq_FileName request, val_fingerprint = demoFingerprint,
    val_expiresAt = t + pairing_window \<rparr>"
  show ?thesis
    by (rule exI [of _ "[ValidateSection (hex_EncodeToString b) ?val u]"])
       (use v in \<open>auto simp: ValidatePairing_def Let_def or_return_def split: prod.split outcome.split\<close>)
qed

lemma Enroll_sections: "\<exists>cs. length cs \<le> 2 \<and> fst (Enroll s request t) = foldl run_section s cs"
proof (cases "fst (Enroll s request t) = s")
  case True
  then show ?thesis by (intro exI [of _ "[]"]) simp
next
  case False
  then obtain a where "fst (Enroll s request t) = fst (Enroll_locked s request a t)"
    by (auto simp: Enroll_def or_return_def split: outcome.splits option.splits if_splits)
  then show ?thesis by (intro exI [of _ "[EnrollSection request a t]"]) simp
qed

text \<open>Every method is a sequence of at most two critical sections, so what holds of every interleaving of
  sections holds of concurrent calls.\<close>

lemma api_state_sections: "\<exists>cs. length cs \<le> 2 \<and> api_state s call = foldl run_section s cs"
proof (cases call)
  case (StatusCall t u)
  then show ?thesis by (intro exI [of _ "[PruneSection t]"]) (simp add: Service_Status_def Let_def)
next
  case (ConnectionCall action request t)
  then show ?thesis by (intro exI [of _ "[ConnectionSection action request t]"]) simp
next
  case (ListCall f t)
  then show ?thesis by (intro exI [of _ "[PruneSection t]"]) (simp add: ListRules_def Let_def)
next
  case (SetCall request t u v)
  with Service_SetRule_sections show ?thesis by simp
next
  case (DeleteCall name request t u)
  with Service_DeleteRule_sections show ?thesis by simp
next
  case (ExplainCall target t)
  then show ?thesis
    by (intro exI [of _ "[PruneSection t]"]) (simp add: ExplainRule_def Let_def or_return_def split: outcome.split)
next
  case (RefreshCall request source t)
  with RefreshDNS_sections show ?thesis by simp
next
  case (DoctorCall t u v)
  then show ?thesis by (intro exI [of _ "[PruneSection t]"]) (simp add: RunDoctor_def Service_Status_def Let_def)
next
  case (ValidateCall request random t u)
  with ValidatePairing_sections show ?thesis by simp
next
  case (EnrollCall request t)
  with Enroll_sections show ?thesis by simp
qed

section \<open>Server mode\<close>

definition inert :: "Service \<Rightarrow> bool" where
  "inert s \<longleftrightarrow> mode s = ''server'' \<and> ruleMeta s = [] \<and> operations s = [] \<and> pairingValidations s = []"

lemma inert_prune: "inert s \<Longrightarrow> pruneExpiredRules s now = s"
  by (simp add: inert_def pruneExpiredRules_def)

lemma inert_Enroll: "inert s \<Longrightarrow> fst (Enroll s request t) = s"
  by (auto simp: inert_def Enroll_def Enroll_locked_def or_return_def split: outcome.split option.split)

lemma inert_call: "inert s \<Longrightarrow> api_state s call = s"
proof (cases call)
  case (EnrollCall request t)
  then show "inert s \<Longrightarrow> api_state s call = s" using inert_Enroll by simp
qed (auto simp: Service_Status_def ListRules_def ExplainRule_def RunDoctor_def inert_prune Let_def or_return_def
    ConnectionAction_def Service_SetRule_def Service_DeleteRule_def RefreshDNS_def ValidatePairing_def inert_def [THEN iffD1]
    split: outcome.split)

text \<open>A service in server mode never changes, whatever is asked of it: no route, no connection, no enrolment.\<close>

theorem server_mode_inert:
  assumes "strings_ToLower (strings_TrimSpace (cfg_Mode config)) = ''server''"
  shows "foldl api_state (NewService config dnsNow now) calls = NewService config dnsNow now"
proof -
  have "inert (NewService config dnsNow now)"
    using assms by (simp add: inert_def NewService_def seedRecentAuto_def Let_def)
  then show ?thesis by (induction calls) (simp_all add: inert_call)
qed

theorem server_mode_inert_witness:
  "let config = sample_config\<lparr>cfg_Mode := '' Server''\<rparr> in
   mode (NewService config 0 0) = ''server'' \<and>
   foldl api_state (NewService config 0 0) [ConnectionCall ''connect'' \<lparr> or_OperationID = ''op-1'' \<rparr> 5] = NewService config 0 0"
proof -
  have "strings_ToLower (strings_TrimSpace (cfg_Mode (sample_config\<lparr>cfg_Mode := '' Server''\<rparr>))) = ''server''" by code_simp
  then show ?thesis
    using server_mode_inert [of "sample_config\<lparr>cfg_Mode := '' Server''\<rparr>" 0 0 "[ConnectionCall ''connect'' \<lparr> or_OperationID = ''op-1'' \<rparr> 5]"]
    by (simp add: Let_def NewService_def seedRecentAuto_def)
qed

section \<open>Pairing\<close>

lemma Enroll_fresh:
  assumes "Enroll s request now = (s', Ret r)" "map_of (operations s) (''enroll:'' @ en_OperationID request) = None"
  obtains a v where "en_FingerprintConfirmed request" "en_AuthorizationConfirmed request"
    "ParseAddr (strings_TrimSpace (en_ServerIP request)) = Some a"
    "map_of (pairingValidations s) (en_ValidationID request) = Some v" "now < val_expiresAt v"
    "val_serverIP v = Addr_String a" "val_fileName v = en_FileName request" "val_fingerprint v = en_Fingerprint request"
    "endpoint s' = AddrPort_String a 9518"
    "pairingValidations s' = AList.delete (en_ValidationID request) (pairingValidations s)"
proof -
  from assms(1) obtain a where a: "en_FingerprintConfirmed request" "en_AuthorizationConfirmed request"
    "ParseAddr (strings_TrimSpace (en_ServerIP request)) = Some a" "Enroll_locked s request a now = (s', Ret r)"
    by (auto simp: Enroll_def split: if_splits option.splits dest!: or_return_Ret)
  from a(4) assms(2) obtain v where "map_of (pairingValidations s) (en_ValidationID request) = Some v" "now < val_expiresAt v"
    "val_serverIP v = Addr_String a" "val_fileName v = en_FileName request" "val_fingerprint v = en_Fingerprint request"
    "endpoint s' = AddrPort_String a 9518"
    "pairingValidations s' = AList.delete (en_ValidationID request) (pairingValidations s)"
    by (auto simp: Enroll_locked_def Let_def split: option.splits if_splits)
  with a that show thesis by blast
qed

text \<open>Only a validation brings an identifier back.\<close>

lemma ConnectionAction_pairings: "pairingValidations (fst (ConnectionAction s action request now)) = pairingValidations s"
  using connection_switch_frame(5) [of s action now]
  by (auto simp: ConnectionAction_def Let_def or_return_def split: outcome.split option.split)

lemma SetSection_pairings: "pairingValidations (run_section s (SetSection request now engineNow)) = pairingValidations s"
  by (auto simp: SetRule_locked_def Let_def or_return_def split: outcome.split option.split prod.split)

lemma DeleteSection_pairings: "pairingValidations (run_section s (DeleteSection name request now)) = pairingValidations s"
  by (auto simp: DeleteRule_locked_def Let_def or_return_def split: outcome.split option.split prod.split)

lemma used_stays_used:
  assumes "map_of (pairingValidations s) x = None" "\<forall>v t. c \<noteq> ValidateSection x v t"
  shows "map_of (pairingValidations (run_section s c)) x = None"
proof (cases c)
  case (PruneSection t)
  then show ?thesis using assms(1) prune_frame [of s t] by simp
next
  case (ValidateSection name v t)
  with assms have "x \<noteq> name" "x \<notin> fst ` set (pairingValidations s)" by (auto simp: map_of_eq_None_iff)
  then have "map_of (filter (\<lambda>(name, v). t < val_expiresAt v) (pairingValidations s)) x = None"
    by (force simp: map_of_eq_None_iff)
  with \<open>x \<noteq> name\<close> ValidateSection show ?thesis by (simp add: ValidatePairing_locked_def Let_def update_conv')
next
  case (EnrollSection request a t)
  with assms(1) show ?thesis by (auto simp: Enroll_locked_def Let_def delete_conv' split: option.split)
qed (use assms(1) ConnectionAction_pairings SetSection_pairings DeleteSection_pairings in simp_all)

lemma used_stays_used_run:
  "map_of (pairingValidations s) x = None \<Longrightarrow> \<forall>c \<in> set cs. \<forall>v t. c \<noteq> ValidateSection x v t \<Longrightarrow>
   map_of (pairingValidations (foldl run_section s cs)) x = None"
  by (induction cs arbitrary: s) (simp_all add: used_stays_used)

text \<open>C29. Enrolment takes a pending validation of the same server, file and fingerprint, before its expiry and with
  both confirmations, and uses it up: until the identifier is issued again, another enrolment
  with it fails, whatever runs in between.\<close>

theorem validation_used_once:
  assumes "Enroll s request now = (s', Ret r)" "map_of (operations s) (''enroll:'' @ en_OperationID request) = None"
    and "\<forall>c \<in> set sections. \<forall>v t. c \<noteq> ValidateSection (en_ValidationID request) v t"
    and later: "s2 = foldl run_section s' sections"
    and "map_of (operations s2) (''enroll:'' @ en_OperationID request2) = None" "en_ValidationID request2 = en_ValidationID request"
  shows "(\<exists>a v. ParseAddr (strings_TrimSpace (en_ServerIP request)) = Some a \<and>
      map_of (pairingValidations s) (en_ValidationID request) = Some v \<and> now < val_expiresAt v \<and> val_serverIP v = Addr_String a \<and>
      val_fileName v = en_FileName request \<and> val_fingerprint v = en_Fingerprint request \<and> en_FingerprintConfirmed request \<and>
      en_AuthorizationConfirmed request \<and> endpoint s' = AddrPort_String a 9518) \<and>
    (\<forall>r2. snd (Enroll s2 request2 now2) \<noteq> Ret r2)"
proof -
  obtain a v where e: "en_FingerprintConfirmed request" "en_AuthorizationConfirmed request"
    "ParseAddr (strings_TrimSpace (en_ServerIP request)) = Some a"
    "map_of (pairingValidations s) (en_ValidationID request) = Some v" "now < val_expiresAt v"
    "val_serverIP v = Addr_String a" "val_fileName v = en_FileName request" "val_fingerprint v = en_Fingerprint request"
    "endpoint s' = AddrPort_String a 9518"
    "pairingValidations s' = AList.delete (en_ValidationID request) (pairingValidations s)"
    using Enroll_fresh [OF assms(1,2)] .
  then have "map_of (pairingValidations s') (en_ValidationID request) = None" by (simp add: delete_conv')
  then have "map_of (pairingValidations s2) (en_ValidationID request) = None"
    unfolding later by (rule used_stays_used_run) (use assms(3) in blast)
  then have "snd (Enroll s2 request2 now2) \<noteq> Ret r2" for r2
    using Enroll_fresh [OF _ assms(5)] assms(6) by (metis option.distinct(1) prod.collapse)
  with e show ?thesis by blast
qed

definition sample_enroll :: "string \<Rightarrow> EnrollRequest" where
  "sample_enroll op = \<lparr> en_OperationID = op, en_ValidationID = replicate 32 (CHR ''0''), en_ServerIP = ''198.51.100.7'',
     en_FileName = ''wg-pairing.wgp'', en_Fingerprint = demoFingerprint, en_FingerprintConfirmed = True,
     en_AuthorizationConfirmed = True \<rparr>"

definition sample_validated :: Service where
  "sample_validated = fst (ValidatePairing sample_service
     \<lparr> pq_ServerIP = '' 198.51.100.7'', pq_FileName = ''wg-pairing.wgp'', pq_Fingerprint = [] \<rparr> (Some (replicate 16 0)) 1 1)"

theorem validation_used_once_witness:
  "endpoint (fst (Enroll sample_validated (sample_enroll ''op-4'') 2)) = ''198.51.100.7:9518'' \<and>
   (\<forall>r2. snd (Enroll (fst (Enroll sample_validated (sample_enroll ''op-4'') 2)) (sample_enroll ''op-5'') 3) \<noteq> Ret r2)"
proof -
  let ?s' = "fst (Enroll sample_validated (sample_enroll ''op-4'') 2)"
  have "case snd (Enroll sample_validated (sample_enroll ''op-4'') 2) of Ret r \<Rightarrow> True | _ \<Rightarrow> False" by code_simp
  then obtain r where "Enroll sample_validated (sample_enroll ''op-4'') 2 = (?s', Ret r)"
    by (cases "Enroll sample_validated (sample_enroll ''op-4'') 2") (auto split: outcome.splits)
  moreover have "map_of (operations sample_validated) (''enroll:'' @ en_OperationID (sample_enroll ''op-4'')) = None" by code_simp
  moreover have "map_of (operations ?s') (''enroll:'' @ en_OperationID (sample_enroll ''op-5'')) = None" by code_simp
  ultimately have "\<forall>r2. snd (Enroll ?s' (sample_enroll ''op-5'') 3) \<noteq> Ret r2"
    using validation_used_once [of sample_validated "sample_enroll ''op-4''" 2 ?s' r "[]" ?s' "sample_enroll ''op-5''" 3]
    by (simp add: sample_enroll_def)
  moreover have "endpoint ?s' = ''198.51.100.7:9518''" by code_simp
  ultimately show ?thesis by blast
qed

end
