(* ===== verification/Platform_Resolver.thy ===== *)
theory Platform_Resolver
  imports App_Service
begin

text \<open>
  \<^verbatim>\<open>internal/platform/resolver.go\<close>: the resolver configuration file as a snapshot for the private
  DNS manager. The contents of the file are an argument. The \<^verbatim>\<open>bufio.Scanner\<close> of the standard library
  returns the lines without their ends, and stops at a line of 64 KiB or more.
\<close>

section \<open>Definitions\<close>

definition parseNameserver :: "string \<Rightarrow> (Addr \<times> uint16) option" where
  "parseNameserver value =
    (case ParseAddr value of
       Some address \<Rightarrow> Some (Unmap address, 53)
     | None \<Rightarrow>
       (case ParseAddrPort value of
          None \<Rightarrow> None
        | Some (a, port) \<Rightarrow> Some (Unmap a, port)))"

text \<open>The lines of a text: split at the line feeds, without a final empty one, less one carriage return each.\<close>

definition drop_CR :: "string \<Rightarrow> string" where
  "drop_CR l = (if l \<noteq> [] \<and> last l = CHR 0x0D then butlast l else l)"

definition text_lines :: "string \<Rightarrow> string list" where
  "text_lines contents =
    (let ls = strings_Split contents (CHR 0x0A) in if last ls = [] then butlast ls else ls)"

definition MaxScanTokenSize :: nat where
  "MaxScanTokenSize = 64 * 1024"

text \<open>The scanner: the tokens up to the first line that is too long, and whether there is one.\<close>

fun scan_tokens :: "string list \<Rightarrow> string list \<times> bool" where
  "scan_tokens [] = ([], False)"
| "scan_tokens (l # ls) =
    (if length l \<ge> MaxScanTokenSize then ([], True)
     else let (tokens, long) = scan_tokens ls in (drop_CR l # tokens, long))"

text \<open>One turn of the loop of \<^verbatim>\<open>ParseResolverConfig\<close>, on the snapshot and the count of local servers.\<close>

definition add_domains :: "Snapshot \<Rightarrow> string list \<Rightarrow> Snapshot" where
  "add_domains snap domains =
    snap\<lparr>SearchDomains := SearchDomains snap @
      filter (\<lambda>d. d \<noteq> []) (map (\<lambda>d. strings_TrimSuffix (strings_ToLower d) ''.'') domains)\<rparr>"

definition parse_line :: "Snapshot \<times> nat \<Rightarrow> string \<Rightarrow> Snapshot \<times> nat" where
  "parse_line acc text =
    (case acc of (snap, localOnly) \<Rightarrow>
     let line = strings_TrimSpace (takeWhile (\<lambda>c. c \<noteq> CHR ''#'') text); words = strings_Fields line in
     if line = [] \<or> length words < 2 then (snap, localOnly)
     else if hd words = ''nameserver'' then
       (case parseNameserver (words ! 1) of
          None \<Rightarrow> (snap, localOnly)
        | Some (address, port) \<Rightarrow>
            if IsLoopback address then (snap, localOnly + 1)
            else (snap\<lparr>Upstreams := Upstreams snap @
                    [\<lparr> Address = Addr_String address, Port = port, Transport = ''system-policy'', InterfaceName = [],
                       InterfaceIndex = 0, Scope = [] \<rparr>]\<rparr>, localOnly))
     else if hd words = ''search'' \<or> hd words = ''domain'' then (add_domains snap (tl words), localOnly)
     else (snap, localOnly))"

definition emptySnapshot :: Snapshot where
  "emptySnapshot = \<lparr> CapturedAt = 0, NetworkGeneration = 0, Upstreams = [], SearchDomains = [], RoutingDomains = [], Metadata = [] \<rparr>"

text \<open>The snapshot is returned with the error when there is no usable upstream.\<close>

definition ParseResolverConfig :: "string \<Rightarrow> Snapshot \<times> unit dns_result" where
  "ParseResolverConfig contents =
    (let (tokens, long) = scan_tokens (text_lines contents);
         (snap, localOnly) = foldl parse_line (emptySnapshot, 0) tokens;
         snap' = (if localOnly > 0 then snap\<lparr>Metadata := AList.update ''local_proxy_omitted'' (show_nat localOnly) (Metadata snap)\<rparr>
                  else snap) in
     if long then (emptySnapshot, Err ''scan resolver snapshot: bufio.Scanner: token too long'')
     else if Upstreams snap' = [] then
       (snap', Err (if localOnly > 0 then ''resolver exposes only a local proxy; native per-link expansion is required''
                    else ''resolver snapshot has no usable upstreams''))
     else (snap', Ret ()))"

text \<open>\<open>file\<close> is what reading the file gives, \<open>cancelled\<close> the error of the context.\<close>

definition ReadSnapshot :: "string \<Rightarrow> string option \<Rightarrow> string dns_result \<Rightarrow> gotime \<Rightarrow> Snapshot dns_result" where
  "ReadSnapshot path0 cancelled file now =
    (case cancelled of
       Some err \<Rightarrow> Err err
     | None \<Rightarrow>
         let path = (if path0 = [] then ''/etc/resolv.conf'' else path0) in
         obind (omap_err (\<lambda>err. ''read resolver snapshot: '' @ err) file) (\<lambda>data.
         let (snap, result) = ParseResolverConfig data in
         obind result (\<lambda>_.
         Ret (snap\<lparr>CapturedAt := now,
                   Metadata := AList.update ''adapter'' ''read-only-resolv-conf'' (AList.update ''source'' path (Metadata snap))\<rparr>))))"

section \<open>What the snapshot holds\<close>

text \<open>The upstream of a line, and the local servers of one.\<close>

definition line_server :: "string \<Rightarrow> (Addr \<times> uint16) option" where
  "line_server text =
    (let words = strings_Fields (strings_TrimSpace (takeWhile (\<lambda>c. c \<noteq> CHR ''#'') text)) in
     if length words \<ge> 2 \<and> hd words = ''nameserver'' then parseNameserver (words ! 1) else None)"

definition server_upstream :: "Addr \<times> uint16 \<Rightarrow> Upstream" where
  "server_upstream = (\<lambda>(address, port).
     \<lparr> Address = Addr_String address, Port = port, Transport = ''system-policy'', InterfaceName = [], InterfaceIndex = 0, Scope = [] \<rparr>)"

definition usable :: "string list \<Rightarrow> (Addr \<times> uint16) list" where
  "usable texts = filter (\<lambda>(a, p). \<not> IsLoopback a) (List.map_filter line_server texts)"

lemma fields_nonempty: "strings_Fields [] = []"
  by (simp add: strings_Fields.simps)

lemma parse_line_upstreams:
  "Upstreams (fst (parse_line (snap, n) text)) = Upstreams snap @ map server_upstream (usable [text])"
proof -
  let ?line = "strings_TrimSpace (takeWhile (\<lambda>c. c \<noteq> CHR ''#'') text)"
  show ?thesis
    by (cases "?line = []")
       (auto simp: parse_line_def usable_def line_server_def server_upstream_def add_domains_def Let_def map_filter_def
          fields_nonempty split: option.split)
qed

lemma fold_upstreams:
  "Upstreams (fst (foldl parse_line (snap, n) texts)) = Upstreams snap @ map server_upstream (usable texts)"
proof (induction texts arbitrary: snap n)
  case (Cons t texts)
  obtain snap' n' where p: "parse_line (snap, n) t = (snap', n')" by force
  have "Upstreams snap' = Upstreams snap @ map server_upstream (usable [t])" using parse_line_upstreams [of snap n t] p by simp
  moreover have "usable (t # texts) = usable [t] @ usable texts" by (simp add: usable_def map_filter_def)
  ultimately show ?case using Cons p by simp
qed (simp add: usable_def map_filter_def)

lemma Parse_upstreams:
  assumes "ParseResolverConfig contents = (snap, Ret ())"
  shows "Upstreams snap = map server_upstream (usable (fst (scan_tokens (text_lines contents))))"
    "Upstreams snap \<noteq> []"
proof -
  obtain tokens long where t: "scan_tokens (text_lines contents) = (tokens, long)" by force
  obtain s n where f: "foldl parse_line (emptySnapshot, 0) tokens = (s, n)" by force
  have "Upstreams s = map server_upstream (usable tokens)"
    using fold_upstreams [of emptySnapshot 0 tokens] f by (simp add: emptySnapshot_def)
  with assms t f show "Upstreams snap = map server_upstream (usable (fst (scan_tokens (text_lines contents))))" "Upstreams snap \<noteq> []"
    by (auto simp: ParseResolverConfig_def Let_def split: if_splits)
qed

lemma parseNameserver_ok: "parseNameserver v = Some (a, p) \<Longrightarrow> addr_ok a \<and> \<not> Addr_Is4In6 a"
proof -
  have unmap: "addr_ok b \<Longrightarrow> addr_ok (Unmap b) \<and> \<not> Addr_Is4In6 (Unmap b)" for b using Unmap_ok by blast
  have "ParseAddrPort v = Some (b, q) \<Longrightarrow> addr_ok b" for b q
    using ParseAddr_ok by (auto simp: ParseAddrPort_def split: option.splits if_splits)
  then show "parseNameserver v = Some (a, p) \<Longrightarrow> addr_ok a \<and> \<not> Addr_Is4In6 a"
    using unmap ParseAddr_ok by (auto simp: parseNameserver_def split: option.splits)
qed

lemma usable_ok: "(a, p) \<in> set (usable texts) \<Longrightarrow> addr_ok a \<and> \<not> Addr_Is4In6 a \<and> \<not> IsLoopback a"
  using parseNameserver_ok by (auto simp: usable_def map_filter_def line_server_def Let_def split: if_splits)

lemma ReadSnapshot_upstreams:
  assumes "ReadSnapshot path None (Ret contents) read = Ret snap"
  shows "Upstreams snap = map server_upstream (usable (fst (scan_tokens (text_lines contents)))) \<and> Upstreams snap \<noteq> []"
proof -
  obtain s r where p: "ParseResolverConfig contents = (s, r)" by force
  with assms have "r = Ret ()" "Upstreams snap = Upstreams s" by (auto simp: ReadSnapshot_def Let_def)
  with Parse_upstreams [of contents s] p show ?thesis by simp
qed

lemma Refresh_healthy:
  assumes "Upstreams snap \<noteq> []" "RefreshFrom m (Some (Ret snap)) now = (m', st, res)"
  shows "res = Ret () \<and> \<not> degraded m' \<and> Private_DNS.generation m' = Private_DNS.generation m + 1 \<and> cache m' = [] \<and>
    Upstreams (snapshot m') = Upstreams snap"
  using assms by (auto simp: RefreshFrom_def Refresh_def updateHealthLocked_def stampSnapshot_def Let_def split: if_splits)

section \<open>Properties\<close>


definition sample_resolv :: string where
  "sample_resolv = ''nameserver 127.0.0.53 # local'' @ [CHR 0x0A] @ ''nameserver 192.0.2.53'' @ [CHR 0x0A]"

definition sample_dns_service :: Service where
  "sample_dns_service = NewService \<lparr> cfg_Mode = ''client'', cfg_Endpoint = [],
     cfg_Versions = \<lparr> Bundle = [], UI = [], Core = [], Scripts = [] \<rparr>, cfg_DNSSource = True, cfg_InitialDNS = emptySnapshot \<rparr> 0 0"


end
