(* ===== verification/Go_JSON.thy ===== *)
theory Go_JSON
  imports Prelude
begin

text \<open>
  What the sources use of \<^verbatim>\<open>encoding/json\<close>: one call of \<^verbatim>\<open>Decode\<close> with unknown fields refused, which
  fills a value it is given, and a second one that is expected to find the end of the input. The
  decoder itself is a parameter of the definitions that read JSON.
\<close>

datatype trailing = AtEOF | TrailingValue | TrailingError string

record 'a json_decoder =
  first_value :: "'a \<Rightarrow> bytes \<Rightarrow> (string, 'a) outcome"
  second_value :: "bytes \<Rightarrow> trailing"

text \<open>The decoder reads what the encoder wrote for \<open>x\<close>, starting from the value \<open>x0\<close>.\<close>

definition decodes_to :: "'a json_decoder \<Rightarrow> 'a \<Rightarrow> bytes \<Rightarrow> 'a \<Rightarrow> bool" where
  "decodes_to J x0 b x \<longleftrightarrow> first_value J x0 b = Ret x \<and> second_value J b = AtEOF"

end
