(* ===== verification/Control_Server.thy ===== *)
theory Control_Server
  imports App_Properties Go_JSON
begin

text \<open>
  \<^verbatim>\<open>internal/controlapi/server.go\<close>: the HTTP server of the control interface in front of the application
  service. The routes are a table of patterns, matched the way \<^verbatim>\<open>http.ServeMux\<close> matches them; every handler
  decodes its request, calls the method of the service and turns its outcome into a reply; the wrappers add
  the headers, bound the requests that run at once, and turn a panic into a reply. A request carries its
  path as segments, already cleaned and decoded, its query parameters and its body; the JSON decoders, the
  readings of the clock and the random bytes are the environment.
\<close>

section \<open>Requests and replies\<close>

record http_call =
  hc_Method :: string
  hc_Path :: "string list"
  hc_Query :: "(string \<times> string) list"
  hc_Origin :: string
  hc_Body :: bytes

record api_decoders =
  dec_operation :: "OperationRequest json_decoder"
  dec_set :: "SetRuleRequest json_decoder"
  dec_delete :: "DeleteRuleRequest json_decoder"
  dec_pairing :: "PairingValidationRequest json_decoder"
  dec_enroll :: "EnrollRequest json_decoder"

record api_env =
  env_decoders :: api_decoders
  env_t1 :: gotime
  env_t2 :: gotime
  env_t3 :: gotime
  env_random :: "bytes option"
  env_snapshot :: "Snapshot dns_result"

datatype api_body =
  StatusBody StatusResponse | OperationBody OperationResponse | RulesBody RuleListResponse | MutationBody RuleMutationResponse
| ExplanationBody RuleExplanation | DNSBody DNSStatus | ReportBody DiagnosticReport | UpdateBody UpdateStatus
| PairingBody PairingValidation | FailureBody string api_error | ErrorBody APIError | MuxBody | NoBody

record api_reply =
  rp_Status :: nat
  rp_Headers :: "(string \<times> string) list"
  rp_Body :: api_body

definition writeJSON :: "nat \<Rightarrow> api_body \<Rightarrow> api_reply" where
  "writeJSON status v = \<lparr> rp_Status = status, rp_Headers = [(''Content-Type'', ''application/json; charset=utf-8'')], rp_Body = v \<rparr>"

text \<open>A handler that panics gives no reply of its own: \<open>None\<close>, which \<open>recoverer\<close> answers.\<close>

definition api_respond :: "('a \<Rightarrow> api_body) \<Rightarrow> 'a api_result \<Rightarrow> api_reply option" where
  "api_respond body result =
    (case result of
       Ret v \<Rightarrow> Some (writeJSON 200 (body v))
     | Err err \<Rightarrow> (let (status, code) = statusFor err in Some (writeJSON status (FailureBody code err)))
     | Panic \<Rightarrow> None)"

definition maxRequestBytes :: nat where
  "maxRequestBytes = 64 * 1024"

text \<open>The decoder reads at most the limit; what is left over is not the end of the input.\<close>

definition decodeJSON :: "'a json_decoder \<Rightarrow> 'a \<Rightarrow> bytes \<Rightarrow> 'a api_result" where
  "decodeJSON J dst body =
    (case first_value J dst (take maxRequestBytes body) of
       Err err \<Rightarrow> Err (ErrInvalidInput (''malformed JSON: '' @ err) None)
     | Panic \<Rightarrow> Panic
     | Ret v \<Rightarrow>
         if length body > maxRequestBytes \<or> second_value J (take maxRequestBytes body) \<noteq> AtEOF
         then Err (ErrInvalidInput ''request must contain one JSON value'' None)
         else Ret v)"

text \<open>The zero values the decoders start from.\<close>

definition zeroOperation :: OperationRequest where
  "zeroOperation = \<lparr> or_OperationID = [] \<rparr>"

definition zeroSet :: SetRuleRequest where
  "zeroSet = \<lparr> st_OperationID = [], st_ID = [], st_Target = [], st_TargetType = [], st_Result = [], st_ExpiresAt = None,
     st_Note = [], st_ExpectedRevision = None \<rparr>"

definition zeroDelete :: DeleteRuleRequest where
  "zeroDelete = \<lparr> dr_OperationID = [], dr_Target = [], dr_ExpectedRevision = None \<rparr>"

definition zeroPairing :: PairingValidationRequest where
  "zeroPairing = \<lparr> pq_ServerIP = [], pq_FileName = [], pq_Fingerprint = [] \<rparr>"

definition zeroEnroll :: EnrollRequest where
  "zeroEnroll = \<lparr> en_OperationID = [], en_ValidationID = [], en_ServerIP = [], en_FileName = [], en_Fingerprint = [],
     en_FingerprintConfirmed = False, en_AuthorizationConfirmed = False \<rparr>"

text \<open>\<^verbatim>\<open>Query().Get\<close>: the first value of a parameter, or the empty text. \<^verbatim>\<open>strconv.Atoi\<close> with its error dropped: an
  integer out of range is the closest one, any other text is 0.\<close>

definition query_get :: "http_call \<Rightarrow> string \<Rightarrow> string" where
  "query_get r key = (case map_of (hc_Query r) key of Some v \<Rightarrow> v | None \<Rightarrow> [])"

definition atoi_value :: "string \<Rightarrow> int" where
  "atoi_value s =
    (case strconv_Atoi s of
       Some n \<Rightarrow> n
     | None \<Rightarrow>
         (case s of
            [] \<Rightarrow> 0
          | c # t \<Rightarrow>
              if c = CHR ''-'' then (if t \<noteq> [] \<and> digits_value 0 t \<noteq> None then - (2 ^ 63) else 0)
              else if c = CHR ''+'' then (if t \<noteq> [] \<and> digits_value 0 t \<noteq> None then 2 ^ 63 - 1 else 0)
              else if digits_value 0 s \<noteq> None then 2 ^ 63 - 1 else 0))"

section \<open>The handlers\<close>

type_synonym handled_call = "Service \<times> api_reply option"

text \<open>A handler that decodes a body, and calls a method with it.\<close>

definition with_body :: "'a json_decoder \<Rightarrow> 'a \<Rightarrow> http_call \<Rightarrow> Service \<Rightarrow> ('a \<Rightarrow> handled_call) \<Rightarrow> handled_call" where
  "with_body J zero r s meth =
    (case decodeJSON J zero (hc_Body r) of
       Ret req \<Rightarrow> meth req
     | Err err \<Rightarrow> (s, api_respond (\<lambda>_ :: unit. NoBody) (Err err))
     | Panic \<Rightarrow> (s, None))"

definition answered_call :: "('a \<Rightarrow> api_body) \<Rightarrow> Service \<times> 'a api_result \<Rightarrow> handled_call" where
  "answered_call body result = (fst result, api_respond body (snd result))"

definition getStatus :: "api_env \<Rightarrow> Service \<Rightarrow> handled_call" where
  "getStatus env s = answered_call StatusBody (Service_Status s (env_t1 env) (env_t2 env))"

definition connectionAction :: "api_env \<Rightarrow> http_call \<Rightarrow> string \<Rightarrow> Service \<Rightarrow> handled_call" where
  "connectionAction env r action s =
    (if action \<noteq> ''connect'' \<and> action \<noteq> ''disconnect'' \<and> action \<noteq> ''reconnect''
     then (s, api_respond (\<lambda>_ :: unit. NoBody) (Err (ErrInvalidInput ''unknown connection action'' None)))
     else with_body (dec_operation (env_decoders env)) zeroOperation r s (\<lambda>req.
       answered_call OperationBody (ConnectionAction s action req (env_t1 env))))"

definition listRules :: "api_env \<Rightarrow> http_call \<Rightarrow> Service \<Rightarrow> handled_call" where
  "listRules env r s =
    answered_call RulesBody (ListRules s \<lparr> rf_Query = query_get r ''q'', rf_Result = query_get r ''result'', rf_Source = query_get r ''source'',
      rf_TargetType = query_get r ''target_type'', rf_Limit = atoi_value (query_get r ''limit'') \<rparr> (env_t1 env))"

definition setRule :: "api_env \<Rightarrow> http_call \<Rightarrow> Service \<Rightarrow> handled_call" where
  "setRule env r s =
    with_body (dec_set (env_decoders env)) zeroSet r s (\<lambda>req.
    answered_call MutationBody (Service_SetRule s req (env_t1 env) (env_t2 env) (env_t3 env)))"

definition deleteRule :: "api_env \<Rightarrow> http_call \<Rightarrow> string \<Rightarrow> Service \<Rightarrow> handled_call" where
  "deleteRule env r ident s =
    with_body (dec_delete (env_decoders env)) zeroDelete r s (\<lambda>req.
    answered_call MutationBody (Service_DeleteRule s ident req (env_t1 env) (env_t2 env)))"

definition explainRule :: "api_env \<Rightarrow> http_call \<Rightarrow> Service \<Rightarrow> handled_call" where
  "explainRule env r s = answered_call ExplanationBody (ExplainRule s (query_get r ''target'') (env_t1 env))"

definition getDNS :: "Service \<Rightarrow> handled_call" where
  "getDNS s = answered_call DNSBody (s, Service_DNSStatus s)"

definition refreshDNS :: "api_env \<Rightarrow> http_call \<Rightarrow> Service \<Rightarrow> handled_call" where
  "refreshDNS env r s =
    with_body (dec_operation (env_decoders env)) zeroOperation r s (\<lambda>req.
    case RefreshDNS s req (env_snapshot env) (env_t1 env) of
      (s', v, result) \<Rightarrow> (s', api_respond (\<lambda>_. case v of Some status \<Rightarrow> DNSBody status | None \<Rightarrow> NoBody) result))"

definition runDoctor :: "api_env \<Rightarrow> Service \<Rightarrow> handled_call" where
  "runDoctor env s = answered_call ReportBody (RunDoctor s (env_t1 env) (env_t2 env) (env_t3 env))"

definition checkUpdate :: "api_env \<Rightarrow> Service \<Rightarrow> handled_call" where
  "checkUpdate env s = answered_call UpdateBody (s, CheckUpdate s (env_t1 env))"

definition updateAction :: "api_env \<Rightarrow> http_call \<Rightarrow> string \<Rightarrow> Service \<Rightarrow> handled_call" where
  "updateAction env r action s =
    (if action \<noteq> ''upgrade'' \<and> action \<noteq> ''rollback''
     then (s, api_respond (\<lambda>_ :: unit. NoBody) (Err (ErrInvalidInput ''unknown update action'' None)))
     else with_body (dec_operation (env_decoders env)) zeroOperation r s (\<lambda>req.
       answered_call UpdateBody (s, UpdateAction s action req)))"

definition validatePairing :: "api_env \<Rightarrow> http_call \<Rightarrow> Service \<Rightarrow> handled_call" where
  "validatePairing env r s =
    with_body (dec_pairing (env_decoders env)) zeroPairing r s (\<lambda>req.
    answered_call PairingBody (ValidatePairing s req (env_random env) (env_t1 env) (env_t2 env)))"

definition enroll :: "api_env \<Rightarrow> http_call \<Rightarrow> Service \<Rightarrow> handled_call" where
  "enroll env r s =
    with_body (dec_enroll (env_decoders env)) zeroEnroll r s (\<lambda>req.
    answered_call OperationBody (Enroll s req (env_t1 env)))"

section \<open>The routes\<close>

datatype pattern_segment = Lit string | Wild | WildRest

datatype endpoint_name =
  GetStatus | ConnectionAct | GetRules | PostRule | RemoveRule | GetExplanation | GetDNS | PostRefresh | PostDoctor | PostCheck
| UpdateAct | PostValidate | PostEnroll | Preflight

text \<open>The table of \<^verbatim>\<open>routes\<close>, in its order. Of two patterns of one method that match a path, the one with the
  literal comes first in it, which is also the one the multiplexer prefers.\<close>

definition api_prefix :: "pattern_segment list" where
  "api_prefix = [Lit ''api'', Lit ''v1'']"

definition route_table :: "(string \<times> pattern_segment list \<times> endpoint_name) list" where
  "route_table =
    [(''GET'', api_prefix @ [Lit ''status''], GetStatus),
     (''POST'', api_prefix @ [Lit ''connection'', Wild], ConnectionAct),
     (''GET'', api_prefix @ [Lit ''rules''], GetRules),
     (''POST'', api_prefix @ [Lit ''rules''], PostRule),
     (''DELETE'', api_prefix @ [Lit ''rules''], RemoveRule),
     (''DELETE'', api_prefix @ [Lit ''rules'', Wild], RemoveRule),
     (''GET'', api_prefix @ [Lit ''rules'', Lit ''explain''], GetExplanation),
     (''GET'', api_prefix @ [Lit ''dns''], GetDNS),
     (''POST'', api_prefix @ [Lit ''dns'', Lit ''refresh''], PostRefresh),
     (''POST'', api_prefix @ [Lit ''diagnostics''], PostDoctor),
     (''POST'', api_prefix @ [Lit ''updates'', Lit ''check''], PostCheck),
     (''POST'', api_prefix @ [Lit ''updates'', Wild], UpdateAct),
     (''POST'', api_prefix @ [Lit ''pairing'', Lit ''validate''], PostValidate),
     (''POST'', api_prefix @ [Lit ''pairing'', Lit ''enroll''], PostEnroll),
     (''OPTIONS'', api_prefix @ [WildRest], Preflight)]"

text \<open>A path that ends in a slash has a last segment that is empty; only the rest of a path matches it. The result
  is the values of the wildcards.\<close>

fun match_pattern :: "pattern_segment list \<Rightarrow> string list \<Rightarrow> string list option" where
  "match_pattern [] [] = Some []"
| "match_pattern [WildRest] (x # xs) = Some []"
| "match_pattern (Lit l # ps) (x # xs) = (if l = x then match_pattern ps xs else None)"
| "match_pattern (Wild # ps) (x # xs) = (if x = [] then None else map_option (\<lambda>vs. x # vs) (match_pattern ps xs))"
| "match_pattern _ _ = None"

text \<open>A pattern for \<^verbatim>\<open>GET\<close> also takes \<^verbatim>\<open>HEAD\<close>.\<close>

definition method_matches :: "string \<Rightarrow> string \<Rightarrow> bool" where
  "method_matches m verb \<longleftrightarrow> m = verb \<or> m = ''GET'' \<and> verb = ''HEAD''"

datatype mux_match = Routed endpoint_name "string list" | WrongMethod | SlashRedirect | NoRoute

fun first_match :: "string \<Rightarrow> string list \<Rightarrow> (string \<times> pattern_segment list \<times> endpoint_name) list \<Rightarrow> (endpoint_name \<times> string list) option" where
  "first_match verb path [] = None"
| "first_match verb path ((m, pat, ep) # table) =
    (case (if method_matches m verb then match_pattern pat path else None) of
       Some vs \<Rightarrow> Some (ep, vs)
     | None \<Rightarrow> first_match verb path table)"

text \<open>Without a match, a path that the pattern of the preflight would match with a slash added is redirected, and
  one that a pattern of another method matches is a wrong method.\<close>

definition mux_lookup :: "string \<Rightarrow> string list \<Rightarrow> mux_match" where
  "mux_lookup verb path =
    (case first_match verb path route_table of
       Some (ep, vs) \<Rightarrow> Routed ep vs
     | None \<Rightarrow>
         if verb = ''OPTIONS'' \<and> path = [''api'', ''v1''] then SlashRedirect
         else if list_ex (\<lambda>(m, pat, ep). match_pattern pat path \<noteq> None) route_table then WrongMethod
         else NoRoute)"

definition path_value :: "string list \<Rightarrow> string" where
  "path_value vs = (case vs of [] \<Rightarrow> [] | v # _ \<Rightarrow> v)"

fun run_endpoint :: "api_env \<Rightarrow> http_call \<Rightarrow> endpoint_name \<Rightarrow> string list \<Rightarrow> Service \<Rightarrow> handled_call" where
  "run_endpoint env r GetStatus vs s = getStatus env s"
| "run_endpoint env r ConnectionAct vs s = connectionAction env r (path_value vs) s"
| "run_endpoint env r GetRules vs s = listRules env r s"
| "run_endpoint env r PostRule vs s = setRule env r s"
| "run_endpoint env r RemoveRule vs s = deleteRule env r (path_value vs) s"
| "run_endpoint env r GetExplanation vs s = explainRule env r s"
| "run_endpoint env r GetDNS vs s = getDNS s"
| "run_endpoint env r PostRefresh vs s = refreshDNS env r s"
| "run_endpoint env r PostDoctor vs s = runDoctor env s"
| "run_endpoint env r PostCheck vs s = checkUpdate env s"
| "run_endpoint env r UpdateAct vs s = updateAction env r (path_value vs) s"
| "run_endpoint env r PostValidate vs s = validatePairing env r s"
| "run_endpoint env r PostEnroll vs s = enroll env r s"
| "run_endpoint env r Preflight vs s = (s, Some \<lparr> rp_Status = 204, rp_Headers = [], rp_Body = NoBody \<rparr>)"

definition serve_mux :: "api_env \<Rightarrow> http_call \<Rightarrow> Service \<Rightarrow> handled_call" where
  "serve_mux env r s =
    (case mux_lookup (hc_Method r) (hc_Path r) of
       Routed ep vs \<Rightarrow> run_endpoint env r ep vs s
     | WrongMethod \<Rightarrow> (s, Some \<lparr> rp_Status = 405, rp_Headers = [], rp_Body = MuxBody \<rparr>)
     | SlashRedirect \<Rightarrow> (s, Some \<lparr> rp_Status = 301, rp_Headers = [], rp_Body = MuxBody \<rparr>)
     | NoRoute \<Rightarrow> (s, Some \<lparr> rp_Status = 404, rp_Headers = [], rp_Body = MuxBody \<rparr>))"

section \<open>The wrappers\<close>

definition allowed_origin :: "string \<Rightarrow> bool" where
  "allowed_origin origin \<longleftrightarrow> origin = ''http://127.0.0.1:4173'' \<or> strings_HasPrefix origin ''http://localhost:''"

definition security_header_list :: "string \<Rightarrow> (string \<times> string) list" where
  "security_header_list origin =
    [(''Cache-Control'', ''no-store''), (''X-Content-Type-Options'', ''nosniff'')] @
    (if allowed_origin origin
     then [(''Access-Control-Allow-Origin'', origin), (''Access-Control-Allow-Headers'', ''Content-Type''),
           (''Access-Control-Allow-Methods'', ''GET, POST, DELETE, OPTIONS'')]
     else [])"

text \<open>The headers are set before the handler runs, so a reply of \<^verbatim>\<open>recoverer\<close> for a handler that panics has them
  as well.\<close>

definition add_headers :: "(string \<times> string) list \<Rightarrow> api_reply \<Rightarrow> api_reply" where
  "add_headers hs reply = reply\<lparr>rp_Headers := hs @ rp_Headers reply\<rparr>"

definition internal_error_reply :: api_reply where
  "internal_error_reply = writeJSON 500 (ErrorBody \<lparr> ae_Code = ''internal_error'', ae_Message = ''internal error'' \<rparr>)"

text \<open>A request that got a slot: \<^verbatim>\<open>securityHeaders\<close> around the multiplexer, and \<^verbatim>\<open>recoverer\<close> around that.\<close>

definition serve_admitted :: "api_env \<Rightarrow> http_call \<Rightarrow> Service \<Rightarrow> Service \<times> api_reply" where
  "serve_admitted env r s =
    (case serve_mux env r s of
       (s', Some reply) \<Rightarrow> (s', add_headers (security_header_list (hc_Origin r)) reply)
     | (s', None) \<Rightarrow> (s', add_headers (security_header_list (hc_Origin r)) internal_error_reply))"

definition max_concurrent :: nat where
  "max_concurrent = 32"

definition timeout_reply :: api_reply where
  "timeout_reply = writeJSON 408 (ErrorBody \<lparr> ae_Code = ''timeout'', ae_Message = ''request cancelled'' \<rparr>)"

definition busy_reply :: api_reply where
  "busy_reply = writeJSON 503 (ErrorBody \<lparr> ae_Code = ''busy'', ae_Message = ''too many concurrent requests'' \<rparr>)"

text \<open>
  The server with requests in flight, by number: the tokens in the semaphore, the requests that hold one,
  and the replies that were sent. The \<^verbatim>\<open>select\<close> of \<^verbatim>\<open>limitConcurrency\<close> takes any branch that is ready and the
  default one only when none is. A handler runs to its reply in one step; how the critical sections of methods
  interleave is the subject of \<^verbatim>\<open>App_Invariant\<close>. The slot is released by the deferred receive, also after a
  panic.
\<close>

record api_server_state =
  sv_backend :: Service
  sv_tokens :: nat
  sv_running :: "(nat \<times> http_call) list"
  sv_replied :: "(nat \<times> api_reply) list"

definition api_NewServer :: "Service \<Rightarrow> api_server_state" where
  "api_NewServer backend = \<lparr> sv_backend = backend, sv_tokens = 0, sv_running = [], sv_replied = [] \<rparr>"

definition fresh_request :: "nat \<Rightarrow> api_server_state \<Rightarrow> bool" where
  "fresh_request k v \<longleftrightarrow> k \<notin> fst ` set (sv_running v) \<and> k \<notin> fst ` set (sv_replied v)"

inductive api_server_step :: "api_server_state \<Rightarrow> api_server_state \<Rightarrow> bool" where
  admit: "fresh_request k v \<Longrightarrow> sv_tokens v < max_concurrent \<Longrightarrow>
    api_server_step v (v\<lparr>sv_tokens := sv_tokens v + 1, sv_running := (k, r) # sv_running v\<rparr>)"
| cancelled: "fresh_request k v \<Longrightarrow> api_server_step v (v\<lparr>sv_replied := (k, timeout_reply) # sv_replied v\<rparr>)"
| busy: "fresh_request k v \<Longrightarrow> \<not> sv_tokens v < max_concurrent \<Longrightarrow>
    api_server_step v (v\<lparr>sv_replied := (k, busy_reply) # sv_replied v\<rparr>)"
| finish: "map_of (sv_running v) k = Some r \<Longrightarrow> serve_admitted env r (sv_backend v) = (s', reply) \<Longrightarrow>
    api_server_step v (v\<lparr>sv_backend := s', sv_tokens := sv_tokens v - 1, sv_running := AList.delete k (sv_running v),
                     sv_replied := (k, reply) # sv_replied v\<rparr>)"

inductive server_reachable :: "Service \<Rightarrow> api_server_state \<Rightarrow> bool" where
  start: "server_reachable s (api_NewServer s)"
| step: "server_reachable s v \<Longrightarrow> api_server_step v v' \<Longrightarrow> server_reachable s v'"

section \<open>Properties\<close>

lemma with_body_cases:
  "with_body J zero r s meth = (s, None) \<or> (\<exists>reply. with_body J zero r s meth = (s, Some reply)) \<or>
    (\<exists>req. decodeJSON J zero (hc_Body r) = Ret req \<and> with_body J zero r s meth = meth req)"
  by (cases "decodeJSON J zero (hc_Body r)") (auto simp: with_body_def api_respond_def split: prod.split)

lemma with_body_state:
  "fst (with_body J zero r s meth) = s \<or> (\<exists>req. fst (with_body J zero r s meth) = fst (meth req))"
  using with_body_cases [of J zero r s meth] by (elim disjE exE conjE) auto

lemma fst_answered_call [simp]: "fst (answered_call body result) = fst result"
  by (simp add: answered_call_def)

lemmas body_handlers = connectionAction_def setRule_def deleteRule_def refreshDNS_def updateAction_def validatePairing_def enroll_def

text \<open>Every endpoint leaves the service alone or does what one method of the interface does.\<close>

lemma body_calls:
  assumes "\<And>req. \<exists>call. fst (meth req) = api_state s call"
  shows "fst (with_body J zero r s meth) = s \<or> (\<exists>call. fst (with_body J zero r s meth) = api_state s call)"
  using with_body_state [of J zero r s meth] assms by metis

lemma run_endpoint_calls: "fst (run_endpoint env r ep vs s) = s \<or> (\<exists>call. fst (run_endpoint env r ep vs s) = api_state s call)"
proof (cases ep)
  case GetStatus
  then show ?thesis by (simp add: getStatus_def) (metis api_state.simps(1))
next
  case ConnectionAct
  then show ?thesis by (simp add: connectionAction_def) (intro conjI impI body_calls; simp, metis api_state.simps(2))
next
  case GetRules
  then show ?thesis by (simp add: listRules_def) (metis api_state.simps(3))
next
  case PostRule
  then show ?thesis by (simp add: setRule_def) (intro body_calls, simp, metis api_state.simps(4))
next
  case RemoveRule
  then show ?thesis by (simp add: deleteRule_def) (intro body_calls, simp, metis api_state.simps(5))
next
  case GetExplanation
  then show ?thesis by (simp add: explainRule_def) (metis api_state.simps(6))
next
  case PostRefresh
  then show ?thesis by (simp add: refreshDNS_def) (intro body_calls, simp add: split_beta, metis api_state.simps(7))
next
  case PostDoctor
  then show ?thesis by (simp add: runDoctor_def) (metis api_state.simps(8))
next
  case UpdateAct
  have "fst (with_body J zero r s (\<lambda>req. answered_call body (s, g req))) = s" 
    for J :: "OperationRequest json_decoder" and zero and body :: "UpdateStatus \<Rightarrow> api_body" and g
    using with_body_state [of J zero r s "\<lambda>req. answered_call body (s, g req)"] by simp
  with UpdateAct show ?thesis by (simp add: updateAction_def)
next
  case PostValidate
  then show ?thesis by (simp add: validatePairing_def) (intro body_calls, simp, metis api_state.simps(9))
next
  case PostEnroll
  then show ?thesis by (simp add: enroll_def) (intro body_calls, simp, metis api_state.simps(10))
qed (simp_all add: getDNS_def checkUpdate_def)

lemma serve_admitted_state: "fst (serve_admitted env r s) = fst (serve_mux env r s)"
  by (auto simp: serve_admitted_def split: prod.split option.split)

lemma serve_admitted_sections:
  "\<exists>cs. length cs \<le> 2 \<and> fst (serve_admitted env r s) = foldl run_section s cs"
proof -
  have "fst (serve_mux env r s) = s \<or> (\<exists>call. fst (serve_mux env r s) = api_state s call)"
    using run_endpoint_calls by (auto simp: serve_mux_def split: mux_match.split)
  then show ?thesis
  proof
    assume "\<exists>call. fst (serve_mux env r s) = api_state s call"
    with api_state_sections show ?thesis unfolding serve_admitted_state by metis
  qed (simp add: serve_admitted_state exI [of _ "[]"])
qed

subsection \<open>The server\<close>

text \<open>What every step keeps: one token per running request, at most 32 of them, and no request twice among those that
  run and those that have their reply.\<close>

definition api_server_ok :: "api_server_state \<Rightarrow> bool" where
  "api_server_ok v \<longleftrightarrow> sv_tokens v = length (sv_running v) \<and> sv_tokens v \<le> max_concurrent \<and>
    distinct (map fst (sv_running v) @ map fst (sv_replied v))"

lemma delete_keys: "map fst (AList.delete k xs) = filter (\<lambda>x. x \<noteq> k) (map fst xs)"
  by (induction xs) auto

lemma delete_length:
  "distinct (map fst xs) \<Longrightarrow> map_of xs k = Some r \<Longrightarrow> length (AList.delete k xs) = length xs - 1"
proof (induction xs)
  case (Cons x xs)
  show ?case
  proof (cases "fst x = k")
    case True
    with Cons.prems(1) have "k \<notin> fst ` set xs" by auto
    with True show ?thesis by (cases x) (simp add: delete_idem)
  next
    case False
    with Cons have "length (AList.delete k xs) = length xs - 1" "xs \<noteq> []" by auto
    with False show ?thesis by (cases x, cases xs) auto
  qed
qed simp

lemma api_server_step_ok:
  assumes "api_server_ok v" "api_server_step v v'"
  shows "api_server_ok v'"
  using assms(2)
proof (cases rule: api_server_step.cases)
  case (finish k r env s' reply)
  have "k \<in> fst ` set (sv_running v)" using finish(2) by (force dest: map_of_SomeD)
  with assms(1) finish show ?thesis by (auto simp: api_server_ok_def delete_keys delete_length)
qed (use assms(1) in \<open>auto simp: api_server_ok_def fresh_request_def\<close>)

lemma api_server_step_backend:
  assumes "api_server_step v v'"
  shows "\<exists>cs. length cs + 2 * length (sv_replied v) \<le> 2 * length (sv_replied v') \<and> sv_backend v' = foldl run_section (sv_backend v) cs"
  using assms
proof (cases rule: api_server_step.cases)
  case (finish k r env s' reply)
  then have "s' = fst (serve_admitted env r (sv_backend v))" by simp
  then obtain cs where "length cs \<le> 2" "s' = foldl run_section (sv_backend v) cs" using serve_admitted_sections by metis
  then show ?thesis by (intro exI [of _ cs]) (simp add: finish)
qed (auto intro!: exI [of _ "[]"])

lemma server_reachable_sections:
  assumes "server_reachable s v"
  shows "\<exists>cs. length cs \<le> 2 * length (sv_replied v) \<and> sv_backend v = foldl run_section s cs"
  using assms
proof induction
  case (step s v v')
  from step.IH obtain cs where cs: "length cs \<le> 2 * length (sv_replied v)" "sv_backend v = foldl run_section s cs" by blast
  from api_server_step_backend [OF step.hyps(2)] obtain ds
    where ds: "length ds + 2 * length (sv_replied v) \<le> 2 * length (sv_replied v')" "sv_backend v' = foldl run_section (sv_backend v) ds" by blast
  from cs ds show ?case by (intro exI [of _ "cs @ ds"]) simp
qed (simp add: api_NewServer_def)

lemma server_reachable_ok: "server_reachable s v \<Longrightarrow> api_server_ok v"
  by (induction rule: server_reachable.induct) (auto simp: api_server_step_ok, simp add: api_server_ok_def api_NewServer_def)


subsection \<open>Requests that only read\<close>

lemma first_match_in:
  "first_match verb path table = Some (ep, vs) \<Longrightarrow> \<exists>m pat. (m, pat, ep) \<in> set table \<and> method_matches m verb"
  by (induction verb path table rule: first_match.induct) (auto split: option.splits if_splits)

lemma routed_read:
  assumes "mux_lookup verb path = Routed ep vs" "verb \<in> {''GET'', ''HEAD'', ''OPTIONS''}"
  shows "ep \<in> {GetStatus, GetRules, GetExplanation, GetDNS, Preflight}"
proof -
  from assms(1) have "first_match verb path route_table = Some (ep, vs)"
    by (auto simp: mux_lookup_def split: option.splits if_splits)
  from first_match_in [OF this] assms(2) show ?thesis by (auto simp: route_table_def method_matches_def)
qed

text \<open>C38. A request with a method that only reads changes nothing of the service but the overrides that have expired: the
  service is as it was, or as pruning at the time of the request leaves it.\<close>

theorem reads_only_prune:
  assumes "hc_Method r \<in> {''GET'', ''HEAD'', ''OPTIONS''}"
  shows "fst (serve_admitted env r s) = s \<or> fst (serve_admitted env r s) = pruneExpiredRules s (env_t1 env)"
proof (cases "mux_lookup (hc_Method r) (hc_Path r)")
  case (Routed ep vs)
  then have serve: "fst (serve_admitted env r s) = fst (run_endpoint env r ep vs s)"
    unfolding serve_admitted_state by (simp add: serve_mux_def)
  from routed_read [OF Routed assms] show ?thesis unfolding serve
    by (auto simp: getStatus_def listRules_def explainRule_def getDNS_def Service_Status_def ListRules_def ExplainRule_def Let_def
        or_return_def split: outcome.split)
qed (simp_all add: serve_admitted_state serve_mux_def)

text \<open>The handlers themselves set no header but the type of the body, so a page of another origin is never allowed to
  read a reply.\<close>

definition plain_headers :: "api_reply option \<Rightarrow> bool" where
  "plain_headers answer \<longleftrightarrow> (\<forall>reply. answer = Some reply \<longrightarrow> fst ` set (rp_Headers reply) \<subseteq> {''Content-Type''})"

lemma respond_plain [simp]: "plain_headers (api_respond body result)"
  by (auto simp: plain_headers_def api_respond_def writeJSON_def split: outcome.splits prod.splits)

lemma answered_plain [simp]: "plain_headers (snd (answered_call body result))"
  by (simp add: answered_call_def)

lemma with_body_plain: "(\<And>req. plain_headers (snd (meth req))) \<Longrightarrow> plain_headers (snd (with_body J zero r s meth))"
  by (auto simp: with_body_def plain_headers_def [of None] split: outcome.split)

lemma run_endpoint_plain: "plain_headers (snd (run_endpoint env r ep vs s))"
  by (cases ep)
    (simp_all add: getStatus_def listRules_def explainRule_def getDNS_def runDoctor_def checkUpdate_def body_handlers with_body_plain
      split_beta, simp add: plain_headers_def)

lemma serve_mux_plain: "plain_headers (snd (serve_mux env r s))"
  using run_endpoint_plain by (auto simp: serve_mux_def plain_headers_def [of "Some _"] split: mux_match.split)

lemma foreign_origin_denied:
  assumes "\<not> allowed_origin (hc_Origin r)"
  shows "map_of (rp_Headers (snd (serve_admitted env r s))) ''Access-Control-Allow-Origin'' = None"
proof -
  have "map_of (rp_Headers reply) ''Access-Control-Allow-Origin'' = None" if "plain_headers (Some reply)" for reply
    using that by (auto simp: plain_headers_def map_of_eq_None_iff)
  moreover have "plain_headers (Some internal_error_reply)" by (simp add: plain_headers_def internal_error_reply_def writeJSON_def)
  ultimately show ?thesis
    using serve_mux_plain [of env r s] assms
    by (cases "serve_mux env r s"; cases "snd (serve_mux env r s)")
      (auto simp: serve_admitted_def add_headers_def security_header_list_def map_add_def)
qed

subsection \<open>Concrete requests\<close>

definition sample_call :: http_call where
  "sample_call = \<lparr> hc_Method = ''POST'', hc_Path = [''api'', ''v1'', ''connection'', ''connect''], hc_Query = [],
     hc_Origin = ''http://localhost:4173'', hc_Body = [123, 125] \<rparr>"

definition one_value :: "'a \<Rightarrow> 'a json_decoder" where
  "one_value v = \<lparr> first_value = (\<lambda>x0 b. if b = [123, 125] then Ret v else Err ''bad''), second_value = (\<lambda>b. AtEOF) \<rparr>"

definition sample_env :: api_env where
  "sample_env = \<lparr> env_decoders = \<lparr> dec_operation = one_value \<lparr> or_OperationID = ''op-1'' \<rparr>, dec_set = one_value zeroSet,
       dec_delete = one_value zeroDelete, dec_pairing = one_value zeroPairing, dec_enroll = one_value zeroEnroll \<rparr>,
     env_t1 = 5, env_t2 = 5, env_t3 = 5, env_random = None, env_snapshot = Err ''none'' \<rparr>"

lemma sample_call_connects:
  "let (s', reply) = serve_admitted sample_env sample_call sample_service in
   state s' = ''CONNECTED'' \<and> rp_Status reply = 200 \<and>
   map_of (rp_Headers reply) ''Access-Control-Allow-Origin'' = Some ''http://localhost:4173''"
  by code_simp


definition sample_read :: http_call where
  "sample_read = sample_call\<lparr>hc_Method := ''GET'', hc_Path := [''api'', ''v1'', ''rules'']\<rparr>"

theorem reads_only_prune_witness:
  "mux_lookup (hc_Method sample_read) (hc_Path sample_read) = Routed GetRules [] \<and>
   (fst (serve_admitted sample_env sample_read sample_service) = sample_service \<or>
    fst (serve_admitted sample_env sample_read sample_service) = pruneExpiredRules sample_service 5)"
proof -
  have "mux_lookup (hc_Method sample_read) (hc_Path sample_read) = Routed GetRules []" by code_simp
  then show ?thesis using reads_only_prune [of sample_read sample_env sample_service]
    by (simp add: sample_read_def sample_env_def)
qed

end
