(* ===== verification/Control_Plane.thy ===== *)
theory Control_Plane
  imports Control_Server
begin

text \<open>
  The control plane as a whole: a request over the HTTP interface, through the service, to the routing engine.
\<close>

section \<open>What an explanation says\<close>

lemma Explain_total: "ParseTarget target = Ret t \<Longrightarrow> \<exists>d. Explain e target = Ret d \<and> DTarget d = t"
  by (auto simp: Explain_def split: option.split prod.split)

lemma Explain_unmatched:
  "Explain e target = Ret d \<Longrightarrow> ParseTarget target = Ret t \<Longrightarrow> MatchedRule d = None \<Longrightarrow>
    EffectiveAction d = fst (automatic e t) \<and> DSource d = SourceAutomatic"
  by (auto simp: Explain_def split: option.splits prod.splits)

lemma Explain_matched:
  "Explain e target = Ret d \<Longrightarrow> MatchedRule d = Some q \<Longrightarrow> EffectiveAction d = RAction q \<and> DSource d = SourceManual"
  by (auto simp: Explain_def obind_Ret_iff split: option.splits prod.splits)

definition explain_path :: "string list" where
  "explain_path = [''api'', ''v1'', ''rules'', ''explain'']"

lemma explain_routed: "mux_lookup ''GET'' explain_path = Routed GetExplanation []"
  by code_simp

lemma explain_served:
  assumes "hc_Method r = ''GET''" "hc_Path r = explain_path" "ParseTarget (query_get r ''target'') = Ret t"
  obtains d where "Explain (routes (pruneExpiredRules s (env_t1 env))) (query_get r ''target'') = Ret d" "DTarget d = t"
    "fst (serve_admitted env r s) = pruneExpiredRules s (env_t1 env)" "rp_Status (snd (serve_admitted env r s)) = 200"
    "\<exists>x. rp_Body (snd (serve_admitted env r s)) = ExplanationBody x \<and> rx_Target x = Value t \<and>
      rx_FinalResult x = EffectiveAction d \<and> rx_PrimarySource x = DSource d"
proof -
  let ?s' = "pruneExpiredRules s (env_t1 env)"
  from Explain_total [OF assms(3)] obtain d where d: "Explain (routes ?s') (query_get r ''target'') = Ret d" "DTarget d = t" by blast
  have "serve_mux env r s = explainRule env r s"
    using assms(1,2) explain_routed by (simp add: serve_mux_def)
  with d show thesis
    by (intro that [of d])
      (simp_all add: serve_admitted_def explainRule_def ExplainRule_def answered_call_def api_respond_def writeJSON_def add_headers_def Let_def)
qed


definition explain_call :: http_call where
  "explain_call = sample_call\<lparr>hc_Method := ''GET'', hc_Path := explain_path, hc_Query := [(''target'', ''192.168.50.20'')]\<rparr>"

lemma explain_call_target: "ParseTarget (query_get explain_call ''target'') =
    Ret \<lparr> Kind = TargetIP, Value = ''192.168.50.20'', addr = Addr4 [192, 168, 50, 20], prefix = zeroPrefix \<rparr>"
  by code_simp


end
