(* ===== verification/Core_Command.thy ===== *)
theory Core_Command
  imports Control_Server Platform_Resolver
begin

text \<open>
  \<^verbatim>\<open>cmd/wg-core/main.go\<close>: the options of the command, with the standard library's parsing of flags, the checks before
  the start, and how the resolver source, the service and the control server are put together. What the
  operating system answers is an argument: the content of the resolver file, the listener, and what ends the server.
\<close>

section \<open>Flags\<close>

datatype flag_target = ManagementFlag | ListenFlag | EndpointFlag | DevSafeFlag | NoHostFlag | InstanceFlag

definition flag_of :: "string \<Rightarrow> flag_target option" where
  "flag_of name =
    (if name = ''management-address'' then Some ManagementFlag
     else if name = ''listen'' then Some ListenFlag
     else if name = ''endpoint'' then Some EndpointFlag
     else if name = ''dev-safe'' then Some DevSafeFlag
     else if name = ''no-host-network'' then Some NoHostFlag
     else if name = ''wg-dev-instance'' then Some InstanceFlag
     else None)"

record options =
  opt_mode :: string
  opt_managementAddress :: string
  opt_dataAddress :: string
  opt_endpoint :: string
  opt_devSafe :: bool
  opt_noHostNetwork :: bool
  opt_instance :: string

definition strconv_ParseBool :: "string \<Rightarrow> bool option" where
  "strconv_ParseBool s =
    (if s \<in> {''1'', ''t'', ''T'', ''TRUE'', ''true'', ''True''} then Some True
     else if s \<in> {''0'', ''f'', ''F'', ''FALSE'', ''false'', ''False''} then Some False
     else None)"

definition is_bool_flag :: "flag_target \<Rightarrow> bool" where
  "is_bool_flag t \<longleftrightarrow> t = DevSafeFlag \<or> t = NoHostFlag"

text \<open>Setting a flag to a text; only a boolean one can refuse it.\<close>

fun set_flag :: "flag_target \<Rightarrow> string \<Rightarrow> options \<Rightarrow> options option" where
  "set_flag ManagementFlag v o1 = Some (o1\<lparr>opt_managementAddress := v\<rparr>)"
| "set_flag ListenFlag v o1 = Some (o1\<lparr>opt_dataAddress := v\<rparr>)"
| "set_flag EndpointFlag v o1 = Some (o1\<lparr>opt_endpoint := v\<rparr>)"
| "set_flag InstanceFlag v o1 = Some (o1\<lparr>opt_instance := v\<rparr>)"
| "set_flag DevSafeFlag v o1 = map_option (\<lambda>b. o1\<lparr>opt_devSafe := b\<rparr>) (strconv_ParseBool v)"
| "set_flag NoHostFlag v o1 = map_option (\<lambda>b. o1\<lparr>opt_noHostNetwork := b\<rparr>) (strconv_ParseBool v)"

text \<open>The text of a flag argument: after one or two dashes, the name and, after the first equals sign that is not the
  first character, the value. \<open>None\<close> is an argument that ends the flags.\<close>

datatype flag_text = NotAFlag | EndOfFlags | BadSyntax | FlagText string "string option"

fun split_value :: "string \<Rightarrow> string \<Rightarrow> string \<times> string option" where
  "split_value acc [] = (rev acc, None)"
| "split_value acc (c # cs) = (if c = CHR ''='' \<and> acc \<noteq> [] then (rev acc, Some cs) else split_value (c # acc) cs)"

definition flag_name :: "string \<Rightarrow> flag_text" where
  "flag_name name =
    (if name = [] \<or> hd name = CHR ''-'' \<or> hd name = CHR ''='' then BadSyntax
     else let (key, v) = split_value [] name in FlagText key v)"

fun flag_text_of :: "string \<Rightarrow> flag_text" where
  "flag_text_of (c # d # rest) =
    (if c \<noteq> CHR ''-'' then NotAFlag
     else if d = CHR ''-'' then (if rest = [] then EndOfFlags else flag_name rest)
     else flag_name (d # rest))"
| "flag_text_of _ = NotAFlag"

text \<open>\<^verbatim>\<open>FlagSet.Parse\<close>: the options and the positional arguments.\<close>

fun flags_Parse :: "options \<Rightarrow> string list \<Rightarrow> (string, options \<times> string list) outcome" where
  "flags_Parse o1 [] = Ret (o1, [])"
| "flags_Parse o1 (arg # args) =
    (case flag_text_of arg of
       NotAFlag \<Rightarrow> Ret (o1, arg # args)
     | EndOfFlags \<Rightarrow> Ret (o1, args)
     | BadSyntax \<Rightarrow> Err (''bad flag syntax: '' @ arg)
     | FlagText name v \<Rightarrow>
         (case flag_of name of
            None \<Rightarrow> Err (if name = ''help'' \<or> name = ''h'' then ''flag: help requested'' else ''flag provided but not defined: -'' @ name)
          | Some t \<Rightarrow>
              (case v of
                 Some text \<Rightarrow>
                   (case set_flag t text o1 of None \<Rightarrow> Err (''invalid boolean value for -'' @ name) | Some o2 \<Rightarrow> flags_Parse o2 args)
               | None \<Rightarrow>
                   if is_bool_flag t then
                     (case set_flag t ''true'' o1 of None \<Rightarrow> Err (''invalid boolean flag '' @ name) | Some o2 \<Rightarrow> flags_Parse o2 args)
                   else
                     (case args of
                        [] \<Rightarrow> Err (''flag needs an argument: -'' @ name)
                      | text # rest \<Rightarrow>
                          (case set_flag t text o1 of None \<Rightarrow> Err [] | Some o2 \<Rightarrow> flags_Parse o2 rest)))))"

section \<open>Options and start\<close>

definition default_options :: "string \<Rightarrow> options" where
  "default_options m =
    \<lparr> opt_mode = m, opt_managementAddress = (if m = ''server'' then ''127.0.0.1:47002'' else ''127.0.0.1:47003''),
      opt_dataAddress = ''0.0.0.0:9518'', opt_endpoint = ''203.0.113.10:9518'', opt_devSafe = False, opt_noHostNetwork = False,
      opt_instance = m \<rparr>"

definition parseOptions :: "string list \<Rightarrow> (string, options) outcome" where
  "parseOptions arguments =
    (case arguments of
       [] \<Rightarrow> Err ''usage: wg-core client|server --dev-safe --no-host-network [options]''
     | first # rest \<Rightarrow>
         if first = ''help'' \<or> first = ''--help'' \<or> first = ''-h''
         then Err ''usage: wg-core client|server --dev-safe --no-host-network [options]''
         else
           let m = strings_ToLower first in
           if m \<noteq> ''client'' \<and> m \<noteq> ''server'' then Err (''mode must be client or server, got '' @ first)
           else
             obind (flags_Parse (default_options m) rest) (\<lambda>(v, positional).
             if positional \<noteq> [] then Err ''unexpected positional arguments'' else Ret v))"

definition validateLoopback :: "string \<Rightarrow> (string, unit) outcome" where
  "validateLoopback address =
    (case SplitHostPort address of
       None \<Rightarrow> Err ''management address must be host:port''
     | Some (host, port) \<Rightarrow>
         (case ParseAddr host of
            None \<Rightarrow> Err ''management address must use a literal loopback IP''
          | Some parsed \<Rightarrow>
              if \<not> IsLoopback parsed then Err ''management address must use a literal loopback IP''
              else if port = [] then Err ''management port is required'' else Ret ()))"

definition core_version :: string where
  "core_version = ''0.1.0-dev''"

definition degraded_snapshot :: "gotime \<Rightarrow> Snapshot" where
  "degraded_snapshot now =
    emptySnapshot\<lparr>CapturedAt := now, Metadata := [(''source'', ''/etc/resolv.conf''), (''adapter'', ''read-only-resolv-conf'')]\<rparr>"

record core_answers =
  resolver_file :: "string dns_result"
  resolver_now :: gotime
  service_dnsNow :: gotime
  service_now :: gotime
  listen_error :: "string option"

text \<open>The part of \<^verbatim>\<open>run\<close> up to the server: its options and the server it serves.\<close>

definition core_start :: "string list \<Rightarrow> core_answers \<Rightarrow> (string, options \<times> api_server_state) outcome" where
  "core_start arguments w =
    obind (parseOptions arguments) (\<lambda>v.
    if \<not> opt_devSafe v \<or> \<not> opt_noHostNetwork v
    then Err ''production networking is not implemented; start with --dev-safe --no-host-network''
    else
      obind (validateLoopback (opt_managementAddress v)) (\<lambda>_.
      let initialDNS = (case ReadSnapshot [] None (resolver_file w) (resolver_now w) of
                          Ret snap \<Rightarrow> snap | _ \<Rightarrow> degraded_snapshot (resolver_now w));
          service = NewService \<lparr> cfg_Mode = opt_mode v, cfg_Endpoint = opt_endpoint v,
            cfg_Versions = \<lparr> Bundle = core_version, UI = core_version, Core = core_version, Scripts = core_version \<rparr>,
            cfg_DNSSource = True, cfg_InitialDNS = initialDNS \<rparr> (service_dnsNow w) (service_now w) in
      case listen_error w of
        Some err \<Rightarrow> Err (''listen on local management address: '' @ err)
      | None \<Rightarrow> Ret (v, api_NewServer service)))"

datatype core_end = ServerClosed | ServeFailed string | SignalShutdown "string option"

definition core_finish :: "core_end \<Rightarrow> (string, unit) outcome" where
  "core_finish e =
    (case e of
       ServerClosed \<Rightarrow> Ret ()
     | ServeFailed err \<Rightarrow> Err err
     | SignalShutdown None \<Rightarrow> Ret ()
     | SignalShutdown (Some err) \<Rightarrow> Err err)"

definition core_run :: "string list \<Rightarrow> core_answers \<Rightarrow> core_end \<Rightarrow> (string, unit) outcome" where
  "core_run arguments w e = obind (core_start arguments w) (\<lambda>_. core_finish e)"

section \<open>Properties\<close>

text \<open>A boolean flag is set only by an argument that names it.\<close>

definition names_flag :: "string \<Rightarrow> string \<Rightarrow> bool" where
  "names_flag name arg \<longleftrightarrow> (\<exists>v. flag_text_of arg = FlagText name v)"

lemma set_flag_safe:
  assumes "set_flag t v o1 = Some o2"
  shows "opt_devSafe o2 \<noteq> opt_devSafe o1 \<Longrightarrow> t = DevSafeFlag" "opt_noHostNetwork o2 \<noteq> opt_noHostNetwork o1 \<Longrightarrow> t = NoHostFlag"
    "opt_mode o2 = opt_mode o1"
  using assms by (cases t; auto)+

lemma flag_of_names: "flag_of name = Some DevSafeFlag \<Longrightarrow> name = ''dev-safe''" "flag_of name = Some NoHostFlag \<Longrightarrow> name = ''no-host-network''"
  by (auto simp: flag_of_def split: if_splits)

lemma flags_Parse_step:
  assumes "flag_text_of arg = FlagText name v" "flags_Parse o1 (arg # args) = Ret (o2, pos)"
  shows "\<exists>t given o3 rest. flag_of name = Some t \<and> set_flag t given o1 = Some o3 \<and> flags_Parse o3 rest = Ret (o2, pos) \<and>
    length rest \<le> length args \<and> set rest \<subseteq> set args"
proof -
  from assms obtain t where t: "flag_of name = Some t" by (auto split: option.splits)
  show ?thesis
  proof (cases v)
    case None
    show ?thesis
    proof (cases "is_bool_flag t")
      case True
      with assms t None obtain o3 where "set_flag t ''true'' o1 = Some o3" "flags_Parse o3 args = Ret (o2, pos)"
        by (simp split: option.splits)
      with t show ?thesis by blast
    next
      case False
      show ?thesis
      proof (cases args)
        case (Cons a rest)
        with assms t None False obtain o3 where "set_flag t a o1 = Some o3" "flags_Parse o3 rest = Ret (o2, pos)"
          by (simp del: flags_Parse.simps(2) add: flags_Parse.simps(2) [of o1] split: option.splits)
        with t Cons show ?thesis by (intro exI [of _ t] exI [of _ a] exI [of _ o3] exI [of _ rest]) auto
      qed (use assms t None False in simp)
    qed
  next
    case (Some given)
    with assms t obtain o3 where "set_flag t given o1 = Some o3" "flags_Parse o3 args = Ret (o2, pos)"
      by (simp split: option.splits)
    with t show ?thesis by blast
  qed
qed

lemma flags_Parse_safe:
  assumes "flags_Parse o1 args = Ret (o2, pos)"
  shows "opt_mode o2 = opt_mode o1 \<and> (opt_devSafe o2 \<longrightarrow> opt_devSafe o1 \<or> (\<exists>a \<in> set args. names_flag ''dev-safe'' a)) \<and>
    (opt_noHostNetwork o2 \<longrightarrow> opt_noHostNetwork o1 \<or> (\<exists>a \<in> set args. names_flag ''no-host-network'' a))"
  using assms
proof (induction "length args" arbitrary: o1 args rule: less_induct)
  case less
  show ?case
  proof (cases args)
    case (Cons arg more)
    show ?thesis
    proof (cases "flag_text_of arg")
      case (FlagText name v)
      from flags_Parse_step [OF this] less.prems Cons obtain t given o3 rest
        where step: "flag_of name = Some t" "set_flag t given o1 = Some o3" "flags_Parse o3 rest = Ret (o2, pos)"
          "length rest \<le> length more" "set rest \<subseteq> set more" by blast
      have ih: "opt_mode o2 = opt_mode o3 \<and> (opt_devSafe o2 \<longrightarrow> opt_devSafe o3 \<or> (\<exists>a \<in> set rest. names_flag ''dev-safe'' a)) \<and>
          (opt_noHostNetwork o2 \<longrightarrow> opt_noHostNetwork o3 \<or> (\<exists>a \<in> set rest. names_flag ''no-host-network'' a))"
        by (rule less.hyps [OF _ step(3)]) (use Cons step(4) in simp)
      have names: "names_flag name arg" using FlagText by (auto simp: names_flag_def)
      have "opt_devSafe o3 \<Longrightarrow> opt_devSafe o1 \<or> names_flag ''dev-safe'' arg"
        using set_flag_safe(1) [OF step(2)] flag_of_names(1) step(1) names by metis
      moreover have "opt_noHostNetwork o3 \<Longrightarrow> opt_noHostNetwork o1 \<or> names_flag ''no-host-network'' arg"
        using set_flag_safe(2) [OF step(2)] flag_of_names(2) step(1) names by metis
      ultimately show ?thesis using ih set_flag_safe(3) [OF step(2)] step(5) Cons by auto
    qed (use less.prems Cons in auto)
  qed (use less.prems in simp)
qed

lemma parseOptions_safe:
  assumes "parseOptions arguments = Ret v"
  shows "opt_mode v \<in> {''client'', ''server''} \<and> (opt_devSafe v \<longrightarrow> (\<exists>a \<in> set (tl arguments). names_flag ''dev-safe'' a)) \<and>
    (opt_noHostNetwork v \<longrightarrow> (\<exists>a \<in> set (tl arguments). names_flag ''no-host-network'' a))"
proof -
  from assms obtain first rest where a: "arguments = first # rest" "strings_ToLower first \<in> {''client'', ''server''}"
    "flags_Parse (default_options (strings_ToLower first)) rest = Ret (v, [])"
    by (auto simp: parseOptions_def Let_def obind_Ret_iff split: list.splits if_splits)
  from flags_Parse_safe [OF a(3)] a(1,2) show ?thesis by (auto simp: default_options_def)
qed

lemma validateLoopback_Ret:
  "validateLoopback address = Ret () \<longleftrightarrow>
    (\<exists>host port a. SplitHostPort address = Some (host, port) \<and> port \<noteq> [] \<and> ParseAddr host = Some a \<and> IsLoopback a)"
  by (auto simp: validateLoopback_def split: option.splits prod.splits)

text \<open>C37. The core starts in the safe mode only: a start names both safety flags among its arguments, serves the
  management interface on a literal loopback address with a port, and begins with a disconnected service in one of the two
  modes, whose rules are empty and whose invariant holds.\<close>

theorem core_starts_safe:
  assumes "core_start arguments w = Ret (v, server)"
  shows "(\<exists>a \<in> set (tl arguments). names_flag ''dev-safe'' a) \<and> (\<exists>a \<in> set (tl arguments). names_flag ''no-host-network'' a) \<and>
    (\<exists>host port a. SplitHostPort (opt_managementAddress v) = Some (host, port) \<and> port \<noteq> [] \<and> ParseAddr host = Some a \<and> IsLoopback a) \<and>
    mode (sv_backend server) \<in> {''client'', ''server''} \<and> state (sv_backend server) = ''DISCONNECTED'' \<and>
    List_rules (routes (sv_backend server)) = [] \<and> service_ok 0 (sv_backend server)"
proof -
  from assms have parsed: "parseOptions arguments = Ret v" and flags: "opt_devSafe v" "opt_noHostNetwork v"
    and addr: "validateLoopback (opt_managementAddress v) = Ret ()"
    by (auto simp: core_start_def obind_Ret_iff Let_def split: if_splits option.splits)
  from assms obtain config t u where server: "sv_backend server = NewService config t u"
    by (auto simp: core_start_def obind_Ret_iff Let_def api_NewServer_def split: if_splits option.splits)
  have "List_rules (routes (NewService config t u)) = []" "state (NewService config t u) = ''DISCONNECTED''"
    "mode (NewService config t u) \<in> {''client'', ''server''}"
    by (simp_all add: NewService_def seedRecentAuto_def Let_def NewEngine_def List_rules_def WithAutoDecider_def)
  then show ?thesis
    using parseOptions_safe [OF parsed] flags addr validateLoopback_Ret NewService_ok [of config t u] unfolding server by auto
qed

definition sample_arguments :: "string list" where
  "sample_arguments = [''Client'', ''--dev-safe'', ''-no-host-network=1'', ''--management-address'', ''[::1]:47003'']"

definition sample_core :: core_answers where
  "sample_core = \<lparr> resolver_file = Ret ''nameserver 192.0.2.53'', resolver_now = 1, service_dnsNow = 2, service_now = 3, listen_error = None \<rparr>"

theorem core_starts_safe_witness:
  "\<exists>v server. core_start sample_arguments sample_core = Ret (v, server) \<and> opt_managementAddress v = ''[::1]:47003'' \<and>
    service_ok 0 (sv_backend server)"
proof -
  have "case core_start sample_arguments sample_core of Ret (v, server) \<Rightarrow> opt_managementAddress v = ''[::1]:47003'' | _ \<Rightarrow> False"
    by code_simp
  then obtain v server where run: "core_start sample_arguments sample_core = Ret (v, server)" "opt_managementAddress v = ''[::1]:47003''"
    by (auto split: outcome.splits)
  with core_starts_safe [OF run(1)] show ?thesis by blast
qed

end
