(* ===== verification/Proxy_Command.thy ===== *)
theory Proxy_Command
  imports Net_IP "HOL-Library.AList" "HOL-Library.Sublist" "HOL-Library.Code_Target_Nat"
begin

text \<open>
  \<^verbatim>\<open>cmd/wg-proxy/main.go\<close>: the test data plane. An UDP relay carries datagrams in encrypted packets;
  a HTTP proxy carries requests, directly or through the server. The cipher is a parameter
  (\<open>AEAD\<close>), with the sizes of AES-GCM; the network and the files are arguments: what a dial, a
  round trip or a read answers. A read into a buffer keeps the bytes that fit. Flags, sockets and
  the copying of streams are not modelled.
\<close>

section \<open>The UDP relay\<close>

definition udpMagic :: bytes where
  "udpMagic = [0x57, 0x47, 0x55, 0x44, 0x50, 0x31]"

definition udpRequest :: byte where "udpRequest = 1"

definition udpResponse :: byte where "udpResponse = 2"

definition maxUDPDatagram :: nat where "maxUDPDatagram = 60 * 1024"

record AEAD =
  aead_Seal :: "bytes \<Rightarrow> bytes \<Rightarrow> bytes"
  aead_Open :: "bytes \<Rightarrow> bytes \<Rightarrow> bytes option"

definition udp_NonceSize :: nat where "udp_NonceSize = 12"

definition udp_Overhead :: nat where "udp_Overhead = 16"

definition string_bytes :: "string \<Rightarrow> bytes" where
  "string_bytes s = map (\<lambda>c. word_of_nat (of_char c)) s"

definition bytes_string :: "bytes \<Rightarrow> string" where
  "bytes_string b = map (\<lambda>w. char_of (unat w)) b"

text \<open>\<open>nonce\<close> is what the random source gives; \<open>None\<close> is its failure.\<close>

definition sealUDP :: "AEAD \<Rightarrow> bytes option \<Rightarrow> bytes \<Rightarrow> (string, bytes) outcome" where
  "sealUDP aead nonce payload =
    (case nonce of
       None \<Rightarrow> Err ''random source failed''
     | Some n \<Rightarrow> Ret (udpMagic @ n @ aead_Seal aead n payload))"

definition openUDP :: "AEAD \<Rightarrow> bytes \<Rightarrow> (string, bytes) outcome" where
  "openUDP aead packet =
    (if length packet < length udpMagic + udp_NonceSize + udp_Overhead \<or> take (length udpMagic) packet \<noteq> udpMagic
     then Err ''invalid UDP packet''
     else
       obind (slice packet (length udpMagic) (length udpMagic + udp_NonceSize)) (\<lambda>nonce.
       obind (slice_from packet (length udpMagic + udp_NonceSize)) (\<lambda>sealed.
       case aead_Open aead nonce sealed of
         None \<Rightarrow> Err ''cipher: message authentication failed''
       | Some plain \<Rightarrow> Ret plain)))"

definition makeUDPRequest :: "string \<Rightarrow> bytes \<Rightarrow> (string, bytes) outcome" where
  "makeUDPRequest target body =
    (if SplitHostPort target = None \<or> length target > 0xFFFF then Err ''UDP target must be host:port''
     else Ret ([udpRequest] @ be16 (word_of_nat (length target)) @ string_bytes target @ body))"

definition parseUDPRequest :: "bytes \<Rightarrow> (string, string \<times> bytes) outcome" where
  "parseUDPRequest payload =
    (if length payload < 3 \<or> payload ! 0 \<noteq> udpRequest then Err ''invalid UDP request''
     else
       obind (slice payload 1 3) (\<lambda>lengthBytes.
       obind (Uint16 lengthBytes) (\<lambda>w.
       let n = unat w in
       if n = 0 \<or> length payload < 3 + n then Err ''invalid UDP target''
       else
         obind (slice payload 3 (3 + n)) (\<lambda>t.
         let target = bytes_string t in
         if SplitHostPort target = None then Err ''invalid UDP target''
         else obind (slice_from payload (3 + n)) (\<lambda>body. Ret (target, body))))))"

text \<open>A datagram as it arrives in the buffer of its reader.\<close>

definition udp_read :: "bytes \<Rightarrow> bytes" where
  "udp_read datagram = take maxUDPDatagram datagram"

text \<open>
  \<open>serveUDPDatagram\<close> answers the datagram that goes back to the peer, if any; \<open>upstream\<close> is what the
  destination answers to a datagram. \<open>relayUDPDatagram\<close> answers what goes back to the local
  peer; \<open>server\<close> is what the server answers to a packet.
\<close>

definition serveUDPDatagram :: "AEAD \<Rightarrow> (string \<Rightarrow> bytes \<Rightarrow> bytes option) \<Rightarrow> bytes option \<Rightarrow> bytes \<Rightarrow> bytes option" where
  "serveUDPDatagram aead upstream nonce packet =
    (case openUDP aead packet of
       Ret payload \<Rightarrow>
         (case parseUDPRequest payload of
            Ret (target, body) \<Rightarrow>
              (case upstream target body of
                 None \<Rightarrow> None
               | Some response \<Rightarrow>
                   (case sealUDP aead nonce ([udpResponse] @ udp_read response) of Ret sealed \<Rightarrow> Some sealed | _ \<Rightarrow> None))
          | _ \<Rightarrow> None)
     | _ \<Rightarrow> None)"

definition relayUDPDatagram :: "AEAD \<Rightarrow> (bytes \<Rightarrow> bytes option) \<Rightarrow> bytes option \<Rightarrow> string \<Rightarrow> bytes \<Rightarrow> bytes option" where
  "relayUDPDatagram aead server nonce target body =
    (case makeUDPRequest target body of
       Ret payload \<Rightarrow>
         (case sealUDP aead nonce payload of
            Ret packet \<Rightarrow>
              (case server packet of
                 None \<Rightarrow> None
               | Some response \<Rightarrow>
                   (case openUDP aead (udp_read response) of
                      Ret plain \<Rightarrow> if length plain < 1 \<or> plain ! 0 \<noteq> udpResponse then None else Some (drop 1 plain)
                    | _ \<Rightarrow> None))
          | _ \<Rightarrow> None)
     | _ \<Rightarrow> None)"

section \<open>Hosts, lists and headers\<close>

definition loadToken :: "string \<Rightarrow> string \<Rightarrow> (string, string) outcome \<Rightarrow> (string, string) outcome" where
  "loadToken token0 tokenFile0 file =
    (let token = strings_TrimSpace token0; tokenFile = strings_TrimSpace tokenFile0 in
     if token \<noteq> [] \<and> tokenFile \<noteq> [] then Err ''choose either -token or -token-file''
     else if tokenFile = [] then Ret token
     else obind (omap_err (\<lambda>err. ''read token file: '' @ err) file) (\<lambda>contents. Ret (strings_TrimSpace contents)))"

definition splitCSV :: "string \<Rightarrow> string list" where
  "splitCSV raw =
    map strings_ToLower
      (filter (\<lambda>v. v \<noteq> []) (map (\<lambda>v. strings_TrimSpace (strings_TrimPrefix v ''.'')) (strings_Split raw (CHR '',''))))"

definition matches :: "string \<Rightarrow> string list \<Rightarrow> bool" where
  "matches host0 hosts =
    (let host = strings_ToLower (strings_TrimSuffix (hd (strings_Split host0 (CHR '':''))) ''.'') in
     \<exists>rule \<in> set hosts. host = rule \<or> strings_HasSuffix host (''.'' @ rule))"

record http_request =
  Method :: string
  Host :: string
  URLHost :: "string option"
  Headers :: "(string \<times> string list) list"

definition Header_Get :: "(string \<times> string list) list \<Rightarrow> string \<Rightarrow> string" where
  "Header_Get h key = (case map_of h key of Some (v # vs) \<Rightarrow> v | _ \<Rightarrow> [])"

definition Header_Add :: "(string \<times> string list) list \<Rightarrow> string \<Rightarrow> string \<Rightarrow> (string \<times> string list) list" where
  "Header_Add h key v = AList.update key ((case map_of h key of Some vs \<Rightarrow> vs | None \<Rightarrow> []) @ [v]) h"

definition requestHost :: "http_request \<Rightarrow> string" where
  "requestHost r =
    (if Method r = ''CONNECT'' then Host r
     else case URLHost r of Some h \<Rightarrow> if h \<noteq> [] then h else Host r | None \<Rightarrow> Host r)"

definition ensurePort :: "string \<Rightarrow> string" where
  "ensurePort host = (if SplitHostPort host \<noteq> None then host else JoinHostPort host ''443'')"

definition hop_headers :: "string list" where
  "hop_headers = [''Connection'', ''Proxy-Connection'', ''Keep-Alive'', ''Proxy-Authenticate'', ''Proxy-Authorization'', ''Te'',
     ''Trailer'', ''Transfer-Encoding'', ''Upgrade'']"

definition stripHopHeaders :: "(string \<times> string list) list \<Rightarrow> (string \<times> string list) list" where
  "stripHopHeaders h = foldl (\<lambda>h key. AList.delete key h) h hop_headers"

definition copyHeader :: "(string \<times> string list) list \<Rightarrow> (string \<times> string list) list \<Rightarrow> (string \<times> string list) list" where
  "copyHeader dst src = foldl (\<lambda>d (k, vs). foldl (\<lambda>d v. Header_Add d k v) d vs) dst src"

definition writeProxyError :: "string \<Rightarrow> string" where
  "writeProxyError message =
    ''HTTP/1.1 502 Bad Gateway'' @ [CHR 0x0D, CHR 0x0A] @ ''Content-Type: text/plain'' @ [CHR 0x0D, CHR 0x0A] @ ''Content-Length: '' @
    show_nat (length message) @ [CHR 0x0D, CHR 0x0A, CHR 0x0D, CHR 0x0A] @ message"

section \<open>The HTTP proxies\<close>

definition authHeader :: string where "authHeader = ''Bearer ''"

record http_response =
  Status :: nat
  RHeaders :: "(string \<times> string list) list"
  Body :: bytes

text \<open>What the proxy does with a request: an error reply, a bridge to a host, a reply passed on, or nothing more.\<close>

datatype proxy_reply =
  ErrorReply nat "(string \<times> string list) list" string
| Bridge string
| Forwarded http_request http_response
| NoReply

record proxyHandler =
  ph_token :: string

text \<open>\<open>dial\<close> answers an error or nothing for an address, \<open>hijack\<close> whether the connection can be taken over
  and is.\<close>

definition proxy_connect :: "(string \<Rightarrow> string option) \<Rightarrow> bool \<Rightarrow> bool \<Rightarrow> http_request \<Rightarrow> proxy_reply" where
  "proxy_connect dial hijackable hijacked r =
    (case dial (ensurePort (Host r)) of
       Some err \<Rightarrow> ErrorReply 502 [] (''connect upstream: '' @ err)
     | None \<Rightarrow>
         if \<not> hijackable then ErrorReply 500 [] ''hijacking unsupported''
         else if \<not> hijacked then NoReply
         else Bridge (ensurePort (Host r)))"

definition ServeHTTP ::
  "proxyHandler \<Rightarrow> (string \<Rightarrow> string option) \<Rightarrow> bool \<Rightarrow> bool \<Rightarrow> (http_request \<Rightarrow> (string, http_response) outcome) \<Rightarrow> http_request \<Rightarrow> proxy_reply" where
  "ServeHTTP h dial hijackable hijacked roundTrip r =
    (if Header_Get (Headers r) ''Proxy-Authorization'' \<noteq> authHeader @ ph_token h
     then ErrorReply 407 [(''Proxy-Authenticate'', [''Bearer''])] ''proxy authentication required''
     else if Method r = ''CONNECT'' then proxy_connect dial hijackable hijacked r
     else
       let r' = r\<lparr>Headers := stripHopHeaders (Headers r)\<rparr> in
       case roundTrip r' of
         Ret resp \<Rightarrow> Forwarded r' (resp\<lparr>RHeaders := copyHeader [] (RHeaders resp)\<rparr>)
       | Err err \<Rightarrow> ErrorReply 502 [] (''upstream: '' @ err)
       | Panic \<Rightarrow> NoReply)"

record clientProxy =
  cp_server :: string
  cp_token :: string
  cp_direct :: "string list"

text \<open>What the local proxy does: go directly to a host, send a request through the tunnel, or answer an error.\<close>

datatype client_route = Direct proxy_reply | Tunnel http_request | ClientError string

definition serveDirect :: "(string \<Rightarrow> string option) \<Rightarrow> (http_request \<Rightarrow> (string, http_response) outcome) \<Rightarrow> http_request \<Rightarrow> proxy_reply" where
  "serveDirect dial roundTrip r =
    (if Method r = ''CONNECT'' then
       (case dial (ensurePort (Host r)) of
          Some err \<Rightarrow> ErrorReply 502 [] err
        | None \<Rightarrow> Bridge (ensurePort (Host r)))
     else
       let r' = r\<lparr>Headers := stripHopHeaders (Headers r)\<rparr> in
       case roundTrip r' of
         Ret resp \<Rightarrow> Forwarded r' resp
       | Err err \<Rightarrow> ErrorReply 502 [] err
       | Panic \<Rightarrow> NoReply)"

definition client_serve ::
  "clientProxy \<Rightarrow> (string \<Rightarrow> string option) \<Rightarrow> (http_request \<Rightarrow> (string, http_response) outcome) \<Rightarrow> string option \<Rightarrow> http_request \<Rightarrow> client_route" where
  "client_serve c dial roundTrip tlsDial r =
    (if matches (requestHost r) (cp_direct c) then Direct (serveDirect dial roundTrip r)
     else
       case tlsDial of
         Some err \<Rightarrow> ClientError (writeProxyError (''tunnel: '' @ err))
       | None \<Rightarrow> Tunnel (r\<lparr>Headers := AList.update ''Proxy-Authorization'' [authHeader @ cp_token c] (Headers r)\<rparr>))"

section \<open>Lemmas\<close>

text \<open>What the relay relies on: the cipher is that of AES-GCM, an authenticated encryption with a tag of 16 bytes.\<close>

definition udp_aead_ok :: "AEAD \<Rightarrow> bool" where
  "udp_aead_ok A \<longleftrightarrow> (\<forall>n p. length (aead_Seal A n p) = length p + udp_Overhead \<and> aead_Open A n (aead_Seal A n p) = Some p)"

lemma string_bytes_length [simp]: "length (string_bytes s) = length s"
  by (simp add: string_bytes_def)

lemma bytes_string_bytes [simp]: "bytes_string (string_bytes s) = s"
proof -
  have "char_of (unat (word_of_nat (of_char c) :: byte)) = c" for c
  proof -
    have "(of_char c :: nat) < 256" using of_char_mod_256 [of c, where ?'a = nat] by (metis mod_less_divisor zero_less_numeral)
    then show ?thesis by (simp add: unat_of_nat)
  qed
  then show ?thesis by (simp add: string_bytes_def bytes_string_def comp_def map_idI)
qed

lemma open_seal:
  assumes "udp_aead_ok A" "length n = udp_NonceSize"
  shows "openUDP A (udpMagic @ n @ aead_Seal A n p) = Ret p"
  using assms by (simp add: openUDP_def udp_aead_ok_def udpMagic_def udp_NonceSize_def udp_Overhead_def)

lemma SplitHostPort_nonempty: "SplitHostPort t \<noteq> None \<Longrightarrow> t \<noteq> []"
  by (auto simp: SplitHostPort_def LastIndexByte_def)

lemma parse_make_request:
  assumes "makeUDPRequest target body = Ret payload"
  shows "parseUDPRequest payload = Ret (target, body)" "length payload = 3 + length target + length body"
proof -
  from assms have t: "SplitHostPort target \<noteq> None" "length target \<le> 0xFFFF"
    and p: "payload = udpRequest # be16 (word_of_nat (length target)) @ string_bytes target @ body"
    by (auto simp: makeUDPRequest_def split: if_splits)
  have n: "unat (word_of_nat (length target) :: uint16) = length target" using t(2) by (simp add: unat_of_nat)
  have "take 2 (be16 (word_of_nat (length target)) @ string_bytes target @ body) = be16 (word_of_nat (length target))" by simp
  moreover have "drop (3 + length target) (x # be16 (word_of_nat (length target)) @ string_bytes target @ body) = body" for x
    by (simp add: eval_nat_numeral)
  ultimately show "parseUDPRequest payload = Ret (target, body)"
    using t n SplitHostPort_nonempty [OF t(1)] by (simp add: parseUDPRequest_def p Let_def udpRequest_def)
  show "length payload = 3 + length target + length body" by (simp add: p)
qed

subsection \<open>Labels\<close>

lemma Split_nonempty: "strings_Split s sep \<noteq> []"
  by (induction s) (auto split: list.split)

lemma Split_append: "strings_Split (p @ sep # s) sep = strings_Split p sep @ strings_Split s sep"
proof (induction p)
  case (Cons c p)
  then show ?case using Split_nonempty [of p sep] by (cases "strings_Split p sep") auto
qed simp

fun join_labels :: "string list \<Rightarrow> char \<Rightarrow> string" where
  "join_labels [] sep = []"
| "join_labels [w] sep = w"
| "join_labels (w # ws) sep = w @ sep # join_labels ws sep"

lemma join_Split: "join_labels (strings_Split s sep) sep = s"
proof (induction s)
  case (Cons c s)
  then show ?case using Split_nonempty [of s sep] by (cases "strings_Split s sep" rule: remdups_adj.cases) auto
qed simp

lemma join_append: "xs \<noteq> [] \<Longrightarrow> ys \<noteq> [] \<Longrightarrow> join_labels (xs @ ys) sep = join_labels xs sep @ sep # join_labels ys sep"
proof (induction xs)
  case (Cons x xs)
  then show ?case by (cases xs; cases ys) auto
qed simp

lemma HasSuffix_iff: "strings_HasSuffix s suf \<longleftrightarrow> (\<exists>p. s = p @ suf)"
  unfolding strings_HasSuffix_def
proof
  assume "length suf \<le> length s \<and> drop (length s - length suf) s = suf"
  then show "\<exists>p. s = p @ suf" by (metis append_take_drop_id)
qed auto

lemma label_suffix:
  "h = rule \<or> strings_HasSuffix h (CHR ''.'' # rule) \<longleftrightarrow> suffix (strings_Split rule (CHR ''.'')) (strings_Split h (CHR ''.''))"
proof
  assume "h = rule \<or> strings_HasSuffix h (CHR ''.'' # rule)"
  then show "suffix (strings_Split rule (CHR ''.'')) (strings_Split h (CHR ''.''))"
    by (auto simp: HasSuffix_iff Split_append suffix_def)
next
  assume "suffix (strings_Split rule (CHR ''.'')) (strings_Split h (CHR ''.''))"
  then obtain xs where xs: "strings_Split h (CHR ''.'') = xs @ strings_Split rule (CHR ''.'')" by (auto simp: suffix_def)
  show "h = rule \<or> strings_HasSuffix h (CHR ''.'' # rule)"
  proof (cases "xs = []")
    case True
    with xs have "h = rule" by (metis append_Nil join_Split)
    then show ?thesis ..
  next
    case False
    with xs have "h = join_labels xs (CHR ''.'') @ CHR ''.'' # rule"
      by (metis join_Split join_append Split_nonempty)
    then show ?thesis by (auto simp: HasSuffix_iff)
  qed
qed

lemma stripped: "map_of (stripHopHeaders h) key = (if key \<in> set hop_headers then None else map_of h key)"
proof -
  have "map_of (foldl (\<lambda>h key. AList.delete key h) h keys) key = (if key \<in> set keys then None else map_of h key)" for keys
    by (induction keys arbitrary: h) (auto simp: delete_conv')
  then show ?thesis by (simp add: stripHopHeaders_def)
qed

section \<open>Properties\<close>


definition sample_aead :: AEAD where
  "sample_aead = \<lparr> aead_Seal = (\<lambda>n p. p @ replicate 16 7), aead_Open = (\<lambda>n c. Some (take (length c - 16) c)) \<rparr>"


text \<open>The direct list is matched by whole labels: a host goes around the tunnel exactly when the labels of a
  listed name end its own.\<close>

theorem matches_whole_labels:
  "matches host hosts \<longleftrightarrow>
    (\<exists>rule \<in> set hosts. suffix (strings_Split rule (CHR ''.''))
       (strings_Split (strings_ToLower (strings_TrimSuffix (hd (strings_Split host (CHR '':''))) ''.'')) (CHR ''.'')))"
  by (simp add: matches_def Let_def label_suffix)

text \<open>The list forgets to trim a blank before the dot: such a name matches nothing.\<close>

lemma blank_before_dot:
  "matches ''www.example.com'' (splitCSV ''.example.com'') \<and> \<not> matches ''www.example.com'' (splitCSV ''a.test, .example.com'')"
  by code_simp


definition sample_request :: http_request where
  "sample_request = \<lparr> Method = ''GET'', Host = ''example.com'', URLHost = Some ''example.com'', Headers = [(''Accept'', [''*/*''])] \<rparr>"


end
