(* ===== verification/Proxy_Start.thy ===== *)
theory Proxy_Start
  imports Proxy_Command
begin

text \<open>
  The four commands of \<^verbatim>\<open>cmd/wg-proxy/main.go\<close>: what each checks before it is ready, and one turn of the loops of the
  UDP commands. The values of the flags are arguments, and so are the hash, the construction of the cipher and the
  answers of the operating system. A \<^verbatim>\<open>fatalf\<close> ends the process: it is an error with its message.
\<close>

section \<open>The UDP commands\<close>

text \<open>The key is the hash of the token; \<open>newGCM\<close> is the construction of the cipher from a key.\<close>

definition udpAEAD :: "(bytes \<Rightarrow> bytes) \<Rightarrow> (bytes \<Rightarrow> (string, AEAD) outcome) \<Rightarrow> string \<Rightarrow> (string, AEAD) outcome" where
  "udpAEAD sha256 newGCM token = newGCM (sha256 (string_bytes token))"

record udp_answers =
  ua_token_file :: "(string, string) outcome"
  ua_sha256 :: "bytes \<Rightarrow> bytes"
  ua_newGCM :: "bytes \<Rightarrow> (string, AEAD) outcome"
  ua_resolve_server :: "string option"
  ua_resolve_listen :: "string option"
  ua_listen :: "string option"

definition fatal_if :: "string option \<Rightarrow> string \<Rightarrow> (string, unit) outcome" where
  "fatal_if err message = (case err of Some e \<Rightarrow> Err (message @ e) | None \<Rightarrow> Ret ())"

definition udpServer_start :: "string \<Rightarrow> string \<Rightarrow> udp_answers \<Rightarrow> (string, AEAD) outcome" where
  "udpServer_start token tokenFile w =
    obind (omap_err (\<lambda>err. ''UDP server token: '' @ err) (loadToken token tokenFile (ua_token_file w))) (\<lambda>resolvedToken.
    if resolvedToken = [] then Err ''UDP server token: <nil>''
    else
      obind (omap_err (\<lambda>err. ''UDP server cipher: '' @ err) (udpAEAD (ua_sha256 w) (ua_newGCM w) resolvedToken)) (\<lambda>aead.
      obind (fatal_if (ua_resolve_listen w) ''UDP listen address: '') (\<lambda>_.
      obind (fatal_if (ua_listen w) ''UDP listen: '') (\<lambda>_. Ret aead))))"

text \<open>One turn of the loop: what is read, or \<open>None\<close> for an error of the read, and what is sent back.\<close>

definition udpServer_turn :: "AEAD \<Rightarrow> (string \<Rightarrow> bytes \<Rightarrow> bytes option) \<Rightarrow> bytes option \<Rightarrow> bytes option \<Rightarrow> bytes option" where
  "udpServer_turn aead upstream nonce datagram =
    (case datagram of None \<Rightarrow> None | Some d \<Rightarrow> serveUDPDatagram aead upstream nonce (udp_read d))"

definition udpClient_start :: "string \<Rightarrow> string \<Rightarrow> string \<Rightarrow> string \<Rightarrow> udp_answers \<Rightarrow> (string, AEAD) outcome" where
  "udpClient_start serverAddr target token tokenFile w =
    obind (omap_err (\<lambda>err. ''UDP client requires -server, -target, and token: '' @ err) (loadToken token tokenFile (ua_token_file w))) (\<lambda>resolvedToken.
    if serverAddr = [] \<or> target = [] \<or> resolvedToken = [] then Err ''UDP client requires -server, -target, and token: <nil>''
    else
      obind (omap_err (\<lambda>err. ''UDP client cipher: '' @ err) (udpAEAD (ua_sha256 w) (ua_newGCM w) resolvedToken)) (\<lambda>aead.
      obind (fatal_if (ua_resolve_server w) ''UDP server address: '') (\<lambda>_.
      obind (fatal_if (ua_resolve_listen w) ''UDP listen address: '') (\<lambda>_.
      obind (fatal_if (ua_listen w) ''UDP listen: '') (\<lambda>_. Ret aead)))))"

definition udpClient_turn :: "AEAD \<Rightarrow> (bytes \<Rightarrow> bytes option) \<Rightarrow> bytes option \<Rightarrow> string \<Rightarrow> bytes option \<Rightarrow> bytes option" where
  "udpClient_turn aead server nonce target datagram =
    (case datagram of None \<Rightarrow> None | Some d \<Rightarrow> relayUDPDatagram aead server nonce target (udp_read d))"

section \<open>The HTTP commands\<close>

record tls_answers =
  ta_token_file :: "(string, string) outcome"
  ta_key_pair :: "string option"
  ta_ca_file :: "string option"
  ta_ca_found :: bool
  ta_listen :: "string option"

definition server_start :: "string \<Rightarrow> string \<Rightarrow> string \<Rightarrow> string \<Rightarrow> tls_answers \<Rightarrow> (string, proxyHandler) outcome" where
  "server_start cert key token tokenFile w =
    obind (omap_err (\<lambda>err. ''server token: '' @ err) (loadToken token tokenFile (ta_token_file w))) (\<lambda>resolvedToken.
    if cert = [] \<or> key = [] \<or> resolvedToken = [] then Err ''server requires -cert, -key, and -token''
    else
      obind (fatal_if (ta_key_pair w) ''load TLS certificate: '') (\<lambda>_.
      obind (fatal_if (ta_listen w) ''listen: '') (\<lambda>_.
      Ret \<lparr> ph_token = resolvedToken \<rparr>)))"

definition client_start :: "string \<Rightarrow> string \<Rightarrow> string \<Rightarrow> string \<Rightarrow> string \<Rightarrow> tls_answers \<Rightarrow> (string, clientProxy) outcome" where
  "client_start serverAddr ca token tokenFile direct w =
    obind (omap_err (\<lambda>err. ''client token: '' @ err) (loadToken token tokenFile (ta_token_file w))) (\<lambda>resolvedToken.
    if serverAddr = [] \<or> ca = [] \<or> resolvedToken = [] then Err ''client requires -server, -ca, and -token''
    else
      obind (fatal_if (ta_ca_file w) ''read CA: '') (\<lambda>_.
      if \<not> ta_ca_found w then Err ''read CA: no certificate found''
      else
        obind (fatal_if (ta_listen w) ''listen: '') (\<lambda>_.
        Ret \<lparr> cp_server = serverAddr, cp_token = resolvedToken, cp_direct = splitCSV direct \<rparr>)))"

section \<open>Lemmas\<close>

lemma loadToken_Ret:
  "loadToken token tokenFile file = Ret t \<Longrightarrow>
    t = strings_TrimSpace token \<or> (\<exists>contents. file = Ret contents \<and> t = strings_TrimSpace contents)"
  by (auto simp: loadToken_def Let_def obind_Ret_iff split: if_splits)

text \<open>No command is ready without a token, and the tokens have no blanks around them.\<close>

lemma server_has_token: "server_start cert key token tokenFile w = Ret h \<Longrightarrow> ph_token h \<noteq> [] \<and> strings_TrimSpace (ph_token h) = ph_token h"
  by (auto simp: server_start_def obind_Ret_iff dest!: loadToken_Ret split: if_splits)

lemma client_has_token:
  "client_start serverAddr ca token tokenFile direct w = Ret c \<Longrightarrow> cp_token c \<noteq> [] \<and> strings_TrimSpace (cp_token c) = cp_token c"
  by (auto simp: client_start_def obind_Ret_iff dest!: loadToken_Ret split: if_splits)

text \<open>A relay whose two ends were started with the same token text carries datagrams end to end: the keys agree.\<close>

lemma same_token_same_cipher:
  assumes "udpServer_start token [] w = Ret a" "udpClient_start serverAddr target token [] w' = Ret b"
    "ua_sha256 w = ua_sha256 w'" "ua_newGCM w = ua_newGCM w'"
  shows "a = b"
  using assms by (auto simp: udpServer_start_def udpClient_start_def obind_Ret_iff loadToken_def strings_TrimSpace_def split: if_splits)

end
