(* ===== verification/Client_UI.thy ===== *)
theory Client_UI
  imports Net_IP Go_JSON "HOL-Library.Code_Target_Nat"
begin

text \<open>
  \<^verbatim>\<open>cmd/wg-client-ui\<close>: the controller of the local proxy processes (\<^verbatim>\<open>proxy_runtime.go\<close>) and the
  checks of \<^verbatim>\<open>main.go\<close>. The file system, the processes and the ports are the environment: what they
  answer to a call is a record of answers, an argument of the call, and so is the JSON decoder. Error texts are in English here where the code has them in Chinese.
\<close>

section \<open>Configuration\<close>

record proxyServerProfile =
  sp_Name :: string
  sp_IP :: string
  sp_Port :: int

record proxyClientConfig =
  Servers :: "proxyServerProfile list"
  SelectedEndpoint :: string
  ui_Transport :: string
  UDPTarget :: string

datatype ui_error =
  BadTransport | TooManyServers | BadServerIP nat | UnusableServerIP nat | BadServerPort nat | DuplicateServer
| SelectionUnknown | SelectionMissing | BadUDPTarget | ConfigTooLarge | IOError string | NotADirectory
| BinaryMissing | BinaryNotRegular | CertificateMissing | TokenMissing | TokenPermissions
| TCPPortBusy | UDPPortBusy | TCPStartFailed | UDPStartFailed

type_synonym 'a ui_result = "(ui_error, 'a) outcome"

definition defaultProxyConfig :: proxyClientConfig where
  "defaultProxyConfig = \<lparr> Servers = [], SelectedEndpoint = [], ui_Transport = ''tcp'', UDPTarget = ''1.1.1.1:53'' \<rparr>"

definition maxProxyConfigBytes :: int where
  "maxProxyConfigBytes = 64 * 1024"

definition validHostPort :: "string \<Rightarrow> bool" where
  "validHostPort value =
    (case SplitHostPort (strings_TrimSpace value) of
       None \<Rightarrow> False
     | Some (host, port) \<Rightarrow>
         \<not> (strings_TrimSpace host = [] \<or> port = [] \<or>
            (\<exists>c \<in> set host. (of_char c :: nat) \<in> {32, 9, 13, 10} \<or> c = CHR ''/'' \<or> (of_char c :: nat) = 92)) \<and>
         (\<forall>c \<in> set port. is_digit c) \<and>
         (case strconv_Atoi port of None \<Rightarrow> False | Some n \<Rightarrow> n \<ge> 1 \<and> n \<le> 65535))"

text \<open>The endpoint of a profile, and the loop over the profiles: the endpoints seen and whether the selected one is
  among them.\<close>

definition profile_endpoint :: "nat \<Rightarrow> proxyServerProfile \<Rightarrow> string ui_result" where
  "profile_endpoint idx server =
    (case ParseAddr (strings_TrimSpace (sp_IP server)) of
       None \<Rightarrow> Err (BadServerIP (idx + 1))
     | Some address \<Rightarrow>
         if IsUnspecified address \<or> IsMulticast address then Err (UnusableServerIP (idx + 1))
         else if sp_Port server < 1 \<or> sp_Port server > 65535 then Err (BadServerPort (idx + 1))
         else Ret (JoinHostPort (Addr_String address) (show_int (sp_Port server))))"

fun check_profiles :: "string \<Rightarrow> nat \<Rightarrow> string list \<Rightarrow> bool \<Rightarrow> proxyServerProfile list \<Rightarrow> bool ui_result" where
  "check_profiles selected idx seen found [] = Ret found"
| "check_profiles selected idx seen found (server # rest) =
    obind (profile_endpoint idx server) (\<lambda>endpoint.
    if endpoint \<in> set seen then Err DuplicateServer
    else check_profiles selected (idx + 1) (endpoint # seen) (found \<or> endpoint = selected) rest)"

definition validateProxyConfig :: "proxyClientConfig \<Rightarrow> bool \<Rightarrow> unit ui_result" where
  "validateProxyConfig config requireSelection =
    (if ui_Transport config \<noteq> ''tcp'' \<and> ui_Transport config \<noteq> ''udp'' \<and> ui_Transport config \<noteq> ''both'' then Err BadTransport
     else if length (Servers config) > 32 then Err TooManyServers
     else
       obind (check_profiles (SelectedEndpoint config) 0 [] False (Servers config)) (\<lambda>selectedFound.
       if SelectedEndpoint config \<noteq> [] \<and> \<not> selectedFound then Err SelectionUnknown
       else if requireSelection \<and> SelectedEndpoint config = [] then Err SelectionMissing
       else if (ui_Transport config = ''udp'' \<or> ui_Transport config = ''both'') \<and> \<not> validHostPort (UDPTarget config) then Err BadUDPTarget
       else Ret ()))"

text \<open>The file at \<^verbatim>\<open>configPath\<close>: it is not there, it cannot be opened or read, or its bytes.\<close>

datatype opened = NotThere | OpenError string | ReadError string | Contents bytes

type_synonym config_decoder = "proxyClientConfig json_decoder"

definition decodeProxyConfig :: "config_decoder \<Rightarrow> bytes \<Rightarrow> (string, proxyClientConfig) outcome" where
  "decodeProxyConfig J contents =
    obind (first_value J defaultProxyConfig contents) (\<lambda>config.
    case second_value J contents of
      AtEOF \<Rightarrow> Ret config
    | TrailingValue \<Rightarrow> Err ''proxy config must contain exactly one JSON object''
    | TrailingError err \<Rightarrow> Err err)"

definition loadConfig :: "config_decoder \<Rightarrow> opened \<Rightarrow> proxyClientConfig ui_result" where
  "loadConfig J file =
    (case file of
       NotThere \<Rightarrow> Ret defaultProxyConfig
     | OpenError err \<Rightarrow> Err (IOError err)
     | ReadError err \<Rightarrow> Err (IOError err)
     | Contents stored \<Rightarrow>
         let contents = take (nat (maxProxyConfigBytes + 1)) stored in
         if int (length contents) > maxProxyConfigBytes then Err ConfigTooLarge
         else
           obind (omap_err (\<lambda>err. IOError (''read proxy config: '' @ err)) (decodeProxyConfig J contents)) (\<lambda>config.
           obind (validateProxyConfig config False) (\<lambda>_. Ret config)))"

record dir_answers =
  mkdir_error :: "string option"
  dir_stat :: "(string, bool \<times> nat) outcome"
  chmod_error :: "string option"

definition ensureStateDir :: "dir_answers \<Rightarrow> unit ui_result" where
  "ensureStateDir w =
    (case mkdir_error w of
       Some err \<Rightarrow> Err (IOError err)
     | None \<Rightarrow>
         obind (omap_err IOError (dir_stat w)) (\<lambda>(isDir, perm).
         if \<not> isDir then Err NotADirectory
         else if perm \<noteq> 448 then
           (case chmod_error w of Some err \<Rightarrow> Err (IOError (''secure proxy state directory: '' @ err)) | None \<Rightarrow> Ret ())
         else Ret ()))"

text \<open>The file is written to a temporary one that is renamed at the end; the first error ends it, and the deferred
  call removes the temporary file. A failed write may have written any part, \<open>partial\<close>. Permissions
  are octal in the code: \<^verbatim>\<open>0o700\<close> is 448.\<close>

record config_files =
  committed_file :: "bytes option"
  temporary_file :: "bytes option"

record save_answers =
  save_dir :: dir_answers
  encoded :: "proxyClientConfig \<Rightarrow> (string, bytes) outcome"
  create_error :: "string option"
  perm_error :: "string option"
  write_error :: "string option"
  sync_error :: "string option"
  close_error :: "string option"
  rename_error :: "string option"

definition abandon :: "config_files \<Rightarrow> string \<Rightarrow> config_files \<times> unit ui_result" where
  "abandon f err = (f\<lparr>temporary_file := None\<rparr>, Err (IOError err))"

definition saveConfig :: "config_files \<Rightarrow> save_answers \<Rightarrow> bytes \<Rightarrow> proxyClientConfig \<Rightarrow> config_files \<times> unit ui_result" where
  "saveConfig f w partial config =
    or_return (validateProxyConfig config False) f (\<lambda>_.
    or_return (ensureStateDir (save_dir w)) f (\<lambda>_.
    or_return (omap_err IOError (encoded w config)) f (\<lambda>contents.
    if int (length contents) > maxProxyConfigBytes then (f, Err ConfigTooLarge)
    else
      case create_error w of
        Some err \<Rightarrow> (f, Err (IOError err))
      | None \<Rightarrow>
          let f1 = f\<lparr>temporary_file := Some []\<rparr> in
          (case perm_error w of
             Some err \<Rightarrow> abandon f1 err
           | None \<Rightarrow>
               (case write_error w of
                  Some err \<Rightarrow> abandon (f1\<lparr>temporary_file := Some partial\<rparr>) err
                | None \<Rightarrow>
                    let f2 = f1\<lparr>temporary_file := Some contents\<rparr> in
                    (case sync_error w of
                       Some err \<Rightarrow> abandon f2 err
                     | None \<Rightarrow>
                         (case close_error w of
                            Some err \<Rightarrow> abandon f2 err
                          | None \<Rightarrow>
                              (case rename_error w of
                                 Some err \<Rightarrow> abandon f2 err
                               | None \<Rightarrow> (f2\<lparr>committed_file := temporary_file f2, temporary_file := None\<rparr>, Ret ())))))))))"

section \<open>The controller\<close>

text \<open>A managed process is its identifier.\<close>

record proxyController =
  pc_tcp :: "nat option"
  pc_udp :: "nat option"
  pc_startedAt :: "gotime option"

definition newProxyController :: proxyController where
  "newProxyController = \<lparr> pc_tcp = None, pc_udp = None, pc_startedAt = None \<rparr>"

text \<open>How a process takes the interrupt and, after two seconds, the kill; an error of a process that is done is
  none.\<close>

record stop_answers =
  interrupt_error :: "string option"
  stopped_in_time :: bool
  kill_error :: "string option"

definition stop_process :: "stop_answers \<Rightarrow> string list" where
  "stop_process w =
    (case interrupt_error w of Some err \<Rightarrow> [err] | None \<Rightarrow> []) @
    (if stopped_in_time w then [] else case kill_error w of Some err \<Rightarrow> [err] | None \<Rightarrow> [])"

text \<open>The errors of the processes that run, joined.\<close>

definition stopLocked :: "proxyController \<Rightarrow> stop_answers \<Rightarrow> stop_answers \<Rightarrow> proxyController \<times> string list" where
  "stopLocked c wt wu =
    (c\<lparr>pc_tcp := None, pc_udp := None, pc_startedAt := None\<rparr>,
     (if pc_tcp c \<noteq> None then stop_process wt else []) @ (if pc_udp c \<noteq> None then stop_process wu else []))"

definition disconnect :: "proxyController \<Rightarrow> stop_answers \<Rightarrow> stop_answers \<Rightarrow> proxyController \<times> string list" where
  "disconnect c wt wu = stopLocked c wt wu"

record start_answers =
  start_dir :: dir_answers
  log_error :: "string option"
  started :: "(string, nat) outcome"

definition startProcess :: "start_answers \<Rightarrow> nat ui_result" where
  "startProcess w =
    obind (ensureStateDir (start_dir w)) (\<lambda>_.
    case log_error w of
      Some err \<Rightarrow> Err (IOError err)
    | None \<Rightarrow> omap_err IOError (started w))"

text \<open>
  The loop of \<^verbatim>\<open>waitForProxyListener\<close>: \<open>ready i\<close> and \<open>clock i\<close> are what turn \<open>i\<close> asks and reads. It
  may run for ever if the clock stands still, so the number of turns is bounded by \<open>fuel\<close> and \<open>None\<close> is a
  loop that has not returned in them.
\<close>

fun wait_loop :: "nat \<Rightarrow> gotime \<Rightarrow> (nat \<Rightarrow> bool) \<Rightarrow> (nat \<Rightarrow> gotime) \<Rightarrow> nat \<Rightarrow> bool option" where
  "wait_loop 0 limit ready clock i = None"
| "wait_loop (Suc fuel) limit ready clock i =
    (if ready i then Some True
     else if clock i > limit then Some False
     else wait_loop fuel limit ready clock (i + 1))"

definition waitForProxyListener :: "nat \<Rightarrow> duration \<Rightarrow> gotime \<Rightarrow> (nat \<Rightarrow> bool) \<Rightarrow> (nat \<Rightarrow> gotime) \<Rightarrow> bool option" where
  "waitForProxyListener fuel timeout start ready clock = wait_loop fuel (start + timeout) ready clock 0"

text \<open>The turns of a wait: the reading that fixes the limit, and what each turn sees.\<close>

record wait_answers =
  wait_start :: gotime
  wait_ready :: "nat \<Rightarrow> bool"
  wait_clock :: "nat \<Rightarrow> gotime"

definition listener_timeout :: duration where
  "listener_timeout = 3 * 1000000000"

definition listener_up :: "nat \<Rightarrow> wait_answers \<Rightarrow> bool option" where
  "listener_up fuel w = waitForProxyListener fuel listener_timeout (wait_start w) (wait_ready w) (wait_clock w)"

text \<open>What \<^verbatim>\<open>connect\<close> asks the environment. A file is whether it is regular and its permissions.\<close>

record connect_answers =
  config_decoder :: config_decoder
  config_file :: opened
  binary_stat :: "bool option"
  certificate_stat :: "bool option"
  token_stat :: "(bool \<times> nat) option"
  stop_before :: "stop_answers \<times> stop_answers"
  tcp_busy :: bool
  udp_busy :: bool
  start_tcp :: start_answers
  start_udp :: start_answers
  tcp_wait :: wait_answers
  udp_wait :: wait_answers
  stop_after :: "stop_answers \<times> stop_answers"

definition wants_tcp :: "proxyClientConfig \<Rightarrow> bool" where
  "wants_tcp config \<longleftrightarrow> ui_Transport config = ''tcp'' \<or> ui_Transport config = ''both''"

definition wants_udp :: "proxyClientConfig \<Rightarrow> bool" where
  "wants_udp config \<longleftrightarrow> ui_Transport config = ''udp'' \<or> ui_Transport config = ''both''"

definition stop_again :: "proxyController \<Rightarrow> connect_answers \<Rightarrow> proxyController" where
  "stop_again c w = fst (stopLocked c (fst (stop_after w)) (snd (stop_after w)))"

text \<open>
  The part of \<^verbatim>\<open>connect\<close> that starts the processes, with the others stopped, in two steps: the starts, and
  the waits for the listeners. \<open>None\<close> is a wait that has not returned in \<open>fuel\<close> turns.
\<close>

definition await_listeners :: "nat \<Rightarrow> proxyController \<Rightarrow> connect_answers \<Rightarrow> gotime \<Rightarrow> (proxyController \<times> unit ui_result) option" where
  "await_listeners fuel c w now =
    (case (if pc_tcp c \<noteq> None then listener_up fuel (tcp_wait w) else Some True) of
       None \<Rightarrow> None
     | Some False \<Rightarrow> Some (stop_again c w, Err TCPStartFailed)
     | Some True \<Rightarrow>
         (case (if pc_udp c \<noteq> None then listener_up fuel (udp_wait w) else Some True) of
            None \<Rightarrow> None
          | Some False \<Rightarrow> Some (stop_again c w, Err UDPStartFailed)
          | Some True \<Rightarrow> Some (c\<lparr>pc_startedAt := Some now\<rparr>, Ret ())))"

definition connect_start :: "nat \<Rightarrow> proxyController \<Rightarrow> proxyClientConfig \<Rightarrow> connect_answers \<Rightarrow> gotime \<Rightarrow> (proxyController \<times> unit ui_result) option" where
  "connect_start fuel c config w now =
    (if wants_tcp config \<and> tcp_busy w then Some (c, Err TCPPortBusy)
     else if wants_udp config \<and> udp_busy w then Some (c, Err UDPPortBusy)
     else
       case (if wants_tcp config then obind (startProcess (start_tcp w)) (\<lambda>p. Ret (Some p)) else Ret (pc_tcp c)) of
         Err err \<Rightarrow> Some (c\<lparr>pc_tcp := None\<rparr>, Err err)
       | Panic \<Rightarrow> Some (c, Panic)
       | Ret t \<Rightarrow>
           let c1 = c\<lparr>pc_tcp := t\<rparr> in
           (case (if wants_udp config then obind (startProcess (start_udp w)) (\<lambda>p. Ret (Some p)) else Ret (pc_udp c)) of
              Err err \<Rightarrow> Some (stop_again (c1\<lparr>pc_udp := None\<rparr>) w, Err err)
            | Panic \<Rightarrow> Some (c1, Panic)
            | Ret u \<Rightarrow> await_listeners fuel (c1\<lparr>pc_udp := u\<rparr>) w now))"

definition connect :: "nat \<Rightarrow> proxyController \<Rightarrow> connect_answers \<Rightarrow> gotime \<Rightarrow> (proxyController \<times> unit ui_result) option" where
  "connect fuel c w now =
    (case obind (loadConfig (config_decoder w) (config_file w)) (\<lambda>config.
          obind (validateProxyConfig config True) (\<lambda>_. Ret config)) of
       Err err \<Rightarrow> Some (c, Err err)
     | Panic \<Rightarrow> Some (c, Panic)
     | Ret config \<Rightarrow>
         (case binary_stat w of
            None \<Rightarrow> Some (c, Err BinaryMissing)
          | Some regular \<Rightarrow>
              if \<not> regular then Some (c, Err BinaryNotRegular)
              else if certificate_stat w \<noteq> Some True then Some (c, Err CertificateMissing)
              else
                case token_stat w of
                  None \<Rightarrow> Some (c, Err TokenMissing)
                | Some (tokenRegular, perm) \<Rightarrow>
                    if \<not> tokenRegular then Some (c, Err TokenMissing)
                    else if perm mod 64 \<noteq> 0 then Some (c, Err TokenPermissions)
                    else if pc_tcp c \<noteq> None \<or> pc_udp c \<noteq> None then
                      let (c', errs) = stopLocked c (fst (stop_before w)) (snd (stop_before w)) in
                      if errs \<noteq> [] then Some (c', Err (IOError (concat errs))) else connect_start fuel c' config w now
                    else connect_start fuel c config w now))"

record proxyRuntimeStatus =
  Configured :: bool
  Connected :: bool
  TCPListener :: bool
  UDPListener :: bool
  Managed :: bool
  rt_SelectedEndpoint :: string
  rt_Transport :: string
  rt_UDPTarget :: string
  rt_Servers :: "proxyServerProfile list"
  StartedAt :: "gotime option"

record status_answers =
  status_decoder :: config_decoder
  status_file :: opened
  tcp_listening :: bool
  udp_occupied :: bool

definition proxy_status :: "proxyController \<Rightarrow> status_answers \<Rightarrow> proxyRuntimeStatus" where
  "proxy_status c w =
    (let config = (case loadConfig (status_decoder w) (status_file w) of Ret k \<Rightarrow> k | _ \<Rightarrow> defaultProxyConfig);
         tcp = tcp_listening w; udp = udp_occupied w in
     \<lparr> Configured = (SelectedEndpoint config \<noteq> []),
       Connected = (if ui_Transport config = ''tcp'' then tcp else if ui_Transport config = ''udp'' then udp
                    else if ui_Transport config = ''both'' then tcp \<and> udp else False),
       TCPListener = tcp, UDPListener = udp, Managed = (pc_tcp c \<noteq> None \<or> pc_udp c \<noteq> None),
       rt_SelectedEndpoint = SelectedEndpoint config, rt_Transport = ui_Transport config, rt_UDPTarget = UDPTarget config,
       rt_Servers = Servers config, StartedAt = pc_startedAt c \<rparr>)"

section \<open>The HTTP handlers\<close>

text \<open>A reply: the status code, the \<^verbatim>\<open>Allow\<close> header of a refused method, and the body that is encoded.\<close>

datatype ui_body = UIStatus proxyRuntimeStatus | UIConfig proxyClientConfig | UIMessage string | UIFailure ui_error
  | UIStopFailure "string list"

record ui_reply =
  reply_status :: nat
  reply_allow :: string
  reply_body :: ui_body

definition writeProxyJSON :: "nat \<Rightarrow> ui_body \<Rightarrow> ui_reply" where
  "writeProxyJSON status v = \<lparr> reply_status = status, reply_allow = [], reply_body = v \<rparr>"

definition not_allowed :: "string \<Rightarrow> ui_reply" where
  "not_allowed verbs = \<lparr> reply_status = 405, reply_allow = verbs, reply_body = UIMessage ''method not allowed'' \<rparr>"

definition serveStatus :: "proxyController \<Rightarrow> string \<Rightarrow> status_answers \<Rightarrow> ui_reply" where
  "serveStatus c verb sw =
    (if verb \<noteq> ''GET'' then not_allowed ''GET'' else writeProxyJSON 200 (UIStatus (proxy_status c sw)))"

text \<open>\<open>body\<close> is the body of the request, or the error of reading one over the limit.\<close>

definition serveConfig ::
  "config_files \<Rightarrow> string \<Rightarrow> config_decoder \<Rightarrow> opened \<Rightarrow> (string, bytes) outcome \<Rightarrow> save_answers \<Rightarrow> bytes \<Rightarrow> config_files \<times> ui_reply" where
  "serveConfig f verb J file body w partial =
    (if verb = ''GET'' then
       (f, case loadConfig J file of
             Ret config \<Rightarrow> writeProxyJSON 200 (UIConfig config)
           | Err err \<Rightarrow> writeProxyJSON 500 (UIFailure err)
           | Panic \<Rightarrow> writeProxyJSON 500 (UIMessage []))
     else if verb = ''PUT'' then
       (case obind body (decodeProxyConfig J) of
          Ret config \<Rightarrow>
            (case saveConfig f w partial config of
               (f', Ret _) \<Rightarrow> (f', writeProxyJSON 200 (UIConfig config))
             | (f', Err err) \<Rightarrow> (f', writeProxyJSON 400 (UIFailure err))
             | (f', Panic) \<Rightarrow> (f', writeProxyJSON 500 (UIMessage [])))
        | _ \<Rightarrow> (f, writeProxyJSON 400 (UIMessage ''invalid configuration format'')))
     else (f, not_allowed ''GET, PUT''))"

definition connect_reply :: "status_answers \<Rightarrow> proxyController \<times> unit ui_result \<Rightarrow> proxyController \<times> ui_reply" where
  "connect_reply sw answer =
    (case answer of
       (c', Ret _) \<Rightarrow> (c', writeProxyJSON 200 (UIStatus (proxy_status c' sw)))
     | (c', Err err) \<Rightarrow> (c', writeProxyJSON 409 (UIFailure err))
     | (c', Panic) \<Rightarrow> (c', writeProxyJSON 500 (UIMessage [])))"

definition serveConnect ::
  "nat \<Rightarrow> proxyController \<Rightarrow> string \<Rightarrow> connect_answers \<Rightarrow> gotime \<Rightarrow> status_answers \<Rightarrow> (proxyController \<times> ui_reply) option" where
  "serveConnect fuel c verb w now sw =
    (if verb \<noteq> ''POST'' then Some (c, not_allowed ''POST'') else map_option (connect_reply sw) (connect fuel c w now))"

definition serveDisconnect :: "proxyController \<Rightarrow> string \<Rightarrow> stop_answers \<Rightarrow> stop_answers \<Rightarrow> status_answers \<Rightarrow> proxyController \<times> ui_reply" where
  "serveDisconnect c verb wt wu sw =
    (if verb \<noteq> ''POST'' then (c, not_allowed ''POST'')
     else
       let (c', errs) = disconnect c wt wu in
       if errs \<noteq> [] then (c', writeProxyJSON 500 (UIStopFailure errs))
       else (c', writeProxyJSON 200 (UIStatus (proxy_status c' sw))))"

definition serveReconnect ::
  "nat \<Rightarrow> proxyController \<Rightarrow> string \<Rightarrow> stop_answers \<Rightarrow> stop_answers \<Rightarrow> connect_answers \<Rightarrow> gotime \<Rightarrow> status_answers \<Rightarrow>
   (proxyController \<times> ui_reply) option" where
  "serveReconnect fuel c verb wt wu w now sw =
    (if verb \<noteq> ''POST'' then Some (c, not_allowed ''POST'')
     else
       let (c', errs) = disconnect c wt wu in
       if errs \<noteq> [] then Some (c', writeProxyJSON 500 (UIStopFailure errs))
       else map_option (connect_reply sw) (connect fuel c' w now))"

text \<open>The dispatch of \<^verbatim>\<open>main.go\<close> by the path.\<close>

datatype ui_route = StatusRoute | ConfigRoute | ConnectRoute | DisconnectRoute | ReconnectRoute | TestRoute | CoreRoute | StaticRoute

definition ui_dispatch :: "string \<Rightarrow> ui_route" where
  "ui_dispatch path =
    (if path = ''/api/proxy/status'' then StatusRoute
     else if path = ''/api/proxy/config'' then ConfigRoute
     else if path = ''/api/proxy/connect'' then ConnectRoute
     else if path = ''/api/proxy/disconnect'' then DisconnectRoute
     else if path = ''/api/proxy/reconnect'' then ReconnectRoute
     else if path = ''/api/proxy/test'' then TestRoute
     else if strings_HasPrefix path ''/api/v1/'' \<or> path = ''/api/v1'' then CoreRoute
     else StaticRoute)"

section \<open>Checks of the commands\<close>

definition requireLoopback :: "string \<Rightarrow> (string, unit) outcome" where
  "requireLoopback address =
    (case SplitHostPort address of
       None \<Rightarrow> Err ''address must be host:port''
     | Some (host, port) \<Rightarrow>
         (case ParseAddr host of
            None \<Rightarrow> Err ''address must use a literal loopback IP''
          | Some parsed \<Rightarrow> if \<not> IsLoopback parsed then Err ''address must use a literal loopback IP'' else Ret ()))"

text \<open>The DNS query of the relay test, with the random identifier, and the check of its answer.\<close>

definition label_bytes :: "string \<Rightarrow> bytes" where
  "label_bytes label = word_of_nat (length label) # map (\<lambda>c. word_of_nat (of_char c)) label"

definition dnsQuery :: "string \<Rightarrow> bytes \<Rightarrow> bytes \<times> uint16" where
  "dnsQuery name randomID =
    (let ident = word_of_nat (be_val randomID) in
     (be16 ident @ be16 0x0100 @ be16 1 @ replicate 6 0 @ concat (map label_bytes (strings_Split name (CHR ''.''))) @ [0, 0, 1, 0, 1],
      ident))"

definition validDNSResponse :: "bytes \<Rightarrow> uint16 \<Rightarrow> (string, bool) outcome" where
  "validDNSResponse response ident =
    (if length response < 12 then Ret False
     else
       obind (slice response 0 2) (\<lambda>idBytes.
       obind (Uint16 idBytes) (\<lambda>w.
       if w \<noteq> ident then Ret False
       else
         obind (index response 2) (\<lambda>flags.
         if flags AND 0x80 = 0 then Ret False
         else
           obind (index response 3) (\<lambda>code.
           if code AND 0x0F \<noteq> 0 then Ret False
           else
             obind (slice response 6 8) (\<lambda>countBytes.
             obind (Uint16 countBytes) (\<lambda>n. Ret (n > 0))))))))"

section \<open>Properties\<close>

definition controller_ok :: "proxyController \<Rightarrow> bool" where
  "controller_ok c \<longleftrightarrow> (pc_startedAt c \<noteq> None \<longleftrightarrow> pc_tcp c \<noteq> None \<or> pc_udp c \<noteq> None)"

lemma stopLocked_none: "fst (stopLocked c wt wu) = newProxyController"
  by (simp add: stopLocked_def newProxyController_def)

lemma idle_controller: "controller_ok c \<Longrightarrow> pc_tcp c = None \<Longrightarrow> pc_udp c = None \<Longrightarrow> c = newProxyController"
  by (cases c) (simp add: controller_ok_def newProxyController_def)

lemma await_spec:
  assumes "await_listeners fuel c w now = Some (c', r)"
  shows "(r = Ret () \<longrightarrow> c' = c\<lparr>pc_startedAt := Some now\<rparr>) \<and> (\<forall>e. r = Err e \<longrightarrow> c' = newProxyController)"
  using assms by (auto simp: await_listeners_def stop_again_def stopLocked_none split: option.splits bool.splits if_splits)

lemma connect_start_spec:
  assumes "connect_start fuel newProxyController config w now = Some (c', r)" "wants_tcp config \<or> wants_udp config"
  shows "(r = Ret () \<longrightarrow> (pc_tcp c' \<noteq> None \<longleftrightarrow> wants_tcp config) \<and> (pc_udp c' \<noteq> None \<longleftrightarrow> wants_udp config) \<and> pc_startedAt c' = Some now) \<and>
    (\<forall>e. r = Err e \<longrightarrow> c' = newProxyController)"
proof -
  have idle: "newProxyController\<lparr>pc_tcp := None\<rparr> = newProxyController" "pc_tcp newProxyController = None" "pc_udp newProxyController = None"
    by (simp_all add: newProxyController_def)
  show ?thesis using assms
    by (auto simp: connect_start_def stop_again_def stopLocked_none idle Let_def obind_Ret_iff obind_Err_iff
        split: if_splits outcome.splits dest!: await_spec)
qed

lemma validated_transport: "validateProxyConfig config b = Ret () \<Longrightarrow> wants_tcp config \<or> wants_udp config"
  by (auto simp: validateProxyConfig_def wants_tcp_def wants_udp_def split: if_splits)

subsection \<open>The waits end\<close>

text \<open>The clock of a wait: it does not go back, and every turn but the first has slept 50 ms.\<close>

definition steady :: "gotime \<Rightarrow> (nat \<Rightarrow> gotime) \<Rightarrow> bool" where
  "steady start clock \<longleftrightarrow> start \<le> clock 0 \<and> (\<forall>i. clock i + 50000000 \<le> clock (Suc i))"

lemma steady_after: "steady start clock \<Longrightarrow> start + 50000000 * int i \<le> clock i"
proof (induction i)
  case (Suc i)
  then have "clock i + 50000000 \<le> clock (Suc i)" by (simp add: steady_def)
  with Suc show ?case by simp
qed (simp add: steady_def)

lemma seen_in_time_split:
  fixes clock :: "nat \<Rightarrow> gotime"
  shows "(\<exists>k\<ge>i. ready k \<and> (\<forall>j. i \<le> j \<and> j < k \<longrightarrow> clock j \<le> limit)) \<longleftrightarrow>
    ready i \<or> clock i \<le> limit \<and> (\<exists>k\<ge>Suc i. ready k \<and> (\<forall>j. Suc i \<le> j \<and> j < k \<longrightarrow> clock j \<le> limit))"
  (is "?l \<longleftrightarrow> ?r")
proof
  assume ?l
  then obtain k where k: "k \<ge> i" "ready k" "\<forall>j. i \<le> j \<and> j < k \<longrightarrow> clock j \<le> limit" by blast
  show ?r
  proof (cases "k = i")
    case False
    with k have "clock i \<le> limit" "Suc i \<le> k" by simp_all
    with k show ?thesis by (auto intro!: exI [of _ k])
  qed (use k in simp)
next
  assume ?r
  then consider "ready i" | k where "clock i \<le> limit" "k \<ge> Suc i" "ready k" "\<forall>j. Suc i \<le> j \<and> j < k \<longrightarrow> clock j \<le> limit" by blast
  then show ?l
  proof cases
    case 2
    then have "clock j \<le> limit" if "i \<le> j" "j < k" for j using that by (cases "j = i") simp_all
    with 2 show ?thesis by (intro exI [of _ k]) simp
  qed (intro exI [of _ i], simp)
qed

lemma wait_loop_spec:
  assumes "i \<le> n" "n < i + fuel" "clock n > limit"
  shows "\<exists>r. wait_loop fuel limit ready clock i = Some r \<and> (r \<longleftrightarrow> (\<exists>k\<ge>i. ready k \<and> (\<forall>j. i \<le> j \<and> j < k \<longrightarrow> clock j \<le> limit)))"
  using assms
proof (induction fuel arbitrary: i)
  case (Suc fuel)
  show ?case
  proof (cases "ready i \<or> clock i > limit")
    case True
    then show ?thesis unfolding seen_in_time_split [of i] by auto
  next
    case False
    with Suc.prems have "Suc i \<le> n" by (metis Suc_leI le_neq_implies_less linorder_not_less)
    from Suc.IH [OF this] Suc.prems False show ?thesis unfolding seen_in_time_split [of i] by auto
  qed
qed simp

lemma wait_spec:
  assumes "steady start clock" "0 \<le> timeout" "timeout < 50000000 * (int fuel - 1)"
  shows "\<exists>r. waitForProxyListener fuel timeout start ready clock = Some r \<and>
    (r \<longleftrightarrow> (\<exists>k. ready k \<and> (\<forall>j<k. clock j \<le> start + timeout)))"
proof -
  have "fuel > 0" using assms(2,3) by (cases fuel) simp_all
  then have "clock (fuel - 1) > start + timeout"
    using steady_after [OF assms(1), of "fuel - 1"] assms(3) by (simp add: of_nat_diff)
  then show ?thesis
    using wait_loop_spec [of 0 "fuel - 1" fuel "start + timeout" clock ready] \<open>fuel > 0\<close> by (simp add: waitForProxyListener_def)
qed

text \<open>C40. The wait for a listener ends: a clock that passes 50 ms per turn leaves the loop after at most
  \<open>timeout / 50 ms + 2\<close> turns, and the answer is yes exactly when a turn that is not past the limit saw the
  listener, the turn right after the last such reading included.\<close>

theorem wait_terminates:
  assumes "steady start clock" and "0 \<le> timeout" and "timeout < 50000000 * (int fuel - 1)"
  shows "\<exists>r. waitForProxyListener fuel timeout start ready clock = Some r \<and>
    (r \<longleftrightarrow> (\<exists>k. ready k \<and> (\<forall>j<k. clock j \<le> start + timeout)))"
  by (rule wait_spec [OF assms])

theorem wait_terminates_witness:
  "\<exists>r. waitForProxyListener 62 listener_timeout 7 (\<lambda>i. i = 3) (\<lambda>i. 7 + 60000000 * int i) = Some r \<and>
    (r \<longleftrightarrow> (\<exists>k. k = 3 \<and> (\<forall>j<k. 7 + 60000000 * int j \<le> 7 + listener_timeout)))"
  by (rule wait_terminates) (simp_all add: steady_def listener_timeout_def)

lemma listener_up_returns:
  "steady (wait_start w) (wait_clock w) \<Longrightarrow> fuel \<ge> 62 \<Longrightarrow> listener_up fuel w \<noteq> None"
  using wait_spec [of "wait_start w" "wait_clock w" listener_timeout fuel "wait_ready w"]
  by (auto simp: listener_up_def listener_timeout_def)

lemma connect_returns:
  assumes "steady (wait_start (tcp_wait w)) (wait_clock (tcp_wait w))" "steady (wait_start (udp_wait w)) (wait_clock (udp_wait w))" "fuel \<ge> 62"
  shows "\<exists>c' r. connect fuel c w now = Some (c', r)"
proof -
  have await: "\<exists>c' r. await_listeners fuel c1 w now = Some (c', r)" for c1
    using listener_up_returns [OF assms(1,3)] listener_up_returns [OF assms(2,3)]
    by (cases "listener_up fuel (tcp_wait w)"; cases "listener_up fuel (udp_wait w)")
      (simp_all add: await_listeners_def split: bool.split)
  have start: "\<exists>c' r. connect_start fuel c1 config w now = Some (c', r)" for c1 config
    using await by (auto simp: connect_start_def Let_def split: outcome.split)
  then show ?thesis
    by (auto simp: connect_def Let_def split: outcome.split option.split prod.split)
qed

lemma connect_spec:
  assumes "controller_ok c" and run: "connect fuel c w now = Some (c', r)"
  shows "(r = Ret () \<longrightarrow> (\<exists>config. loadConfig (config_decoder w) (config_file w) = Ret config \<and> validateProxyConfig config True = Ret () \<and>
       (pc_tcp c' \<noteq> None \<longleftrightarrow> wants_tcp config) \<and> (pc_udp c' \<noteq> None \<longleftrightarrow> wants_udp config) \<and> pc_startedAt c' = Some now \<and> controller_ok c')) \<and>
    (\<forall>e. r = Err e \<longrightarrow> c' = c \<or> c' = newProxyController)"
proof (cases "\<exists>config. loadConfig (config_decoder w) (config_file w) = Ret config \<and> validateProxyConfig config True = Ret () \<and>
    connect_start fuel newProxyController config w now = Some (c', r)")
  case True
  then obtain config where k: "loadConfig (config_decoder w) (config_file w) = Ret config" "validateProxyConfig config True = Ret ()"
    "connect_start fuel newProxyController config w now = Some (c', r)" by blast
  note v = validated_transport [OF k(2)]
  from connect_start_spec [OF k(3) v] k v show ?thesis by (auto simp: controller_ok_def)
next
  case False
  have stopped: "stopLocked c wt wu = (newProxyController, snd (stopLocked c wt wu))" for wt wu
    using stopLocked_none by (metis prod.collapse)
  have idle: "\<not> (pc_tcp c \<noteq> None \<or> pc_udp c \<noteq> None) \<Longrightarrow> c = newProxyController" using idle_controller [OF assms(1)] by blast
  from run False idle show ?thesis
    unfolding connect_def
    by (subst (asm) stopped) (auto simp: Let_def obind_Ret_iff split: outcome.splits option.splits if_splits prod.splits)
qed


definition sample_profiles :: "proxyServerProfile list" where
  "sample_profiles = [\<lparr> sp_Name = ''a'', sp_IP = ''192.0.2.7'', sp_Port = 9519 \<rparr>, \<lparr> sp_Name = ''b'', sp_IP = ''2001:db8::1'', sp_Port = 443 \<rparr>]"

definition sample_proxy_config :: proxyClientConfig where
  "sample_proxy_config = \<lparr> Servers = sample_profiles, SelectedEndpoint = ''[2001:db8::1]:443'', ui_Transport = ''both'', UDPTarget = ''1.1.1.1:53'' \<rparr>"

text \<open>A decoder that knows one text, for the concrete runs.\<close>

definition sample_decoder :: config_decoder where
  "sample_decoder =
    \<lparr> first_value = (\<lambda>x0 b. if b = [123, 125] then Ret sample_proxy_config else Err ''bad''), second_value = (\<lambda>b. AtEOF) \<rparr>"

definition sample_dir :: dir_answers where
  "sample_dir = \<lparr> mkdir_error = None, dir_stat = Ret (True, 493), chmod_error = None \<rparr>"

definition sample_stop :: stop_answers where
  "sample_stop = \<lparr> interrupt_error = None, stopped_in_time = True, kill_error = None \<rparr>"

definition sample_connect :: connect_answers where
  "sample_connect =
    \<lparr> config_decoder = sample_decoder, config_file = Contents [123, 125], binary_stat = Some True, certificate_stat = Some True,
      token_stat = Some (True, 384), stop_before = (sample_stop, sample_stop), tcp_busy = False, udp_busy = False,
      start_tcp = \<lparr> start_dir = sample_dir, log_error = None, started = Ret 11 \<rparr>,
      start_udp = \<lparr> start_dir = sample_dir, log_error = None, started = Ret 12 \<rparr>,
      tcp_wait = \<lparr> wait_start = 0, wait_ready = (\<lambda>i. i = 2), wait_clock = (\<lambda>i. 50000000 * int i) \<rparr>,
      udp_wait = \<lparr> wait_start = 100000000, wait_ready = (\<lambda>i. True), wait_clock = (\<lambda>i. 100000000 + 50000000 * int i) \<rparr>,
      stop_after = (sample_stop, sample_stop) \<rparr>"

lemma sample_config_loads: "loadConfig sample_decoder (Contents [123, 125]) = Ret sample_proxy_config" by code_simp

lemma sample_connect_runs:
  "connect 62 newProxyController sample_connect 9 = Some (\<lparr> pc_tcp = Some 11, pc_udp = Some 12, pc_startedAt = Some 9 \<rparr>, Ret ())"
  by code_simp


subsection \<open>The stored configuration\<close>

definition stored_file :: "config_files \<Rightarrow> opened" where
  "stored_file f = (case committed_file f of None \<Rightarrow> NotThere | Some b \<Rightarrow> Contents b)"

lemma saveConfig_success:
  assumes "saveConfig f w partial config = (f', Ret u)"
  obtains b where "encoded w config = Ret b" "validateProxyConfig config False = Ret ()" "int (length b) \<le> maxProxyConfigBytes"
    "committed_file f' = Some b" "temporary_file f' = None"
  using assms
  by (auto simp: saveConfig_def abandon_def Let_def or_return_def split: outcome.splits option.splits if_splits)

lemma saveConfig_failure:
  assumes "saveConfig f w partial config = (f', r)" "\<forall>u. r \<noteq> Ret u" "temporary_file f = None"
  shows "f' = f"
  using assms
  by (cases f) (auto simp: saveConfig_def abandon_def Let_def or_return_def split: outcome.splits option.splits if_splits)

lemma loadConfig_decodes:
  assumes "decodes_to J defaultProxyConfig b config" "validateProxyConfig config False = Ret ()" "int (length b) \<le> maxProxyConfigBytes"
  shows "loadConfig J (Contents b) = Ret config"
proof -
  have "take (nat (maxProxyConfigBytes + 1)) b = b" using assms(3) by simp
  with assms show ?thesis by (simp add: loadConfig_def decodeProxyConfig_def decodes_to_def)
qed


definition sample_save :: save_answers where
  "sample_save = \<lparr> save_dir = sample_dir, encoded = (\<lambda>_. Ret [123, 125]), create_error = None, perm_error = None, write_error = None,
     sync_error = None, close_error = None, rename_error = None \<rparr>"

lemma sample_saves:
  "saveConfig \<lparr> committed_file = Some [1], temporary_file = None \<rparr> sample_save [] sample_proxy_config =
    (\<lparr> committed_file = Some [123, 125], temporary_file = None \<rparr>, Ret ())"
  by code_simp


subsection \<open>Addresses\<close>

text \<open>The endpoint that is selected is one that the profiles give.\<close>

lemma check_profiles_found:
  assumes "check_profiles selected i seen found ps = Ret r"
  shows "r \<longleftrightarrow> found \<or> (\<exists>k<length ps. profile_endpoint (i + k) (ps ! k) = Ret selected)"
  using assms
proof (induction ps arbitrary: i seen found)
  case (Cons p ps)
  from Cons.prems obtain e where e: "profile_endpoint i p = Ret e"
    "check_profiles selected (i + 1) (e # seen) (found \<or> e = selected) ps = Ret r"
    by (auto simp: obind_Ret_iff split: if_splits)
  have "(\<exists>k<length (p # ps). profile_endpoint (i + k) ((p # ps) ! k) = Ret selected) \<longleftrightarrow>
      profile_endpoint i p = Ret selected \<or> (\<exists>k<length ps. profile_endpoint (i + 1 + k) (ps ! k) = Ret selected)"
    by (subst length_Cons, subst Ex_less_Suc2) simp
  with e Cons.IH [OF e(2)] show ?case by auto
qed simp

lemma selected_endpoint_configured:
  assumes "validateProxyConfig config True = Ret ()"
  shows "\<exists>k<length (Servers config). profile_endpoint k (Servers config ! k) = Ret (SelectedEndpoint config)"
proof -
  from assms have "check_profiles (SelectedEndpoint config) 0 [] False (Servers config) = Ret True"
    by (auto simp: validateProxyConfig_def obind_Ret_iff split: if_splits)
  from check_profiles_found [OF this] show ?thesis by simp
qed

end
