(* ===== verification/UI_Server.thy ===== *)
theory UI_Server
  imports Client_UI App_Service
begin

text \<open>
  The rest of \<^verbatim>\<open>cmd/wg-client-ui/main.go\<close>: the checks of the start, the handler of the static files and the self tests.
  The parsing of the URL, the file system, the network and the hash are arguments. Texts are in English here where the
  code has them in Chinese.
\<close>

section \<open>Start\<close>

record ui_answers =
  core_url :: "(string \<times> string \<times> string) option"
  abs_error :: "string option"
  index_error :: "string option"
  state_dir :: "(string, string) outcome"
  proxy_bin :: "(string, string) outcome"
  ui_listen_error :: "string option"

text \<open>\<open>core_url\<close> is what parsing the URL gives: its scheme, its host name and its host with the port. The result is the
  paths the controller gets.\<close>

definition ui_start :: "string \<Rightarrow> string \<Rightarrow> string \<Rightarrow> ui_answers \<Rightarrow> (string, proxyController \<times> string \<times> string) outcome" where
  "ui_start listenAddress proxyState proxyBinary w =
    obind (requireLoopback listenAddress) (\<lambda>_.
    case core_url w of
      None \<Rightarrow> Err ''invalid core URL''
    | Some (scheme, hostname, host) \<Rightarrow>
        if scheme \<noteq> ''http'' \<or> hostname = [] then Err ''invalid core URL''
        else
          obind (omap_err (\<lambda>err. ''core URL: '' @ err) (requireLoopback host)) (\<lambda>_.
          case abs_error w of
            Some err \<Rightarrow> Err err
          | None \<Rightarrow>
              (case index_error w of
                 Some err \<Rightarrow> Err (''UI is not built; run npm run build in ui/client: '' @ err)
               | None \<Rightarrow>
                   obind (if proxyState = [] then omap_err (\<lambda>err. ''proxy state: '' @ err) (state_dir w) else Ret proxyState) (\<lambda>dir.
                   obind (if proxyBinary = [] then omap_err (\<lambda>err. ''proxy binary: '' @ err) (proxy_bin w) else Ret proxyBinary) (\<lambda>bin.
                   case ui_listen_error w of
                     Some err \<Rightarrow> Err err
                   | None \<Rightarrow> Ret (newProxyController, dir, bin))))))"

section \<open>Static files\<close>

text \<open>\<^verbatim>\<open>path.Clean\<close> of a rooted path, as its segments: empty ones and single dots go, and a double dot takes the one before
  it away. \<open>acc\<close> is the segments so far, the last one first.\<close>

fun clean_segments :: "string list \<Rightarrow> string list \<Rightarrow> string list" where
  "clean_segments acc [] = rev acc"
| "clean_segments acc (s # ss) =
    (if s = [] \<or> s = ''.'' then clean_segments acc ss
     else if s = ''..'' then clean_segments (tl acc) ss
     else clean_segments (s # acc) ss)"

fun join_path :: "string list \<Rightarrow> string" where
  "join_path [] = []"
| "join_path [s] = s"
| "join_path (s # ss) = s @ CHR ''/'' # join_path ss"

definition fs_ValidPath :: "string \<Rightarrow> bool" where
  "fs_ValidPath name \<longleftrightarrow> name = ''.'' \<or> (\<forall>s \<in> set (strings_Split name (CHR ''/'')). s \<noteq> [] \<and> s \<noteq> ''.'' \<and> s \<noteq> ''..'')"

definition spa_requested :: "string \<Rightarrow> string" where
  "spa_requested path =
    (let requested = join_path (clean_segments [] (strings_Split path (CHR ''/''))) in
     if requested = ''.'' \<or> requested = [] then ''index.html'' else requested)"

text \<open>\<open>stat\<close> says of a name under the root whether it is a directory, if it exists. The result is the path that the file
  server serves.\<close>

definition newSPAHandler :: "(string \<Rightarrow> bool option) \<Rightarrow> string \<Rightarrow> string" where
  "newSPAHandler stat path =
    (let requested = spa_requested path in
     if fs_ValidPath requested \<and> stat requested = Some False
     then (if requested = ''index.html'' then ''/'' else CHR ''/'' # requested)
     else ''/'')"

section \<open>Self tests\<close>

record proxyTestResult =
  tr_State :: string
  tr_Detail :: string
  tr_ExitIP :: string

definition test_failed :: "string \<Rightarrow> proxyTestResult" where
  "test_failed detail = \<lparr> tr_State = ''failed'', tr_Detail = detail, tr_ExitIP = [] \<rparr>"

definition test_passed :: "string \<Rightarrow> string \<Rightarrow> proxyTestResult" where
  "test_passed detail exitIP = \<lparr> tr_State = ''passed'', tr_Detail = detail, tr_ExitIP = exitIP \<rparr>"

text \<open>\<^verbatim>\<open>net.ParseIP\<close> takes no zone.\<close>

definition net_ParseIP_ok :: "string \<Rightarrow> bool" where
  "net_ParseIP_ok s = (case ParseAddr s of Some (Addr6 b zone) \<Rightarrow> zone = [] | Some a \<Rightarrow> True | None \<Rightarrow> False)"

text \<open>What the request over the proxy gives: an error, or the status with the body or the error of reading it.\<close>

definition testTCPProxy :: "(string, nat \<times> string option) outcome \<Rightarrow> proxyTestResult" where
  "testTCPProxy answer =
    (case answer of
       Ret (status, Some body) \<Rightarrow>
         if status \<noteq> 200 then test_failed ''the request over the TCP proxy failed''
         else
           let exitIP = strings_TrimSpace (take 128 body) in
           if \<not> net_ParseIP_ok exitIP then test_failed ''the TCP proxy returned an invalid exit address''
           else test_passed ''the exit probe was reached over HTTPS CONNECT'' exitIP
     | Ret (status, None) \<Rightarrow> test_failed ''the request over the TCP proxy failed''
     | Err err \<Rightarrow> test_failed (''TCP proxy unavailable: '' @ err)
     | Panic \<Rightarrow> test_failed [])"

text \<open>\<open>relay\<close> is what the relay answers to a query, with \<open>None\<close> for an error; the buffer keeps 4096 bytes.\<close>

definition testUDPRelay :: "string option \<Rightarrow> bytes \<Rightarrow> bool \<Rightarrow> (bytes \<Rightarrow> bytes option) \<Rightarrow> proxyTestResult" where
  "testUDPRelay dialError randomID written relay =
    (case dialError of
       Some err \<Rightarrow> test_failed (''UDP relay unavailable: '' @ err)
     | None \<Rightarrow>
         let (query, ident) = dnsQuery ''example.com'' randomID in
         if \<not> written then test_failed ''cannot write to the UDP relay''
         else
           (case relay query of
              None \<Rightarrow> test_failed ''no valid answer to the DNS query over UDP''
            | Some response \<Rightarrow>
                if validDNSResponse (take 4096 response) ident \<noteq> Ret True then test_failed ''no valid answer to the DNS query over UDP''
                else test_passed ''example.com was resolved over the UDP relay'' []))"

record proxyTestHandler =
  dnsFingerprint :: string
  dnsAvailable :: bool

definition systemDNSFingerprint :: "(bytes \<Rightarrow> bytes) \<Rightarrow> bytes option \<Rightarrow> string option" where
  "systemDNSFingerprint sha256 output = map_option (\<lambda>b. hex_EncodeToString (sha256 b)) output"

definition newProxyTestHandler :: "(bytes \<Rightarrow> bytes) \<Rightarrow> bytes option \<Rightarrow> proxyTestHandler" where
  "newProxyTestHandler sha256 output =
    (case systemDNSFingerprint sha256 output of
       Some fingerprint \<Rightarrow> \<lparr> dnsFingerprint = fingerprint, dnsAvailable = True \<rparr>
     | None \<Rightarrow> \<lparr> dnsFingerprint = [], dnsAvailable = False \<rparr>)"

definition testSystemDNS :: "proxyTestHandler \<Rightarrow> (bytes \<Rightarrow> bytes) \<Rightarrow> bytes option \<Rightarrow> proxyTestResult" where
  "testSystemDNS h sha256 output =
    (if \<not> dnsAvailable h then \<lparr> tr_State = ''unavailable'', tr_Detail = ''the system DNS fingerprint cannot be read here'', tr_ExitIP = [] \<rparr>
     else
       case systemDNSFingerprint sha256 output of
         None \<Rightarrow> test_failed ''cannot read the state of the system DNS''
       | Some current \<Rightarrow>
           if current \<noteq> dnsFingerprint h then test_failed ''the system DNS has changed since the start''
           else test_passed ''the system DNS has not changed since the start'' [])"

record proxyTestReport =
  report_GeneratedAt :: gotime
  report_TCP :: proxyTestResult
  report_UDP :: proxyTestResult
  report_SystemDNS :: proxyTestResult

text \<open>\<open>None\<close> is the reply 405 for another method than POST.\<close>

definition proxyTest_ServeHTTP ::
  "string \<Rightarrow> gotime \<Rightarrow> proxyTestResult \<Rightarrow> proxyTestResult \<Rightarrow> proxyTestResult \<Rightarrow> proxyTestReport option" where
  "proxyTest_ServeHTTP verb now tcp udp system =
    (if verb \<noteq> ''POST'' then None
     else Some \<lparr> report_GeneratedAt = now, report_TCP = tcp, report_UDP = udp, report_SystemDNS = system \<rparr>)"

section \<open>Lemmas\<close>

lemma requireLoopback_Ret:
  "requireLoopback address = Ret () \<longleftrightarrow> (\<exists>host port a. SplitHostPort address = Some (host, port) \<and> ParseAddr host = Some a \<and> IsLoopback a)"
  by (auto simp: requireLoopback_def split: option.splits prod.splits)

text \<open>The interface listens on a loopback address and forwards to one only.\<close>

lemma ui_start_loopback:
  assumes "ui_start listenAddress proxyState proxyBinary w = Ret (c, dir, bin)"
  shows "requireLoopback listenAddress = Ret () \<and> (\<exists>hostname host. core_url w = Some (''http'', hostname, host) \<and> requireLoopback host = Ret ()) \<and>
    c = newProxyController"
  using assms by (auto simp: ui_start_def obind_Ret_iff split: option.splits if_splits)

lemma clean_segments_ok:
  assumes "\<forall>s \<in> set acc. P s" "\<forall>s \<in> set ss. s \<noteq> [] \<longrightarrow> s \<noteq> ''.'' \<longrightarrow> s \<noteq> ''..'' \<longrightarrow> P s"
  shows "\<forall>s \<in> set (clean_segments acc ss). P s"
  using assms
proof (induction acc ss rule: clean_segments.induct)
  case (2 acc s ss)
  have rest: "\<forall>s \<in> set ss. s \<noteq> [] \<longrightarrow> s \<noteq> ''.'' \<longrightarrow> s \<noteq> ''..'' \<longrightarrow> P s" using "2.prems"(2) by simp
  consider "s = [] \<or> s = ''.''" | "\<not> (s = [] \<or> s = ''.'')" "s = ''..''" | "\<not> (s = [] \<or> s = ''.'')" "s \<noteq> ''..''" by blast
  then show ?case
  proof cases
    case 1
    with "2.IH"(1) [OF 1 "2.prems"(1) rest] show ?thesis by simp
  next
    case c: 2
    have "\<forall>s \<in> set (tl acc). P s" using "2.prems"(1) by (cases acc) simp_all
    with "2.IH"(2) [OF c _ rest] c show ?thesis by simp
  next
    case c: 3
    then have "P s" using "2.prems"(2) by simp
    with "2.prems"(1) have "\<forall>x \<in> set (s # acc). P x" by simp
    from "2.IH"(3) [OF c this rest] c show ?thesis by simp
  qed
qed simp

lemma Split_no_sep: "w \<in> set (strings_Split s sep) \<Longrightarrow> sep \<notin> set w"
  by (induction s arbitrary: w) (auto split: list.splits if_splits)

lemma Split_plain: "sep \<notin> set s \<Longrightarrow> strings_Split s sep = [s]"
  by (induction s) auto

lemma Split_prepend: "sep \<notin> set s \<Longrightarrow> strings_Split (s @ sep # t) sep = s # strings_Split t sep"
  by (induction s) auto

lemma Split_join_path: "ss \<noteq> [] \<Longrightarrow> \<forall>s \<in> set ss. CHR ''/'' \<notin> set s \<Longrightarrow> strings_Split (join_path ss) (CHR ''/'') = ss"
  by (induction ss rule: join_path.induct) (simp_all add: Split_plain Split_prepend)

text \<open>Whatever path is asked for, the name that is looked up is valid under the root: no segment climbs out of it.\<close>

lemma spa_requested_valid: "fs_ValidPath (spa_requested path)"
proof -
  let ?ss = "clean_segments [] (strings_Split path (CHR ''/''))"
  have ok: "\<forall>s \<in> set ?ss. s \<noteq> [] \<and> s \<noteq> ''.'' \<and> s \<noteq> ''..'' \<and> CHR ''/'' \<notin> set s"
    by (rule clean_segments_ok) (auto dest: Split_no_sep)
  have idx: "fs_ValidPath ''index.html''" by code_simp
  show ?thesis
  proof (cases "?ss = []")
    case True
    then show ?thesis using idx by (simp add: spa_requested_def)
  next
    case False
    then have "strings_Split (join_path ?ss) (CHR ''/'') = ?ss" using ok by (simp add: Split_join_path)
    then have "fs_ValidPath (join_path ?ss)" using ok by (simp add: fs_ValidPath_def)
    then show ?thesis using idx by (simp add: spa_requested_def Let_def)
  qed
qed

lemma spa_serves_files:
  "newSPAHandler stat path = ''/'' \<or> (\<exists>name. newSPAHandler stat path = CHR ''/'' # name \<and> stat name = Some False \<and> fs_ValidPath name)"
  by (auto simp: newSPAHandler_def Let_def)

text \<open>The relay test passes only on an answer that carries the identifier of its own query.\<close>

lemma udp_test_sound:
  assumes "tr_State (testUDPRelay dialError randomID written relay) = ''passed''" "length randomID = 2"
  shows "\<exists>response. relay (fst (dnsQuery ''example.com'' randomID)) = Some response \<and> take 2 response = randomID"
proof -
  from assms(1) obtain response where r: "relay (fst (dnsQuery ''example.com'' randomID)) = Some response"
    "validDNSResponse (take 4096 response) (snd (dnsQuery ''example.com'' randomID)) = Ret True"
    by (auto simp: testUDPRelay_def test_failed_def test_passed_def Let_def split: option.splits if_splits prod.splits)
  have len: "length (take 4096 response) \<ge> 12" using r(2) by (auto simp: validDNSResponse_def split: if_splits)
  then obtain idBytes where b: "slice (take 4096 response) 0 2 = (Ret idBytes :: (string, bytes) outcome)" "Uint16 idBytes = (Ret (snd (dnsQuery ''example.com'' randomID)) :: (string, uint16) outcome)"
    using r(2) by (auto simp: validDNSResponse_def obind_Ret_iff split: if_splits)
  have "idBytes = take 2 response" using b(1) len by (simp add: slice_Ret_iff)
  with b(2) len have "word_of_nat (be_val (take 2 response)) = (word_of_nat (be_val randomID) :: uint16)"
    by (simp add: Uint16_def dnsQuery_def Let_def split: if_splits)
  moreover have "be_val (take 2 response) < 65536" "be_val randomID < 65536"
    using be_val_bound [of "take 2 response"] be_val_bound [of randomID] assms(2) len by simp_all
  ultimately have "be_val (take 2 response) = be_val randomID"
    by (auto simp: of_nat_eq_iff word_of_nat_eq_iff take_bit_nat_eq_self dest!: arg_cong [of _ _ unat])
  then have "take 2 response = randomID" using be_enc_val [of 2 "take 2 response"] be_enc_val [of 2 randomID] assms(2) len by simp
  with r(1) show ?thesis by blast
qed

end
