(* ===== verification/Spec2Isabelle.thy ===== *)
theory Spec2Isabelle
  imports Codec_Payload Codec_Packet Codec_TLV Codec_Frame Session_Replay Session_State
    Session_Machine Private_DNS Crypto_Schedule Crypto_Transport Handshake_Liveness
    Handshake_Interleaving Routing App_Properties Platform_Resolver Control_Plane Core_Command
    Proxy_Start UI_Server
begin

text \<open>
  A verification of the WG tunnel, a Go program under \<^verbatim>\<open>src/\<close>. A client and a server exchange
  UDP datagrams: INITIAL and HANDSHAKE carry an authenticated key exchange, TRANSPORT carries
  encrypted frames, among them the inner IP packets. Around the protocol there is a control plane: a
  routing policy, a private resolver and a service with a local HTTP interface, and three commands. The
  parts of the program, bottom up:

  \<^item> \<^verbatim>\<open>internal/codec\<close>: the byte formats. \<open>Codec_Base\<close> (\<^verbatim>\<open>errors.go\<close>, the constants and the
    contract \<open>wire_codec\<close> of a parser and its encoder), \<open>Codec_Payload\<close> (\<^verbatim>\<open>payload.go\<close>),
    \<open>Codec_Packet\<close> (\<^verbatim>\<open>packet.go\<close>), \<open>Codec_TLV\<close> (\<^verbatim>\<open>tlv.go\<close>), \<open>Codec_Frame\<close> (\<^verbatim>\<open>frame.go\<close>).
    Every structure of the package is an interpretation of \<open>wire_codec\<close>.
  \<^item> \<^verbatim>\<open>internal/session\<close>: \<open>Session_Replay\<close> (\<^verbatim>\<open>replay.go\<close>: packet numbers and the anti-replay
    window), \<open>Session_State\<close> (\<^verbatim>\<open>state.go\<close>: policy, back-off, transition table),
    \<open>Session_Machine\<close> (\<^verbatim>\<open>machine.go\<close>: the session state machine).
  \<^item> \<^verbatim>\<open>internal/crypto\<close>: \<open>Crypto_Schedule\<close> (\<^verbatim>\<open>kdf.go\<close>, \<^verbatim>\<open>x25519.go\<close>, \<^verbatim>\<open>aead.go\<close>,
    \<^verbatim>\<open>fingerprint.go\<close>) and \<open>Crypto_Transport\<close> (\<^verbatim>\<open>transport.go\<close>). The primitives are a
    parameter of the definitions.
  \<^item> \<^verbatim>\<open>internal/handshake\<close>: \<open>Handshake_Types\<close> (\<^verbatim>\<open>types.go\<close>, \<^verbatim>\<open>wire.go\<close>, \<^verbatim>\<open>errors.go\<close>:
    configurations and wire forms), \<open>Handshake_Client\<close> (\<^verbatim>\<open>client.go\<close>), \<open>Handshake_Cache\<close>
    (\<^verbatim>\<open>cache.go\<close>: the table of attempts), \<open>Handshake_Server\<close> (\<^verbatim>\<open>server.go\<close>) and
    \<open>Handshake_Transport\<close> (\<^verbatim>\<open>transport.go\<close>: CONFIRM, PONG, sealing and opening). About them:
    \<open>Handshake_Agreement\<close>, \<open>Handshake_Completion\<close> and \<open>Handshake_Liveness\<close> (both sides agree,
    and the exchange completes), \<open>Handshake_Traffic\<close> (packet numbers and replays over whole
    runs, locale \<open>endpoint\<close>, interpreted for the client and for a session),
    \<open>Handshake_Safety\<close> (no panics) and \<open>Handshake_Interleaving\<close> (the server under concurrency,
    locale \<open>session_effects\<close>).
  \<^item> \<^verbatim>\<open>internal/privatedns\<close>: \<open>Private_DNS\<close> (\<^verbatim>\<open>manager.go\<close>: the private resolver snapshot and
    its cache).

  \<^item> \<^verbatim>\<open>internal/routing\<close>: \<open>Routing\<close> (\<^verbatim>\<open>routing.go\<close>: targets, manual rules and decisions; locale
    \<open>policy_store\<close>, the contract of a store of overrides, interpreted on the engine).
  \<^item> \<^verbatim>\<open>internal/app\<close> and \<^verbatim>\<open>internal/controlapi\<close>: \<open>Control_API\<close> (\<^verbatim>\<open>types.go\<close>), \<open>App_Service\<close>
    (\<^verbatim>\<open>service.go\<close>: every method of the service), \<open>App_Invariant\<close> (its critical sections and what they keep),
    \<open>App_Properties\<close> (retries, expiry, pairing; locale \<open>idempotent\<close>, the contract of an operation with a
    recorded answer, interpreted on four operations) and \<open>Control_Server\<close> (\<^verbatim>\<open>server.go\<close>: routes, handlers, the
    bound on concurrent requests) and \<open>Control_Plane\<close> (a request over HTTP down to the routing decision).
  \<^item> \<^verbatim>\<open>internal/platform\<close>: \<open>Platform_Resolver\<close> (\<^verbatim>\<open>resolver.go\<close>).
  \<^item> \<^verbatim>\<open>cmd\<close>: \<open>Core_Command\<close> (\<^verbatim>\<open>wg-core\<close>: options and start), \<open>Proxy_Command\<close> and \<open>Proxy_Start\<close>
    (\<^verbatim>\<open>wg-proxy\<close>: the UDP relay and the HTTP proxies), \<open>Client_UI\<close> and \<open>UI_Server\<close> (\<^verbatim>\<open>wg-client-ui\<close>: the
    controller of the proxy processes, its configuration file, the handlers and the self tests).
  \<^item> What the code uses of the standard library: \<open>Prelude\<close> (outcomes, slices, byte orders), \<open>Go_Strings\<close>
    (\<^verbatim>\<open>strings\<close>, \<^verbatim>\<open>strconv\<close>), \<open>Net_IP\<close> (\<^verbatim>\<open>net/netip\<close>, host and port), \<open>Go_JSON\<close> (the interface of a
    decoder).

  How the code is rendered. A Go call is a function to \<open>outcome\<close>: a result, an error value, or
  a panic; slices and indices are checked, so an access out of range is a panic and its absence
  is a theorem. Fixed-width integers are words; \<^verbatim>\<open>int\<close> limits are integers, lengths naturals,
  times integers of nanoseconds with zero for the zero time. Structs are records, enumerations
  datatypes, or the byte of the wire where unknown values are representable. A method with a
  receiver that it changes returns the new receiver with its outcome; methods hold the
  receiver's mutex for their whole body, so concurrent use is a sequence of calls; the handshake
  server, whose calls take several locks, has a step relation of its own. Loops are
  recursive functions with a termination proof; two use fuel. \<open>expand_loop\<close> gets
  the 255 rounds its length guard admits, and \<open>Expand_total\<close> shows that they suffice; \<open>wait_loop\<close>, which
  polls a port until a time, may run for ever on a clock that stands still, and \<open>wait_terminates\<close> shows
  how much is enough for one that moves (62 turns for the three seconds of \<^verbatim>\<open>connect\<close>). Readings of the clock,
  random bytes, and the answers of files, processes and the network are arguments; maps are
  association lists with distinct keys, in the order a loop happens to visit them.

  What the lemmas show. For the codec: exact characterisations of what is accepted, hence
  canonical encodings, round trips and the absence of panics for every input. For the session
  package: the bitmap window refines the set of accepted numbers (locale \<open>replay_filter\<close>), no
  number is accepted twice; every reachable machine satisfies its invariant, follows the
  transition table, is established only after the PONG or CONFIRM the protocol asks for, and is
  closed by timeouts. For the resolver: lookups return exactly the live record of the current
  generation. For the cryptography: HKDF is RFC 5869, opening inverts sealing through the whole
  stack, and only what was sealed under its own header opens. For the handshake: both sides
  agree on keys and parameters, a fitting pair reaches Established, no nonce is reused and no
  datagram is delivered twice in any run, no datagram causes a panic, and under every
  interleaving the server's table and connection identifiers stay consistent.

  For routing: the text of a target is canonical, and a decision is that of the governing rule. For the
  service: its parts stay consistent under any interleaving of critical sections, an expired override
  never decides, a retry returns the first answer, a validation is used once; the HTTP server in front of
  it adds nothing but runs of such sections, at most 32 requests at a time. For the commands: a core starts in
  the safe mode only, a datagram crosses the relay unchanged, the proxy's token is needed and goes no
  further, connecting is all or nothing, and a saved configuration loads.

  Not modelled. Sockets, TLS, the copying of streams and goroutine scheduling inside the commands are
  operating-system effects without logic of their own. JSON and HTTP parsing belong to the standard library; the
  decoders are parameters and requests come parsed. \<^verbatim>\<open>wg-proxy\<close> and \<^verbatim>\<open>wg-client-ui\<close> get the values of their flags.
  Text is ASCII, because the tables of Unicode are not part of the program. The hit rate of the resolver
  cache, a floating-point quotient, is kept as its two integers. Log lines, the browser user interface and
  the scripts are left out. Timing side channels, the secrecy of keys in memory and the strength of the
  primitives are outside too.
\<close>

section \<open>Properties across components\<close>


end
